(* ===== verification/Prelude.thy ===== *)
theory Prelude
  imports Main "HOL-Library.Word" "HOL-Library.Multiset" "HOL-Library.AList"
begin

text \<open>
  The vocabulary shared by every component of the WarpSim development.

  \<^item> The machine types of \<open>src/src/common.hpp\<close>: \<open>u8\<close>, \<open>u32\<close>, \<open>u64\<close> are words of that
    width, so that every addition, shift and increment wraps exactly as the C++ one.
  \<^item> Exceptions: \<open>exn\<close>. A \<open>std::runtime_error\<close> is its message, because the kernel inspects
    the message (\<open>Simulation::is_missing_entity_error_\<close>).
  \<^item> Effects: \<open>('s, 'a) eff\<close> is a computation on a state that may throw; the state it has
    reached survives the exception, as the members of a C++ object do.
  \<^item> Invariant preservation through such computations (\<open>keeps\<close>), with one rule for each
    way of composing them.
  \<^item> Comparators in the sense of \<open>std::sort\<close>, \<open>std::priority_queue\<close> and the ordered
    containers (locale \<open>comparator\<close>), and association lists ordered by key
    (\<open>std::map\<close>).
\<close>

unbundle bit_operations_syntax

named_theorems keeps_intros "preservation rules for effectful operations"

subsection \<open>Machine types\<close>

type_synonym u8 = "8 word"
type_synonym u32 = "32 word"
type_synonym u64 = "64 word"
type_synonym bytes = "u8 list"

subsection \<open>Exceptions and effects\<close>

text \<open>
  \<open>Undefined\<close> marks C++ undefined behaviour (an integer division by zero), \<open>Aborted\<close> a call
  of \<open>MPI_Abort\<close>, which ends the program;
  \<open>Out_Of_Fuel\<close> is not an exception of the code: it is the result of a bounded loop
  whose bound was too small.
\<close>

datatype exn = Runtime_Error string | Undefined | Aborted int | Out_Of_Fuel

type_synonym ('s, 'a) eff = "'s \<Rightarrow> (exn + 'a) \<times> 's"

definition ret :: "'a \<Rightarrow> ('s, 'a) eff" where
  "ret x s = (Inr x, s)"

definition raise :: "exn \<Rightarrow> ('s, 'a) eff" where
  "raise e s = (Inl e, s)"

definition bnd :: "('s, 'a) eff \<Rightarrow> ('a \<Rightarrow> ('s, 'b) eff) \<Rightarrow> ('s, 'b) eff" where
  "bnd m f s = (case m s of (Inl e, s') \<Rightarrow> (Inl e, s') | (Inr x, s') \<Rightarrow> f x s')"

definition thn :: "('s, 'a) eff \<Rightarrow> ('s, 'b) eff \<Rightarrow> ('s, 'b) eff" where
  "thn m k = bnd m (\<lambda>_. k)"

definition get_st :: "('s, 's) eff" where
  "get_st s = (Inr s, s)"

definition gets :: "('s \<Rightarrow> 'a) \<Rightarrow> ('s, 'a) eff" where
  "gets f s = (Inr (f s), s)"

definition upd :: "('s \<Rightarrow> 's) \<Rightarrow> ('s, unit) eff" where
  "upd f s = (Inr (), f s)"

definition when_eff :: "bool \<Rightarrow> ('s, unit) eff \<Rightarrow> ('s, unit) eff" where
  "when_eff b m = (if b then m else ret ())"

definition throw_if :: "bool \<Rightarrow> string \<Rightarrow> ('s, unit) eff" where
  "throw_if b msg = (if b then raise (Runtime_Error msg) else ret ())"

fun for_each :: "('a \<Rightarrow> ('s, unit) eff) \<Rightarrow> 'a list \<Rightarrow> ('s, unit) eff" where
  "for_each f [] = ret ()"
| "for_each f (x # xs) = thn (f x) (for_each f xs)"

lemmas eff_defs = ret_def raise_def bnd_def thn_def get_st_def gets_def upd_def
  when_eff_def throw_if_def

lemma ret_run [simp]: "ret x s = (Inr x, s)" by (simp add: ret_def)
lemma raise_run [simp]: "raise e s = (Inl e, s)" by (simp add: raise_def)
lemma gets_run [simp]: "gets f s = (Inr (f s), s)" by (simp add: gets_def)
lemma upd_run [simp]: "upd f s = (Inr (), f s)" by (simp add: upd_def)
lemma get_st_run [simp]: "get_st s = (Inr s, s)" by (simp add: get_st_def)

lemma bnd_Inr [simp]: "m s = (Inr x, s') \<Longrightarrow> bnd m f s = f x s'"
  by (simp add: bnd_def)

lemma bnd_Inl [simp]: "m s = (Inl e, s') \<Longrightarrow> bnd m f s = (Inl e, s')"
  by (simp add: bnd_def)

lemma thn_Inr [simp]: "m s = (Inr x, s') \<Longrightarrow> thn m k s = k s'"
  by (simp add: thn_def)

lemma thn_Inl [simp]: "m s = (Inl e, s') \<Longrightarrow> thn m k s = (Inl e, s')"
  by (simp add: thn_def)

lemma bnd_assoc: "bnd (bnd m f) g = bnd m (\<lambda>x. bnd (f x) g)"
  by (rule ext) (auto simp: bnd_def split: prod.splits sum.splits)

lemma bnd_ret_left [simp]: "bnd (ret x) f = f x"
  and bnd_raise_left [simp]: "bnd (raise e) f = raise e"
  by (rule ext, simp add: bnd_def)+

lemma bnd_Pair_Inr [simp]: "bnd (Pair (Inr x)) f = f x"
  and bnd_Pair_Inl [simp]: "bnd (Pair (Inl e)) f = Pair (Inl e)"
  by (rule ext, simp add: bnd_def)+

lemma thn_Pair_Inr [simp]: "thn (Pair (Inr x)) k = k"
  and thn_Pair_Inl [simp]: "thn (Pair (Inl e)) k = Pair (Inl e)"
  by (simp_all add: thn_def)

lemma thn_assoc: "thn (thn m k) l = thn m (thn k l)"
  by (simp add: thn_def bnd_assoc)

lemma bnd_cases:
  assumes "bnd m f s = (r, t)"
  obtains (err) e where "m s = (Inl e, t)" "r = Inl e"
    | (ok) x s' where "m s = (Inr x, s')" "f x s' = (r, t)"
  using assms by (cases "m s" rule: prod.exhaust; cases "fst (m s)") (auto simp: bnd_def)

lemma thn_cases:
  assumes "thn m k s = (r, t)"
  obtains (err) e where "m s = (Inl e, t)" "r = Inl e"
    | (ok) x s' where "m s = (Inr x, s')" "k s' = (r, t)"
  using assms unfolding thn_def by (rule bnd_cases) auto

subsection \<open>Invariant preservation\<close>

text \<open>
  \<open>keeps I m\<close>: started in a state satisfying \<open>I\<close>, the operation ends in one, whether it
  returns or throws.
\<close>

definition keeps :: "('s \<Rightarrow> bool) \<Rightarrow> ('s, 'a) eff \<Rightarrow> bool" where
  "keeps I m \<longleftrightarrow> (\<forall>s. I s \<longrightarrow> I (snd (m s)))"

lemma keepsD: "keeps I m \<Longrightarrow> I s \<Longrightarrow> I (snd (m s))"
  by (simp add: keeps_def)

lemma keepsI: "(\<And>s. I s \<Longrightarrow> I (snd (m s))) \<Longrightarrow> keeps I m"
  by (simp add: keeps_def)

lemma keeps_result: "keeps I m \<Longrightarrow> I s \<Longrightarrow> m s = (r, t) \<Longrightarrow> I t"
  by (metis keepsD snd_conv)

lemma keeps_ret [simp, keeps_intros]: "keeps I (ret x)"
  and keeps_raise [simp, keeps_intros]: "keeps I (raise e)"
  and keeps_gets [keeps_intros]: "keeps I (gets f)"
  and keeps_get_st [keeps_intros]: "keeps I get_st"
  and keeps_throw_if [keeps_intros]: "keeps I (throw_if b msg)"
  by (simp_all add: keeps_def throw_if_def)

lemma keeps_Pair [simp]: "keeps I (Pair r)"
  by (simp add: keeps_def)

lemma keeps_upd: "(\<And>s. I s \<Longrightarrow> I (f s)) \<Longrightarrow> keeps I (upd f)"
  by (simp add: keeps_def)

lemma keeps_bnd [keeps_intros]:
  "keeps I m \<Longrightarrow> (\<And>x. keeps I (f x)) \<Longrightarrow> keeps I (bnd m f)"
  by (force simp: keeps_def bnd_def split: prod.splits sum.splits)

lemma keeps_thn [keeps_intros]: "keeps I m \<Longrightarrow> keeps I k \<Longrightarrow> keeps I (thn m k)"
  by (simp add: thn_def keeps_bnd)

lemma keeps_when [keeps_intros]: "keeps I m \<Longrightarrow> keeps I (when_eff b m)"
  by (simp add: when_eff_def keeps_ret)

lemma keeps_if [keeps_intros]: "keeps I m \<Longrightarrow> keeps I k \<Longrightarrow> keeps I (if b then m else k)"
  by simp

lemma keeps_case_option [keeps_intros]:
  "keeps I m \<Longrightarrow> (\<And>x. keeps I (f x)) \<Longrightarrow> keeps I (case o' of None \<Rightarrow> m | Some x \<Rightarrow> f x)"
  by (cases o') simp_all

lemma keeps_for_each [keeps_intros]:
  "(\<And>x. x \<in> set xs \<Longrightarrow> keeps I (f x)) \<Longrightarrow> keeps I (for_each f xs)"
  by (induction xs) (auto intro: keeps_intros)

text \<open>The state reached by \<open>gets\<close> may be used in the rest of the operation.\<close>

lemma keeps_bnd_gets:
  assumes "\<And>s. I s \<Longrightarrow> I (snd (f (g s) s))"
  shows "keeps I (bnd (gets g) f)"
  using assms by (simp add: keeps_def bnd_def)

text \<open>\<open>yields P m\<close>: whatever \<open>m\<close> returns satisfies \<open>P\<close>.\<close>

definition yields :: "('a \<Rightarrow> bool) \<Rightarrow> ('s, 'a) eff \<Rightarrow> bool" where
  "yields P m \<longleftrightarrow> (\<forall>s x t. m s = (Inr x, t) \<longrightarrow> P x)"

named_theorems yields_intros "rules for the results of effectful operations"

lemma yieldsD: "yields P m \<Longrightarrow> m s = (Inr x, t) \<Longrightarrow> P x"
  by (auto simp: yields_def)

lemma yields_ret [yields_intros]: "P x \<Longrightarrow> yields P (ret x)"
  and yields_raise [yields_intros]: "yields P (raise e)"
  by (simp_all add: yields_def)

lemma yields_bnd_with:
  assumes "yields Q m" and "\<And>x. Q x \<Longrightarrow> yields P (f x)"
  shows "yields P (bnd m f)"
  unfolding yields_def
proof (intro allI impI)
  fix s x t assume "bnd m f s = (Inr x, t)"
  then show "P x"
    by (rule bnd_cases) (use assms in \<open>auto dest: yieldsD\<close>)
qed

lemma yields_bnd [yields_intros]: "(\<And>x. yields P (f x)) \<Longrightarrow> yields P (bnd m f)"
  by (rule yields_bnd_with [where Q = "\<lambda>_. True"]) (simp_all add: yields_def)

lemma yields_thn [yields_intros]: "yields P k \<Longrightarrow> yields P (thn m k)"
  by (simp add: thn_def yields_bnd)

lemma yields_if [yields_intros]:
  "(b \<Longrightarrow> yields P m) \<Longrightarrow> (\<not> b \<Longrightarrow> yields P k) \<Longrightarrow> yields P (if b then m else k)"
  by simp

lemma yields_case_option [yields_intros]:
  "yields P m \<Longrightarrow> (\<And>x. yields P (f x)) \<Longrightarrow> yields P (case o' of None \<Rightarrow> m | Some x \<Rightarrow> f x)"
  by (cases o') simp_all

lemma yields_case_sum [yields_intros]:
  "(\<And>e. yields P (f e)) \<Longrightarrow> (\<And>x. yields P (g x)) \<Longrightarrow> yields P (case r of Inl e \<Rightarrow> f e | Inr x \<Rightarrow> g x)"
  by (cases r) simp_all

lemma keeps_bnd_yields:
  assumes m: "keeps I m" and q: "yields Q m" and f: "\<And>x. Q x \<Longrightarrow> keeps I (f x)"
  shows "keeps I (bnd m f)"
proof (rule keepsI)
  fix s assume "I s"
  obtain r t where rt: "m s = (r, t)" by fastforce
  with m \<open>I s\<close> have "I t" by (rule keeps_result)
  show "I (snd (bnd m f s))"
  proof (cases r)
    case (Inl e)
    then show ?thesis using rt \<open>I t\<close> by simp
  next
    case (Inr x)
    then have "keeps I (f x)" using q rt f by (blast dest: yieldsD)
    then show ?thesis using rt Inr \<open>I t\<close> by (simp add: keepsD)
  qed
qed

lemma keeps_let [keeps_intros]: "keeps I (f x) \<Longrightarrow> keeps I (let y = x in f y)"
  by simp

lemma keeps_case_sum [keeps_intros]:
  "(\<And>e. keeps I (f e)) \<Longrightarrow> (\<And>x. keeps I (g x)) \<Longrightarrow> keeps I (case r of Inl e \<Rightarrow> f e | Inr x \<Rightarrow> g x)"
  by (cases r) simp_all

lemma keeps_case_prod [keeps_intros]:
  "(\<And>a b. keeps I (f a b)) \<Longrightarrow> keeps I (case p of (a, b) \<Rightarrow> f a b)"
  by (cases p) simp

lemma keeps_bnd_get_st:
  assumes "\<And>s. I s \<Longrightarrow> I (snd (f s s))"
  shows "keeps I (bnd get_st f)"
  using assms by (simp add: keeps_def)

text \<open>A conjunction may be kept part by part.\<close>

lemma keeps_conj: "keeps I m \<Longrightarrow> keeps J m \<Longrightarrow> keeps (\<lambda>s. I s \<and> J s) m"
  by (simp add: keeps_def)

text \<open>
  Where an operation leads from one condition to another: \<open>triple P m Q E\<close> says that from a
  state satisfying \<open>P\<close> it returns with \<open>Q\<close>, or throws with \<open>E\<close>.
\<close>

definition triple ::
  "('s \<Rightarrow> bool) \<Rightarrow> ('s, 'a) eff \<Rightarrow> ('a \<Rightarrow> 's \<Rightarrow> bool) \<Rightarrow> ('s \<Rightarrow> bool) \<Rightarrow> bool" where
  "triple P m Q E \<longleftrightarrow>
     (\<forall>s. P s \<longrightarrow> (case m s of (Inl e, t) \<Rightarrow> E t | (Inr x, t) \<Rightarrow> Q x t))"

lemma keeps_triple: "keeps I m \<longleftrightarrow> triple I m (\<lambda>_. I) I"
proof -
  have "(case m s of (Inl e, t) \<Rightarrow> I t | (Inr x, t) \<Rightarrow> I t) = I (snd (m s))" for s
    by (simp add: case_prod_beta split: sum.split)
  then show ?thesis by (simp add: keeps_def triple_def)
qed

lemma triple_Inr: "triple P m Q E \<Longrightarrow> P s \<Longrightarrow> m s = (Inr x, t) \<Longrightarrow> Q x t"
  and triple_Inl: "triple P m Q E \<Longrightarrow> P s \<Longrightarrow> m s = (Inl e, t) \<Longrightarrow> E t"
  by (force simp: triple_def)+

lemma triple_bnd:
  assumes m: "triple P m R E" and f: "\<And>x. triple (R x) (f x) Q E"
  shows "triple P (bnd m f) Q E"
  unfolding triple_def
proof (intro allI impI)
  fix s assume "P s"
  obtain r t where rt: "m s = (r, t)" by fastforce
  show "case bnd m f s of (Inl e, t) \<Rightarrow> E t | (Inr x, t) \<Rightarrow> Q x t"
  proof (cases r)
    case (Inl e)
    then show ?thesis using triple_Inl [OF m \<open>P s\<close>] rt by simp
  next
    case (Inr x)
    then have "R x t" using triple_Inr [OF m \<open>P s\<close>] rt by blast
    then show ?thesis using f [of x] rt Inr by (simp add: triple_def)
  qed
qed

lemma triple_thn: "triple P m (\<lambda>_. R) E \<Longrightarrow> triple R k Q E \<Longrightarrow> triple P (thn m k) Q E"
  unfolding thn_def by (rule triple_bnd)

lemma triple_weaken:
  assumes "triple P m Q E" "\<And>s. P' s \<Longrightarrow> P s" "\<And>x s. Q x s \<Longrightarrow> Q' x s" "\<And>s. E s \<Longrightarrow> E' s"
  shows "triple P' m Q' E'"
  using assms unfolding triple_def by (fastforce split: prod.splits sum.splits)

lemma triple_keeps: "keeps P m \<Longrightarrow> (\<And>s. P s \<Longrightarrow> E s) \<Longrightarrow> triple P m (\<lambda>_. P) E"
  unfolding keeps_triple by (rule triple_weaken)

lemma triple_upd: "(\<And>s. P s \<Longrightarrow> Q () (f s)) \<Longrightarrow> triple P (upd f) Q E"
  by (simp add: triple_def)

lemma triple_ret: "(\<And>s. P s \<Longrightarrow> Q x s) \<Longrightarrow> triple P (ret x) Q E"
  by (simp add: triple_def)

lemma triple_raise: "(\<And>s. P s \<Longrightarrow> E s) \<Longrightarrow> triple P (raise e) Q E"
  by (simp add: triple_def)

lemma triple_gets: "(\<And>s. P s \<Longrightarrow> Q (g s) s) \<Longrightarrow> triple P (gets g) Q E"
  by (simp add: triple_def)

lemma triple_if:
  "(b \<Longrightarrow> triple P m Q E) \<Longrightarrow> (\<not> b \<Longrightarrow> triple P k Q E) \<Longrightarrow> triple P (if b then m else k) Q E"
  by simp

text \<open>A condition that does not depend on the state may be assumed.\<close>

lemma triple_pure: "(b \<Longrightarrow> triple P m Q E) \<Longrightarrow> triple (\<lambda>s. b \<and> P s) m Q E"
  by (auto simp: triple_def)

subsection \<open>Comparators\<close>

text \<open>
  \<open>insert_by lt x xs\<close> puts \<open>x\<close> behind every element it does not precede, so elements
  the comparator cannot tell apart stay in insertion order; \<open>sort_by\<close> is the sort built on
  it. C++ leaves the order of such elements open for \<open>std::sort\<close> and
  \<open>std::priority_queue\<close>; the lemmas of the locale hold for every choice.
\<close>

fun insert_by :: "('a \<Rightarrow> 'a \<Rightarrow> bool) \<Rightarrow> 'a \<Rightarrow> 'a list \<Rightarrow> 'a list" where
  "insert_by lt x [] = [x]"
| "insert_by lt x (y # ys) = (if lt x y then x # y # ys else y # insert_by lt x ys)"

definition sort_by :: "('a \<Rightarrow> 'a \<Rightarrow> bool) \<Rightarrow> 'a list \<Rightarrow> 'a list" where
  "sort_by lt xs = fold (insert_by lt) xs []"

definition sorted_by :: "('a \<Rightarrow> 'a \<Rightarrow> bool) \<Rightarrow> 'a list \<Rightarrow> bool" where
  "sorted_by lt xs \<longleftrightarrow> sorted_wrt (\<lambda>a b. \<not> lt b a) xs"

lemma mset_insert_by [simp]: "mset (insert_by lt x xs) = add_mset x (mset xs)"
  by (induction xs) auto

lemma set_insert_by [simp]: "set (insert_by lt x xs) = insert x (set xs)"
  by (induction xs) auto

lemma length_insert_by [simp]: "length (insert_by lt x xs) = Suc (length xs)"
  by (induction xs) auto

lemma mset_fold_insert_by: "mset (fold (insert_by lt) xs ys) = mset xs + mset ys"
  by (induction xs arbitrary: ys) auto

lemma mset_sort_by [simp]: "mset (sort_by lt xs) = mset xs"
  by (simp add: sort_by_def mset_fold_insert_by)

lemma set_sort_by [simp]: "set (sort_by lt xs) = set xs"
  by (metis mset_sort_by set_mset_mset)

lemma length_sort_by [simp]: "length (sort_by lt xs) = length xs"
  by (metis mset_sort_by size_mset)

lemma sorted_by_Nil [simp]: "sorted_by lt []"
  and sorted_by_Cons: "sorted_by lt (x # xs) \<longleftrightarrow> (\<forall>y \<in> set xs. \<not> lt y x) \<and> sorted_by lt xs"
  by (auto simp: sorted_by_def)

lemma sorted_by_tl: "sorted_by lt (x # xs) \<Longrightarrow> sorted_by lt xs"
  by (simp add: sorted_by_Cons)

text \<open>A strict weak order, what every comparator handed to the standard library must be.\<close>

locale comparator =
  fixes lt :: "'a \<Rightarrow> 'a \<Rightarrow> bool"
  assumes lt_irrefl: "\<not> lt a a"
    and lt_trans: "lt a b \<Longrightarrow> lt b c \<Longrightarrow> lt a c"
    and lt_negtrans: "lt a c \<Longrightarrow> lt a b \<or> lt b c"
begin

lemma lt_asym: "lt a b \<Longrightarrow> \<not> lt b a"
  using lt_irrefl lt_trans by blast

lemma insert_by_sorted: "sorted_by lt xs \<Longrightarrow> sorted_by lt (insert_by lt x xs)"
proof (induction xs)
  case Nil
  then show ?case by (simp add: sorted_by_def)
next
  case (Cons y ys)
  then show ?case
    by (auto simp: sorted_by_Cons dest: lt_asym lt_negtrans)
qed

lemma fold_insert_by_sorted:
  "sorted_by lt ys \<Longrightarrow> sorted_by lt (fold (insert_by lt) xs ys)"
  by (induction xs arbitrary: ys) (auto intro: insert_by_sorted)

lemma sort_by_sorted: "sorted_by lt (sort_by lt xs)"
  by (simp add: sort_by_def fold_insert_by_sorted)

lemma sorted_by_head_least: "sorted_by lt (x # xs) \<Longrightarrow> y \<in> set (x # xs) \<Longrightarrow> \<not> lt y x"
  using lt_irrefl by (auto simp: sorted_by_Cons)

text \<open>
  Where the comparator is total on the elements, the sorted arrangement is unique: the
  outcome does not depend on the order in which they were collected.
\<close>

lemma sorted_by_unique:
  assumes "sorted_by lt xs" and "sorted_by lt ys" and "mset xs = mset ys"
    and "\<And>a b. a \<in> set xs \<Longrightarrow> b \<in> set xs \<Longrightarrow> \<not> lt a b \<Longrightarrow> \<not> lt b a \<Longrightarrow> a = b"
  shows "xs = ys"
  using assms
proof (induction xs arbitrary: ys)
  case Nil
  then show ?case by simp
next
  case (Cons x xs)
  then obtain y ys' where ys: "ys = y # ys'"
    by (cases ys) auto
  have members: "set (x # xs) = set (y # ys')"
    using Cons.prems(3) ys by (metis set_mset_mset)
  then have "y \<in> set (x # xs)" and "x \<in> set (y # ys')" by auto
  then have "\<not> lt y x" and "\<not> lt x y"
    using Cons.prems(1,2) ys sorted_by_head_least by blast+
  then have "x = y"
    using Cons.prems(4) \<open>y \<in> set (x # xs)\<close> by (metis list.set_intros(1))
  moreover have "xs = ys'"
  proof (rule Cons.IH)
    show "sorted_by lt xs" "sorted_by lt ys'"
      using Cons.prems(1,2) ys by (auto dest: sorted_by_tl)
    show "mset xs = mset ys'" using Cons.prems(3) ys \<open>x = y\<close> by simp
  qed (use Cons.prems(4) in auto)
  ultimately show ?case using ys by simp
qed

lemma sort_by_perm_eq:
  assumes "mset xs = mset ys"
    and "\<And>a b. a \<in> set xs \<Longrightarrow> b \<in> set xs \<Longrightarrow> \<not> lt a b \<Longrightarrow> \<not> lt b a \<Longrightarrow> a = b"
  shows "sort_by lt xs = sort_by lt ys"
  using assms by (intro sorted_by_unique sort_by_sorted) auto

end

end
