(* ===== verification/Ordered_Map.thy ===== *)
theory Ordered_Map
  imports Prelude
begin

text \<open>
  \<open>std::map\<close> as the code uses it: a list of entries with strictly increasing keys.
  Iterators are positions in the list (\<open>upper_bound\<close>, \<open>lower_bound\<close>), so that erasing
  \<open>[begin, it)\<close> is \<open>drop\<close> and erasing \<open>[it, end)\<close> is \<open>take\<close>.
  \<open>floor_entry\<close> is the abstract operation the timelines of the program rest on: the entry
  with the greatest key at or before a given one.
\<close>

type_synonym ('k, 'v) omap = "('k \<times> 'v) list"

definition ordered_keys :: "('k::linorder, 'v) omap \<Rightarrow> bool" where
  "ordered_keys m \<longleftrightarrow> sorted_wrt (<) (map fst m)"

fun om_emplace :: "'k::linorder \<Rightarrow> 'v \<Rightarrow> ('k, 'v) omap \<Rightarrow> ('k, 'v) omap" where
  "om_emplace k v [] = [(k, v)]"
| "om_emplace k v ((k', v') # m) =
     (if k < k' then (k, v) # (k', v') # m
      else if k = k' then (k', v') # m
      else (k', v') # om_emplace k v m)"

fun om_assign :: "'k::linorder \<Rightarrow> 'v \<Rightarrow> ('k, 'v) omap \<Rightarrow> ('k, 'v) omap" where
  "om_assign k v [] = [(k, v)]"
| "om_assign k v ((k', v') # m) =
     (if k < k' then (k, v) # (k', v') # m
      else if k = k' then (k, v) # m
      else (k', v') # om_assign k v m)"

definition upper_bound :: "'k::linorder \<Rightarrow> ('k, 'v) omap \<Rightarrow> nat" where
  "upper_bound k m = length (takeWhile (\<lambda>e. fst e \<le> k) m)"

definition lower_bound :: "'k::linorder \<Rightarrow> ('k, 'v) omap \<Rightarrow> nat" where
  "lower_bound k m = length (takeWhile (\<lambda>e. fst e < k) m)"

subsection \<open>Well-formedness\<close>

lemma ordered_keys_Nil [simp]: "ordered_keys []"
  by (simp add: ordered_keys_def)

lemma ordered_keys_Cons [simp]:
  "ordered_keys ((k, v) # m) \<longleftrightarrow> (\<forall>e \<in> set m. k < fst e) \<and> ordered_keys m"
  by (auto simp: ordered_keys_def)

lemma ordered_keys_distinct: "ordered_keys m \<Longrightarrow> distinct (map fst m)"
  by (simp add: ordered_keys_def strict_sorted_iff)

lemma ordered_keys_append:
  "ordered_keys (m @ n) \<longleftrightarrow> ordered_keys m \<and> ordered_keys n \<and> (\<forall>e \<in> set m. \<forall>f \<in> set n. fst e < fst f)"
  by (auto simp: ordered_keys_def sorted_wrt_append)

lemma ordered_keys_take [simp]: "ordered_keys m \<Longrightarrow> ordered_keys (take n m)"
  and ordered_keys_drop [simp]: "ordered_keys m \<Longrightarrow> ordered_keys (drop n m)"
  by (simp_all add: ordered_keys_def take_map [symmetric] drop_map [symmetric] sorted_wrt_take sorted_wrt_drop)

lemma set_om_emplace: "set (om_emplace k v m) \<subseteq> insert (k, v) (set m)"
  by (induction k v m rule: om_emplace.induct) auto

lemma set_om_assign: "set (om_assign k v m) \<subseteq> insert (k, v) (set m)"
  by (induction k v m rule: om_assign.induct) auto

lemma ordered_om_emplace [simp]: "ordered_keys m \<Longrightarrow> ordered_keys (om_emplace k v m)"
proof (induction k v m rule: om_emplace.induct)
  case (2 k v k' v' m)
  show ?case
  proof (cases "k < k' \<or> k = k'")
    case False
    then have "k' < k" by auto
    with 2 False have "\<forall>e \<in> set (om_emplace k v m). k' < fst e"
      using set_om_emplace [of k v m] by fastforce
    with 2 False show ?thesis by simp
  qed (use 2 in \<open>auto dest: less_trans\<close>)
qed simp

lemma ordered_om_assign [simp]: "ordered_keys m \<Longrightarrow> ordered_keys (om_assign k v m)"
proof (induction k v m rule: om_assign.induct)
  case (2 k v k' v' m)
  show ?case
  proof (cases "k < k' \<or> k = k'")
    case False
    then have "k' < k" by auto
    with 2 False have "\<forall>e \<in> set (om_assign k v m). k' < fst e"
      using set_om_assign [of k v m] by fastforce
    with 2 False show ?thesis by simp
  qed (use 2 in \<open>auto dest: less_trans\<close>)
qed simp

subsection \<open>Lookup\<close>

lemma map_of_om_emplace:
  "map_of (om_emplace k v m) x = (if x = k \<and> map_of m k = None then Some v else map_of m x)"
  if "ordered_keys m"
  using that
proof (induction k v m rule: om_emplace.induct)
  case (2 k v k' v' m)
  have "k < k' \<Longrightarrow> map_of m k = None"
    using 2 by (auto simp: map_of_eq_None_iff dest: less_trans)
  with 2 show ?case by auto
qed simp

lemma map_of_om_assign:
  "map_of (om_assign k v m) = (map_of m)(k \<mapsto> v)"
  by (induction k v m rule: om_assign.induct) auto

lemma om_emplace_last: "\<forall>e \<in> set m. fst e < k \<Longrightarrow> om_emplace k v m = m @ [(k, v)]"
  by (induction m rule: om_emplace.induct [of _ k v]) (auto dest: less_imp_not_less)

subsection \<open>Bounds and the floor entry\<close>

lemma upper_bound_le: "upper_bound k m \<le> length m"
  by (simp add: upper_bound_def length_takeWhile_le)

lemma lower_bound_le: "lower_bound k m \<le> length m"
  by (simp add: lower_bound_def length_takeWhile_le)

lemma ordered_prefix_filter:
  assumes "ordered_keys m" and "\<And>x y. P y \<Longrightarrow> x < y \<Longrightarrow> P x"
  shows "takeWhile (\<lambda>e. P (fst e)) m = filter (\<lambda>e. P (fst e)) m
    \<and> dropWhile (\<lambda>e. P (fst e)) m = filter (\<lambda>e. \<not> P (fst e)) m"
  using assms(1)
proof (induction m)
  case (Cons e m)
  show ?case
  proof (cases "P (fst e)")
    case False
    with Cons.prems assms(2) have "\<forall>f \<in> set m. \<not> P (fst f)"
      by (cases e) auto
    then have "filter (\<lambda>e. P (fst e)) m = []" "filter (\<lambda>e. \<not> P (fst e)) m = m"
      by (simp_all add: filter_empty_conv filter_id_conv)
    with False show ?thesis by simp
  qed (use Cons in \<open>cases e, simp\<close>)
qed simp

lemma take_upper_bound: "ordered_keys m \<Longrightarrow> take (upper_bound k m) m = filter (\<lambda>e. fst e \<le> k) m"
  using ordered_prefix_filter [of m "\<lambda>x. x \<le> k"]
  by (metis upper_bound_def takeWhile_eq_take order.strict_implies_order order.trans)

lemma drop_upper_bound: "ordered_keys m \<Longrightarrow> drop (upper_bound k m) m = filter (\<lambda>e. \<not> fst e \<le> k) m"
  using ordered_prefix_filter [of m "\<lambda>x. x \<le> k"]
  by (metis upper_bound_def dropWhile_eq_drop order.strict_implies_order order.trans)

lemma take_lower_bound: "ordered_keys m \<Longrightarrow> take (lower_bound k m) m = filter (\<lambda>e. fst e < k) m"
  using ordered_prefix_filter [of m "\<lambda>x. x < k"]
  by (metis lower_bound_def takeWhile_eq_take order.strict_trans)

lemma drop_lower_bound: "ordered_keys m \<Longrightarrow> drop (lower_bound k m) m = filter (\<lambda>e. \<not> fst e < k) m"
  using ordered_prefix_filter [of m "\<lambda>x. x < k"]
  by (metis lower_bound_def dropWhile_eq_drop order.strict_trans)

definition floor_entry :: "'k::linorder \<Rightarrow> ('k, 'v) omap \<Rightarrow> ('k \<times> 'v) option" where
  "floor_entry k m =
     (let le = filter (\<lambda>e. fst e \<le> k) m in if le = [] then None else Some (last le))"

lemma floor_entry_upper_bound:
  "ordered_keys m \<Longrightarrow>
   floor_entry k m = (if upper_bound k m = 0 then None else Some (m ! (upper_bound k m - 1)))"
proof -
  assume "ordered_keys m"
  then have f: "filter (\<lambda>e. fst e \<le> k) m = take (upper_bound k m) m"
    by (simp add: take_upper_bound)
  show ?thesis
    using upper_bound_le [of k m]
    by (auto simp: floor_entry_def Let_def f last_conv_nth min_absorb2)
qed

lemma ordered_last_greatest:
  "ordered_keys m \<Longrightarrow> e \<in> set m \<Longrightarrow> fst e \<le> fst (last m)"
proof (induction m)
  case (Cons f m)
  show ?case
  proof (cases "m = []")
    case False
    with Cons.prems have "fst f < fst (last m)"
      by (cases f) simp
    with Cons False show ?thesis by (cases f) (auto intro: less_imp_le)
  qed (use Cons.prems in simp)
qed simp

lemma floor_entry_Some_iff:
  assumes "ordered_keys m"
  shows "floor_entry k m = Some (k', v) \<longleftrightarrow>
    map_of m k' = Some v \<and> k' \<le> k \<and> (\<forall>x \<in> dom (map_of m). x \<le> k \<longrightarrow> x \<le> k')"
proof -
  let ?le = "filter (\<lambda>e. fst e \<le> k) m"
  have d: "distinct (map fst m)" using assms by (rule ordered_keys_distinct)
  have o: "ordered_keys ?le"
    using assms by (metis ordered_keys_take take_upper_bound)
  have entries: "(x, y) \<in> set ?le \<longleftrightarrow> map_of m x = Some y \<and> x \<le> k" for x y
    using d by (auto simp: map_of_eq_Some_iff)
  show ?thesis
  proof
    assume "floor_entry k m = Some (k', v)"
    then have ne: "?le \<noteq> []" and l: "last ?le = (k', v)"
      by (auto simp: floor_entry_def Let_def split: if_splits)
    then have "(k', v) \<in> set ?le" by (metis last_in_set)
    moreover have "x \<le> k'" if "map_of m x = Some y" "x \<le> k" for x y
      using ordered_last_greatest [OF o] that entries l by fastforce
    ultimately show "map_of m k' = Some v \<and> k' \<le> k \<and> (\<forall>x \<in> dom (map_of m). x \<le> k \<longrightarrow> x \<le> k')"
      using entries by (auto simp: dom_def)
  next
    assume r: "map_of m k' = Some v \<and> k' \<le> k \<and> (\<forall>x \<in> dom (map_of m). x \<le> k \<longrightarrow> x \<le> k')"
    then have mem: "(k', v) \<in> set ?le" using entries by blast
    then have ne: "?le \<noteq> []" by (metis list.set(1) empty_iff)
    obtain x y where l: "last ?le = (x, y)" by (cases "last ?le")
    then have "(x, y) \<in> set ?le" using ne by (metis last_in_set)
    then have xy: "map_of m x = Some y" "x \<le> k" using entries by simp_all
    have "k' \<le> x" using ordered_last_greatest [OF o mem] l by simp
    moreover have "x \<le> k'" using r xy by auto
    ultimately have "x = k'" by simp
    then show "floor_entry k m = Some (k', v)"
      using xy r ne l by (simp add: floor_entry_def)
  qed
qed

lemma floor_entry_None_iff:
  "floor_entry k m = None \<longleftrightarrow> (\<forall>x \<in> dom (map_of m). \<not> x \<le> k)"
proof -
  have "dom (map_of m) = fst ` set m" by (rule dom_map_of_conv_image_fst)
  then show ?thesis
    by (auto simp: floor_entry_def Let_def filter_empty_conv)
qed

lemma floor_entry_filter:
  "(\<And>e. e \<in> set m \<Longrightarrow> fst e \<le> k \<Longrightarrow> P e) \<Longrightarrow> floor_entry k (filter P m) = floor_entry k m"
proof -
  assume "\<And>e. e \<in> set m \<Longrightarrow> fst e \<le> k \<Longrightarrow> P e"
  then have "filter (\<lambda>e. fst e \<le> k) (filter P m) = filter (\<lambda>e. fst e \<le> k) m"
    by (induction m) auto
  then show ?thesis by (simp add: floor_entry_def)
qed

lemma floor_entry_append:
  "filter (\<lambda>e. fst e \<le> k) n \<noteq> [] \<Longrightarrow> floor_entry k (m @ n) = floor_entry k n"
  by (simp add: floor_entry_def)

lemma floor_entry_assign_hit: "ordered_keys m \<Longrightarrow> floor_entry k (om_assign k v m) = Some (k, v)"
  by (simp add: floor_entry_Some_iff map_of_om_assign)

end
