(* ===== verification/Wire.thy ===== *)
theory Wire
  imports Prelude
begin

text \<open>
  Byte-level encodings: \<open>src/src/wire.hpp\<close> (\<open>WireWriter\<close>, \<open>WireReader\<close>) and the object
  representations copied by \<open>bytes_from_trivially_copyable\<close> (\<open>src/src/common.hpp\<close>).

  A writer is its buffer; each \<open>write_\<close> operation returns the extended buffer. A reader is
  the span and the position; each \<open>read_\<close> operation advances the position or throws. The
  locale \<open>wire_codec\<close> is the contract of a matching pair (what is read after a write,
  and that a cut-off buffer is rejected); \<open>wire_pair\<close> composes two of them, so that the
  composite formats of the event, migration and transport messages inherit the contract.

  The integers inside a copied object are in the byte order of the host; the model has the
  little-endian order of the platforms the build targets. Padding bytes, whose value C++
  leaves open, are parameters of the layouts that have them.
\<close>

subsection \<open>Little-endian integers\<close>

definition le_bytes :: "nat \<Rightarrow> 'a::len word \<Rightarrow> bytes" where
  "le_bytes n v = map (\<lambda>i. ucast (drop_bit (8 * i) v AND 0xFF)) [0..<n]"

fun load_le :: "nat \<Rightarrow> bytes \<Rightarrow> 'a::len word" where
  "load_le i [] = 0"
| "load_le i (b # bs) = push_bit (8 * i) (ucast b) OR load_le (Suc i) bs"

lemma length_le_bytes [simp]: "length (le_bytes n v) = n"
  by (simp add: le_bytes_def)

lemma bit_low_byte:
  "bit (drop_bit (8 * i) v AND 0xFF :: 'a::len word) n \<longleftrightarrow> n < 8 \<and> bit v (8 * i + n)"
proof -
  have low: "(0xFF :: 'a word) = mask 8" by (simp add: mask_eq_exp_minus_1)
  show ?thesis
    unfolding low by (auto simp: bit_simps dest: bit_imp_le_length)
qed

lemma bit_load_le_bytes:
  "bit (load_le i (map (\<lambda>j. ucast (drop_bit (8 * j) v AND 0xFF)) [i..<k]) :: 'a::len word) n
   \<longleftrightarrow> 8 * i \<le> n \<and> n < 8 * k \<and> bit v n" for v :: "'a::len word"
proof (induction "k - i" arbitrary: i)
  case 0
  then show ?case by auto
next
  case (Suc d)
  then have "i < k" by simp
  then have upt: "[i..<k] = i # [Suc i..<k]" by (rule upt_conv_Cons)
  have IH: "bit (load_le (Suc i) (map (\<lambda>j. ucast (drop_bit (8 * j) v AND 0xFF)) [Suc i..<k]) :: 'a word) n
      \<longleftrightarrow> 8 * Suc i \<le> n \<and> n < 8 * k \<and> bit v n"
    using Suc by (intro Suc.hyps) simp
  have head: "bit (push_bit (8 * i) (ucast (ucast (drop_bit (8 * i) v AND 0xFF) :: u8)) :: 'a word) n
      \<longleftrightarrow> 8 * i \<le> n \<and> n < 8 * Suc i \<and> bit v n"
    by (auto simp: bit_push_bit_iff bit_ucast_iff bit_low_byte dest: bit_imp_le_length)
  show ?case
    using \<open>i < k\<close> by (auto simp: upt bit_or_iff head IH)
qed

lemma load_le_bytes: "LENGTH('a) \<le> 8 * n \<Longrightarrow> load_le 0 (le_bytes n v) = v"
  for v :: "'a::len word"
  by (rule bit_eqI) (auto simp: le_bytes_def bit_load_le_bytes dest: bit_imp_le_length)

lemma le_bytes_inj: "LENGTH('a) \<le> 8 * n \<Longrightarrow> le_bytes n v = le_bytes n w \<Longrightarrow> v = w"
  for v w :: "'a::len word"
  by (metis load_le_bytes)

subsection \<open>WireWriter\<close>

definition write_u8 :: "u8 \<Rightarrow> bytes \<Rightarrow> bytes" where
  "write_u8 v buf = buf @ [v]"

definition write_u32 :: "u32 \<Rightarrow> bytes \<Rightarrow> bytes" where
  "write_u32 v buf = buf @ map (\<lambda>i. ucast (drop_bit (8 * i) v AND 0xFF)) [0..<4]"

definition write_u64 :: "u64 \<Rightarrow> bytes \<Rightarrow> bytes" where
  "write_u64 v buf = buf @ map (\<lambda>i. ucast (drop_bit (8 * i) v AND 0xFF)) [0..<8]"

definition write_bytes :: "bytes \<Rightarrow> bytes \<Rightarrow> bytes" where
  "write_bytes bs buf = write_u32 (word_of_nat (length bs)) buf @ bs"

lemma write_u32_le: "write_u32 v buf = buf @ le_bytes 4 v"
  and write_u64_le: "write_u64 w buf = buf @ le_bytes 8 w"
  by (simp_all add: write_u32_def write_u64_def le_bytes_def)

subsection \<open>WireReader\<close>

record reader =
  r_bytes :: bytes
  r_pos :: nat

definition open_reader :: "bytes \<Rightarrow> reader" where
  "open_reader bs = \<lparr>r_bytes = bs, r_pos = 0\<rparr>"

definition reader_eof :: "reader \<Rightarrow> bool" where
  "reader_eof r \<longleftrightarrow> r_pos r \<ge> length (r_bytes r)"

definition truncated :: exn where
  "truncated = Runtime_Error ''WireReader: truncated buffer''"

definition require_bytes :: "nat \<Rightarrow> (reader, unit) eff" where
  "require_bytes n r =
     (if r_pos r + n > length (r_bytes r) then raise truncated r else ret () r)"

definition next_byte :: "(reader, u8) eff" where
  "next_byte r = (Inr (r_bytes r ! r_pos r), r\<lparr>r_pos := r_pos r + 1\<rparr>)"

definition read_u8 :: "(reader, u8) eff" where
  "read_u8 = thn (require_bytes 1) next_byte"

fun read_le :: "nat \<Rightarrow> nat \<Rightarrow> 'a::len word \<Rightarrow> (reader, 'a word) eff" where
  "read_le i 0 out = ret out"
| "read_le i (Suc k) out =
     bnd next_byte (\<lambda>b. read_le (Suc i) k (out OR push_bit (8 * i) (ucast b)))"

definition read_u32 :: "(reader, u32) eff" where
  "read_u32 = thn (require_bytes 4) (read_le 0 4 0)"

definition read_u64 :: "(reader, u64) eff" where
  "read_u64 = thn (require_bytes 8) (read_le 0 8 0)"

definition read_bytes :: "(reader, bytes) eff" where
  "read_bytes =
     bnd read_u32 (\<lambda>n.
     thn (require_bytes (unat n)) (\<lambda>r.
       (Inr (take (unat n) (drop (r_pos r) (r_bytes r))), r\<lparr>r_pos := r_pos r + unat n\<rparr>)))"

lemma read_le_run:
  "r_pos r + k \<le> length (r_bytes r) \<Longrightarrow>
   read_le i k out r =
     (Inr (out OR load_le i (take k (drop (r_pos r) (r_bytes r)))), r\<lparr>r_pos := r_pos r + k\<rparr>)"
proof (induction k arbitrary: i out r)
  case 0
  then show ?case by simp
next
  case (Suc k)
  then have "take (Suc k) (drop (r_pos r) (r_bytes r))
      = r_bytes r ! r_pos r # take k (drop (Suc (r_pos r)) (r_bytes r))"
    by (simp add: Cons_nth_drop_Suc[symmetric])
  with Suc show ?case
    by (simp add: next_byte_def bnd_def or.assoc)
qed

subsection \<open>The contract of an encoder and its decoder\<close>

text \<open>
  \<open>get_put\<close>: reading where \<open>x\<close> was written returns \<open>x\<close> and stops right behind it,
  whatever comes before and after. \<open>get_cut\<close>: when the buffer ends before the encoding
  does, the read throws.
\<close>

locale wire_codec =
  fixes put :: "'a \<Rightarrow> bytes \<Rightarrow> bytes"
    and get :: "(reader, 'a) eff"
    and ok :: "'a \<Rightarrow> bool"
  assumes put_append: "put x buf = buf @ put x []"
    and get_put: "ok x \<Longrightarrow>
      get \<lparr>r_bytes = pre @ put x [] @ post, r_pos = length pre\<rparr> =
        (Inr x, \<lparr>r_bytes = pre @ put x [] @ post, r_pos = length pre + length (put x [])\<rparr>)"
    and get_cut: "ok x \<Longrightarrow> k < length (put x []) \<Longrightarrow>
      fst (get \<lparr>r_bytes = pre @ take k (put x []), r_pos = length pre\<rparr>) = Inl truncated"
begin

lemma decode_encode: "ok x \<Longrightarrow> fst (get (open_reader (put x []))) = Inr x"
  using get_put [of x "[]" "[]"] by (simp add: open_reader_def)

lemma decode_cut: "ok x \<Longrightarrow> k < length (put x []) \<Longrightarrow>
    fst (get (open_reader (take k (put x [])))) = Inl truncated"
  using get_cut [of x k "[]"] by (simp add: open_reader_def)

lemma decode_trailing: "ok x \<Longrightarrow> fst (get (open_reader (put x [] @ post))) = Inr x"
  using get_put [of x "[]" post] by (simp add: open_reader_def)

lemma put_prefix_free:
  assumes "ok x" "ok y" "put x [] @ s = put y [] @ t"
  shows "x = y \<and> s = t"
proof -
  have "fst (get (open_reader (put x [] @ s))) = Inr x" "fst (get (open_reader (put y [] @ t))) = Inr y"
    using assms(1,2) by (simp_all add: decode_trailing)
  then have "x = y" using assms(3) by simp
  with assms(3) show ?thesis by simp
qed

lemma put_inj: "ok x \<Longrightarrow> ok y \<Longrightarrow> put x [] = put y [] \<Longrightarrow> x = y"
  using put_prefix_free [of x y "[]" "[]"] by simp

end

definition put_pair :: "('a \<Rightarrow> bytes \<Rightarrow> bytes) \<Rightarrow> ('b \<Rightarrow> bytes \<Rightarrow> bytes) \<Rightarrow> 'a \<times> 'b \<Rightarrow> bytes \<Rightarrow> bytes" where
  "put_pair p q xy buf = q (snd xy) (p (fst xy) buf)"

definition get_pair :: "(reader, 'a) eff \<Rightarrow> (reader, 'b) eff \<Rightarrow> (reader, 'a \<times> 'b) eff" where
  "get_pair g h = bnd g (\<lambda>x. bnd h (\<lambda>y. ret (x, y)))"

definition ok_pair :: "('a \<Rightarrow> bool) \<Rightarrow> ('b \<Rightarrow> bool) \<Rightarrow> 'a \<times> 'b \<Rightarrow> bool" where
  "ok_pair p q xy \<longleftrightarrow> p (fst xy) \<and> q (snd xy)"

locale wire_pair = fst_codec: wire_codec put1 get1 ok1 + snd_codec: wire_codec put2 get2 ok2
  for put1 :: "'a \<Rightarrow> bytes \<Rightarrow> bytes" and get1 ok1
    and put2 :: "'b \<Rightarrow> bytes \<Rightarrow> bytes" and get2 ok2
begin

lemma put_pair_split: "put_pair put1 put2 xy [] = put1 (fst xy) [] @ put2 (snd xy) []"
  using snd_codec.put_append [of "snd xy" "put1 (fst xy) []"] by (simp add: put_pair_def)

lemma pair_get_put:
  assumes "ok_pair ok1 ok2 xy"
  shows "get_pair get1 get2 \<lparr>r_bytes = pre @ put_pair put1 put2 xy [] @ post, r_pos = length pre\<rparr> =
    (Inr xy, \<lparr>r_bytes = pre @ put_pair put1 put2 xy [] @ post,
              r_pos = length pre + length (put_pair put1 put2 xy [])\<rparr>)"
proof -
  obtain x y where xy: "xy = (x, y)" and ok: "ok1 x" "ok2 y"
    using assms by (cases xy) (auto simp: ok_pair_def)
  show ?thesis
    using fst_codec.get_put [OF ok(1), of pre "put2 y [] @ post"]
      snd_codec.get_put [OF ok(2), of "pre @ put1 x []" post]
    by (simp add: xy get_pair_def put_pair_split bnd_def add.assoc)
qed

lemma pair_get_cut:
  assumes "ok_pair ok1 ok2 xy" and k: "k < length (put_pair put1 put2 xy [])"
  shows "fst (get_pair get1 get2 \<lparr>r_bytes = pre @ take k (put_pair put1 put2 xy []), r_pos = length pre\<rparr>)
    = Inl truncated"
proof -
  obtain x y where xy: "xy = (x, y)" and ok: "ok1 x" "ok2 y"
    using assms by (cases xy) (auto simp: ok_pair_def)
  show ?thesis
  proof (cases "k < length (put1 x [])")
    case True
    then show ?thesis
      using fst_codec.get_cut [OF ok(1) True, of pre]
      by (auto simp: xy get_pair_def put_pair_split bnd_def split: prod.splits sum.splits)
  next
    case False
    then have "k - length (put1 x []) < length (put2 y [])"
      using k by (simp add: xy put_pair_split)
    from snd_codec.get_cut [OF ok(2) this, of "pre @ put1 x []"] False
      fst_codec.get_put [OF ok(1), of pre "take (k - length (put1 x [])) (put2 y [])"]
    show ?thesis
      by (auto simp: xy get_pair_def put_pair_split bnd_def split: prod.splits sum.splits)
  qed
qed

sublocale pair: wire_codec "put_pair put1 put2" "get_pair get1 get2" "ok_pair ok1 ok2"
proof
  show "put_pair put1 put2 x buf = buf @ put_pair put1 put2 x []" for x buf
    using fst_codec.put_append [of "fst x" buf] snd_codec.put_append [of "snd x" "put1 (fst x) buf"]
    by (simp add: put_pair_split) (simp add: put_pair_def)
qed (fact pair_get_put pair_get_cut)+

end

subsection \<open>The primitive codecs\<close>

abbreviation any_value :: "'a \<Rightarrow> bool" where
  "any_value \<equiv> \<lambda>_. True"

definition fits_u32 :: "bytes \<Rightarrow> bool" where
  "fits_u32 bs \<longleftrightarrow> length bs < 2 ^ 32"

lemma require_bytes_run [simp]:
  "require_bytes n \<lparr>r_bytes = bs, r_pos = p\<rparr> =
     (if p + n > length bs then Inl truncated else Inr (), \<lparr>r_bytes = bs, r_pos = p\<rparr>)"
  by (simp add: require_bytes_def)

interpretation u8_codec: wire_codec write_u8 read_u8 any_value
  by unfold_locales (auto simp: write_u8_def read_u8_def next_byte_def thn_def bnd_def nth_append)

interpretation u32_codec: wire_codec write_u32 read_u32 any_value
  by unfold_locales
    (auto simp: write_u32_le read_u32_def thn_def bnd_def read_le_run load_le_bytes)

interpretation u64_codec: wire_codec write_u64 read_u64 any_value
  by unfold_locales
    (auto simp: write_u64_le read_u64_def thn_def bnd_def read_le_run load_le_bytes)

lemma length_put_u32 [simp]: "length (write_u32 v []) = 4"
  and length_put_u64 [simp]: "length (write_u64 w []) = 8"
  and length_put_u8 [simp]: "length (write_u8 b []) = 1"
  by (simp_all add: write_u32_le write_u64_le write_u8_def)

lemma read_bytes_put:
  assumes "fits_u32 bs"
  shows "read_bytes \<lparr>r_bytes = pre @ write_bytes bs [] @ post, r_pos = length pre\<rparr> =
    (Inr bs, \<lparr>r_bytes = pre @ write_bytes bs [] @ post, r_pos = length pre + length (write_bytes bs [])\<rparr>)"
proof -
  let ?n = "word_of_nat (length bs) :: u32"
  have n: "unat ?n = length bs"
    using assms by (simp add: fits_u32_def unat_of_nat)
  have "read_u32 \<lparr>r_bytes = pre @ write_u32 ?n [] @ bs @ post, r_pos = length pre\<rparr> =
      (Inr ?n, \<lparr>r_bytes = pre @ write_u32 ?n [] @ bs @ post, r_pos = length pre + 4\<rparr>)"
    using u32_codec.get_put [where x = ?n and pre = pre and post = "bs @ post"] by simp
  then show ?thesis
    by (simp add: read_bytes_def write_bytes_def thn_def bnd_def n)
qed

lemma read_bytes_cut:
  assumes "fits_u32 bs" and k: "k < length (write_bytes bs [])"
  shows "fst (read_bytes \<lparr>r_bytes = pre @ take k (write_bytes bs []), r_pos = length pre\<rparr>) = Inl truncated"
proof (cases "k < 4")
  case True
  then have "fst (read_u32 \<lparr>r_bytes = pre @ take k (write_bytes bs []), r_pos = length pre\<rparr>) = Inl truncated"
    using u32_codec.get_cut [where x = "word_of_nat (length bs)" and k = k and pre = pre] by (simp add: write_bytes_def)
  then show ?thesis
    by (auto simp: read_bytes_def bnd_def split: prod.splits sum.splits)
next
  case False
  let ?n = "word_of_nat (length bs) :: u32"
  have n: "unat ?n = length bs"
    using assms by (simp add: fits_u32_def unat_of_nat)
  have "read_u32 \<lparr>r_bytes = pre @ write_u32 ?n [] @ take (k - 4) bs, r_pos = length pre\<rparr> =
      (Inr ?n, \<lparr>r_bytes = pre @ write_u32 ?n [] @ take (k - 4) bs, r_pos = length pre + 4\<rparr>)"
    using u32_codec.get_put [where x = ?n and pre = pre and post = "take (k - 4) bs"] by simp
  with False k show ?thesis
    by (simp add: read_bytes_def write_bytes_def thn_def bnd_def n)
qed

interpretation bytes_codec: wire_codec write_bytes read_bytes fits_u32
proof
  show "write_bytes x buf = buf @ write_bytes x []" for x buf
    by (simp add: write_bytes_def write_u32_def)
qed (fact read_bytes_put read_bytes_cut)+

lemmas codec_puts = write_u8_def write_u32_le write_u64_le write_bytes_def

end
