(* ===== verification/Time_Stamp.thy ===== *)
theory Time_Stamp
  imports Ordered_Map Wire
begin

text \<open>
  \<open>src/src/state_store.hpp\<close>: \<open>TimeStamp\<close> with its lexicographic order (an instance of
  \<open>linorder\<close>, as the ordered containers keyed by it need) and \<open>StateHistory\<close>; and
  the stamp arithmetic of \<open>src/src/simulation.hpp\<close>: \<open>prev_stamp\<close>, \<open>max_stamp_\<close>,
  \<open>min_stamp_\<close>.
\<close>

datatype timestamp = TimeStamp (ts_time: u64) (ts_sequence: u64)

definition stamp_less :: "timestamp \<Rightarrow> timestamp \<Rightarrow> bool" where
  "stamp_less a b \<longleftrightarrow>
     ts_time a < ts_time b \<or> (ts_time a = ts_time b \<and> ts_sequence a < ts_sequence b)"

instantiation timestamp :: linorder
begin

definition less_timestamp :: "timestamp \<Rightarrow> timestamp \<Rightarrow> bool" where
  "less_timestamp = stamp_less"

definition less_eq_timestamp :: "timestamp \<Rightarrow> timestamp \<Rightarrow> bool" where
  "less_eq_timestamp a b \<longleftrightarrow> \<not> (b :: timestamp) < a"

instance
proof
  fix x y z :: timestamp
  show "x < y \<longleftrightarrow> x \<le> y \<and> \<not> y \<le> x"
    by (auto simp: less_timestamp_def stamp_less_def less_eq_timestamp_def)
  show "x \<le> x" by (simp add: less_timestamp_def stamp_less_def less_eq_timestamp_def)
  show "x \<le> y \<Longrightarrow> y \<le> z \<Longrightarrow> x \<le> z"
    by (auto simp: less_timestamp_def stamp_less_def less_eq_timestamp_def not_less)
  show "x \<le> y \<Longrightarrow> y \<le> x \<Longrightarrow> x = y"
    unfolding less_timestamp_def stamp_less_def less_eq_timestamp_def
    by (metis less_linear timestamp.expand)
  show "x \<le> y \<or> y \<le> x"
    unfolding less_timestamp_def stamp_less_def less_eq_timestamp_def by (metis less_asym)
qed

end

lemma less_TimeStamp [simp]:
  "TimeStamp t s < TimeStamp t' s' \<longleftrightarrow> t < t' \<or> (t = t' \<and> s < s')"
  by (simp add: less_timestamp_def stamp_less_def)

lemma le_TimeStamp [simp]:
  "TimeStamp t s \<le> TimeStamp t' s' \<longleftrightarrow> t < t' \<or> (t = t' \<and> s \<le> s')"
  by (auto simp: less_eq_timestamp_def less_timestamp_def stamp_less_def)

definition zero_stamp :: timestamp where
  "zero_stamp = TimeStamp 0 0"

definition max_stamp :: timestamp where
  "max_stamp = TimeStamp (- 1) (- 1)"

definition stamp_at_max_sequence :: "u64 \<Rightarrow> timestamp" where
  "stamp_at_max_sequence t = TimeStamp t (- 1)"

definition min_stamp :: "timestamp \<Rightarrow> timestamp \<Rightarrow> timestamp" where
  "min_stamp a b = (if b < a then b else a)"

definition prev_stamp :: "timestamp \<Rightarrow> timestamp" where
  "prev_stamp ts =
     (if ts_sequence ts > 0 then TimeStamp (ts_time ts) (ts_sequence ts - 1)
      else if ts_time ts = 0 then TimeStamp 0 0
      else stamp_at_max_sequence (ts_time ts - 1))"

lemma zero_stamp_le [simp]: "zero_stamp \<le> t"
  by (cases t) (auto simp: zero_stamp_def word_neq_0_conv)

lemma word_less_minus_1_iff: "a < - 1 \<longleftrightarrow> a \<noteq> - 1" for a :: u64
  using word_order.not_eq_extremum [of a] by auto

lemma le_max_stamp [simp]: "t \<le> max_stamp"
  by (cases t) (auto simp: max_stamp_def word_less_minus_1_iff)

lemma min_stamp_min: "min_stamp a b = min a b"
  by (auto simp: min_stamp_def min_def)

text \<open>
  The predecessor in the order: nothing lies strictly between \<open>prev_stamp t\<close> and \<open>t\<close>. It
  is where a rollback to \<open>t\<close> sets the virtual time.
\<close>

lemma word_less_iff_le_minus_1:
  fixes a b :: u64
  assumes "b \<noteq> 0"
  shows "a < b \<longleftrightarrow> a \<le> b - 1"
proof -
  have "unat (b - 1) = unat b - 1" "unat b \<noteq> 0"
    using assms by (simp_all add: unat_minus_one unat_eq_zero)
  then show ?thesis by (auto simp: word_less_nat_alt word_le_nat_alt)
qed

lemma prev_stamp_pred:
  assumes "t \<noteq> zero_stamp"
  shows "x < t \<longleftrightarrow> x \<le> prev_stamp t"
proof (cases x; cases t)
  fix a b c d assume x: "x = TimeStamp a b" and t: "t = TimeStamp c d"
  show ?thesis
  proof (cases "d = 0")
    case True
    then have "c \<noteq> 0" using assms t by (auto simp: zero_stamp_def)
    then have prev: "prev_stamp t = TimeStamp (c - 1) (- 1)"
      using True by (simp add: t prev_stamp_def stamp_at_max_sequence_def)
    have "a < c \<longleftrightarrow> a < c - 1 \<or> a = c - 1"
      using word_less_iff_le_minus_1 [OF \<open>c \<noteq> 0\<close>, of a] by (simp add: order_le_less)
    then show ?thesis using True by (simp add: x prev) (simp add: t)
  next
    case False
    then have "prev_stamp t = TimeStamp c (d - 1)"
      by (simp add: t prev_stamp_def word_neq_0_conv)
    then show ?thesis
      using word_less_iff_le_minus_1 [OF False, of b] by (simp add: x t)
  qed
qed

lemma prev_stamp_zero [simp]: "prev_stamp zero_stamp = zero_stamp"
  by (simp add: prev_stamp_def zero_stamp_def)

lemma prev_stamp_le: "prev_stamp t \<le> t"
  by (metis prev_stamp_pred prev_stamp_zero order_refl less_imp_le)

lemma prev_stamp_less: "t \<noteq> zero_stamp \<Longrightarrow> prev_stamp t < t"
  by (simp add: prev_stamp_pred)

lemma less_imp_le_prev: "x < t \<Longrightarrow> x \<le> prev_stamp t"
  by (metis prev_stamp_pred not_less zero_stamp_le)

subsection \<open>StateHistory\<close>

record state_history =
  sh_maxSnapshots :: nat
  sh_history :: "(timestamp, bytes) omap"

definition sh_new :: "nat \<Rightarrow> state_history" where
  "sh_new n = \<lparr>sh_maxSnapshots = n, sh_history = []\<rparr>"

definition sh_clear :: "state_history \<Rightarrow> state_history" where
  "sh_clear h = h\<lparr>sh_history := []\<rparr>"

fun sh_trim_loop :: "nat \<Rightarrow> (timestamp, bytes) omap \<Rightarrow> (timestamp, bytes) omap" where
  "sh_trim_loop n [] = []"
| "sh_trim_loop n (e # m) = (if length (e # m) > n then sh_trim_loop n m else e # m)"

definition sh_trim :: "state_history \<Rightarrow> state_history" where
  "sh_trim h = h\<lparr>sh_history := sh_trim_loop (sh_maxSnapshots h) (sh_history h)\<rparr>"

definition sh_push :: "timestamp \<Rightarrow> bytes \<Rightarrow> state_history \<Rightarrow> state_history" where
  "sh_push ts snapshot h = sh_trim (h\<lparr>sh_history := om_emplace ts snapshot (sh_history h)\<rparr>)"

definition sh_latest_at_or_before :: "timestamp \<Rightarrow> state_history \<Rightarrow> (timestamp \<times> bytes) option" where
  "sh_latest_at_or_before ts h =
     (if sh_history h = [] then None
      else let it = upper_bound ts (sh_history h) in
        if it = 0 then None else Some (sh_history h ! (it - 1)))"

definition sh_drop_after :: "timestamp \<Rightarrow> state_history \<Rightarrow> state_history" where
  "sh_drop_after ts h = h\<lparr>sh_history := take (upper_bound ts (sh_history h)) (sh_history h)\<rparr>"

definition sh_wf :: "state_history \<Rightarrow> bool" where
  "sh_wf h \<longleftrightarrow> ordered_keys (sh_history h) \<and> length (sh_history h) \<le> sh_maxSnapshots h"

lemma sh_trim_loop_drop: "sh_trim_loop n m = drop (length m - n) m"
  by (induction m) (auto simp: Suc_diff_le not_less)

lemma sh_latest_floor: "ordered_keys (sh_history h) \<Longrightarrow>
    sh_latest_at_or_before ts h = floor_entry ts (sh_history h)"
  by (auto simp: sh_latest_at_or_before_def floor_entry_upper_bound Let_def upper_bound_def)

lemma sh_drop_after_filter: "ordered_keys (sh_history h) \<Longrightarrow>
    sh_history (sh_drop_after ts h) = filter (\<lambda>e. fst e \<le> ts) (sh_history h)"
  by (simp add: sh_drop_after_def take_upper_bound)

lemma sh_wf_ops: "sh_wf (sh_new n)" "sh_wf (sh_clear h)"
  "ordered_keys (sh_history h) \<Longrightarrow> sh_wf (sh_push ts b h)"
  "sh_wf h \<Longrightarrow> sh_wf (sh_drop_after ts h)"
  by (auto simp: sh_wf_def sh_new_def sh_clear_def sh_push_def sh_trim_def sh_trim_loop_drop
      sh_drop_after_def upper_bound_le min_def intro: order_trans [OF upper_bound_le])

end
