(* ===== verification/Events.thy ===== *)
theory Events
  imports Time_Stamp
begin

text \<open>
  The data that travels between logical processes: \<open>Payload\<close> (\<open>src/src/common.hpp\<close>),
  \<open>Event\<close> and \<open>EventTimeOrder\<close> (\<open>src/src/event.hpp\<close>), the kernel's \<open>PendingOrder\<close> and
  priority queue of pending events (\<open>src/src/simulation.hpp\<close>), and the wire formats of
  events (\<open>src/src/event_wire.hpp\<close>) and migrations (\<open>src/src/migration.hpp\<close>).
\<close>

subsection \<open>Payloads and events\<close>

record payload =
  p_kind :: u32
  p_bytes :: bytes

definition empty_payload :: payload where
  "empty_payload = \<lparr>p_kind = 0, p_bytes = []\<rparr>"

record event =
  ev_ts :: timestamp
  ev_src :: u32
  ev_dst :: u32
  ev_target :: u64
  ev_uid :: u64
  ev_payload :: payload
  ev_gvtColor :: u8
  ev_isAnti :: bool

definition empty_event :: event where
  "empty_event = \<lparr>ev_ts = zero_stamp, ev_src = 0, ev_dst = 0, ev_target = 0, ev_uid = 0,
     ev_payload = empty_payload, ev_gvtColor = 0, ev_isAnti = False\<rparr>"

definition event_time_order :: "event \<Rightarrow> event \<Rightarrow> bool" where
  "event_time_order a b =
     (if ev_ts a < ev_ts b then True
      else if ev_ts b < ev_ts a then False
      else if ev_src a \<noteq> ev_src b then ev_src a < ev_src b
      else ev_uid a < ev_uid b)"

text \<open>The comparator of the max-heap: inverted, so that the earliest event is on top.\<close>

definition pending_order :: "event \<Rightarrow> event \<Rightarrow> bool" where
  "pending_order a b =
     (if ev_ts b < ev_ts a then True
      else if ev_ts a < ev_ts b then False
      else if ev_src a \<noteq> ev_src b then ev_src b < ev_src a
      else ev_uid b < ev_uid a)"

definition event_key :: "event \<Rightarrow> timestamp \<times> u32 \<times> u64" where
  "event_key e = (ev_ts e, ev_src e, ev_uid e)"

lemma pending_order_inverts: "pending_order a b = event_time_order b a"
  by (auto simp: pending_order_def event_time_order_def)

interpretation event_order: comparator event_time_order
proof
  fix a b c
  show "\<not> event_time_order a a" by (simp add: event_time_order_def)
  show "event_time_order a b \<Longrightarrow> event_time_order b c \<Longrightarrow> event_time_order a c"
    by (auto simp: event_time_order_def split: if_splits)
  show "event_time_order a c \<Longrightarrow> event_time_order a b \<or> event_time_order b c"
    by (auto simp: event_time_order_def split: if_splits)
qed

lemma event_order_incomparable:
  "\<not> event_time_order a b \<Longrightarrow> \<not> event_time_order b a \<Longrightarrow> event_key a = event_key b"
  by (auto simp: event_time_order_def event_key_def split: if_splits)

lemma event_time_order_ts: "\<not> event_time_order b a \<Longrightarrow> ev_ts a \<le> ev_ts b"
  by (auto simp: event_time_order_def split: if_splits)

subsection \<open>The queue of pending events\<close>

text \<open>
  The contract of \<open>std::priority_queue\<close>: the contents are a multiset, and \<open>top\<close> is an
  element no other is greater than. Which one of several equivalent elements is on top is
  left to the implementation, and no lemma below depends on it.
\<close>

locale priority_queue =
  fixes cmp :: "'a \<Rightarrow> 'a \<Rightarrow> bool"
    and push :: "'a \<Rightarrow> 'q \<Rightarrow> 'q"
    and top_of :: "'q \<Rightarrow> 'a"
    and pop :: "'q \<Rightarrow> 'q"
    and contents :: "'q \<Rightarrow> 'a multiset"
    and wf :: "'q \<Rightarrow> bool"
  assumes push_contents: "contents (push x q) = add_mset x (contents q)"
    and push_wf: "wf q \<Longrightarrow> wf (push x q)"
    and top_in: "contents q \<noteq> {#} \<Longrightarrow> top_of q \<in># contents q"
    and top_greatest: "wf q \<Longrightarrow> y \<in># contents q \<Longrightarrow> \<not> cmp (top_of q) y"
    and pop_contents: "contents q \<noteq> {#} \<Longrightarrow> contents (pop q) = contents q - {#top_of q#}"
    and pop_wf: "wf q \<Longrightarrow> wf (pop q)"
begin

lemma pop_size: "contents q \<noteq> {#} \<Longrightarrow> size (contents (pop q)) < size (contents q)"
  by (simp add: pop_contents top_in size_Diff1_less)

lemma pop_subset: "contents q \<noteq> {#} \<Longrightarrow> y \<in># contents (pop q) \<Longrightarrow> y \<in># contents q"
  by (simp add: pop_contents in_diffD)

text \<open>Tops come out in the order of the comparator.\<close>

lemma tops_ordered:
  "wf q \<Longrightarrow> contents q \<noteq> {#} \<Longrightarrow> contents (pop q) \<noteq> {#} \<Longrightarrow> \<not> cmp (top_of q) (top_of (pop q))"
  by (meson pop_subset top_greatest top_in)

end

definition pending_push :: "event \<Rightarrow> event list \<Rightarrow> event list" where
  "pending_push e q = insert_by (\<lambda>a b. pending_order b a) e q"

definition pending_wf :: "event list \<Rightarrow> bool" where
  "pending_wf q \<longleftrightarrow> sorted_by event_time_order q"

lemma pending_push_order: "pending_push e q = insert_by event_time_order e q"
  by (simp add: pending_push_def pending_order_inverts)

interpretation pending: priority_queue pending_order pending_push hd tl mset pending_wf
proof
  fix x y :: event and q
  show "mset (pending_push x q) = add_mset x (mset q)" by (simp add: pending_push_def)
  show "pending_wf q \<Longrightarrow> pending_wf (pending_push x q)"
    by (simp add: pending_wf_def pending_push_order event_order.insert_by_sorted)
  show "mset q \<noteq> {#} \<Longrightarrow> hd q \<in># mset q" by simp
  show "pending_wf q \<Longrightarrow> y \<in># mset q \<Longrightarrow> \<not> pending_order (hd q) y"
    by (cases q) (auto simp: pending_wf_def pending_order_inverts dest: event_order.sorted_by_head_least)
  show "mset q \<noteq> {#} \<Longrightarrow> mset (tl q) = mset q - {#hd q#}" by (cases q) auto
  show "pending_wf q \<Longrightarrow> pending_wf (tl q)"
    by (cases q) (auto simp: pending_wf_def dest: sorted_by_tl)
qed

lemma set_pending_push [simp]: "set (pending_push e q) = insert e (set q)"
  by (simp add: pending_push_def)

lemma mset_pending_push [simp]: "mset (pending_push e q) = add_mset e (mset q)"
  by (rule pending.push_contents)

lemma pending_wf_push [simp]: "pending_wf q \<Longrightarrow> pending_wf (pending_push e q)"
  by (rule pending.push_wf)

lemma pending_wf_tl: "pending_wf (e # q) \<Longrightarrow> pending_wf q"
  using pending.pop_wf [of "e # q"] by simp

lemma pending_head_least: "pending_wf (e # q) \<Longrightarrow> f \<in> set q \<Longrightarrow> ev_ts e \<le> ev_ts f"
  using pending.top_greatest [of "e # q" f]
  by (auto simp: pending_order_inverts intro: event_time_order_ts)

subsection \<open>Event wire format\<close>

definition encode_event :: "event \<Rightarrow> bytes" where
  "encode_event ev =
     (let w = write_u64 (ts_time (ev_ts ev)) [];
          w = write_u64 (ts_sequence (ev_ts ev)) w;
          w = write_u32 (ev_src ev) w;
          w = write_u32 (ev_dst ev) w;
          w = write_u64 (ev_target ev) w;
          w = write_u64 (ev_uid ev) w;
          w = write_u8 (ev_gvtColor ev) w;
          w = write_u8 (if ev_isAnti ev then 1 else 0) w;
          w = write_u32 (p_kind (ev_payload ev)) w
      in write_bytes (p_bytes (ev_payload ev)) w)"

definition read_event :: "(reader, event) eff" where
  "read_event =
     bnd read_u64 (\<lambda>t. bnd read_u64 (\<lambda>s. bnd read_u32 (\<lambda>src. bnd read_u32 (\<lambda>dst.
     bnd read_u64 (\<lambda>target. bnd read_u64 (\<lambda>uid. bnd read_u8 (\<lambda>color. bnd read_u8 (\<lambda>anti.
     bnd read_u32 (\<lambda>kind. bnd read_bytes (\<lambda>bs.
     ret \<lparr>ev_ts = TimeStamp t s, ev_src = src, ev_dst = dst, ev_target = target, ev_uid = uid,
          ev_payload = \<lparr>p_kind = kind, p_bytes = bs\<rparr>, ev_gvtColor = color,
          ev_isAnti = (anti \<noteq> 0)\<rparr>))))))))))"

definition decode_event :: "bytes \<Rightarrow> exn + event" where
  "decode_event bs = fst (read_event (open_reader bs))"

text \<open>
  The ten fields as nested pairs: the format is the composition of the primitive codecs.
\<close>

definition event_fields ::
  "event \<Rightarrow> u64 \<times> u64 \<times> u32 \<times> u32 \<times> u64 \<times> u64 \<times> u8 \<times> u8 \<times> u32 \<times> bytes" where
  "event_fields ev = (ts_time (ev_ts ev), ts_sequence (ev_ts ev), ev_src ev, ev_dst ev,
     ev_target ev, ev_uid ev, ev_gvtColor ev, (if ev_isAnti ev then 1 else 0),
     p_kind (ev_payload ev), p_bytes (ev_payload ev))"

definition event_of_fields ::
  "u64 \<times> u64 \<times> u32 \<times> u32 \<times> u64 \<times> u64 \<times> u8 \<times> u8 \<times> u32 \<times> bytes \<Rightarrow> event" where
  "event_of_fields = (\<lambda>(t, s, src, dst, target, uid, color, anti, kind, bs).
     \<lparr>ev_ts = TimeStamp t s, ev_src = src, ev_dst = dst, ev_target = target, ev_uid = uid,
      ev_payload = \<lparr>p_kind = kind, p_bytes = bs\<rparr>, ev_gvtColor = color,
      ev_isAnti = (anti \<noteq> 0)\<rparr>)"

lemma event_of_fields [simp]: "event_of_fields (event_fields ev) = ev"
  by (simp add: event_of_fields_def event_fields_def)

abbreviation "put_kind_bytes \<equiv> put_pair write_u32 write_bytes"
abbreviation "get_kind_bytes \<equiv> get_pair read_u32 read_bytes"
abbreviation "ok_kind_bytes \<equiv> ok_pair any_value fits_u32"
abbreviation "put_flags \<equiv> put_pair write_u8 (put_pair write_u8 put_kind_bytes)"
abbreviation "get_flags \<equiv> get_pair read_u8 (get_pair read_u8 get_kind_bytes)"
abbreviation "ok_flags \<equiv> ok_pair any_value (ok_pair any_value ok_kind_bytes)"
abbreviation "put_ids \<equiv> put_pair write_u64 (put_pair write_u64 put_flags)"
abbreviation "get_ids \<equiv> get_pair read_u64 (get_pair read_u64 get_flags)"
abbreviation "ok_ids \<equiv> ok_pair any_value (ok_pair any_value ok_flags)"
abbreviation "put_route \<equiv> put_pair write_u32 (put_pair write_u32 put_ids)"
abbreviation "get_route \<equiv> get_pair read_u32 (get_pair read_u32 get_ids)"
abbreviation "ok_route \<equiv> ok_pair any_value (ok_pair any_value ok_ids)"
abbreviation "put_event_fields \<equiv> put_pair write_u64 (put_pair write_u64 put_route)"
abbreviation "get_event_fields \<equiv> get_pair read_u64 (get_pair read_u64 get_route)"
abbreviation "ok_event_fields \<equiv> ok_pair any_value (ok_pair any_value ok_route)"

interpretation kind_bytes: wire_pair write_u32 read_u32 any_value write_bytes read_bytes fits_u32 ..
interpretation anti_rest: wire_pair write_u8 read_u8 any_value put_kind_bytes get_kind_bytes ok_kind_bytes ..
interpretation flags: wire_pair write_u8 read_u8 any_value
  "put_pair write_u8 put_kind_bytes" "get_pair read_u8 get_kind_bytes" "ok_pair any_value ok_kind_bytes" ..
interpretation uid_rest: wire_pair write_u64 read_u64 any_value put_flags get_flags ok_flags ..
interpretation ids: wire_pair write_u64 read_u64 any_value
  "put_pair write_u64 put_flags" "get_pair read_u64 get_flags" "ok_pair any_value ok_flags" ..
interpretation dst_rest: wire_pair write_u32 read_u32 any_value put_ids get_ids ok_ids ..
interpretation route: wire_pair write_u32 read_u32 any_value
  "put_pair write_u32 put_ids" "get_pair read_u32 get_ids" "ok_pair any_value ok_ids" ..
interpretation seq_rest: wire_pair write_u64 read_u64 any_value put_route get_route ok_route ..
interpretation event_wire: wire_pair write_u64 read_u64 any_value
  "put_pair write_u64 put_route" "get_pair read_u64 get_route" "ok_pair any_value ok_route" ..

lemma encode_event_fields: "encode_event ev = put_event_fields (event_fields ev) []"
  by (simp add: encode_event_def Let_def put_pair_def event_fields_def)

lemma decode_event_fields:
  "read_event = bnd get_event_fields (\<lambda>f. ret (event_of_fields f))"
  by (simp add: read_event_def get_pair_def bnd_assoc event_of_fields_def del: ret_run)

definition event_fits :: "event \<Rightarrow> bool" where
  "event_fits ev \<longleftrightarrow> length (p_bytes (ev_payload ev)) < 2 ^ 32"

lemma event_fits_fields: "event_fits ev \<Longrightarrow> ok_event_fields (event_fields ev)"
  by (simp add: event_fits_def ok_pair_def event_fields_def fits_u32_def)

lemma decode_event_via_fields:
  "decode_event bs =
     (case fst (get_event_fields (open_reader bs)) of Inl e \<Rightarrow> Inl e | Inr f \<Rightarrow> Inr (event_of_fields f))"
  by (auto simp: decode_event_def decode_event_fields bnd_def split: prod.splits sum.splits)

lemma decode_encode_event: "event_fits ev \<Longrightarrow> decode_event (encode_event ev) = Inr ev"
  by (simp add: decode_event_via_fields encode_event_fields event_fits_fields
      event_wire.pair.decode_encode)

lemma decode_cut_event:
  "event_fits ev \<Longrightarrow> k < length (encode_event ev) \<Longrightarrow>
   decode_event (take k (encode_event ev)) = Inl truncated"
  by (simp add: decode_event_via_fields encode_event_fields event_fits_fields
      event_wire.pair.decode_cut)

subsection \<open>Migration wire format\<close>

record migration =
  mig_entity :: u64
  mig_newOwner :: u32
  mig_effectiveTs :: timestamp
  mig_state :: bytes

definition encode_migration :: "migration \<Rightarrow> bytes" where
  "encode_migration m =
     (let w = write_u64 (mig_entity m) [];
          w = write_u32 (mig_newOwner m) w;
          w = write_u64 (ts_time (mig_effectiveTs m)) w;
          w = write_u64 (ts_sequence (mig_effectiveTs m)) w
      in write_bytes (mig_state m) w)"

definition read_migration :: "(reader, migration) eff" where
  "read_migration =
     bnd read_u64 (\<lambda>entity. bnd read_u32 (\<lambda>owner. bnd read_u64 (\<lambda>t. bnd read_u64 (\<lambda>s.
     bnd read_bytes (\<lambda>bs.
     ret \<lparr>mig_entity = entity, mig_newOwner = owner, mig_effectiveTs = TimeStamp t s,
          mig_state = bs\<rparr>)))))"

definition decode_migration :: "bytes \<Rightarrow> exn + migration" where
  "decode_migration bs = fst (read_migration (open_reader bs))"

abbreviation "put_stamp_state \<equiv> put_pair write_u64 (put_pair write_u64 write_bytes)"
abbreviation "get_stamp_state \<equiv> get_pair read_u64 (get_pair read_u64 read_bytes)"
abbreviation "ok_stamp_state \<equiv> ok_pair any_value (ok_pair any_value fits_u32)"
abbreviation "put_migration_fields \<equiv> put_pair write_u64 (put_pair write_u32 put_stamp_state)"
abbreviation "get_migration_fields \<equiv> get_pair read_u64 (get_pair read_u32 get_stamp_state)"
abbreviation "ok_migration_fields \<equiv> ok_pair any_value (ok_pair any_value ok_stamp_state)"

interpretation seq_state: wire_pair write_u64 read_u64 any_value write_bytes read_bytes fits_u32 ..
interpretation stamp_state: wire_pair write_u64 read_u64 any_value
  "put_pair write_u64 write_bytes" "get_pair read_u64 read_bytes" "ok_pair any_value fits_u32" ..
interpretation owner_rest: wire_pair write_u32 read_u32 any_value put_stamp_state get_stamp_state ok_stamp_state ..
interpretation migration_wire: wire_pair write_u64 read_u64 any_value
  "put_pair write_u32 put_stamp_state" "get_pair read_u32 get_stamp_state"
  "ok_pair any_value ok_stamp_state" ..

definition migration_fields :: "migration \<Rightarrow> u64 \<times> u32 \<times> u64 \<times> u64 \<times> bytes" where
  "migration_fields m = (mig_entity m, mig_newOwner m, ts_time (mig_effectiveTs m),
     ts_sequence (mig_effectiveTs m), mig_state m)"

lemma encode_migration_fields: "encode_migration m = put_migration_fields (migration_fields m) []"
  by (simp add: encode_migration_def Let_def put_pair_def migration_fields_def)

definition migration_of_fields :: "u64 \<times> u32 \<times> u64 \<times> u64 \<times> bytes \<Rightarrow> migration" where
  "migration_of_fields = (\<lambda>(e, n, t, s, b). \<lparr>mig_entity = e, mig_newOwner = n,
     mig_effectiveTs = TimeStamp t s, mig_state = b\<rparr>)"

lemma migration_of_fields [simp]: "migration_of_fields (migration_fields m) = m"
  by (simp add: migration_of_fields_def migration_fields_def)

lemma decode_migration_fields:
  "read_migration = bnd get_migration_fields (\<lambda>f. ret (migration_of_fields f))"
  by (simp add: read_migration_def get_pair_def bnd_assoc migration_of_fields_def del: ret_run)

lemma decode_migration_via_fields:
  "decode_migration bs =
     (case fst (get_migration_fields (open_reader bs)) of Inl e \<Rightarrow> Inl e
      | Inr f \<Rightarrow> Inr (migration_of_fields f))"
  by (auto simp: decode_migration_def decode_migration_fields bnd_def split: prod.splits sum.splits)

lemma migration_fits_fields:
  "length (mig_state m) < 2 ^ 32 \<Longrightarrow> ok_migration_fields (migration_fields m)"
  by (simp add: ok_pair_def migration_fields_def fits_u32_def)

lemma decode_encode_migration:
  "length (mig_state m) < 2 ^ 32 \<Longrightarrow> decode_migration (encode_migration m) = Inr m"
  by (simp add: decode_migration_via_fields encode_migration_fields migration_fits_fields
      migration_wire.pair.decode_encode)

end
