(* ===== verification/Lp.thy ===== *)
theory Lp
  imports Events
begin

text \<open>
  The interfaces of \<open>src/src/lp.hpp\<close>. A logical process is an object of a model class with
  a state of type \<open>'st\<close>. Its handlers are deterministic and get nothing back from the
  context they call, so what a handler does is the list of the calls it makes and of the
  states it assigns, in order, up to the point where it returns or throws (handlers that
  catch the kernel's exceptions are outside the model). \<open>IEventSink\<close> offers only \<open>send\<close>;
  \<open>IEventContext\<close> adds \<open>request_write\<close> and \<open>emit_committed\<close>.
\<close>

datatype 'st sink_call =
    Send event
  | Become 'st
  | Fail exn

datatype 'st ctx_call =
    Sink "'st sink_call"
  | Request_Write u64
  | Emit_Committed timestamp payload

record 'st lp =
  lp_id :: u32
  lp_on_start :: "'st \<Rightarrow> 'st sink_call list"
  lp_on_event :: "event \<Rightarrow> 'st \<Rightarrow> 'st ctx_call list"
  lp_save_state :: "'st \<Rightarrow> exn + bytes"
  lp_load_state :: "bytes \<Rightarrow> ('st, unit) eff"
  lp_supports_entity_snapshots :: "'st \<Rightarrow> bool"
  lp_save_entity :: "u64 \<Rightarrow> 'st \<Rightarrow> exn + bytes"
  lp_load_entity :: "u64 \<Rightarrow> bytes \<Rightarrow> ('st, unit) eff"
  lp_on_migration :: "u64 \<Rightarrow> bytes \<Rightarrow> ('st, unit) eff"
  lp_state :: 'st

text \<open>An object of a class that overrides none of the optional virtual functions.\<close>

definition default_lp :: "u32 \<Rightarrow> 'st \<Rightarrow> 'st lp" where
  "default_lp i st = \<lparr>
     lp_id = i,
     lp_on_start = (\<lambda>_. []),
     lp_on_event = (\<lambda>_ _. []),
     lp_save_state = (\<lambda>_. Inr []),
     lp_load_state = (\<lambda>_. ret ()),
     lp_supports_entity_snapshots = (\<lambda>_. False),
     lp_save_entity = (\<lambda>_ _. Inr []),
     lp_load_entity = (\<lambda>_ _. ret ()),
     lp_on_migration = (\<lambda>_ _. ret ()),
     lp_state = st\<rparr>"

text \<open>
  The rule of the modeling contract for LP-wide snapshots: no state is assigned before a
  write has been requested in the same event.
\<close>

fun write_before_mutation :: "'st ctx_call list \<Rightarrow> bool" where
  "write_before_mutation [] = True"
| "write_before_mutation (Request_Write _ # _) = True"
| "write_before_mutation (Sink (Become _) # _) = False"
| "write_before_mutation (_ # cs) = write_before_mutation cs"

text \<open>The state after a handler's assignments.\<close>

fun final_state :: "'st ctx_call list \<Rightarrow> 'st \<Rightarrow> 'st" where
  "final_state [] st = st"
| "final_state (Sink (Become st') # cs) st = final_state cs st'"
| "final_state (_ # cs) st = final_state cs st"

text \<open>
  The contract of \<open>save_state\<close> and \<open>load_state\<close>: on the states satisfying \<open>ok\<close> they are
  inverse, whatever state the object is in when it is restored.
\<close>

locale snapshot_lp =
  fixes save :: "'st \<Rightarrow> exn + bytes" and load :: "bytes \<Rightarrow> ('st, unit) eff" and ok :: "'st \<Rightarrow> bool"
  assumes save_ok: "ok st \<Longrightarrow> \<exists>bs. save st = Inr bs"
    and load_save: "ok st \<Longrightarrow> save st = Inr bs \<Longrightarrow> load bs st' = (Inr (), st)"
begin

lemma restore: "ok st \<Longrightarrow> \<exists>bs. save st = Inr bs \<and> (\<forall>st'. load bs st' = (Inr (), st))"
  using save_ok load_save by blast

lemma save_inj: "ok a \<Longrightarrow> ok b \<Longrightarrow> save a = save b \<Longrightarrow> a = b"
  by (metis load_save restore prod.inject)

end

end
