(* ===== verification/Transport.thy ===== *)
theory Transport
  imports Events
begin

text \<open>
  \<open>src/src/transport.hpp\<close>: wire messages, the transport interface and the in-process
  queue \<open>InProcTransport\<close> (its mutex makes every operation atomic, so it is a sequential
  queue); and the parts of \<open>src/src/mpi_transport.hpp\<close> and
  \<open>src/src/mpi_collectives.hpp\<close> that are the program's own: the frame a message is sent
  in, the removal of completed sends, and the reduction operator on time stamps. The MPI
  calls themselves are parameters.
\<close>

datatype message_kind = Event_Message | Migration_Message | Ack_Message | Other_Message u8

text \<open>
  The enumeration has the underlying type \<open>uint8_t\<close>: a received byte outside 1, 2, 3 is a
  value of it too (\<open>Other_Message\<close>), and the kernel ignores such a message.
\<close>

fun message_kind_byte :: "message_kind \<Rightarrow> u8" where
  "message_kind_byte Event_Message = 1"
| "message_kind_byte Migration_Message = 2"
| "message_kind_byte Ack_Message = 3"
| "message_kind_byte (Other_Message b) = b"

definition message_kind_of_byte :: "u8 \<Rightarrow> message_kind" where
  "message_kind_of_byte b =
     (if b = 1 then Event_Message else if b = 2 then Migration_Message
      else if b = 3 then Ack_Message else Other_Message b)"

record wire_message =
  wm_kind :: message_kind
  wm_srcRank :: u32
  wm_dstRank :: u32
  wm_bytes :: bytes

text \<open>The interface \<open>ITransport\<close>, as operations on the outside world \<open>'w\<close>.\<close>

record 'w transport =
  t_send :: "wire_message \<Rightarrow> ('w, unit) eff"
  t_poll :: "('w, wire_message option) eff"
  t_has_pending :: "('w, bool) eff"

subsection \<open>InProcTransport\<close>

type_synonym inproc = "wire_message list"

definition inproc_send :: "wire_message \<Rightarrow> (inproc, unit) eff" where
  "inproc_send msg = upd (\<lambda>q. q @ [msg])"

definition inproc_poll :: "(inproc, wire_message option) eff" where
  "inproc_poll q = (case q of [] \<Rightarrow> (Inr None, []) | m # q' \<Rightarrow> (Inr (Some m), q'))"

definition inproc_has_pending :: "(inproc, bool) eff" where
  "inproc_has_pending = gets (\<lambda>q. q \<noteq> [])"

definition inproc_transport :: "inproc transport" where
  "inproc_transport = \<lparr>t_send = inproc_send, t_poll = inproc_poll, t_has_pending = inproc_has_pending\<rparr>"

text \<open>
  The laws a reliable transport obeys, seen from one endpoint: \<open>queued\<close> is what it would
  still deliver. They are what the kernel relies on: nothing is lost, invented or
  duplicated, and polling until \<open>None\<close> leaves nothing behind.
\<close>

locale reliable_transport =
  fixes tr :: "'w transport" and queued :: "'w \<Rightarrow> wire_message list"
  assumes send_queued: "fst (t_send tr m w) = Inr () \<and> queued (snd (t_send tr m w)) = queued w @ [m]"
    and poll_queued: "t_poll tr w = (Inr r, w') \<Longrightarrow>
      (case r of None \<Rightarrow> queued w = [] \<and> queued w' = [] | Some m \<Rightarrow> queued w = m # queued w')"
    and poll_ok: "\<exists>r. fst (t_poll tr w) = Inr r"
    and has_pending_queued: "fst (t_has_pending tr w) = Inr (queued w \<noteq> [])"
begin

lemma poll_None: "queued w = [] \<Longrightarrow> fst (t_poll tr w) = Inr None"
  using poll_ok [of w] poll_queued [of w]
  by (cases "t_poll tr w") (auto split: option.splits)

lemma poll_Some:
  assumes "queued w = m # ms"
  shows "fst (t_poll tr w) = Inr (Some m)" and "queued (snd (t_poll tr w)) = ms"
proof -
  obtain r where r: "fst (t_poll tr w) = Inr r" using poll_ok by blast
  then have "t_poll tr w = (Inr r, snd (t_poll tr w))" by (metis prod.collapse)
  from poll_queued [OF this] assms
  have "r = Some m \<and> queued (snd (t_poll tr w)) = ms" by (auto split: option.splits)
  with r show "fst (t_poll tr w) = Inr (Some m)" "queued (snd (t_poll tr w)) = ms" by simp_all
qed

text \<open>Messages come out in the order they were sent in.\<close>

lemma send_then_poll:
  "queued w = [] \<Longrightarrow> fst (t_poll tr (snd (t_send tr m w))) = Inr (Some m)"
  using send_queued [of m w] by (intro poll_Some(1) [of _ _ "[]"]) simp

end

interpretation inproc: reliable_transport inproc_transport "\<lambda>q. q"
  by unfold_locales
    (auto simp: inproc_transport_def inproc_send_def inproc_poll_def inproc_has_pending_def
      split: list.splits)

subsection \<open>The MPI frame\<close>

definition mpi_frame :: "wire_message \<Rightarrow> bytes" where
  "mpi_frame msg =
     (let w = write_u8 (message_kind_byte (wm_kind msg)) [];
          w = write_u32 (wm_srcRank msg) w;
          w = write_u32 (wm_dstRank msg) w
      in write_bytes (wm_bytes msg) w)"

definition read_mpi_frame :: "(reader, wire_message) eff" where
  "read_mpi_frame =
     bnd read_u8 (\<lambda>k. bnd read_u32 (\<lambda>src. bnd read_u32 (\<lambda>dst. bnd read_bytes (\<lambda>bs.
     ret \<lparr>wm_kind = message_kind_of_byte k, wm_srcRank = src, wm_dstRank = dst, wm_bytes = bs\<rparr>))))"

definition mpi_unframe :: "bytes \<Rightarrow> exn + wire_message" where
  "mpi_unframe bs = fst (read_mpi_frame (open_reader bs))"

abbreviation "put_ranks \<equiv> put_pair write_u32 (put_pair write_u32 write_bytes)"
abbreviation "get_ranks \<equiv> get_pair read_u32 (get_pair read_u32 read_bytes)"
abbreviation "ok_ranks \<equiv> ok_pair any_value (ok_pair any_value fits_u32)"

interpretation dst_bytes: wire_pair write_u32 read_u32 any_value write_bytes read_bytes fits_u32 ..
interpretation ranks_bytes: wire_pair write_u32 read_u32 any_value
  "put_pair write_u32 write_bytes" "get_pair read_u32 read_bytes" "ok_pair any_value fits_u32" ..
interpretation frame_wire: wire_pair write_u8 read_u8 any_value put_ranks get_ranks ok_ranks ..

definition frame_fields :: "wire_message \<Rightarrow> u8 \<times> u32 \<times> u32 \<times> bytes" where
  "frame_fields m = (message_kind_byte (wm_kind m), wm_srcRank m, wm_dstRank m, wm_bytes m)"

definition message_of_fields :: "u8 \<times> u32 \<times> u32 \<times> bytes \<Rightarrow> wire_message" where
  "message_of_fields = (\<lambda>(k, src, dst, bs).
     \<lparr>wm_kind = message_kind_of_byte k, wm_srcRank = src, wm_dstRank = dst, wm_bytes = bs\<rparr>)"

definition message_fits :: "wire_message \<Rightarrow> bool" where
  "message_fits m \<longleftrightarrow> length (wm_bytes m) < 2 ^ 32 \<and>
     (case wm_kind m of Other_Message b \<Rightarrow> b \<noteq> 1 \<and> b \<noteq> 2 \<and> b \<noteq> 3 | _ \<Rightarrow> True)"

lemma mpi_frame_fields: "mpi_frame m = put_pair write_u8 put_ranks (frame_fields m) []"
  by (simp add: mpi_frame_def Let_def put_pair_def frame_fields_def)

lemma read_mpi_frame_fields:
  "read_mpi_frame = bnd (get_pair read_u8 get_ranks) (\<lambda>f. ret (message_of_fields f))"
  by (simp add: read_mpi_frame_def get_pair_def bnd_assoc message_of_fields_def del: ret_run)

lemma mpi_unframe_via_fields:
  "mpi_unframe bs =
     (case fst (get_pair read_u8 get_ranks (open_reader bs)) of Inl e \<Rightarrow> Inl e
      | Inr f \<Rightarrow> Inr (message_of_fields f))"
  by (auto simp: mpi_unframe_def read_mpi_frame_fields bnd_def split: prod.splits sum.splits)

lemma message_fits_fields:
  "message_fits m \<Longrightarrow> ok_pair any_value ok_ranks (frame_fields m) \<and> message_of_fields (frame_fields m) = m"
  by (cases "wm_kind m")
    (auto simp: message_fits_def ok_pair_def frame_fields_def fits_u32_def
      message_of_fields_def message_kind_of_byte_def)

lemma mpi_unframe_frame: "message_fits m \<Longrightarrow> mpi_unframe (mpi_frame m) = Inr m"
  using message_fits_fields [of m]
  by (simp add: mpi_unframe_via_fields mpi_frame_fields frame_wire.pair.decode_encode)

subsection \<open>Completed sends\<close>

text \<open>
  \<open>drain_completed_sends_\<close> walks the vector of pending sends; a completed one is
  overwritten by the last and the vector shortened. \<open>done\<close> stands for the result of
  \<open>MPI_Test\<close> on a request (a request that has completed stays completed).
\<close>

function drain_completed_sends :: "('r \<Rightarrow> bool) \<Rightarrow> nat \<Rightarrow> 'r list \<Rightarrow> 'r list" where
  "drain_completed_sends test_done i rs =
     (if i < length rs
      then if test_done (rs ! i) then drain_completed_sends test_done i (butlast (rs[i := last rs]))
           else drain_completed_sends test_done (Suc i) rs
      else rs)"
  by pat_completeness auto
termination
  by (relation "measure (\<lambda>(d, i, rs). length rs - i)") auto

declare drain_completed_sends.simps [simp del]

lemma mset_swap_remove:
  assumes "i < length rs"
  shows "mset (butlast (rs[i := last rs])) = mset rs - {#rs ! i#}"
proof -
  obtain ys y where rs: "rs = ys @ [y]" using assms by (cases rs rule: rev_cases) auto
  show ?thesis
  proof (cases "i = length ys")
    case True
    then show ?thesis by (simp add: rs)
  next
    case False
    then have "i < length ys" using assms rs by simp
    then show ?thesis
      by (simp add: rs list_update_append nth_append mset_update)
  qed
qed

lemma nth_swap_remove:
  "j < i \<Longrightarrow> i < length rs \<Longrightarrow> butlast (rs[i := last rs]) ! j = rs ! j"
  by (simp add: nth_butlast)

lemma drain_completed_sends_mset:
  assumes "\<forall>j < i. j < length rs \<longrightarrow> \<not> test_done (rs ! j)"
  shows "mset (drain_completed_sends test_done i rs) = filter_mset (\<lambda>r. \<not> test_done r) (mset rs)"
  using assms
proof (induction test_done i rs rule: drain_completed_sends.induct)
  case (1 test_done i rs)
  show ?case
  proof (cases "i < length rs")
    case True
    show ?thesis
    proof (cases "test_done (rs ! i)")
      case done_i: True
      let ?rs' = "butlast (rs[i := last rs])"
      have "\<forall>j < i. j < length ?rs' \<longrightarrow> \<not> test_done (?rs' ! j)"
        using "1.prems" True by (auto simp: nth_swap_remove)
      then have "mset (drain_completed_sends test_done i ?rs') = filter_mset (\<lambda>r. \<not> test_done r) (mset ?rs')"
        using "1.IH"(1) [OF True done_i] by blast
      also have "\<dots> = filter_mset (\<lambda>r. \<not> test_done r) (mset rs)"
        using True done_i by (simp add: mset_swap_remove filter_diff_mset)
      finally show ?thesis
        using True done_i by (simp add: drain_completed_sends.simps [of test_done i rs])
    next
      case False
      then have "\<forall>j < Suc i. j < length rs \<longrightarrow> \<not> test_done (rs ! j)"
        using "1.prems" by (auto simp: less_Suc_eq)
      then show ?thesis
        using "1.IH"(2) [OF True False] True False
        by (simp add: drain_completed_sends.simps [of test_done i rs])
    qed
  next
    case False
    then have "\<forall>r \<in> set rs. \<not> test_done r"
      using "1.prems" by (auto simp: in_set_conv_nth)
    then show ?thesis
      using False
      by (simp add: drain_completed_sends.simps [of test_done i rs] filter_id_conv flip: mset_filter)
  qed
qed

subsection \<open>The time-stamp reduction\<close>

text \<open>
  \<open>mpi_ts_min_op\<close> combines two buffers element by element; \<open>mpi_allreduce_min_timestamp\<close>
  uses it with one element, and MPI applies it along a tree over the ranks whose shape and
  order are not specified.
\<close>

fun mpi_ts_min_op :: "timestamp list \<Rightarrow> timestamp list \<Rightarrow> timestamp list" where
  "mpi_ts_min_op (a # ins) (b # inouts) =
     (if ts_time a < ts_time b \<or> (ts_time a = ts_time b \<and> ts_sequence a < ts_sequence b)
      then a else b) # mpi_ts_min_op ins inouts"
| "mpi_ts_min_op _ inouts = inouts"

lemma mpi_ts_min_op_min: "mpi_ts_min_op [a] [b] = [min_stamp b a]"
  by (simp add: min_stamp_def less_timestamp_def stamp_less_def)

end
