(* ===== verification/Determinism.thy ===== *)
theory Determinism
  imports Events
begin

text \<open>
  The determinism oracle of \<open>src/src/determinism.hpp\<close>: each committed item is hashed with
  FNV-1a over a canonical buffer, and the hashes are combined by addition and by xor. The
  lemmas show why the digest can be compared between runs that commit the same items in a
  different order or split over a different number of ranks.
\<close>

record determinism_digest =
  committedEventSum :: u64
  committedEventXor :: u64
  committedOutputSum :: u64
  committedOutputXor :: u64

definition empty_digest :: determinism_digest where
  "empty_digest = \<lparr>committedEventSum = 0, committedEventXor = 0,
     committedOutputSum = 0, committedOutputXor = 0\<rparr>"

definition digest_equal :: "determinism_digest \<Rightarrow> determinism_digest \<Rightarrow> bool" where
  "digest_equal a b \<longleftrightarrow>
     committedEventSum a = committedEventSum b \<and> committedEventXor a = committedEventXor b \<and>
     committedOutputSum a = committedOutputSum b \<and> committedOutputXor a = committedOutputXor b"

lemma digest_equal_eq: "digest_equal a b \<longleftrightarrow> a = b"
  by (auto simp: digest_equal_def intro: determinism_digest.equality)

definition fnv1a64 :: "bytes \<Rightarrow> u64" where
  "fnv1a64 bs = fold (\<lambda>b h. (h XOR ucast b) * 1099511628211) bs 1469598103934665603"

definition append_u8 :: "u8 \<Rightarrow> bytes \<Rightarrow> bytes" where
  "append_u8 v out = out @ le_bytes 1 v"

definition append_u32 :: "u32 \<Rightarrow> bytes \<Rightarrow> bytes" where
  "append_u32 v out = out @ le_bytes 4 v"

definition append_u64 :: "u64 \<Rightarrow> bytes \<Rightarrow> bytes" where
  "append_u64 v out = out @ le_bytes 8 v"

definition append_bytes :: "bytes \<Rightarrow> bytes \<Rightarrow> bytes" where
  "append_bytes b out = append_u64 (word_of_nat (length b)) out @ b"

definition committed_event_buffer :: "u32 \<Rightarrow> event \<Rightarrow> bytes" where
  "committed_event_buffer lp ev =
     (let buf = append_u32 lp [];
          buf = append_u64 (ts_time (ev_ts ev)) buf;
          buf = append_u64 (ts_sequence (ev_ts ev)) buf;
          buf = append_u32 (ev_src ev) buf;
          buf = append_u64 (ev_uid ev) buf;
          buf = append_u64 (ev_target ev) buf;
          buf = append_u32 (p_kind (ev_payload ev)) buf;
          buf = append_u8 (if ev_isAnti ev then 1 else 0) buf
      in append_bytes (p_bytes (ev_payload ev)) buf)"

definition hash_committed_event :: "u32 \<Rightarrow> event \<Rightarrow> u64" where
  "hash_committed_event lp ev = fnv1a64 (committed_event_buffer lp ev)"

definition committed_output_buffer :: "u32 \<Rightarrow> timestamp \<Rightarrow> payload \<Rightarrow> bytes" where
  "committed_output_buffer lp ts p =
     (let buf = append_u32 lp [];
          buf = append_u64 (ts_time ts) buf;
          buf = append_u64 (ts_sequence ts) buf;
          buf = append_u32 (p_kind p) buf
      in append_bytes (p_bytes p) buf)"

definition hash_committed_output :: "u32 \<Rightarrow> timestamp \<Rightarrow> payload \<Rightarrow> u64" where
  "hash_committed_output lp ts p = fnv1a64 (committed_output_buffer lp ts p)"

definition on_committed_event :: "u32 \<Rightarrow> u32 \<Rightarrow> event \<Rightarrow> determinism_digest \<Rightarrow> determinism_digest" where
  "on_committed_event rank lp ev d =
     (let h = hash_committed_event lp ev in
      d\<lparr>committedEventSum := committedEventSum d + h,
        committedEventXor := committedEventXor d XOR h\<rparr>)"

definition on_committed_output ::
  "u32 \<Rightarrow> u32 \<Rightarrow> timestamp \<Rightarrow> payload \<Rightarrow> determinism_digest \<Rightarrow> determinism_digest" where
  "on_committed_output rank lp ts p d =
     (let h = hash_committed_output lp ts p in
      d\<lparr>committedOutputSum := committedOutputSum d + h,
        committedOutputXor := committedOutputXor d XOR h\<rparr>)"

subsection \<open>The digest as a function of the committed items\<close>

datatype committed_item =
    Committed_Event (item_rank: u32) (item_lp: u32) event
  | Committed_Output (item_rank: u32) (item_lp: u32) timestamp payload

fun accumulate :: "committed_item \<Rightarrow> determinism_digest \<Rightarrow> determinism_digest" where
  "accumulate (Committed_Event rank lp ev) = on_committed_event rank lp ev"
| "accumulate (Committed_Output rank lp ts p) = on_committed_output rank lp ts p"

definition digest_of :: "committed_item list \<Rightarrow> determinism_digest" where
  "digest_of items = fold accumulate items empty_digest"

text \<open>The same combination of two digests that the reductions over the ranks compute.\<close>

definition digest_reduce :: "determinism_digest \<Rightarrow> determinism_digest \<Rightarrow> determinism_digest" where
  "digest_reduce a b = \<lparr>
     committedEventSum = committedEventSum a + committedEventSum b,
     committedEventXor = committedEventXor a XOR committedEventXor b,
     committedOutputSum = committedOutputSum a + committedOutputSum b,
     committedOutputXor = committedOutputXor a XOR committedOutputXor b\<rparr>"

fun forget_rank :: "committed_item \<Rightarrow> committed_item" where
  "forget_rank (Committed_Event _ lp ev) = Committed_Event 0 lp ev"
| "forget_rank (Committed_Output _ lp ts p) = Committed_Output 0 lp ts p"

text \<open>
  An accumulator whose steps commute, starting from a unit, and whose states can be
  combined: what makes a digest independent of the order and of the partition.
\<close>

locale commutative_digest =
  fixes step :: "'i \<Rightarrow> 'd \<Rightarrow> 'd" and unit_digest :: "'d" and combine :: "'d \<Rightarrow> 'd \<Rightarrow> 'd"
  assumes step_commute: "step x (step y d) = step y (step x d)"
    and combine_unit: "combine d unit_digest = d"
    and combine_step: "combine d (step x e) = step x (combine d e)"
begin

lemma fold_mset_eq: "mset xs = mset ys \<Longrightarrow> fold step xs d = fold step ys d"
  by (rule fold_permuted_eq [where P = "\<lambda>_. True"]) (auto simp: step_commute)

lemma fold_combine: "fold step xs (combine d e) = combine d (fold step xs e)"
  by (induction xs arbitrary: e) (auto simp: combine_step [symmetric])

lemma fold_split:
  "combine (fold step xs unit_digest) (fold step ys unit_digest) = fold step (xs @ ys) unit_digest"
  using fold_combine [of ys "fold step xs unit_digest" unit_digest] by (simp add: combine_unit)

end

lemma accumulate_sums:
  "accumulate i d = (case i of
     Committed_Event _ lp ev \<Rightarrow>
       d\<lparr>committedEventSum := committedEventSum d + hash_committed_event lp ev,
         committedEventXor := committedEventXor d XOR hash_committed_event lp ev\<rparr>
   | Committed_Output _ lp ts p \<Rightarrow>
       d\<lparr>committedOutputSum := committedOutputSum d + hash_committed_output lp ts p,
         committedOutputXor := committedOutputXor d XOR hash_committed_output lp ts p\<rparr>)"
  by (cases i) (simp_all add: on_committed_event_def on_committed_output_def Let_def)

interpretation det_digest: commutative_digest accumulate empty_digest digest_reduce
proof
  fix x y :: committed_item and d e :: determinism_digest
  show "accumulate x (accumulate y d) = accumulate y (accumulate x d)"
    by (cases x; cases y) (simp_all add: on_committed_event_def on_committed_output_def Let_def ac_simps)
  show "digest_reduce d empty_digest = d"
    by (simp add: digest_reduce_def empty_digest_def)
  show "digest_reduce d (accumulate x e) = accumulate x (digest_reduce d e)"
    by (cases x) (simp_all add: on_committed_event_def on_committed_output_def Let_def
        digest_reduce_def ac_simps)
qed

lemma accumulate_forget_rank: "accumulate (forget_rank i) = accumulate i"
  by (cases i) (simp_all add: on_committed_event_def on_committed_output_def fun_eq_iff)

lemma digest_forget_rank: "digest_of (map forget_rank items) = digest_of items"
  by (simp add: digest_of_def fold_map comp_def accumulate_forget_rank)

subsection \<open>The hashed buffers identify the items\<close>

lemma committed_event_buffer_inj:
  assumes "committed_event_buffer lp a = committed_event_buffer lp' b"
  shows "lp = lp' \<and> ev_ts a = ev_ts b \<and> ev_src a = ev_src b \<and> ev_uid a = ev_uid b \<and>
    ev_target a = ev_target b \<and> ev_payload a = ev_payload b \<and> ev_isAnti a = ev_isAnti b"
proof -
  note append_defs = committed_event_buffer_def Let_def append_u8_def append_u32_def
    append_u64_def append_bytes_def
  have eqs: "le_bytes 4 lp = le_bytes 4 lp'"
    "le_bytes 8 (ts_time (ev_ts a)) = le_bytes 8 (ts_time (ev_ts b))"
    "le_bytes 8 (ts_sequence (ev_ts a)) = le_bytes 8 (ts_sequence (ev_ts b))"
    "le_bytes 4 (ev_src a) = le_bytes 4 (ev_src b)"
    "le_bytes 8 (ev_uid a) = le_bytes 8 (ev_uid b)"
    "le_bytes 8 (ev_target a) = le_bytes 8 (ev_target b)"
    "le_bytes 4 (p_kind (ev_payload a)) = le_bytes 4 (p_kind (ev_payload b))"
    "le_bytes 1 (if ev_isAnti a then 1 else 0 :: u8) = le_bytes 1 (if ev_isAnti b then 1 else 0 :: u8)"
    "p_bytes (ev_payload a) = p_bytes (ev_payload b)"
    using assms by (simp_all add: append_defs)
  have "lp = lp'" "ts_time (ev_ts a) = ts_time (ev_ts b)"
    "ts_sequence (ev_ts a) = ts_sequence (ev_ts b)" "ev_src a = ev_src b" "ev_uid a = ev_uid b"
    "ev_target a = ev_target b" "p_kind (ev_payload a) = p_kind (ev_payload b)"
    by (rule le_bytes_inj [OF _ eqs(1)] le_bytes_inj [OF _ eqs(2)] le_bytes_inj [OF _ eqs(3)]
        le_bytes_inj [OF _ eqs(4)] le_bytes_inj [OF _ eqs(5)] le_bytes_inj [OF _ eqs(6)]
        le_bytes_inj [OF _ eqs(7)], simp)+
  moreover have "(if ev_isAnti a then 1 else 0 :: u8) = (if ev_isAnti b then 1 else 0)"
    using eqs(8) by (rule le_bytes_inj [rotated]) simp
  then have "ev_isAnti a = ev_isAnti b" by (auto split: if_splits)
  ultimately show ?thesis
    using eqs(9) by (auto intro: timestamp.expand)
qed

end
