(* ===== verification/Kernel_State.thy ===== *)
theory Kernel_State
  imports Lp Transport Determinism
begin

text \<open>
  The state of \<open>Simulation\<close> (\<open>src/src/simulation.hpp\<close>): configuration, logical-process
  contexts with their processed records and sent log, the kernel's own members, and the
  optional run-time checks of \<open>validate_invariants_\<close>.

  Everything outside the rank (the transport, the collectives, the sinks) acts on a world
  of type \<open>'w\<close>. An unordered container is an association list whose order is the
  container's unspecified iteration order; the theorems hold for every order. \<open>std::multiset\<close>
  and \<open>std::multimap\<close> are lists sorted by key. Logging has no effect on the state and is
  left out.
\<close>

subsection \<open>Configuration\<close>

datatype gvt_mode = AckInflight | ColoredCounters

record 'w config =
  c_rank :: u32
  c_maxSnapshotsPerLP :: nat
  c_gvtMode :: gvt_mode
  c_lpToRank :: "(u32 \<Rightarrow> u32) option"
  c_gvtReduceMin :: "(timestamp \<Rightarrow> ('w, timestamp) eff) option"
  c_gvtReduceSum :: "(u64 \<Rightarrow> ('w, u64) eff) option"
  c_anyRankHasWork :: "(bool \<Rightarrow> ('w, bool) eff) option"
  c_directoryForEntity :: "(u64 \<Rightarrow> u32) option"
  c_directoryFossilCollectKind :: u32
  c_collectivePeriodIters :: u64
  c_seed :: u64
  c_committedSink :: "(u32 \<Rightarrow> u32 \<Rightarrow> timestamp \<Rightarrow> payload \<Rightarrow> ('w, unit) eff) option"
  c_committedEventSink :: "(u32 \<Rightarrow> u32 \<Rightarrow> event \<Rightarrow> ('w, unit) eff) option"
  c_enableDeterminismOracle :: bool
  c_reduceU64Sum :: "(u64 \<Rightarrow> ('w, u64) eff) option"
  c_reduceU64Xor :: "(u64 \<Rightarrow> ('w, u64) eff) option"
  c_expectedDeterminismDigest :: "determinism_digest option"
  c_isControlEvent :: "(event \<Rightarrow> bool) option"
  c_enableInstallBeforeUseBuffering :: bool
  c_installEventKind :: u32
  c_enableInvariantChecks :: bool

definition default_config :: "'w config" where
  "default_config = \<lparr>
     c_rank = 0, c_maxSnapshotsPerLP = 2048, c_gvtMode = AckInflight, c_lpToRank = None,
     c_gvtReduceMin = None, c_gvtReduceSum = None, c_anyRankHasWork = None,
     c_directoryForEntity = None, c_directoryFossilCollectKind = 0,
     c_collectivePeriodIters = 1, c_seed = 1, c_committedSink = None,
     c_committedEventSink = None, c_enableDeterminismOracle = False,
     c_reduceU64Sum = None, c_reduceU64Xor = None, c_expectedDeterminismDigest = None,
     c_isControlEvent = None, c_enableInstallBeforeUseBuffering = False,
     c_installEventKind = 42002, c_enableInvariantChecks = False\<rparr>"

subsection \<open>Logical-process contexts\<close>

record sent_record =
  sr_sendTime :: timestamp
  sr_msgTime :: timestamp
  sr_dst :: u32
  sr_uid :: u64

record processed_record =
  pr_ev :: event
  pr_preNextSeqNormal :: u64
  pr_preNextSeqControl :: u64
  pr_hasLpSnapshot :: bool
  pr_preLpState :: bytes
  pr_preEntityState :: "(u64 \<times> bytes) list"
  pr_committed :: "(timestamp \<times> payload) list"
  pr_cancelHadEntry :: bool
  pr_cancelPrevTs :: timestamp

record 'st lp_context =
  cx_lp :: "'st lp"
  cx_vt :: timestamp
  cx_inEvent :: bool
  cx_currentExecTs :: timestamp
  cx_processed :: "processed_record list"
  cx_sentLog :: "sent_record list"
  cx_nextSeqNormal :: u64
  cx_nextSeqControl :: u64
  cx_nextUid :: u64

definition new_record :: "event \<Rightarrow> 'st lp_context \<Rightarrow> processed_record" where
  "new_record ev cx = \<lparr>pr_ev = ev, pr_preNextSeqNormal = cx_nextSeqNormal cx,
     pr_preNextSeqControl = cx_nextSeqControl cx, pr_hasLpSnapshot = False, pr_preLpState = [],
     pr_preEntityState = [], pr_committed = [], pr_cancelHadEntry = False,
     pr_cancelPrevTs = zero_stamp\<rparr>"

abbreviation pr_ts :: "processed_record \<Rightarrow> timestamp" where
  "pr_ts r \<equiv> ev_ts (pr_ev r)"

subsection \<open>The simulation object\<close>

type_synonym uid_key = "u32 \<times> u64"
type_synonym inflight_key = "u32 \<times> u64 \<times> bool"

record ('st, 'w) sim =
  m_cfg :: "'w config"
  m_transport :: "'w transport"
  m_world :: 'w
  m_lps :: "(u32 \<times> 'st lp_context) list"
  m_systemSrc :: u32
  m_systemSrcSet :: bool
  m_started :: bool
  m_pending :: "event list"
  m_cancelledByUid :: "(uid_key \<times> timestamp) list"
  m_pendingMigrations :: "(timestamp \<times> migration) list"
  m_entityOwner :: "(u64 \<times> u32) list"
  m_determinism :: determinism_digest
  m_deferredTargeted :: "(u64 \<times> event list) list"
  m_inflightByUid :: "(inflight_key \<times> timestamp) list"
  m_inflightTs :: "timestamp list"
  m_gvtWhiteColor :: u8
  m_gvtColor :: u8
  m_gvtRedPhase :: bool
  m_gvtSentByColor :: "u64 list"
  m_gvtRecvByColor :: "u64 list"
  m_gvtWhiteSentAtFlip :: u64
  m_gvtMinRedSentTs :: timestamp
  m_lastGvt :: timestamp
  m_directoryLps :: "u32 list"
  m_lastDirectoryGcGvt :: timestamp
  m_totalProcessed :: u64
  m_rollbacksTotal :: u64
  m_rollbacksStraggler :: u64
  m_rollbacksAnti :: u64
  m_rollbackUndoneEvents :: u64
  m_sentEvents :: u64
  m_sentAnti :: u64
  m_receivedEvents :: u64
  m_receivedAnti :: u64
  m_antiCancelledPending :: u64
  m_antiCancelledProcessed :: u64

text \<open>The constructor.\<close>

definition new_simulation :: "'w config \<Rightarrow> 'w transport option \<Rightarrow> 'w \<Rightarrow> exn + ('st, 'w) sim" where
  "new_simulation cfg transport w =
     (case transport of None \<Rightarrow> Inl (Runtime_Error ''Simulation requires a transport'')
      | Some tr \<Rightarrow> Inr \<lparr>m_cfg = cfg, m_transport = tr, m_world = w, m_lps = [],
          m_systemSrc = 0, m_systemSrcSet = False, m_started = False, m_pending = [],
          m_cancelledByUid = [], m_pendingMigrations = [], m_entityOwner = [],
          m_determinism = empty_digest, m_deferredTargeted = [], m_inflightByUid = [],
          m_inflightTs = [], m_gvtWhiteColor = 0, m_gvtColor = 0, m_gvtRedPhase = False,
          m_gvtSentByColor = [0, 0], m_gvtRecvByColor = [0, 0], m_gvtWhiteSentAtFlip = 0,
          m_gvtMinRedSentTs = max_stamp, m_lastGvt = zero_stamp, m_directoryLps = [],
          m_lastDirectoryGcGvt = zero_stamp, m_totalProcessed = 0, m_rollbacksTotal = 0,
          m_rollbacksStraggler = 0, m_rollbacksAnti = 0, m_rollbackUndoneEvents = 0,
          m_sentEvents = 0, m_sentAnti = 0, m_receivedEvents = 0, m_receivedAnti = 0,
          m_antiCancelledPending = 0, m_antiCancelledProcessed = 0\<rparr>)"

subsection \<open>Access to the contexts and to the world\<close>

definition on_key :: "'k \<Rightarrow> ('v \<Rightarrow> 'v) \<Rightarrow> ('k \<times> 'v) list \<Rightarrow> ('k \<times> 'v) list" where
  "on_key k f m = map (\<lambda>e. (fst e, if fst e = k then f (snd e) else snd e)) m"

definition upd_ctx ::
  "u32 \<Rightarrow> ('st lp_context \<Rightarrow> 'st lp_context) \<Rightarrow> ('st, 'w) sim \<Rightarrow> ('st, 'w) sim" where
  "upd_ctx i f s = s\<lparr>m_lps := on_key i f (m_lps s)\<rparr>"

definition ctx_of :: "u32 \<Rightarrow> (('st, 'w) sim, 'st lp_context) eff" where
  "ctx_of i s = (case map_of (m_lps s) i of
     None \<Rightarrow> (Inl (Runtime_Error ''Unknown LPId''), s) | Some cx \<Rightarrow> (Inr cx, s))"

definition in_world :: "('w, 'a) eff \<Rightarrow> (('st, 'w) sim, 'a) eff" where
  "in_world m s = (case m (m_world s) of (r, w) \<Rightarrow> (r, s\<lparr>m_world := w\<rparr>))"

text \<open>Running an operation of the model object inside the context \<open>i\<close>.\<close>

definition in_lp :: "u32 \<Rightarrow> ('st lp \<Rightarrow> ('st, unit) eff) \<Rightarrow> (('st, 'w) sim, unit) eff" where
  "in_lp i m = bnd (ctx_of i) (\<lambda>cx s. case m (cx_lp cx) (lp_state (cx_lp cx)) of
     (r, st) \<Rightarrow> (r, upd_ctx i (\<lambda>c. c\<lparr>cx_lp := (cx_lp c)\<lparr>lp_state := st\<rparr>\<rparr>) s))"

definition add_lp :: "'st lp option \<Rightarrow> (('st, 'w) sim, unit) eff" where
  "add_lp lp_opt = (case lp_opt of
     None \<Rightarrow> raise (Runtime_Error ''add_lp: null'')
   | Some lp \<Rightarrow> bnd (gets (\<lambda>s. map_of (m_lps s) (lp_id lp))) (\<lambda>found.
       if found \<noteq> None then raise (Runtime_Error ''add_lp: duplicate LPId'')
       else upd (\<lambda>s.
         let cx = \<lparr>cx_lp = lp, cx_vt = zero_stamp, cx_inEvent = False,
                   cx_currentExecTs = zero_stamp, cx_processed = [], cx_sentLog = [],
                   cx_nextSeqNormal = 1, cx_nextSeqControl = 1, cx_nextUid = 1\<rparr>;
             s = s\<lparr>m_lps := m_lps s @ [(lp_id lp, cx)]\<rparr>
         in if m_systemSrcSet s then s
            else s\<lparr>m_systemSrc := lp_id lp, m_systemSrcSet := True\<rparr>)))"

lemma fst_on_key [simp]: "map fst (on_key k f m) = map fst m"
  by (simp add: on_key_def comp_def)

lemma length_on_key [simp]: "length (on_key k f m) = length m"
  by (simp add: on_key_def)

lemma map_of_on_key: "map_of (on_key k f m) = (\<lambda>x. if x = k then map_option f (map_of m x) else map_of m x)"
  by (induction m) (auto simp: on_key_def)

lemma map_of_on_key_same [simp]: "map_of (on_key k f m) k = map_option f (map_of m k)"
  and map_of_on_key_other [simp]: "x \<noteq> k \<Longrightarrow> map_of (on_key k f m) x = map_of m x"
  by (simp_all add: map_of_on_key)

lemma on_key_on_key [simp]: "on_key k f (on_key k g m) = on_key k (f \<circ> g) m"
  by (simp add: on_key_def comp_def)

lemma in_set_on_key:
  "(x, c) \<in> set (on_key k f m) \<longleftrightarrow> (\<exists>c'. (x, c') \<in> set m \<and> c = (if x = k then f c' else c'))"
  by (force simp: on_key_def)

lemma m_lps_upd_ctx [simp]: "m_lps (upd_ctx i f s) = on_key i f (m_lps s)"
  by (simp add: upd_ctx_def)

lemma upd_ctx_fields [simp]:
  "m_cfg (upd_ctx i f s) = m_cfg s" "m_transport (upd_ctx i f s) = m_transport s"
  "m_world (upd_ctx i f s) = m_world s" "m_systemSrc (upd_ctx i f s) = m_systemSrc s"
  "m_systemSrcSet (upd_ctx i f s) = m_systemSrcSet s" "m_started (upd_ctx i f s) = m_started s"
  "m_pending (upd_ctx i f s) = m_pending s" "m_cancelledByUid (upd_ctx i f s) = m_cancelledByUid s"
  "m_pendingMigrations (upd_ctx i f s) = m_pendingMigrations s"
  "m_entityOwner (upd_ctx i f s) = m_entityOwner s" "m_determinism (upd_ctx i f s) = m_determinism s"
  "m_deferredTargeted (upd_ctx i f s) = m_deferredTargeted s"
  "m_inflightByUid (upd_ctx i f s) = m_inflightByUid s" "m_inflightTs (upd_ctx i f s) = m_inflightTs s"
  "m_gvtColor (upd_ctx i f s) = m_gvtColor s" "m_gvtWhiteColor (upd_ctx i f s) = m_gvtWhiteColor s"
  "m_lastGvt (upd_ctx i f s) = m_lastGvt s" "m_directoryLps (upd_ctx i f s) = m_directoryLps s"
  "m_gvtRedPhase (upd_ctx i f s) = m_gvtRedPhase s"
  "m_gvtSentByColor (upd_ctx i f s) = m_gvtSentByColor s"
  "m_gvtRecvByColor (upd_ctx i f s) = m_gvtRecvByColor s"
  "m_gvtWhiteSentAtFlip (upd_ctx i f s) = m_gvtWhiteSentAtFlip s"
  "m_gvtMinRedSentTs (upd_ctx i f s) = m_gvtMinRedSentTs s"
  "m_lastDirectoryGcGvt (upd_ctx i f s) = m_lastDirectoryGcGvt s"
  by (simp_all add: upd_ctx_def)

lemma ctx_of_Some [simp]: "map_of (m_lps s) i = Some cx \<Longrightarrow> ctx_of i s = (Inr cx, s)"
  by (simp add: ctx_of_def)

lemma ctx_of_None [simp]:
  "map_of (m_lps s) i = None \<Longrightarrow> ctx_of i s = (Inl (Runtime_Error ''Unknown LPId''), s)"
  by (simp add: ctx_of_def)

lemma ctx_of_Inr_iff: "ctx_of i s = (Inr cx, t) \<longleftrightarrow> map_of (m_lps s) i = Some cx \<and> t = s"
  by (auto simp: ctx_of_def split: option.splits)

lemma keeps_ctx_of [keeps_intros]: "keeps I (ctx_of i)"
  by (auto simp: keeps_def ctx_of_def split: option.splits)

lemma keeps_in_world: "(\<And>s w. I s \<Longrightarrow> I (s\<lparr>m_world := w\<rparr>)) \<Longrightarrow> keeps I (in_world m)"
  by (auto simp: keeps_def in_world_def split: prod.splits)

subsection \<open>Run-time invariant checks\<close>

definition cancelled :: "('st, 'w) sim \<Rightarrow> event \<Rightarrow> bool" where
  "cancelled s ev \<longleftrightarrow> map_of (m_cancelledByUid s) (ev_src ev, ev_uid ev) \<noteq> None"

definition ctx_checks :: "'st lp_context \<Rightarrow> (bool \<times> string) list" where
  "ctx_checks cx =
     [(cx_nextSeqNormal cx \<noteq> 0, ''invariant: nextSeqNormal must be non-zero''),
      (cx_nextSeqControl cx \<noteq> 0, ''invariant: nextSeqControl must be non-zero''),
      (cx_nextUid cx \<noteq> 0, ''invariant: nextUid must be non-zero'')]
     @ map (\<lambda>i. (\<not> pr_ts (cx_processed cx ! i) < pr_ts (cx_processed cx ! (i - 1)),
                 ''invariant: processed not sorted by timestamp''))
         [1..<length (cx_processed cx)]
     @ (if cx_processed cx = [] then []
        else [(\<not> cx_vt cx < pr_ts (last (cx_processed cx)),
               ''invariant: vt behind last processed timestamp'')])
     @ (if cx_inEvent cx
        then [(cx_currentExecTs cx = cx_vt cx, ''invariant: inEvent implies currentExecTs==vt'')]
        else [])"

definition inflight_checks :: "('st, 'w) sim \<Rightarrow> (bool \<times> string) list" where
  "inflight_checks s =
     (if c_gvtMode (m_cfg s) = AckInflight
      then let derived = sort (map snd (m_inflightByUid s)) in
        [(length (m_inflightByUid s) = length (m_inflightTs s),
          ''invariant: inflightByUid size != inflightTs size''),
         (length derived = length (m_inflightTs s),
          ''invariant: derived inflight multiset size mismatch''),
         (derived = m_inflightTs s,
          ''invariant: inflightTs does not match inflightByUid timestamps'')]
      else [])"

definition pop_out_of_order :: "event \<Rightarrow> event \<Rightarrow> bool" where
  "pop_out_of_order prev ev \<longleftrightarrow>
     ev_ts ev < ev_ts prev
     \<or> (ev_ts ev = ev_ts prev \<and> ev_src ev < ev_src prev)
     \<or> (ev_ts ev = ev_ts prev \<and> ev_src ev = ev_src prev \<and> ev_uid ev < ev_uid prev)"

definition pending_checks :: "('st, 'w) sim \<Rightarrow> (bool \<times> string) list" where
  "pending_checks s =
     (let evs = filter (\<lambda>ev. ev_isAnti ev \<or> \<not> cancelled s ev) (m_pending s)
      in map (\<lambda>(prev, ev). (\<not> pop_out_of_order prev ev, ''invariant: pending queue pops out of order''))
           (zip evs (tl evs)))"

definition invariant_checks :: "('st, 'w) sim \<Rightarrow> (bool \<times> string) list" where
  "invariant_checks s =
     concat (map (\<lambda>e. ctx_checks (snd e)) (m_lps s)) @ inflight_checks s @ pending_checks s"

definition validate_invariants :: "(('st, 'w) sim, unit) eff" where
  "validate_invariants s =
     (if \<not> c_enableInvariantChecks (m_cfg s) then (Inr (), s)
      else case find (\<lambda>c. \<not> fst c) (invariant_checks s) of
        None \<Rightarrow> (Inr (), s) | Some c \<Rightarrow> (Inl (Runtime_Error (snd c)), s))"

lemma validate_state [simp]: "snd (validate_invariants s) = s"
  by (simp add: validate_invariants_def split: option.splits)

lemma keeps_validate [keeps_intros]: "keeps I validate_invariants"
  by (simp add: keeps_def)

lemma validate_off [simp]:
  "\<not> c_enableInvariantChecks (m_cfg s) \<Longrightarrow> validate_invariants s = (Inr (), s)"
  by (simp add: validate_invariants_def)

end
