(* ===== verification/Kernel_Send.thy ===== *)
theory Kernel_Send
  imports Kernel_State
begin

text \<open>
  Sending (\<open>src/src/simulation.hpp\<close>): the pending queue, the in-flight bookkeeping of the
  acknowledgement mode, and \<open>Simulation::send\<close> with its identity assignment, its routing
  of targeted events, and its local and remote delivery.
\<close>

subsection \<open>Queue and in-flight bookkeeping\<close>

definition enqueue :: "event \<Rightarrow> (('st, 'w) sim, unit) eff" where
  "enqueue ev = upd (\<lambda>s. s\<lparr>m_pending := pending_push ev (m_pending s)\<rparr>)"

definition schedule :: "event \<Rightarrow> (('st, 'w) sim, unit) eff" where
  "schedule ev = enqueue ev"

definition inflight_key_of :: "event \<Rightarrow> inflight_key" where
  "inflight_key_of ev = (ev_src ev, ev_uid ev, ev_isAnti ev)"

definition track_inflight_send :: "event \<Rightarrow> (('st, 'w) sim, unit) eff" where
  "track_inflight_send ev = upd (\<lambda>s.
     if map_of (m_inflightByUid s) (inflight_key_of ev) = None
     then s\<lparr>m_inflightByUid := (inflight_key_of ev, ev_ts ev) # m_inflightByUid s,
            m_inflightTs := insort (ev_ts ev) (m_inflightTs s)\<rparr>
     else s)"

definition clear_inflight_key :: "inflight_key \<Rightarrow> (('st, 'w) sim, unit) eff" where
  "clear_inflight_key key = upd (\<lambda>s.
     case map_of (m_inflightByUid s) key of
       None \<Rightarrow> s
     | Some ts \<Rightarrow> s\<lparr>m_inflightTs := remove1 ts (m_inflightTs s),
                    m_inflightByUid := AList.delete key (m_inflightByUid s)\<rparr>)"

definition track_inflight_recv :: "event \<Rightarrow> (('st, 'w) sim, unit) eff" where
  "track_inflight_recv ev = upd (\<lambda>s.
     case map_of (m_inflightByUid s) (inflight_key_of ev) of
       None \<Rightarrow> s
     | Some ts \<Rightarrow> s\<lparr>m_inflightTs := remove1 ts (m_inflightTs s),
                    m_inflightByUid := AList.delete (inflight_key_of ev) (m_inflightByUid s)\<rparr>)"

lemma track_inflight_recv_clear: "track_inflight_recv ev = clear_inflight_key (inflight_key_of ev)"
  by (simp add: track_inflight_recv_def clear_inflight_key_def)

text \<open>The two containers describe the same in-flight messages.\<close>

definition inflight_wf :: "('st, 'w) sim \<Rightarrow> bool" where
  "inflight_wf s \<longleftrightarrow> distinct (map fst (m_inflightByUid s))
     \<and> m_inflightTs s = sort (map snd (m_inflightByUid s))"

lemma remove1_sort: "remove1 x (sort xs) = sort (remove1 x xs)"
  by (rule properties_for_sort [symmetric]) (simp_all add: sorted_remove1)

lemma values_delete_mset:
  "distinct (map fst m) \<Longrightarrow> map_of m k = Some v \<Longrightarrow>
   mset (map snd (AList.delete k m)) = mset (map snd m) - {#v#}"
proof (induction m)
  case (Cons e m)
  show ?case
  proof (cases "fst e = k")
    case True
    then have "\<forall>x \<in> set m. fst x \<noteq> k" using Cons.prems(1) by (metis distinct.simps(2) image_eqI list.simps(9) set_map)
    then have "AList.delete k m = m" by (auto simp: AList.delete_eq filter_id_conv case_prod_beta)
    with True Cons.prems show ?thesis by (cases e) auto
  next
    case False
    with Cons have "mset (map snd (AList.delete k m)) = mset (map snd m) - {#v#}" by (cases e) auto
    moreover have "v \<in># mset (map snd m)"
      using Cons.prems(2) False by (cases e) (force dest: map_of_SomeD)
    ultimately show ?thesis using False by (cases e) auto
  qed
qed simp

lemma inflight_wf_send: "inflight_wf s \<Longrightarrow> inflight_wf (snd (track_inflight_send ev s))"
proof (cases "map_of (m_inflightByUid s) (inflight_key_of ev)")
  case None
  assume "inflight_wf s"
  with None show ?thesis
    by (simp add: track_inflight_send_def inflight_wf_def map_of_eq_None_iff)
next
  case (Some ts)
  then show "inflight_wf s \<Longrightarrow> ?thesis" by (simp add: track_inflight_send_def)
qed

lemma inflight_wf_clear: "inflight_wf s \<Longrightarrow> inflight_wf (snd (clear_inflight_key key s))"
proof (cases "map_of (m_inflightByUid s) key")
  case None
  then show "inflight_wf s \<Longrightarrow> ?thesis" by (simp add: clear_inflight_key_def)
next
  case (Some ts)
  assume wf: "inflight_wf s"
  let ?m = "m_inflightByUid s"
  have "mset (map snd (AList.delete key ?m)) = mset (remove1 ts (map snd ?m))"
    using values_delete_mset [OF _ Some] wf by (simp add: inflight_wf_def)
  then have "sort (map snd (AList.delete key ?m)) = sort (remove1 ts (map snd ?m))"
    by (intro properties_for_sort) simp_all
  then show ?thesis
    using wf Some by (simp add: inflight_wf_def clear_inflight_key_def remove1_sort AList.distinct_delete)
qed

subsection \<open>Identity of a sent event\<close>

definition set_ev_uid :: "u64 \<Rightarrow> event \<Rightarrow> event" where
  "set_ev_uid u ev = ev\<lparr>ev_uid := u\<rparr>"

definition set_ev_sequence :: "u64 \<Rightarrow> event \<Rightarrow> event" where
  "set_ev_sequence q ev = ev\<lparr>ev_ts := TimeStamp (ts_time (ev_ts ev)) q\<rparr>"

definition assign_uid :: "event \<Rightarrow> (('st, 'w) sim, event) eff" where
  "assign_uid ev =
     (if ev_uid ev = 0 then
        bnd (ctx_of (ev_src ev)) (\<lambda>cx.
        let local = cx_nextUid cx in
        thn (upd (upd_ctx (ev_src ev) (\<lambda>c. c\<lparr>cx_nextUid := local + 1\<rparr>)))
        (thn (throw_if (local = 0)
               ''Event UID counter overflow for LPId (exhausted 2^64-1 UIDs)'')
        (ret (set_ev_uid local ev))))
      else ret ev)"

definition assign_sequence :: "event \<Rightarrow> (('st, 'w) sim, event) eff" where
  "assign_sequence ev =
     (if ts_sequence (ev_ts ev) = 0 then
        bnd (ctx_of (ev_src ev)) (\<lambda>cx.
        bnd (gets (\<lambda>s. c_isControlEvent (m_cfg s))) (\<lambda>isControlEvent.
        case isControlEvent of
          None \<Rightarrow>
            let local = cx_nextSeqNormal cx in
            thn (upd (upd_ctx (ev_src ev) (\<lambda>c. c\<lparr>cx_nextSeqNormal := local + 1\<rparr>)))
            (ret (set_ev_sequence local ev))
        | Some is_control \<Rightarrow>
            if is_control ev then
              let local = cx_nextSeqControl cx in
              thn (upd (upd_ctx (ev_src ev) (\<lambda>c. c\<lparr>cx_nextSeqControl := local + 1\<rparr>)))
              (thn (throw_if (local = 0)
                 ''Event sequence counter overflow for control events (exhausted 2^64-1 sequences)'')
              (ret (set_ev_sequence local ev)))
            else
              let local = cx_nextSeqNormal cx in
              thn (upd (upd_ctx (ev_src ev) (\<lambda>c. c\<lparr>cx_nextSeqNormal := local + 1\<rparr>)))
              (thn (throw_if (local = 0)
                 ''Event sequence counter overflow for normal events (exhausted 2^64-1 sequences)'')
              (ret (set_ev_sequence (push_bit 63 1 OR local) ev)))))
      else ret ev)"

subsection \<open>Routing of targeted events\<close>

definition unset_dst :: u32 where
  "unset_dst = - 1"

definition route_targeted :: "event \<Rightarrow> (('st, 'w) sim, event) eff" where
  "route_targeted ev =
     bnd get_st (\<lambda>s.
     case c_directoryForEntity (m_cfg s) of
       Some directory \<Rightarrow>
         let dir = directory (ev_target ev) in
         thn (throw_if (dir = 0) ''send: directoryForEntity returned LPId=0 for target entity'')
         (thn (upd (\<lambda>s. s\<lparr>m_directoryLps := List.insert dir (m_directoryLps s)\<rparr>))
         (ret (if ev_src ev \<noteq> dir then ev\<lparr>ev_dst := dir\<rparr> else ev)))
     | None \<Rightarrow>
         ret (case map_of (m_entityOwner s) (ev_target ev) of
                Some owner \<Rightarrow> ev\<lparr>ev_dst := owner\<rparr> | None \<Rightarrow> ev))"

definition route_event :: "event \<Rightarrow> (('st, 'w) sim, event) eff" where
  "route_event ev =
     (if ev_target ev \<noteq> 0 then
        bnd (route_targeted ev) (\<lambda>ev.
        thn (throw_if (ev_dst ev = unset_dst)
          ''send: event has target!=0 but dst is unset after routing (enable directoryForEntity or ensure an owner is established)'')
        (ret ev))
      else ret ev)"

definition rank_of :: "('st, 'w) sim \<Rightarrow> u32 \<Rightarrow> u32" where
  "rank_of s dst = (case c_lpToRank (m_cfg s) of Some f \<Rightarrow> f dst | None \<Rightarrow> c_rank (m_cfg s))"

subsection \<open>Delivery\<close>

definition count_sent :: "event \<Rightarrow> (('st, 'w) sim, unit) eff" where
  "count_sent ev = upd (\<lambda>s.
     if ev_isAnti ev then s\<lparr>m_sentAnti := m_sentAnti s + 1\<rparr>
     else s\<lparr>m_sentEvents := m_sentEvents s + 1\<rparr>)"

definition log_sent :: "event \<Rightarrow> (('st, 'w) sim, unit) eff" where
  "log_sent ev =
     when_eff (\<not> ev_isAnti ev)
       (bnd (ctx_of (ev_src ev)) (\<lambda>cx.
        let sendTime = (if cx_inEvent cx then cx_currentExecTs cx else zero_stamp) in
        upd (upd_ctx (ev_src ev) (\<lambda>c. c\<lparr>cx_sentLog := cx_sentLog c @
          [\<lparr>sr_sendTime = sendTime, sr_msgTime = ev_ts ev, sr_dst = ev_dst ev,
             sr_uid = ev_uid ev\<rparr>]\<rparr>))))"

definition paint :: "('st, 'w) sim \<Rightarrow> event \<Rightarrow> event" where
  "paint s ev = (if c_gvtMode (m_cfg s) = AckInflight then ev else ev\<lparr>ev_gvtColor := m_gvtColor s\<rparr>)"

definition send_local :: "event \<Rightarrow> (('st, 'w) sim, unit) eff" where
  "send_local ev =
     bnd (gets (\<lambda>s. paint s ev)) (\<lambda>ev.
     thn (count_sent ev)
     (thn (enqueue ev)
     (thn validate_invariants
     (log_sent ev))))"

definition color_index :: "u8 \<Rightarrow> nat" where
  "color_index c = unat (c AND 1)"

definition count_red_sent :: "event \<Rightarrow> (('st, 'w) sim, unit) eff" where
  "count_red_sent ev = upd (\<lambda>s.
     let i = color_index (ev_gvtColor ev);
         s = s\<lparr>m_gvtSentByColor := (m_gvtSentByColor s)[i := m_gvtSentByColor s ! i + 1]\<rparr>
     in if ev_gvtColor ev \<noteq> m_gvtWhiteColor s
        then s\<lparr>m_gvtMinRedSentTs := min_stamp (m_gvtMinRedSentTs s) (ev_ts ev)\<rparr> else s)"

definition send_remote :: "u32 \<Rightarrow> event \<Rightarrow> (('st, 'w) sim, unit) eff" where
  "send_remote dstRank ev =
     bnd get_st (\<lambda>s0.
     bnd (if c_gvtMode (m_cfg s0) = AckInflight
          then thn (track_inflight_send ev) (ret ev)
          else (let ev = paint s0 ev in thn (count_red_sent ev) (ret ev))) (\<lambda>ev.
     let msg = \<lparr>wm_kind = Event_Message, wm_srcRank = c_rank (m_cfg s0), wm_dstRank = dstRank,
                wm_bytes = encode_event ev\<rparr> in
     thn (count_sent ev)
     (thn (in_world (t_send (m_transport s0) msg))
     (thn (log_sent ev)
     validate_invariants))))"

definition send :: "event \<Rightarrow> (('st, 'w) sim, unit) eff" where
  "send ev =
     thn validate_invariants
     (bnd (assign_uid ev) (\<lambda>ev.
      bnd (assign_sequence ev) (\<lambda>ev.
      bnd (route_event ev) (\<lambda>ev.
      bnd get_st (\<lambda>s.
      let dstRank = rank_of s (ev_dst ev) in
      if dstRank = c_rank (m_cfg s) then send_local ev else send_remote dstRank ev)))))"

end
