(* ===== verification/Kernel_Dispatch.thy ===== *)
theory Kernel_Dispatch
  imports Kernel_Send
begin

text \<open>
  Optimistic execution (\<open>src/src/simulation.hpp\<close>): the event context handed to the model,
  install-before-use buffering, rollback with its anti-messages, cancellation by an
  anti-message, and the dispatch of one event.
\<close>

subsection \<open>The event context\<close>

text \<open>
  The record of the event being executed is a local object of \<open>dispatch_\<close>; the context's
  operations take it and return it.
\<close>

definition request_write ::
  "u32 \<Rightarrow> u64 \<Rightarrow> processed_record \<Rightarrow> (('st, 'w) sim, processed_record) eff" where
  "request_write i entity rec =
     (if map_of (pr_preEntityState rec) entity \<noteq> None then ret rec
      else bnd (ctx_of i) (\<lambda>cx.
        let lp = cx_lp cx in
        if lp_supports_entity_snapshots lp (lp_state lp)
        then (case lp_save_entity lp entity (lp_state lp) of
                Inl e \<Rightarrow> raise e
              | Inr bs \<Rightarrow> ret (rec\<lparr>pr_preEntityState := pr_preEntityState rec @ [(entity, bs)]\<rparr>))
        else if \<not> pr_hasLpSnapshot rec
        then (case lp_save_state lp (lp_state lp) of
                Inl e \<Rightarrow> raise e
              | Inr bs \<Rightarrow> ret (rec\<lparr>pr_hasLpSnapshot := True, pr_preLpState := bs\<rparr>))
        else ret rec))"

definition emit_committed ::
  "timestamp \<Rightarrow> payload \<Rightarrow> processed_record \<Rightarrow> (('st, 'w) sim, processed_record) eff" where
  "emit_committed ts p rec =
     (if ts \<noteq> ev_ts (pr_ev rec)
      then raise (Runtime_Error ''emit_committed: ts must match the current event timestamp'')
      else ret (rec\<lparr>pr_committed := pr_committed rec @ [(ts, p)]\<rparr>))"

definition set_lp_state :: "u32 \<Rightarrow> 'st \<Rightarrow> (('st, 'w) sim, unit) eff" where
  "set_lp_state i st = upd (upd_ctx i (\<lambda>c. c\<lparr>cx_lp := (cx_lp c)\<lparr>lp_state := st\<rparr>\<rparr>))"

fun run_sink_call :: "u32 \<Rightarrow> 'st sink_call \<Rightarrow> (('st, 'w) sim, unit) eff" where
  "run_sink_call i (Send ev) = send ev"
| "run_sink_call i (Become st) = set_lp_state i st"
| "run_sink_call i (Fail e) = raise e"

fun run_ctx_call ::
  "u32 \<Rightarrow> 'st ctx_call \<Rightarrow> processed_record \<Rightarrow> (('st, 'w) sim, processed_record) eff" where
  "run_ctx_call i (Sink c) rec = thn (run_sink_call i c) (ret rec)"
| "run_ctx_call i (Request_Write entity) rec = request_write i entity rec"
| "run_ctx_call i (Emit_Committed ts p) rec = emit_committed ts p rec"

fun run_handler ::
  "u32 \<Rightarrow> 'st ctx_call list \<Rightarrow> processed_record \<Rightarrow> (('st, 'w) sim, processed_record) eff" where
  "run_handler i [] rec = ret rec"
| "run_handler i (c # cs) rec = bnd (run_ctx_call i c rec) (run_handler i cs)"

subsection \<open>Install-before-use buffering\<close>

definition missing_prefix :: string where
  "missing_prefix = ''World: unknown EntityId=''"

definition is_missing_entity_error :: "exn \<Rightarrow> bool" where
  "is_missing_entity_error e = (case e of
     Runtime_Error msg \<Rightarrow> take (length missing_prefix) msg = missing_prefix | _ \<Rightarrow> False)"

definition deferred_key :: "u32 \<Rightarrow> u64 \<Rightarrow> u64" where
  "deferred_key lp entity = push_bit 32 (ucast lp) XOR entity"

definition defer_targeted_event :: "event \<Rightarrow> (('st, 'w) sim, unit) eff" where
  "defer_targeted_event ev = upd (\<lambda>s.
     let key = deferred_key (ev_dst ev) (ev_target ev);
         q = (case map_of (m_deferredTargeted s) key of None \<Rightarrow> [] | Some q \<Rightarrow> q)
     in s\<lparr>m_deferredTargeted := AList.update key (q @ [ev]) (m_deferredTargeted s)\<rparr>)"

definition release_deferred_for :: "u32 \<Rightarrow> u64 \<Rightarrow> (('st, 'w) sim, unit) eff" where
  "release_deferred_for lp entity =
     (let key = deferred_key lp entity in
      bnd (gets (\<lambda>s. map_of (m_deferredTargeted s) key)) (\<lambda>found.
      case found of
        None \<Rightarrow> ret ()
      | Some q \<Rightarrow>
          thn (for_each enqueue (sort_by event_time_order q))
          (upd (\<lambda>s. s\<lparr>m_deferredTargeted := AList.delete key (m_deferredTargeted s)\<rparr>))))"

subsection \<open>Rollback\<close>

text \<open>
  Undoing one record: the cancellation entry an anti-message replaced comes back, and the
  event is pending again.
\<close>

definition uid_key_of :: "event \<Rightarrow> uid_key" where
  "uid_key_of ev = (ev_src ev, ev_uid ev)"

definition restore_cancellation :: "processed_record \<Rightarrow> ('st, 'w) sim \<Rightarrow> ('st, 'w) sim" where
  "restore_cancellation r s =
     (if ev_isAnti (pr_ev r)
      then if pr_cancelHadEntry r
           then s\<lparr>m_cancelledByUid :=
                  AList.update (uid_key_of (pr_ev r)) (pr_cancelPrevTs r) (m_cancelledByUid s)\<rparr>
           else s\<lparr>m_cancelledByUid := AList.delete (uid_key_of (pr_ev r)) (m_cancelledByUid s)\<rparr>
      else s)"

text \<open>
  The first loop of \<open>rollback_\<close>, over the processed records from the newest on
  (\<open>rev (cx_processed cx)\<close>); it returns the undone records, newest first.
\<close>

fun undo_processed ::
  "u32 \<Rightarrow> timestamp \<Rightarrow> processed_record list \<Rightarrow> (('st, 'w) sim, processed_record list) eff" where
  "undo_processed i to [] = ret []"
| "undo_processed i to (r # rs) =
     (if pr_ts r < to then ret []
      else thn (upd (restore_cancellation r))
        (thn (enqueue (pr_ev r))
        (thn (upd (upd_ctx i (\<lambda>c. c\<lparr>cx_processed := butlast (cx_processed c)\<rparr>)))
        (bnd (undo_processed i to rs) (\<lambda>undone. ret (r # undone))))))"

text \<open>
  Restoring the model state from the undone records, oldest first: the oldest LP-wide
  snapshot, then for every entity the oldest snapshot of it.
\<close>

definition oldest_snapshot :: "processed_record list \<Rightarrow> processed_record option" where
  "oldest_snapshot undone = find pr_hasLpSnapshot (rev undone)"

fun oldest_entity_states :: "u64 list \<Rightarrow> (u64 \<times> bytes) list \<Rightarrow> (u64 \<times> bytes) list" where
  "oldest_entity_states restored [] = []"
| "oldest_entity_states restored ((entity, bs) # es) =
     (if entity \<in> set restored then oldest_entity_states restored es
      else (entity, bs) # oldest_entity_states (entity # restored) es)"

definition restore_state :: "u32 \<Rightarrow> processed_record list \<Rightarrow> (('st, 'w) sim, unit) eff" where
  "restore_state i undone =
     (if undone = [] then ret ()
      else let oldest = last undone in
        thn (upd (upd_ctx i (\<lambda>c. c\<lparr>cx_nextSeqNormal := pr_preNextSeqNormal oldest,
                                    cx_nextSeqControl := pr_preNextSeqControl oldest\<rparr>)))
        (thn (case oldest_snapshot undone of
                None \<Rightarrow> ret ()
              | Some snap \<Rightarrow> in_lp i (\<lambda>lp. lp_load_state lp (pr_preLpState snap)))
        (bnd (ctx_of i) (\<lambda>cx.
         when_eff (lp_supports_entity_snapshots (cx_lp cx) (lp_state (cx_lp cx)))
           (for_each (\<lambda>(entity, bs). in_lp i (\<lambda>lp. lp_load_entity lp entity bs))
             (oldest_entity_states [] (concat (map pr_preEntityState (rev undone)))))))))"

definition anti_of :: "'st lp_context \<Rightarrow> sent_record \<Rightarrow> event" where
  "anti_of cx r = empty_event\<lparr>ev_ts := sr_msgTime r, ev_src := lp_id (cx_lp cx),
     ev_dst := sr_dst r, ev_target := 0, ev_uid := sr_uid r, ev_isAnti := True\<rparr>"

text \<open>The last loop of \<open>rollback_\<close>, over the sent log from the newest entry on.\<close>

fun send_antis :: "u32 \<Rightarrow> timestamp \<Rightarrow> sent_record list \<Rightarrow> (('st, 'w) sim, unit) eff" where
  "send_antis i to [] = ret ()"
| "send_antis i to (r # rs) =
     (if sr_sendTime r < to then ret ()
      else bnd (ctx_of i) (\<lambda>cx.
        thn (send (anti_of cx r))
        (thn (upd (upd_ctx i (\<lambda>c. c\<lparr>cx_sentLog := butlast (cx_sentLog c)\<rparr>)))
        (send_antis i to rs))))"

definition rollback :: "u32 \<Rightarrow> timestamp \<Rightarrow> (('st, 'w) sim, unit) eff" where
  "rollback i to =
     thn validate_invariants
     (thn (upd (\<lambda>s. s\<lparr>m_rollbacksTotal := m_rollbacksTotal s + 1\<rparr>))
     (bnd (ctx_of i) (\<lambda>cx.
      bnd (undo_processed i to (rev (cx_processed cx))) (\<lambda>undone.
      thn (upd (\<lambda>s. s\<lparr>m_rollbackUndoneEvents :=
                 m_rollbackUndoneEvents s + word_of_nat (length undone)\<rparr>))
      (thn (restore_state i undone)
      (thn (upd (upd_ctx i (\<lambda>c. c\<lparr>cx_vt := prev_stamp to\<rparr>)))
      (bnd (ctx_of i) (\<lambda>cx.
       thn (send_antis i to (rev (cx_sentLog cx)))
       validate_invariants))))))))"

subsection \<open>Cancellation\<close>

definition note_cancelled :: "event \<Rightarrow> ('st, 'w) sim \<Rightarrow> ('st, 'w) sim" where
  "note_cancelled anti s =
     (case map_of (m_cancelledByUid s) (uid_key_of anti) of
        None \<Rightarrow> s\<lparr>m_cancelledByUid := (uid_key_of anti, ev_ts anti) # m_cancelledByUid s\<rparr>
      | Some ts \<Rightarrow>
          if ev_ts anti < ts
          then s\<lparr>m_cancelledByUid := AList.update (uid_key_of anti) (ev_ts anti) (m_cancelledByUid s)\<rparr>
          else s)"

definition cancels :: "event \<Rightarrow> processed_record \<Rightarrow> bool" where
  "cancels anti r \<longleftrightarrow> \<not> ev_isAnti (pr_ev r) \<and> ev_src (pr_ev r) = ev_src anti \<and> ev_uid (pr_ev r) = ev_uid anti"

definition cancel :: "event \<Rightarrow> (('st, 'w) sim, unit) eff" where
  "cancel anti =
     thn (upd (note_cancelled anti))
     (bnd (ctx_of (ev_dst anti)) (\<lambda>cx.
      case find (cancels anti) (rev (cx_processed cx)) of
        Some r \<Rightarrow>
          thn (upd (\<lambda>s. s\<lparr>m_antiCancelledProcessed := m_antiCancelledProcessed s + 1,
                          m_rollbacksAnti := m_rollbacksAnti s + 1\<rparr>))
          (rollback (ev_dst anti) (pr_ts r))
      | None \<Rightarrow> upd (\<lambda>s. s\<lparr>m_antiCancelledPending := m_antiCancelledPending s + 1\<rparr>)))"

subsection \<open>Dispatch\<close>

definition straggler :: "event \<Rightarrow> (('st, 'w) sim, unit) eff" where
  "straggler ev =
     thn (upd (\<lambda>s. s\<lparr>m_rollbacksStraggler := m_rollbacksStraggler s + 1\<rparr>))
     (thn (rollback (ev_dst ev) (ev_ts ev))
     (enqueue ev))"

definition anti_record :: "event \<Rightarrow> 'st lp_context \<Rightarrow> ('st, 'w) sim \<Rightarrow> processed_record" where
  "anti_record ev cx s =
     (case map_of (m_cancelledByUid s) (uid_key_of ev) of
        None \<Rightarrow> new_record ev cx
      | Some ts \<Rightarrow> (new_record ev cx)\<lparr>pr_cancelHadEntry := True, pr_cancelPrevTs := ts\<rparr>)"

definition dispatch_anti :: "event \<Rightarrow> (('st, 'w) sim, unit) eff" where
  "dispatch_anti ev =
     bnd (ctx_of (ev_dst ev)) (\<lambda>cx.
     if ev_ts ev < cx_vt cx then straggler ev
     else bnd (gets (anti_record ev cx)) (\<lambda>rec.
       thn (cancel ev)
       (thn (upd (upd_ctx (ev_dst ev) (\<lambda>c. c\<lparr>cx_vt := ev_ts ev,
                                              cx_processed := cx_processed c @ [rec]\<rparr>)))
       validate_invariants)))"

definition execute :: "event \<Rightarrow> 'st lp_context \<Rightarrow> (('st, 'w) sim, bool) eff" where
  "execute ev cx =
     thn (upd (upd_ctx (ev_dst ev) (\<lambda>c. c\<lparr>cx_vt := ev_ts ev, cx_inEvent := True,
                                            cx_currentExecTs := ev_ts ev\<rparr>)))
     (bnd (run_handler (ev_dst ev) (lp_on_event (cx_lp cx) ev (lp_state (cx_lp cx)))
             (new_record ev cx)) (\<lambda>rec.
      thn (upd (upd_ctx (ev_dst ev) (\<lambda>c. c\<lparr>cx_inEvent := False,
                                             cx_processed := cx_processed c @ [rec]\<rparr>)))
      (bnd (gets m_cfg) (\<lambda>cfg.
       thn (when_eff (c_enableInstallBeforeUseBuffering cfg \<and> ev_target ev \<noteq> 0
                      \<and> p_kind (ev_payload ev) = c_installEventKind cfg)
             (release_deferred_for (ev_dst ev) (ev_target ev)))
       (ret True)))))"

text \<open>The \<open>catch\<close> block: \<open>False\<close> is the early return of a deferred event.\<close>

definition on_handler_exception ::
  "event \<Rightarrow> timestamp \<Rightarrow> exn \<Rightarrow> (('st, 'w) sim, bool) eff" where
  "on_handler_exception ev prevVt e =
     thn (upd (upd_ctx (ev_dst ev) (\<lambda>c. c\<lparr>cx_inEvent := False\<rparr>)))
     (bnd (gets m_cfg) (\<lambda>cfg.
      if c_enableInstallBeforeUseBuffering cfg \<and> ev_target ev \<noteq> 0
         \<and> p_kind (ev_payload ev) \<noteq> c_installEventKind cfg \<and> is_missing_entity_error e
      then thn (upd (upd_ctx (ev_dst ev) (\<lambda>c. c\<lparr>cx_vt := prevVt, cx_currentExecTs := prevVt\<rparr>)))
           (thn (defer_targeted_event ev)
           (thn validate_invariants
           (ret False)))
      else raise e))"

definition catching :: "('s, 'a) eff \<Rightarrow> (exn \<Rightarrow> ('s, 'a) eff) \<Rightarrow> ('s, 'a) eff" where
  "catching m h s = (case m s of (Inl e, s') \<Rightarrow> h e s' | (Inr x, s') \<Rightarrow> (Inr x, s'))"

definition dispatch_event :: "event \<Rightarrow> (('st, 'w) sim, unit) eff" where
  "dispatch_event ev =
     bnd (ctx_of (ev_dst ev)) (\<lambda>cx.
     if ev_ts ev < cx_vt cx
     then thn (straggler ev) validate_invariants
     else bnd (catching (execute ev cx) (on_handler_exception ev (cx_vt cx))) (\<lambda>completed.
       when_eff completed
         (thn (upd (\<lambda>s. s\<lparr>m_totalProcessed := m_totalProcessed s + 1\<rparr>))
         validate_invariants)))"

definition dispatch :: "event \<Rightarrow> (('st, 'w) sim, unit) eff" where
  "dispatch ev =
     thn validate_invariants (if ev_isAnti ev then dispatch_anti ev else dispatch_event ev)"

subsection \<open>Taking the next event\<close>

fun drop_cancelled :: "('st, 'w) sim \<Rightarrow> event list \<Rightarrow> event list" where
  "drop_cancelled s [] = []"
| "drop_cancelled s (ev # q) =
     (if \<not> ev_isAnti ev \<and> cancelled s ev then drop_cancelled s q else ev # q)"

definition pop_next :: "(('st, 'w) sim, event option) eff" where
  "pop_next s = (case drop_cancelled s (m_pending s) of
     [] \<Rightarrow> (Inr None, s\<lparr>m_pending := []\<rparr>)
   | ev # q \<Rightarrow> (Inr (Some ev), s\<lparr>m_pending := q\<rparr>))"

end
