(* ===== verification/Layout.thy ===== *)
theory Layout
  imports Events
begin

text \<open>
  Trivially copyable types. \<open>bytes_from_trivially_copyable\<close> (\<open>src/src/common.hpp\<close>) copies the
  object representation of a value, and the readers copy it back: fields in declaration
  order, little-endian, with the padding the ABI asks for, whose contents are unspecified
  and therefore an argument. The locale \<open>trivial_layout\<close> is what such a type offers; the
  structures the library sends are interpretations of it. Also the decimal notation of
  \<open>std::to_string\<close>.
\<close>

subsection \<open>Fields at offsets\<close>

definition field_at :: "nat \<Rightarrow> nat \<Rightarrow> bytes \<Rightarrow> 'a::len word" where
  "field_at off n bs = load_le 0 (take n (drop off bs))"

lemma field_at_here: "LENGTH('a) \<le> 8 * n \<Longrightarrow> length pre = off \<Longrightarrow>
    field_at off n (pre @ le_bytes n (v :: 'a::len word) @ post) = v"
  by (simp add: field_at_def load_le_bytes)

text \<open>
  Reading a field at an offset out of a saved state, with a bounds check; the result is the
  value and the offset behind it.
\<close>

definition read_at :: "string \<Rightarrow> nat \<Rightarrow> bytes \<Rightarrow> nat \<Rightarrow> ('s, 'a::len word \<times> nat) eff" where
  "read_at msg n state off =
     (if off + n > length state then raise (Runtime_Error msg)
      else ret (field_at off n state, off + n))"

lemma read_at_here:
  assumes "LENGTH('a) \<le> 8 * n" and "off = length pre"
  shows "read_at msg n (pre @ le_bytes n (v :: 'a::len word) @ post) off s = (Inr (v, off + n), s)"
  using assms field_at_here [of n pre off v post] by (simp add: read_at_def)

lemma read_at_end: "length state < off + n \<Longrightarrow> read_at msg n state off s = (Inl (Runtime_Error msg), s)"
  by (simp add: read_at_def)

subsection \<open>Layouts\<close>

text \<open>
  \<open>put pad x\<close> is the representation of \<open>x\<close> with padding bytes \<open>pad\<close>, of which there are
  \<open>npad\<close>; \<open>get\<close> reads the fields back.
\<close>

locale trivial_layout =
  fixes put :: "bytes \<Rightarrow> 'a \<Rightarrow> bytes" and get :: "bytes \<Rightarrow> 'a" and size :: nat and npad :: nat
  assumes put_length: "length pad = npad \<Longrightarrow> length (put pad x) = size"
    and get_put: "length pad = npad \<Longrightarrow> get (put pad x @ rest) = x"
begin

lemma get_put_exact: "length pad = npad \<Longrightarrow> get (put pad x) = x"
  using get_put [of pad x "[]"] by simp

lemma put_inj: "length p = npad \<Longrightarrow> length q = npad \<Longrightarrow> put p x = put q y \<Longrightarrow> x = y"
  by (metis get_put_exact)

lemma header_split: "length pad = npad \<Longrightarrow> drop size (put pad x @ rest) = rest"
  by (simp add: put_length)

end

text \<open>\<open>TimeStamp\<close>: two 64-bit integers, no padding.\<close>

definition stamp_bytes :: "timestamp \<Rightarrow> bytes" where
  "stamp_bytes ts = le_bytes 8 (ts_time ts) @ le_bytes 8 (ts_sequence ts)"

definition stamp_of_bytes :: "bytes \<Rightarrow> timestamp" where
  "stamp_of_bytes bs = TimeStamp (field_at 0 8 bs) (field_at 8 8 bs)"

interpretation stamp_layout: trivial_layout "\<lambda>_. stamp_bytes" stamp_of_bytes 16 0
proof
  fix x rest
  have "field_at 0 8 (le_bytes 8 (ts_time x) @ le_bytes 8 (ts_sequence x) @ rest) = ts_time x"
    using field_at_here [of 8 "[]" 0 "ts_time x"] by simp
  then show "stamp_of_bytes (stamp_bytes x @ rest) = x"
    by (simp add: stamp_of_bytes_def stamp_bytes_def field_at_here)
qed (simp add: stamp_bytes_def)

subsection \<open>Decimal notation\<close>

definition digit_char :: "nat \<Rightarrow> char" where
  "digit_char d = char_of (48 + d)"

fun decimal :: "nat \<Rightarrow> string" where
  "decimal n = (if n < 10 then [digit_char n] else decimal (n div 10) @ [digit_char (n mod 10)])"

declare decimal.simps [simp del]

fun value_of_decimal :: "nat \<Rightarrow> string \<Rightarrow> nat" where
  "value_of_decimal acc [] = acc"
| "value_of_decimal acc (c # cs) = value_of_decimal (10 * acc + (of_char c - 48)) cs"

lemma value_of_decimal_append:
  "value_of_decimal acc (xs @ ys) = value_of_decimal (value_of_decimal acc xs) ys"
  by (induction xs arbitrary: acc) simp_all

lemma digit_char_value: "d < 10 \<Longrightarrow> of_char (digit_char d) - 48 = d"
  by (simp add: digit_char_def of_char_of)

lemma value_of_decimal_decimal: "value_of_decimal 0 (decimal n) = n"
proof (induction n rule: decimal.induct)
  case (1 n)
  show ?case
  proof (cases "n < 10")
    case True
    then show ?thesis by (simp add: decimal.simps [of n] digit_char_value)
  next
    case False
    then show ?thesis
      using 1 by (simp add: decimal.simps [of n] value_of_decimal_append digit_char_value)
  qed
qed

lemma decimal_inj: "decimal m = decimal n \<Longrightarrow> m = n"
  by (metis value_of_decimal_decimal)

end
