(* ===== verification/Kernel_Gvt.thy ===== *)
theory Kernel_Gvt
  imports Kernel_Dispatch Layout
begin

text \<open>
  Global virtual time and commitment (\<open>src/src/simulation.hpp\<close>): the local lower bound,
  pruning of history with the ordered flush of committed output, buffered migrations, the
  notification of the directories, the two-phase coloured protocol, and
  \<open>fossil_collect_\<close>, which drives them.
\<close>

subsection \<open>The lower bound on future work\<close>

text \<open>
  \<open>peek_next_pending_ts_\<close> drops every tombstoned event on top, anti-messages included.
\<close>

definition peek_next_pending_ts :: "(('st, 'w) sim, timestamp option) eff" where
  "peek_next_pending_ts s =
     (let q = dropWhile (cancelled s) (m_pending s)
      in (Inr (case q of [] \<Rightarrow> None | ev # _ \<Rightarrow> Some (ev_ts ev)), s\<lparr>m_pending := q\<rparr>))"

definition compute_gvt :: "(('st, 'w) sim, timestamp) eff" where
  "compute_gvt =
     bnd (gets (\<lambda>s. fold (\<lambda>e gvt. min_stamp gvt (cx_vt (snd e))) (m_lps s) max_stamp)) (\<lambda>gvt.
     bnd peek_next_pending_ts (\<lambda>pendingMin.
     let gvt = (case pendingMin of None \<Rightarrow> gvt | Some ts \<Rightarrow> min_stamp gvt ts) in
     gets (\<lambda>s. if c_gvtMode (m_cfg s) = AckInflight \<and> m_inflightTs s \<noteq> []
               then min_stamp gvt (hd (m_inflightTs s)) else gvt)))"

subsection \<open>Committed output\<close>

record flush_item =
  fi_ts :: timestamp
  fi_lp :: u32
  fi_eventSrc :: u32
  fi_eventUid :: u64
  fi_index :: u32
  fi_payload :: payload

record event_flush_item =
  ei_ts :: timestamp
  ei_lp :: u32
  ei_ev :: event

definition flush_order :: "flush_item \<Rightarrow> flush_item \<Rightarrow> bool" where
  "flush_order a b \<longleftrightarrow>
     (if fi_ts a < fi_ts b then True
      else if fi_ts b < fi_ts a then False
      else if fi_lp a \<noteq> fi_lp b then fi_lp a < fi_lp b
      else if fi_eventSrc a \<noteq> fi_eventSrc b then fi_eventSrc a < fi_eventSrc b
      else if fi_eventUid a \<noteq> fi_eventUid b then fi_eventUid a < fi_eventUid b
      else fi_index a < fi_index b)"

definition event_flush_order :: "event_flush_item \<Rightarrow> event_flush_item \<Rightarrow> bool" where
  "event_flush_order a b \<longleftrightarrow>
     (if ei_ts a < ei_ts b then True
      else if ei_ts b < ei_ts a then False
      else if ei_lp a \<noteq> ei_lp b then ei_lp a < ei_lp b
      else if ev_src (ei_ev a) \<noteq> ev_src (ei_ev b) then ev_src (ei_ev a) < ev_src (ei_ev b)
      else if ev_uid (ei_ev a) \<noteq> ev_uid (ei_ev b) then ev_uid (ei_ev a) < ev_uid (ei_ev b)
      else (if ev_isAnti (ei_ev a) then 1 else 0 :: int) < (if ev_isAnti (ei_ev b) then 1 else 0))"

text \<open>What one committed record contributes to the flush and to the determinism oracle.\<close>

definition record_outputs :: "u32 \<Rightarrow> processed_record \<Rightarrow> flush_item list" where
  "record_outputs lp r =
     map (\<lambda>(i, ts, p). \<lparr>fi_ts = ts, fi_lp = lp, fi_eventSrc = ev_src (pr_ev r),
            fi_eventUid = ev_uid (pr_ev r), fi_index = word_of_nat i, fi_payload = p\<rparr>)
       (enumerate 0 (pr_committed r))"

definition record_event :: "u32 \<Rightarrow> processed_record \<Rightarrow> event_flush_item" where
  "record_event lp r = \<lparr>ei_ts = pr_ts r, ei_lp = lp, ei_ev = pr_ev r\<rparr>"

definition record_items :: "'w config \<Rightarrow> u32 \<Rightarrow> processed_record \<Rightarrow> committed_item list" where
  "record_items cfg lp r =
     (if c_enableDeterminismOracle cfg
      then Committed_Event (c_rank cfg) lp (pr_ev r)
           # (if c_committedSink cfg \<noteq> None
              then map (\<lambda>(ts, p). Committed_Output (c_rank cfg) lp ts p) (pr_committed r) else [])
      else [])"

text \<open>
  The loop over the contexts: the records below \<open>gvt\<close> at the front of every history. (The
  check \<open>rec.ev.ts < gvt\<close> inside the loop repeats its condition and cannot fail.)
\<close>

definition safe_records :: "timestamp \<Rightarrow> 'st lp_context \<Rightarrow> processed_record list" where
  "safe_records gvt cx = takeWhile (\<lambda>r. pr_ts r < gvt) (cx_processed cx)"

definition prune_ctx :: "timestamp \<Rightarrow> 'st lp_context \<Rightarrow> 'st lp_context" where
  "prune_ctx gvt cx = cx\<lparr>cx_processed := dropWhile (\<lambda>r. pr_ts r < gvt) (cx_processed cx),
     cx_sentLog := dropWhile (\<lambda>r. sr_sendTime r < gvt) (cx_sentLog cx)\<rparr>"

definition safe_of ::
  "timestamp \<Rightarrow> ('st, 'w) sim \<Rightarrow> (u32 \<times> processed_record) list" where
  "safe_of gvt s = concat (map (\<lambda>(i, cx). map (Pair i) (safe_records gvt cx)) (m_lps s))"

definition prune_state :: "timestamp \<Rightarrow> ('st, 'w) sim \<Rightarrow> ('st, 'w) sim" where
  "prune_state gvt s =
     s\<lparr>m_lps := map (\<lambda>(i, cx). (i, prune_ctx gvt cx)) (m_lps s),
       m_determinism := fold accumulate
         (concat (map (\<lambda>(i, r). record_items (m_cfg s) i r) (safe_of gvt s))) (m_determinism s),
       m_cancelledByUid := filter (\<lambda>e. \<not> snd e < gvt) (m_cancelledByUid s)\<rparr>"

definition flush_of :: "(u32 \<times> processed_record) list \<Rightarrow> flush_item list" where
  "flush_of safe = sort_by flush_order (concat (map (\<lambda>(i, r). record_outputs i r) safe))"

definition event_flush_of :: "(u32 \<times> processed_record) list \<Rightarrow> event_flush_item list" where
  "event_flush_of safe = sort_by event_flush_order (map (\<lambda>(i, r). record_event i r) safe)"

definition prune_to_gvt :: "timestamp \<Rightarrow> (('st, 'w) sim, unit) eff" where
  "prune_to_gvt gvt =
     bnd (gets (\<lambda>s. (m_cfg s, safe_of gvt s))) (\<lambda>(cfg, safe).
     thn (upd (prune_state gvt))
     (thn (case c_committedSink cfg of
             None \<Rightarrow> ret ()
           | Some sink \<Rightarrow> for_each (\<lambda>it. in_world
               (sink (c_rank cfg) (fi_lp it) (fi_ts it) (fi_payload it))) (flush_of safe))
          (case c_committedEventSink cfg of
             None \<Rightarrow> ret ()
           | Some sink \<Rightarrow> for_each (\<lambda>it. in_world
               (sink (c_rank cfg) (ei_lp it) (ei_ev it))) (event_flush_of safe))))"

subsection \<open>Migrations\<close>

text \<open>The loop of \<open>apply_ready_migrations_\<close> on the buffered migrations, earliest first.\<close>

fun apply_ready :: "(timestamp \<times> migration) list \<Rightarrow> (('st, 'w) sim, unit) eff" where
  "apply_ready [] = ret ()"
| "apply_ready ((ts, mig) # rest) =
     bnd (gets m_lastGvt) (\<lambda>gvt.
     if gvt < ts then ret ()
     else thn (upd (\<lambda>s. s\<lparr>m_pendingMigrations := rest\<rparr>))
       (thn (in_lp (mig_newOwner mig) (\<lambda>lp. lp_on_migration lp (mig_entity mig) (mig_state mig)))
       (thn (upd (\<lambda>s. s\<lparr>m_entityOwner :=
               AList.update (mig_entity mig) (mig_newOwner mig) (m_entityOwner s)\<rparr>))
       (apply_ready rest))))"

definition apply_ready_migrations :: "(('st, 'w) sim, unit) eff" where
  "apply_ready_migrations = bnd (gets m_pendingMigrations) apply_ready"

definition migration_order :: "timestamp \<times> migration \<Rightarrow> timestamp \<times> migration \<Rightarrow> bool" where
  "migration_order a b \<longleftrightarrow> fst a < fst b"

definition apply_migration :: "migration \<Rightarrow> (('st, 'w) sim, unit) eff" where
  "apply_migration mig =
     thn (upd (\<lambda>s. s\<lparr>m_pendingMigrations :=
           insert_by migration_order (mig_effectiveTs mig, mig) (m_pendingMigrations s)\<rparr>))
     apply_ready_migrations"

subsection \<open>Directories\<close>

definition gc_event :: "'w config \<Rightarrow> u32 \<Rightarrow> timestamp \<Rightarrow> u32 \<Rightarrow> event" where
  "gc_event cfg src gvt dir = empty_event\<lparr>ev_ts := gvt, ev_src := src, ev_dst := dir,
     ev_target := 0,
     ev_payload := \<lparr>p_kind = c_directoryFossilCollectKind cfg, p_bytes = stamp_bytes gvt\<rparr>\<rparr>"

definition notify_directories_gvt :: "timestamp \<Rightarrow> (('st, 'w) sim, unit) eff" where
  "notify_directories_gvt gvt =
     bnd get_st (\<lambda>s.
     if c_directoryForEntity (m_cfg s) = None \<or> c_directoryFossilCollectKind (m_cfg s) = 0
        \<or> \<not> m_systemSrcSet s \<or> \<not> m_lastDirectoryGcGvt s < gvt
     then ret ()
     else thn (for_each (\<lambda>dir. send (gc_event (m_cfg s) (m_systemSrc s) gvt dir)) (m_directoryLps s))
          (upd (\<lambda>s. s\<lparr>m_lastDirectoryGcGvt := gvt\<rparr>)))"

subsection \<open>The coloured-counters protocol\<close>

text \<open>
  The counters are 64-bit; the differences the code takes in \<open>int64_t\<close> have the same bits.
\<close>

definition start_red_phase :: "('st, 'w) sim \<Rightarrow> ('st, 'w) sim" where
  "start_red_phase s =
     s\<lparr>m_gvtRedPhase := True,
       m_gvtColor := m_gvtWhiteColor s XOR 1,
       m_gvtWhiteSentAtFlip := m_gvtSentByColor s ! unat (m_gvtWhiteColor s),
       m_gvtMinRedSentTs := max_stamp\<rparr>"

definition end_red_phase :: "('st, 'w) sim \<Rightarrow> ('st, 'w) sim" where
  "end_red_phase s =
     s\<lparr>m_gvtRedPhase := False,
       m_gvtWhiteColor := m_gvtWhiteColor s XOR 1,
       m_gvtColor := m_gvtWhiteColor s XOR 1,
       m_gvtWhiteSentAtFlip := 0,
       m_gvtMinRedSentTs := max_stamp\<rparr>"

definition white_in_transit :: "('st, 'w) sim \<Rightarrow> u64" where
  "white_in_transit s =
     m_gvtWhiteSentAtFlip s - m_gvtRecvByColor s ! unat (m_gvtWhiteColor s)"

definition advance_gvt_colored :: "(('st, 'w) sim, unit) eff" where
  "advance_gvt_colored =
     bnd get_st (\<lambda>s.
     case (c_gvtReduceMin (m_cfg s), c_gvtReduceSum (m_cfg s)) of
       (Some reduceMin, Some reduceSum) \<Rightarrow>
         if \<not> m_gvtRedPhase s
         then bnd (in_world (reduceSum 0)) (\<lambda>_. upd start_red_phase)
         else bnd (in_world (reduceSum (white_in_transit s))) (\<lambda>globalDelta.
           if globalDelta \<noteq> 0 then ret ()
           else bnd compute_gvt (\<lambda>gvt.
             bnd (gets m_gvtMinRedSentTs) (\<lambda>minRed.
             bnd (in_world (reduceMin (min_stamp gvt minRed))) (\<lambda>gvt.
             bnd (gets m_lastGvt) (\<lambda>last.
             if gvt < last then ret ()
             else thn (upd (\<lambda>s. s\<lparr>m_lastGvt := gvt\<rparr>))
               (thn (prune_to_gvt gvt)
               (thn (notify_directories_gvt gvt)
               (upd end_red_phase))))))))
     | _ \<Rightarrow> ret ())"

subsection \<open>Fossil collection\<close>

definition advance_gvt_ack :: "(('st, 'w) sim, unit) eff" where
  "advance_gvt_ack =
     bnd compute_gvt (\<lambda>gvt.
     bnd get_st (\<lambda>s.
     bnd (case c_gvtReduceMin (m_cfg s) of None \<Rightarrow> ret gvt | Some red \<Rightarrow> in_world (red gvt)) (\<lambda>gvt.
     bnd (gets m_lastGvt) (\<lambda>last.
     if gvt < last then validate_invariants
     else thn (upd (\<lambda>s. s\<lparr>m_lastGvt := gvt\<rparr>))
       (thn (prune_to_gvt gvt)
       (thn apply_ready_migrations
       (thn (notify_directories_gvt gvt)
       validate_invariants)))))))"

definition fossil_collect :: "bool \<Rightarrow> (('st, 'w) sim, unit) eff" where
  "fossil_collect doGlobalReduction =
     thn validate_invariants
     (bnd (gets m_cfg) (\<lambda>cfg.
      if c_lpToRank cfg \<noteq> None \<and> c_gvtReduceMin cfg = None then ret ()
      else bnd (gets m_lastGvt) (\<lambda>gvt.
        thn (prune_to_gvt gvt)
        (thn apply_ready_migrations
        (if c_lpToRank cfg \<noteq> None \<and> \<not> doGlobalReduction then validate_invariants
         else if c_gvtMode cfg = ColoredCounters
         then thn advance_gvt_colored
           (thn apply_ready_migrations
           (bnd (gets m_lastGvt) (\<lambda>gvt.
            thn (notify_directories_gvt gvt)
            validate_invariants)))
         else advance_gvt_ack)))))"

end
