(* ===== verification/Kernel_Run.thy ===== *)
theory Kernel_Run
  imports Kernel_Gvt
begin

text \<open>
  The driver (\<open>src/src/simulation.hpp\<close>): receiving wire messages, seeding, the loops
  \<open>poll_transport_count\<close> and \<open>run\<close> (with fuel: neither need end), the steps of \<open>run\<close> and
  \<open>run_one\<close>, the end of a run with the determinism check, and the statistics.
\<close>

subsection \<open>Receiving\<close>

definition count_received :: "event \<Rightarrow> (('st, 'w) sim, unit) eff" where
  "count_received ev = upd (\<lambda>s.
     if ev_isAnti ev then s\<lparr>m_receivedAnti := m_receivedAnti s + 1\<rparr>
     else s\<lparr>m_receivedEvents := m_receivedEvents s + 1\<rparr>)"

definition count_color_received :: "event \<Rightarrow> (('st, 'w) sim, unit) eff" where
  "count_color_received ev = upd (\<lambda>s.
     let i = color_index (ev_gvtColor ev)
     in s\<lparr>m_gvtRecvByColor := (m_gvtRecvByColor s)[i := m_gvtRecvByColor s ! i + 1]\<rparr>)"

definition ack_of :: "u32 \<Rightarrow> u32 \<Rightarrow> event \<Rightarrow> wire_message" where
  "ack_of rank sender ev = \<lparr>wm_kind = Ack_Message, wm_srcRank = rank, wm_dstRank = sender,
     wm_bytes = write_u8 (if ev_isAnti ev then 1 else 0)
       (write_u64 (ev_uid ev) (write_u32 (ev_src ev) []))\<rparr>"

definition read_ack :: "(reader, inflight_key) eff" where
  "read_ack = bnd read_u32 (\<lambda>src. bnd read_u64 (\<lambda>uid. bnd read_u8 (\<lambda>isAnti.
     ret (src, uid, isAnti \<noteq> 0))))"

definition decode_ack :: "bytes \<Rightarrow> exn + inflight_key" where
  "decode_ack bs = fst (read_ack (open_reader bs))"

definition receive_event :: "u32 \<Rightarrow> event \<Rightarrow> (('st, 'w) sim, unit) eff" where
  "receive_event sender ev =
     thn (count_received ev)
     (bnd get_st (\<lambda>s.
      thn (when_eff (c_gvtMode (m_cfg s) = ColoredCounters) (count_color_received ev))
      (thn (when_eff (c_gvtMode (m_cfg s) = AckInflight)
             (in_world (t_send (m_transport s) (ack_of (c_rank (m_cfg s)) sender ev))))
      (thn (when_eff (c_gvtMode (m_cfg s) = AckInflight) (track_inflight_recv ev))
      (enqueue ev)))))"

definition handle_message :: "wire_message \<Rightarrow> (('st, 'w) sim, unit) eff" where
  "handle_message msg =
     (case wm_kind msg of
        Event_Message \<Rightarrow> (case decode_event (wm_bytes msg) of
            Inl e \<Rightarrow> raise e | Inr ev \<Rightarrow> receive_event (wm_srcRank msg) ev)
      | Migration_Message \<Rightarrow> (case decode_migration (wm_bytes msg) of
            Inl e \<Rightarrow> raise e | Inr mig \<Rightarrow> apply_migration mig)
      | Ack_Message \<Rightarrow> bnd (gets (\<lambda>s. c_gvtMode (m_cfg s))) (\<lambda>mode.
            if mode \<noteq> AckInflight then ret ()
            else case decode_ack (wm_bytes msg) of
              Inl e \<Rightarrow> raise e | Inr key \<Rightarrow> clear_inflight_key key)
      | Other_Message _ \<Rightarrow> ret ())"

definition poll_message :: "(('st, 'w) sim, wire_message option) eff" where
  "poll_message = bnd (gets m_transport) (\<lambda>tr. in_world (t_poll tr))"

text \<open>The number of messages consumed; \<open>fuel\<close> bounds the iterations of the loop.\<close>

fun poll_transport_count :: "nat \<Rightarrow> nat \<Rightarrow> (('st, 'w) sim, nat) eff" where
  "poll_transport_count 0 polled = raise Out_Of_Fuel"
| "poll_transport_count (Suc fuel) polled =
     bnd poll_message (\<lambda>msg.
     case msg of
       None \<Rightarrow> ret polled
     | Some m \<Rightarrow> thn (handle_message m) (poll_transport_count fuel (Suc polled)))"

definition poll_transport :: "nat \<Rightarrow> (('st, 'w) sim, unit) eff" where
  "poll_transport fuel = thn (poll_transport_count fuel 0) (ret ())"

subsection \<open>Seeding\<close>

definition start_lp :: "u32 \<Rightarrow> (('st, 'w) sim, unit) eff" where
  "start_lp i = bnd (ctx_of i) (\<lambda>cx.
     for_each (run_sink_call i) (lp_on_start (cx_lp cx) (lp_state (cx_lp cx))))"

definition start_if_needed :: "(('st, 'w) sim, unit) eff" where
  "start_if_needed =
     bnd get_st (\<lambda>s.
     if m_started s then ret ()
     else thn (upd (\<lambda>s. s\<lparr>m_started := True\<rparr>)) (for_each start_lp (map fst (m_lps s))))"

subsection \<open>One step\<close>

text \<open>The result tells whether an event was dispatched.\<close>

definition dispatch_next :: "(('st, 'w) sim, bool) eff" where
  "dispatch_next =
     bnd (gets m_pending) (\<lambda>q.
     if q = [] then ret False
     else bnd pop_next (\<lambda>ev.
       case ev of None \<Rightarrow> ret False | Some ev \<Rightarrow> thn (dispatch ev) (ret True)))"

definition run_one :: "nat \<Rightarrow> bool \<Rightarrow> (('st, 'w) sim, bool) eff" where
  "run_one fuel doCollectives =
     thn start_if_needed
     (bnd (poll_transport_count fuel 0) (\<lambda>polled.
      bnd dispatch_next (\<lambda>dispatched.
      thn (fossil_collect doCollectives)
      (ret (polled \<noteq> 0 \<or> dispatched)))))"

subsection \<open>A whole run\<close>

definition reduce_with :: "(u64 \<Rightarrow> ('w, u64) eff) option \<Rightarrow> u64 \<Rightarrow> (('st, 'w) sim, u64) eff" where
  "reduce_with red x = (case red of None \<Rightarrow> ret x | Some f \<Rightarrow> in_world (f x))"

definition global_digest :: "(('st, 'w) sim, determinism_digest) eff" where
  "global_digest =
     bnd get_st (\<lambda>s.
     let d = m_determinism s in
     bnd (reduce_with (c_reduceU64Sum (m_cfg s)) (committedEventSum d)) (\<lambda>es.
     bnd (reduce_with (c_reduceU64Sum (m_cfg s)) (committedOutputSum d)) (\<lambda>os.
     bnd (reduce_with (c_reduceU64Xor (m_cfg s)) (committedEventXor d)) (\<lambda>ex.
     bnd (reduce_with (c_reduceU64Xor (m_cfg s)) (committedOutputXor d)) (\<lambda>ox.
     ret \<lparr>committedEventSum = es, committedEventXor = ex,
          committedOutputSum = os, committedOutputXor = ox\<rparr>)))))"

definition check_digest :: "(('st, 'w) sim, unit) eff" where
  "check_digest =
     bnd (gets m_cfg) (\<lambda>cfg.
     when_eff (c_enableDeterminismOracle cfg)
       (bnd global_digest (\<lambda>d.
        case c_expectedDeterminismDigest cfg of
          None \<Rightarrow> ret ()
        | Some expected \<Rightarrow> throw_if (\<not> digest_equal d expected)
            ''Determinism oracle failed: digest mismatch'')))"

definition finalize_at_end :: "(('st, 'w) sim, unit) eff" where
  "finalize_at_end =
     thn (prune_to_gvt max_stamp)
     (thn apply_ready_migrations
     (thn check_digest
     (bnd get_st (\<lambda>s.
      throw_if (c_enableInstallBeforeUseBuffering (m_cfg s) \<and> m_deferredTargeted s \<noteq> [])
        ''Install-before-use buffering: simulation ended with deferred targeted events still pending (missing install?)''))))"

definition pending_or_in_transport :: "(('st, 'w) sim, bool) eff" where
  "pending_or_in_transport =
     bnd get_st (\<lambda>s. if m_pending s \<noteq> [] then ret True else in_world (t_has_pending (m_transport s)))"

definition in_flight_balance :: "('st, 'w) sim \<Rightarrow> u64" where
  "in_flight_balance s =
     (m_gvtSentByColor s ! 0 + m_gvtSentByColor s ! 1)
     - (m_gvtRecvByColor s ! 0 + m_gvtRecvByColor s ! 1)"

definition local_has_work :: "bool \<Rightarrow> (('st, 'w) sim, bool) eff" where
  "local_has_work doCollectives =
     bnd pending_or_in_transport (\<lambda>work.
     bnd get_st (\<lambda>s.
     if c_gvtMode (m_cfg s) = AckInflight then ret (work \<or> m_inflightByUid s \<noteq> [])
     else case c_gvtReduceSum (m_cfg s) of
       Some reduceSum \<Rightarrow>
         if doCollectives
         then bnd (in_world (reduceSum (in_flight_balance s))) (\<lambda>globalInFlight.
                ret (work \<or> globalInFlight \<noteq> 0 \<or> m_gvtRedPhase s))
         else ret (work \<or> c_anyRankHasWork (m_cfg s) \<noteq> None)
     | None \<Rightarrow> ret (work \<or> c_anyRankHasWork (m_cfg s) \<noteq> None)))"

text \<open>The body of the loop of \<open>run\<close>; \<open>True\<close> is its return.\<close>

definition run_iteration :: "nat \<Rightarrow> bool \<Rightarrow> (('st, 'w) sim, bool) eff" where
  "run_iteration pollFuel doCollectives =
     thn (poll_transport pollFuel)
     (thn dispatch_next
     (thn (fossil_collect doCollectives)
     (bnd (local_has_work doCollectives) (\<lambda>work.
      bnd (gets (\<lambda>s. c_anyRankHasWork (m_cfg s))) (\<lambda>anyRank.
      case anyRank of
        Some any \<Rightarrow>
          if \<not> doCollectives then ret False
          else bnd (in_world (any work)) (\<lambda>globalWork.
            if globalWork then ret False else thn finalize_at_end (ret True))
      | None \<Rightarrow> if work then ret False else thn finalize_at_end (ret True))))))"

fun run_loop :: "nat \<Rightarrow> nat \<Rightarrow> u64 \<Rightarrow> u64 \<Rightarrow> (('st, 'w) sim, unit) eff" where
  "run_loop 0 pollFuel period iters = raise Out_Of_Fuel"
| "run_loop (Suc fuel) pollFuel period iters =
     bnd (run_iteration pollFuel ((iters + 1) mod period = 0)) (\<lambda>finished.
     if finished then ret () else run_loop fuel pollFuel period (iters + 1))"

definition run :: "nat \<Rightarrow> nat \<Rightarrow> (('st, 'w) sim, unit) eff" where
  "run fuel pollFuel =
     thn start_if_needed
     (bnd (gets m_cfg) (\<lambda>cfg.
      run_loop fuel pollFuel
        (if c_collectivePeriodIters cfg = 0 then 1 else c_collectivePeriodIters cfg) 0))"

subsection \<open>Statistics\<close>

record sim_stats =
  st_gvt :: timestamp
  st_pending :: nat
  st_inflight :: nat
  st_cancelled :: nat
  st_processed :: nat
  st_sentLog :: nat
  st_totalProcessed :: u64
  st_rollbacksTotal :: u64
  st_rollbacksStraggler :: u64
  st_rollbacksAnti :: u64
  st_rollbackUndoneEvents :: u64
  st_sentEvents :: u64
  st_sentAnti :: u64
  st_receivedEvents :: u64
  st_receivedAnti :: u64
  st_antiCancelledPending :: u64
  st_antiCancelledProcessed :: u64

definition stats :: "('st, 'w) sim \<Rightarrow> sim_stats" where
  "stats s = \<lparr>
     st_gvt = m_lastGvt s,
     st_pending = length (m_pending s),
     st_inflight = length (m_inflightByUid s),
     st_cancelled = length (m_cancelledByUid s),
     st_processed = sum_list (map (\<lambda>e. length (cx_processed (snd e))) (m_lps s)),
     st_sentLog = sum_list (map (\<lambda>e. length (cx_sentLog (snd e))) (m_lps s)),
     st_totalProcessed = m_totalProcessed s,
     st_rollbacksTotal = m_rollbacksTotal s,
     st_rollbacksStraggler = m_rollbacksStraggler s,
     st_rollbacksAnti = m_rollbacksAnti s,
     st_rollbackUndoneEvents = m_rollbackUndoneEvents s,
     st_sentEvents = m_sentEvents s,
     st_sentAnti = m_sentAnti s,
     st_receivedEvents = m_receivedEvents s,
     st_receivedAnti = m_receivedAnti s,
     st_antiCancelledPending = m_antiCancelledPending s,
     st_antiCancelledProcessed = m_antiCancelledProcessed s\<rparr>"

end
