(* ===== verification/Kernel_Inv.thy ===== *)
theory Kernel_Inv
  imports Kernel_Run
begin

text \<open>
  The structural invariant of the kernel and the proof that every operation keeps it, on
  every path, exceptions included. The locale \<open>send_stable\<close> states what a property of the
  kernel's state has to survive for \<open>send\<close> to keep it; it is interpreted for the structural
  invariant, for the part of the state that sending leaves alone, and in the theories on
  rollback and GVT for theirs.
\<close>

subsection \<open>Properties of all contexts\<close>

definition all_ctx :: "(u32 \<Rightarrow> 'st lp_context \<Rightarrow> bool) \<Rightarrow> ('st, 'w) sim \<Rightarrow> bool" where
  "all_ctx P s \<longleftrightarrow> (\<forall>i cx. (i, cx) \<in> set (m_lps s) \<longrightarrow> P i cx)"

lemma all_ctxD: "all_ctx P s \<Longrightarrow> (i, cx) \<in> set (m_lps s) \<Longrightarrow> P i cx"
  by (auto simp: all_ctx_def)

lemma all_ctx_map_of: "all_ctx P s \<Longrightarrow> map_of (m_lps s) i = Some cx \<Longrightarrow> P i cx"
  by (auto dest: map_of_SomeD all_ctxD)

lemma all_ctx_cong: "m_lps t = m_lps s \<Longrightarrow> all_ctx P t = all_ctx P s"
  by (simp add: all_ctx_def)

lemma all_ctx_upd_ctx:
  assumes "all_ctx P s" and "\<And>cx. (i, cx) \<in> set (m_lps s) \<Longrightarrow> P i cx \<Longrightarrow> P i (f cx)"
  shows "all_ctx P (upd_ctx i f s)"
  using assms by (auto simp: all_ctx_def in_set_on_key)

lemma all_ctx_imp:
  "all_ctx P s \<Longrightarrow> (\<And>i cx. (i, cx) \<in> set (m_lps s) \<Longrightarrow> P i cx \<Longrightarrow> Q i cx) \<Longrightarrow> all_ctx Q s"
  by (auto simp: all_ctx_def)

text \<open>Inside an operation on the context it has just looked up.\<close>

lemma keeps_bnd_ctx_of:
  assumes "\<And>cx s. I s \<Longrightarrow> map_of (m_lps s) i = Some cx \<Longrightarrow> I (snd (f cx s))"
  shows "keeps I (bnd (ctx_of i) f)"
  using assms by (auto simp: keeps_def bnd_def ctx_of_def split: option.splits)

subsection \<open>What sending may change\<close>

text \<open>
  \<open>send_stable I ok\<close>: the property \<open>I\<close> survives each state change that \<open>send\<close> is made of,
  for the events satisfying \<open>ok\<close>.
\<close>

locale send_stable =
  fixes I :: "('st, 'w) sim \<Rightarrow> bool" and ok :: "event \<Rightarrow> bool"
  assumes ok_uid: "ok ev \<Longrightarrow> ok (set_ev_uid u ev)"
    and ok_sequence: "ok ev \<Longrightarrow> ts_sequence (ev_ts ev) = 0 \<Longrightarrow> ok (set_ev_sequence q ev)"
    and ok_dst: "ok ev \<Longrightarrow> ok (ev\<lparr>ev_dst := d\<rparr>)"
    and ok_color: "ok ev \<Longrightarrow> ok (ev\<lparr>ev_gvtColor := c\<rparr>)"
    and I_uid: "I s \<Longrightarrow> I (upd_ctx i (\<lambda>c. c\<lparr>cx_nextUid := u\<rparr>) s)"
    and I_normal: "I s \<Longrightarrow> I (upd_ctx i (\<lambda>c. c\<lparr>cx_nextSeqNormal := u\<rparr>) s)"
    and I_control: "I s \<Longrightarrow> I (upd_ctx i (\<lambda>c. c\<lparr>cx_nextSeqControl := u\<rparr>) s)"
    and I_dirs: "I s \<Longrightarrow> I (s\<lparr>m_directoryLps := ds\<rparr>)"
    and I_sentAnti: "I s \<Longrightarrow> I (s\<lparr>m_sentAnti := n\<rparr>)"
    and I_sentEvents: "I s \<Longrightarrow> I (s\<lparr>m_sentEvents := n\<rparr>)"
    and I_pending: "I s \<Longrightarrow> ok ev \<Longrightarrow> I (s\<lparr>m_pending := pending_push ev (m_pending s)\<rparr>)"
    and I_log: "I s \<Longrightarrow> ok ev \<Longrightarrow> \<not> ev_isAnti ev \<Longrightarrow> map_of (m_lps s) (ev_src ev) = Some cx \<Longrightarrow>
      I (upd_ctx (ev_src ev) (\<lambda>c. c\<lparr>cx_sentLog := cx_sentLog c @
        [\<lparr>sr_sendTime = (if cx_inEvent cx then cx_currentExecTs cx else zero_stamp),
           sr_msgTime = ev_ts ev, sr_dst = ev_dst ev, sr_uid = ev_uid ev\<rparr>]\<rparr>) s)"
    and I_world: "I s \<Longrightarrow> I (s\<lparr>m_world := w\<rparr>)"
    and I_inflight: "I s \<Longrightarrow> ok ev \<Longrightarrow> I (snd (track_inflight_send ev s))"
    and I_red: "I s \<Longrightarrow> I (snd (count_red_sent ev s))"
begin

lemma keeps_enqueue: "ok ev \<Longrightarrow> keeps I (enqueue ev)"
  by (simp add: enqueue_def keeps_upd I_pending)

lemma keeps_count_sent: "keeps I (count_sent ev)"
  by (simp add: count_sent_def keeps_upd I_sentAnti I_sentEvents)

lemma keeps_send_world: "keeps I (in_world m)"
  by (rule keeps_in_world) (rule I_world)

lemma keeps_log_sent:
  assumes "ok ev"
  shows "keeps I (log_sent ev)"
proof (cases "ev_isAnti ev")
  case True
  then show ?thesis by (simp add: log_sent_def when_eff_def keeps_def)
next
  case False
  have "keeps I (bnd (ctx_of (ev_src ev)) (\<lambda>cx.
      let sendTime = (if cx_inEvent cx then cx_currentExecTs cx else zero_stamp) in
      upd (upd_ctx (ev_src ev) (\<lambda>c. c\<lparr>cx_sentLog := cx_sentLog c @
        [\<lparr>sr_sendTime = sendTime, sr_msgTime = ev_ts ev, sr_dst = ev_dst ev,
           sr_uid = ev_uid ev\<rparr>]\<rparr>))))"
  proof (rule keeps_bnd_ctx_of)
    fix cx s assume "I s" "map_of (m_lps s) (ev_src ev) = Some cx"
    from I_log [OF this(1) assms False this(2)]
    show "I (snd ((let sendTime = (if cx_inEvent cx then cx_currentExecTs cx else zero_stamp) in
      upd (upd_ctx (ev_src ev) (\<lambda>c. c\<lparr>cx_sentLog := cx_sentLog c @
        [\<lparr>sr_sendTime = sendTime, sr_msgTime = ev_ts ev, sr_dst = ev_dst ev,
           sr_uid = ev_uid ev\<rparr>]\<rparr>))) s))"
      by (simp only: Let_def upd_run snd_conv)
  qed
  with False show ?thesis by (simp only: log_sent_def when_eff_def if_True not_False_eq_True)
qed

lemma keeps_assign_uid: "keeps I (assign_uid ev)"
  by (auto simp: assign_uid_def Let_def intro!: keeps_intros keeps_upd I_uid)

lemma keeps_assign_sequence: "keeps I (assign_sequence ev)"
  by (auto simp: assign_sequence_def Let_def
      intro!: keeps_intros keeps_upd I_normal I_control split: option.split)

lemma keeps_route: "keeps I (route_event ev)"
  by (auto simp: route_event_def route_targeted_def Let_def
      intro!: keeps_intros keeps_upd I_dirs split: option.split)

lemma ok_paint: "ok ev \<Longrightarrow> ok (paint s ev)"
  by (simp add: paint_def ok_color)

lemma yields_assign_uid: "ok ev \<Longrightarrow> yields ok (assign_uid ev)"
  unfolding assign_uid_def Let_def by (intro yields_intros ok_uid)

lemma yields_assign_sequence: "ok ev \<Longrightarrow> yields ok (assign_sequence ev)"
  unfolding assign_sequence_def Let_def by (intro yields_intros ok_sequence)

lemma yields_route_targeted: "ok ev \<Longrightarrow> yields ok (route_targeted ev)"
  unfolding route_targeted_def Let_def
  by (intro yields_intros) (auto intro: ok_dst split: option.split)

lemma yields_route: "ok ev \<Longrightarrow> yields ok (route_event ev)"
  unfolding route_event_def
  by (intro yields_if yields_bnd_with [OF yields_route_targeted] yields_intros)

lemma keeps_send_local: "ok ev \<Longrightarrow> keeps I (send_local ev)"
  unfolding send_local_def
  by (intro keeps_bnd_yields [where Q = ok] keeps_intros keeps_count_sent keeps_enqueue keeps_log_sent)
    (auto simp: yields_def intro: ok_paint)

lemma keeps_send_remote:
  assumes "ok ev"
  shows "keeps I (send_remote r ev)"
  unfolding send_remote_def Let_def
proof (rule keeps_bnd [OF keeps_get_st], rule keeps_bnd_yields [where Q = ok])
  fix s0 :: "('st, 'w) sim"
  have "keeps I (track_inflight_send ev)" "keeps I (count_red_sent e)" for e
    by (simp_all add: keeps_def I_inflight I_red assms)
  then show "keeps I (if c_gvtMode (m_cfg s0) = AckInflight
      then thn (track_inflight_send ev) (ret ev)
      else thn (count_red_sent (paint s0 ev)) (ret (paint s0 ev)))"
    by (intro keeps_intros)
  show "yields ok (if c_gvtMode (m_cfg s0) = AckInflight
      then thn (track_inflight_send ev) (ret ev)
      else thn (count_red_sent (paint s0 ev)) (ret (paint s0 ev)))"
    using assms ok_paint by (auto intro!: yields_intros)
qed (intro keeps_intros keeps_count_sent keeps_send_world keeps_log_sent)

lemma keeps_send:
  assumes "ok ev"
  shows "keeps I (send ev)"
  unfolding send_def Let_def
  by (intro keeps_thn keeps_validate keeps_bnd_yields [where Q = ok] keeps_assign_uid
      yields_assign_uid keeps_assign_sequence yields_assign_sequence keeps_route yields_route
      keeps_bnd [OF keeps_get_st] keeps_if keeps_send_local keeps_send_remote assms)

lemma keeps_sends: "(\<And>ev. ev \<in> set evs \<Longrightarrow> ok ev) \<Longrightarrow> keeps I (for_each send evs)"
  by (intro keeps_intros keeps_send)

end

end
