(* ===== verification/Kernel_Wf.thy ===== *)
theory Kernel_Wf
  imports Kernel_Inv
begin

text \<open>
  The structural invariant \<open>sim_wf\<close> of the kernel: every history is sorted and not ahead of
  its context's virtual time, the pending queue is ordered, the two in-flight containers
  agree, and the colour counters are in range. Every operation keeps it, and while it holds
  the optional run-time checks can only report an exhausted counter.
\<close>

subsection \<open>The invariant\<close>

definition ctx_wf :: "'st lp_context \<Rightarrow> bool" where
  "ctx_wf cx \<longleftrightarrow> sorted (map pr_ts (cx_processed cx))
     \<and> (\<forall>r \<in> set (cx_processed cx). pr_ts r \<le> cx_vt cx)
     \<and> (cx_inEvent cx \<longrightarrow> cx_currentExecTs cx = cx_vt cx)"

definition lps_wf :: "('st, 'w) sim \<Rightarrow> bool" where
  "lps_wf s \<longleftrightarrow> distinct (map fst (m_lps s))
     \<and> all_ctx (\<lambda>i cx. lp_id (cx_lp cx) = i \<and> ctx_wf cx) s"

definition colors_wf :: "('st, 'w) sim \<Rightarrow> bool" where
  "colors_wf s \<longleftrightarrow> length (m_gvtSentByColor s) = 2 \<and> length (m_gvtRecvByColor s) = 2
     \<and> m_gvtWhiteColor s \<in> {0, 1} \<and> m_gvtColor s \<in> {0, 1}"

definition queues_wf :: "('st, 'w) sim \<Rightarrow> bool" where
  "queues_wf s \<longleftrightarrow> pending_wf (m_pending s) \<and> inflight_wf s \<and> colors_wf s"

definition sim_wf :: "('st, 'w) sim \<Rightarrow> bool" where
  "sim_wf s \<longleftrightarrow> lps_wf s \<and> queues_wf s"

definition idle :: "('st, 'w) sim \<Rightarrow> bool" where
  "idle s \<longleftrightarrow> all_ctx (\<lambda>i cx. \<not> cx_inEvent cx) s"

abbreviation idle_wf :: "('st, 'w) sim \<Rightarrow> bool" where
  "idle_wf s \<equiv> sim_wf s \<and> idle s"

subsection \<open>What sending leaves alone\<close>

definition ctx_core :: "'st lp_context \<Rightarrow> 'st lp \<times> timestamp \<times> bool \<times> timestamp \<times> processed_record list" where
  "ctx_core cx = (cx_lp cx, cx_vt cx, cx_inEvent cx, cx_currentExecTs cx, cx_processed cx)"

definition cores where
  "cores (s :: ('st, 'w) sim) = map (\<lambda>(i, cx). (i, ctx_core cx)) (m_lps s)"

definition send_frame where
  "send_frame (s :: ('st, 'w) sim) = (cores s, m_cfg s, m_transport s, m_cancelledByUid s, m_deferredTargeted s,
     m_lastGvt s, m_pendingMigrations s, m_entityOwner s, m_started s, m_gvtColor s,
     m_gvtWhiteColor s)"

lemma cores_upd_ctx:
  "(\<And>cx. ctx_core (f cx) = ctx_core cx) \<Longrightarrow> cores (upd_ctx i f s) = cores s"
  by (auto simp: cores_def on_key_def)

lemma cores_cong: "m_lps t = m_lps s \<Longrightarrow> cores t = cores s"
  by (simp add: cores_def)

lemma fst_cores: "map fst (cores s) = map fst (m_lps s)"
  by (simp add: cores_def case_prod_beta comp_def)

lemma cores_keys: "cores t = cores s \<Longrightarrow> map fst (m_lps t) = map fst (m_lps s)"
  by (metis fst_cores)

lemma all_ctx_cores:
  assumes "cores t = cores s" and "all_ctx P s"
    and "\<And>i cx cx'. ctx_core cx' = ctx_core cx \<Longrightarrow> P i cx \<Longrightarrow> P i cx'"
  shows "all_ctx P t"
  unfolding all_ctx_def
proof (intro allI impI)
  fix i cx assume "(i, cx) \<in> set (m_lps t)"
  then have "(i, ctx_core cx) \<in> set (cores t)" by (force simp: cores_def)
  then have "(i, ctx_core cx) \<in> set (cores s)" using assms(1) by simp
  then obtain cx' where "(i, cx') \<in> set (m_lps s)" "ctx_core cx = ctx_core cx'"
    by (auto simp: cores_def)
  then show "P i cx" using assms(2,3) by (metis all_ctxD)
qed

lemma lps_wf_cores: "cores t = cores s \<Longrightarrow> lps_wf s \<Longrightarrow> lps_wf t"
  unfolding lps_wf_def
  by (auto simp: ctx_core_def ctx_wf_def dest: cores_keys elim!: all_ctx_cores)

lemma idle_cores: "cores t = cores s \<Longrightarrow> idle s \<Longrightarrow> idle t"
  unfolding idle_def by (auto simp: ctx_core_def elim!: all_ctx_cores)

lemma map_of_cores: "map_of (cores s) i = map_option ctx_core (map_of (m_lps s) i)"
  by (simp add: cores_def map_of_map)

lemma cores_map_of:
  assumes "cores t = cores s" and "map_of (m_lps s) i = Some cx"
  shows "\<exists>cx'. map_of (m_lps t) i = Some cx' \<and> ctx_core cx' = ctx_core cx"
  using map_of_cores [of t i] map_of_cores [of s i] assms
  by (cases "map_of (m_lps t) i") simp_all

lemma send_frame_upd_ctx:
  "(\<And>cx. ctx_core (f cx) = ctx_core cx) \<Longrightarrow> send_frame (upd_ctx i f s) = send_frame s"
  by (simp add: send_frame_def cores_upd_ctx)

lemma send_frame_track: "send_frame (snd (track_inflight_send ev s)) = send_frame s"
  by (cases "map_of (m_inflightByUid s) (inflight_key_of ev) = None")
    (simp_all add: track_inflight_send_def send_frame_def cores_def)

lemma send_frame_red: "send_frame (snd (count_red_sent ev s)) = send_frame s"
  by (cases "ev_gvtColor ev = m_gvtWhiteColor s")
    (simp_all add: count_red_sent_def Let_def send_frame_def cores_def)

lemma send_frame_log:
  "send_frame (upd_ctx i (\<lambda>c. c\<lparr>cx_sentLog := cx_sentLog c @ l\<rparr>) s) = send_frame s"
  by (rule send_frame_upd_ctx) (simp add: ctx_core_def)

interpretation send_frame: send_stable "\<lambda>s. send_frame s = X" "\<lambda>_. True" for X
proof unfold_locales
qed (simp_all add: send_frame_track send_frame_red send_frame_log send_frame_upd_ctx ctx_core_def
      del: if_split, simp_all add: send_frame_def cores_def)

lemma send_keeps_frame:
  "send ev s = (r, t) \<Longrightarrow> send_frame t = send_frame s"
  by (rule keeps_result [OF send_frame.keeps_send]) simp_all

lemma keeps_send_cores: "keeps (\<lambda>s. cores s = X) (send ev)"
proof (rule keepsI)
  fix s :: "('a, 'b) sim" assume "cores s = X"
  obtain r t where run: "send ev s = (r, t)" by fastforce
  then show "cores (snd (send ev s)) = X"
    using send_keeps_frame [OF run] \<open>cores s = X\<close> by (simp add: send_frame_def)
qed

lemma keeps_send_cores_inv:
  fixes I :: "('a, 'b) sim \<Rightarrow> bool"
  assumes "\<And>s t. cores t = cores s \<Longrightarrow> I s \<Longrightarrow> I t"
  shows "keeps I (send ev)"
proof (rule keepsI)
  fix s :: "('a, 'b) sim" assume "I s"
  have "cores (snd (send ev s)) = cores s"
    using keepsD [OF keeps_send_cores] by blast
  then show "I (snd (send ev s))" using \<open>I s\<close> by (rule assms)
qed

lemma queues_wf_upd_ctx [simp]: "queues_wf (upd_ctx i f s) = queues_wf s"
  by (simp add: queues_wf_def inflight_wf_def colors_wf_def upd_ctx_def)

interpretation send_queues: send_stable queues_wf "\<lambda>_. True"
proof (unfold_locales, goal_cases)
  case (11 s ev)
  then show ?case
    by (simp add: queues_wf_def inflight_wf_def colors_wf_def)
next
  case (14 s ev)
  have "inflight_wf (snd (track_inflight_send ev s))"
    using 14 by (simp add: queues_wf_def inflight_wf_send)
  then show ?case using 14
    by (simp add: queues_wf_def colors_wf_def track_inflight_send_def)
next
  case (15 s ev)
  then show ?case
    by (simp add: queues_wf_def inflight_wf_def colors_wf_def count_red_sent_def Let_def)
qed (simp_all add: queues_wf_def inflight_wf_def colors_wf_def)

subsection \<open>State changes that keep the invariant\<close>

lemmas wf_defs = sim_wf_def lps_wf_def queues_wf_def inflight_wf_def colors_wf_def idle_def
  all_ctx_def

lemma keeps_sim_wf: "keeps lps_wf m \<Longrightarrow> keeps queues_wf m \<Longrightarrow> keeps sim_wf m"
  by (simp add: keeps_def sim_wf_def)

lemma keeps_send_sim_wf: "keeps sim_wf (send ev)"
  by (rule keeps_sim_wf [OF keeps_send_cores_inv [OF lps_wf_cores] send_queues.keeps_send]) simp_all

lemma keeps_send_idle: "keeps idle (send ev)"
  by (rule keeps_send_cores_inv [OF idle_cores]) simp_all

lemma keeps_send_idle_wf: "keeps idle_wf (send ev)"
  by (intro keeps_conj keeps_send_sim_wf keeps_send_idle)

lemma sim_wf_upd_ctx:
  assumes "sim_wf s"
    and "\<And>cx. (i, cx) \<in> set (m_lps s) \<Longrightarrow> lp_id (cx_lp cx) = i \<Longrightarrow> ctx_wf cx \<Longrightarrow>
      lp_id (cx_lp (f cx)) = i \<and> ctx_wf (f cx)"
  shows "sim_wf (upd_ctx i f s)"
  using assms unfolding sim_wf_def lps_wf_def
  by (auto intro!: all_ctx_upd_ctx simp del: all_ctx_def)

lemma idle_wf_upd_ctx:
  assumes "idle_wf s"
    and "\<And>cx. (i, cx) \<in> set (m_lps s) \<Longrightarrow> lp_id (cx_lp cx) = i \<Longrightarrow> ctx_wf cx \<Longrightarrow> \<not> cx_inEvent cx \<Longrightarrow>
      lp_id (cx_lp (f cx)) = i \<and> ctx_wf (f cx) \<and> \<not> cx_inEvent (f cx)"
  shows "idle_wf (upd_ctx i f s)"
proof
  show "sim_wf (upd_ctx i f s)"
    using assms by (intro sim_wf_upd_ctx) (auto simp: idle_def dest: all_ctxD)
  show "idle (upd_ctx i f s)"
    using assms unfolding idle_def sim_wf_def lps_wf_def
    by (intro all_ctx_upd_ctx) (auto dest: all_ctxD)
qed

lemma keeps_in_lp:
  assumes "\<And>s st. I s \<Longrightarrow> I (upd_ctx i (\<lambda>c. c\<lparr>cx_lp := (cx_lp c)\<lparr>lp_state := st\<rparr>\<rparr>) s)"
  shows "keeps I (in_lp i m)"
  unfolding in_lp_def
  by (rule keeps_bnd [OF keeps_ctx_of]) (auto simp: assms keeps_def split: prod.split)

lemma idle_wf_set_state:
  "idle_wf s \<Longrightarrow> idle_wf (upd_ctx i (\<lambda>c. c\<lparr>cx_lp := (cx_lp c)\<lparr>lp_state := st\<rparr>\<rparr>) s)"
  by (rule idle_wf_upd_ctx) (auto simp: ctx_wf_def)

lemma keeps_in_lp_idle_wf: "keeps idle_wf (in_lp i m)"
  by (intro keeps_in_lp idle_wf_set_state)

lemma keeps_in_world_idle_wf: "keeps idle_wf (in_world m)"
  by (rule keeps_in_world) (simp add: wf_defs)

lemma keeps_enqueue_idle_wf: "keeps idle_wf (enqueue ev)"
  unfolding enqueue_def by (rule keeps_upd) (simp add: wf_defs)

subsection \<open>Rollback\<close>

definition below :: "u32 \<Rightarrow> timestamp \<Rightarrow> ('st, 'w) sim \<Rightarrow> bool" where
  "below i to = all_ctx (\<lambda>j cx. j = i \<longrightarrow> (\<forall>r \<in> set (cx_processed cx). pr_ts r < to))"

text \<open>The first loop of \<open>rollback\<close> in closed form.\<close>

definition undo_one :: "u32 \<Rightarrow> processed_record \<Rightarrow> ('st, 'w) sim \<Rightarrow> ('st, 'w) sim" where
  "undo_one i r s = (let s = restore_cancellation r s in
     upd_ctx i (\<lambda>c. c\<lparr>cx_processed := butlast (cx_processed c)\<rparr>)
       (s\<lparr>m_pending := pending_push (pr_ev r) (m_pending s)\<rparr>))"

lemma undo_processed_run:
  "undo_processed i to rs s =
     (Inr (takeWhile (\<lambda>r. \<not> pr_ts r < to) rs),
      fold (undo_one i) (takeWhile (\<lambda>r. \<not> pr_ts r < to) rs) s)"
  by (induction rs arbitrary: s) (simp_all add: enqueue_def undo_one_def Let_def)

lemma restore_cancellation_fields [simp]:
  "m_lps (restore_cancellation r s) = m_lps s" "m_pending (restore_cancellation r s) = m_pending s"
  "queues_wf (restore_cancellation r s) = queues_wf s"
  "m_cfg (restore_cancellation r s) = m_cfg s" "m_world (restore_cancellation r s) = m_world s"
  "m_lastGvt (restore_cancellation r s) = m_lastGvt s"
  "m_transport (restore_cancellation r s) = m_transport s"
  by (simp_all add: restore_cancellation_def wf_defs)

lemma m_lps_undo_one:
  "m_lps (undo_one i r s) = on_key i (\<lambda>c. c\<lparr>cx_processed := butlast (cx_processed c)\<rparr>) (m_lps s)"
  by (simp add: undo_one_def Let_def)

lemma on_key_id: "(\<And>c. f c = c) \<Longrightarrow> on_key i f m = m"
  by (induction m) (auto simp: on_key_def)

lemma on_key_cong: "(\<And>c. f c = g c) \<Longrightarrow> on_key i f m = on_key i g m"
  by (simp add: on_key_def)

lemma m_lps_undo:
  "m_lps (fold (undo_one i) rs s) =
     on_key i (\<lambda>c. c\<lparr>cx_processed := take (length (cx_processed c) - length rs) (cx_processed c)\<rparr>) (m_lps s)"
proof (induction rs arbitrary: s)
  case Nil
  show ?case by (simp add: on_key_id)
next
  case (Cons r rs)
  have "take (length (butlast xs) - length rs) (butlast xs) = take (length xs - length (r # rs)) xs"
    for xs :: "processed_record list"
    by (simp add: butlast_conv_take min_def)
  then show ?case
    by (simp add: Cons.IH m_lps_undo_one comp_def)
qed

lemma m_pending_undo:
  "m_pending (fold (undo_one i) rs s) = fold (\<lambda>r. pending_push (pr_ev r)) rs (m_pending s)"
  by (induction rs arbitrary: s) (simp_all add: undo_one_def Let_def)

text \<open>
  On a sorted history, what the loop pops from the back is what lies at or after \<open>to\<close>, and
  what it leaves is what lies before.
\<close>

lemma sorted_dropWhile_ge:
  "sorted (map f xs) \<Longrightarrow> x \<in> set (dropWhile (\<lambda>x. f x < to) xs) \<Longrightarrow> \<not> f x < (to :: 'b :: linorder)"
  by (induction xs) (auto split: if_splits)

lemma undone_suffix:
  fixes to :: "'b :: linorder"
  assumes "sorted (map f xs)"
  shows "takeWhile (\<lambda>x. \<not> f x < to) (rev xs) = rev (dropWhile (\<lambda>x. f x < to) xs)"
proof -
  let ?A = "takeWhile (\<lambda>x. f x < to) xs" and ?B = "dropWhile (\<lambda>x. f x < to) xs"
  have "rev (?A @ ?B) = rev xs" by (rule arg_cong [where f = rev], rule takeWhile_dropWhile_id)
  then have "rev xs = rev ?B @ rev ?A" unfolding rev_append by (rule sym)
  then have "takeWhile (\<lambda>x. \<not> f x < to) (rev xs) = takeWhile (\<lambda>x. \<not> f x < to) (rev ?B @ rev ?A)"
    by (simp only:)
  also have "\<dots> = rev ?B @ takeWhile (\<lambda>x. \<not> f x < to) (rev ?A)"
    by (rule takeWhile_append2) (use sorted_dropWhile_ge [OF assms, of _ to] in \<open>simp only: set_rev not_False_eq_True\<close>)
  also have "takeWhile (\<lambda>x. \<not> f x < to) (rev ?A) = []"
  proof (cases "rev ?A")
    case (Cons y ys)
    then have "y \<in> set ?A" by (metis list.set_intros(1) set_rev)
    then show ?thesis using Cons set_takeWhileD by fastforce
  qed simp
  finally show ?thesis by simp
qed

lemma kept_prefix:
  fixes to :: "'b :: linorder"
  assumes "sorted (map f xs)"
  shows "take (length xs - length (takeWhile (\<lambda>x. \<not> f x < to) (rev xs))) xs
    = takeWhile (\<lambda>x. f x < to) xs"
proof -
  let ?A = "takeWhile (\<lambda>x. f x < to) xs" and ?B = "dropWhile (\<lambda>x. f x < to) xs"
  have "length (?A @ ?B) = length xs" by (simp only: takeWhile_dropWhile_id)
  then have "length xs - length ?B = length ?A" unfolding length_append by arith
  then show ?thesis
    using takeWhile_eq_take [of "\<lambda>x. f x < to" xs] by (simp add: undone_suffix [OF assms])
qed

lemma ctx_wf_sub:
  "ctx_wf cx \<Longrightarrow> sorted (map pr_ts xs) \<Longrightarrow> set xs \<subseteq> set (cx_processed cx) \<Longrightarrow>
   ctx_wf (cx\<lparr>cx_processed := xs\<rparr>)"
  by (auto simp: ctx_wf_def)

lemma sorted_butlast: "sorted xs \<Longrightarrow> sorted (butlast xs)"
  by (simp add: butlast_conv_take sorted_wrt_take)

lemma ctx_wf_butlast: "ctx_wf cx \<Longrightarrow> ctx_wf (cx\<lparr>cx_processed := butlast (cx_processed cx)\<rparr>)"
  by (rule ctx_wf_sub) (auto simp: ctx_wf_def map_butlast sorted_butlast dest: in_set_butlastD)

lemma idle_wf_undo_one: "idle_wf s \<Longrightarrow> idle_wf (undo_one i r s)"
  unfolding undo_one_def Let_def
  by (rule idle_wf_upd_ctx) (auto simp: restore_cancellation_def wf_defs intro: ctx_wf_butlast)

lemma idle_wf_undo: "idle_wf s \<Longrightarrow> idle_wf (fold (undo_one i) rs s)"
  by (induction rs arbitrary: s) (auto simp: idle_wf_undo_one)

lemma sim_wf_ctx:
  "sim_wf s \<Longrightarrow> map_of (m_lps s) i = Some cx \<Longrightarrow> ctx_wf cx \<and> lp_id (cx_lp cx) = i"
  by (auto simp: sim_wf_def lps_wf_def dest: all_ctx_map_of)

lemma sim_wf_unique:
  assumes "sim_wf s" and cx: "map_of (m_lps s) i = Some cx"
  shows "(i, cx') \<in> set (m_lps s) \<longleftrightarrow> cx' = cx"
proof
  have "distinct (map fst (m_lps s))" using assms by (simp add: sim_wf_def lps_wf_def)
  then show "(i, cx') \<in> set (m_lps s) \<Longrightarrow> cx' = cx" using cx by (simp add: map_of_is_SomeI)
  show "cx' = cx \<Longrightarrow> (i, cx') \<in> set (m_lps s)" using cx by (simp add: map_of_SomeD)
qed

lemma triple_undo:
  "triple (\<lambda>s. idle_wf s \<and> map_of (m_lps s) i = Some cx)
     (undo_processed i to (rev (cx_processed cx)))
     (\<lambda>_ s. idle_wf s \<and> below i to s) E"
  unfolding triple_def
proof (intro allI impI)
  fix s :: "('a, 'b) sim" assume s: "idle_wf s \<and> map_of (m_lps s) i = Some cx"
  let ?rs = "takeWhile (\<lambda>r. \<not> pr_ts r < to) (rev (cx_processed cx))"
  have "sorted (map pr_ts (cx_processed cx))" using s sim_wf_ctx by (auto simp: ctx_wf_def)
  note kept = kept_prefix [OF this, of to]
  have "below i to (fold (undo_one i) ?rs s)"
    using s unfolding below_def all_ctx_def
    by (auto simp: m_lps_undo in_set_on_key sim_wf_unique kept dest: set_takeWhileD)
  then show "case undo_processed i to (rev (cx_processed cx)) s of
      (Inl e, t) \<Rightarrow> E t | (Inr x, t) \<Rightarrow> idle_wf t \<and> below i to t"
    using s idle_wf_undo [of s i ?rs] by (simp add: undo_processed_run)
qed

end
