(* ===== verification/Kernel_Steps.thy ===== *)
theory Kernel_Steps
  imports Kernel_Wf
begin

text \<open>
  Every operation of the kernel keeps the structural invariant, whether it returns or throws:
  rollback, cancellation, dispatch, pruning, migration, GVT advance, message handling, the
  loops, and a whole run. Between operations no context is inside an event (\<open>idle\<close>); while a
  handler runs, exactly the context it belongs to is (\<open>running\<close>).
\<close>

lemma all_ctx_upd_iff:
  "all_ctx P (upd_ctx i f s) \<longleftrightarrow>
     (\<forall>j cx. (j, cx) \<in> set (m_lps s) \<longrightarrow> P j (if j = i then f cx else cx))"
  unfolding all_ctx_def m_lps_upd_ctx in_set_on_key by blast

subsection \<open>Rollback and cancellation\<close>

lemma below_upd_ctx:
  assumes "below i to s" and "\<And>cx. set (cx_processed (f cx)) \<subseteq> set (cx_processed cx)"
  shows "below i to (upd_ctx j f s)"
  using assms unfolding below_def by (intro all_ctx_upd_ctx) auto

lemma keeps_restore_state:
  assumes "\<And>s n c. I s \<Longrightarrow> I (upd_ctx i (\<lambda>x. x\<lparr>cx_nextSeqNormal := n, cx_nextSeqControl := c\<rparr>) s)"
    and "\<And>s st. I s \<Longrightarrow> I (upd_ctx i (\<lambda>c. c\<lparr>cx_lp := (cx_lp c)\<lparr>lp_state := st\<rparr>\<rparr>) s)"
  shows "keeps I (restore_state i undone)"
  unfolding restore_state_def Let_def
  by (intro keeps_intros keeps_upd keeps_in_lp assms)

lemma keeps_send_antis:
  assumes "\<And>ev. keeps I (send ev)"
    and "\<And>s. I s \<Longrightarrow> I (upd_ctx i (\<lambda>c. c\<lparr>cx_sentLog := butlast (cx_sentLog c)\<rparr>) s)"
  shows "keeps I (send_antis i to rs)"
  by (induction rs) (auto intro!: keeps_intros keeps_upd assms)

lemma keeps_rollback_idle_wf: "keeps (idle_wf :: ('a, 'b) sim \<Rightarrow> bool) (rollback i to)"
proof -
  let ?K = "\<lambda>s :: ('a, 'b) sim. idle_wf s \<and> below i to s"
  have restore: "keeps ?K (restore_state i undone)" for undone
  proof (rule keeps_restore_state)
    fix s :: "('a, 'b) sim" and n c st assume "?K s"
    then have "idle_wf (upd_ctx i (\<lambda>x. x\<lparr>cx_nextSeqNormal := n, cx_nextSeqControl := c\<rparr>) s)"
      by (intro idle_wf_upd_ctx) (auto simp: ctx_wf_def)
    with \<open>?K s\<close> show "?K (upd_ctx i (\<lambda>x. x\<lparr>cx_nextSeqNormal := n, cx_nextSeqControl := c\<rparr>) s)"
      by (auto intro: below_upd_ctx)
    from \<open>?K s\<close> have "idle_wf (upd_ctx i (\<lambda>c. c\<lparr>cx_lp := (cx_lp c)\<lparr>lp_state := st\<rparr>\<rparr>) s)"
      by (intro idle_wf_set_state) simp
    with \<open>?K s\<close> show "?K (upd_ctx i (\<lambda>c. c\<lparr>cx_lp := (cx_lp c)\<lparr>lp_state := st\<rparr>\<rparr>) s)"
      by (auto intro: below_upd_ctx)
  qed
  have set_vt: "idle_wf (upd_ctx i (\<lambda>c. c\<lparr>cx_vt := prev_stamp to\<rparr>) s)" if "?K s" for s :: "('a, 'b) sim"
    using that by (intro idle_wf_upd_ctx)
      (auto simp: ctx_wf_def below_def intro: less_imp_le_prev dest: all_ctxD)
  have antis: "keeps idle_wf (send_antis i to rs)" for rs
    by (intro keeps_send_antis keeps_send_idle_wf idle_wf_upd_ctx) (auto simp: ctx_wf_def)
  have "keeps idle_wf (bnd (ctx_of i) (\<lambda>cx. thn (send_antis i to (rev (cx_sentLog cx))) validate_invariants))"
    by (intro keeps_intros antis)
  note tail = this [unfolded keeps_triple]
  have count: "keeps ?K (upd (\<lambda>s. s\<lparr>m_rollbackUndoneEvents := n s\<rparr>))" for n
    by (rule keeps_upd) (simp add: wf_defs below_def)
  have ctx: "triple idle_wf (ctx_of i)
      (\<lambda>cx s :: ('a, 'b) sim. idle_wf s \<and> map_of (m_lps s) i = Some cx) idle_wf"
    by (auto simp: triple_def ctx_of_def split: option.splits)
  have "triple (idle_wf :: ('a, 'b) sim \<Rightarrow> bool) (rollback i to) (\<lambda>_. idle_wf) idle_wf"
    unfolding rollback_def
    apply (rule triple_thn [OF keeps_validate [unfolded keeps_triple]])
    apply (rule triple_thn [where R = idle_wf])
     apply (rule triple_upd)
     apply (simp add: wf_defs)
    apply (rule triple_bnd [OF ctx])
    apply (rule triple_bnd [OF triple_undo])
    apply (rule triple_thn [OF triple_keeps [OF count]], simp)
    apply (rule triple_thn [OF triple_keeps [OF restore]], simp)
    apply (rule triple_thn [where R = idle_wf])
     apply (rule triple_upd, erule set_vt)
    apply (rule tail)
    done
  then show ?thesis by (simp add: keeps_triple)
qed

text \<open>Rolling back to \<open>to\<close> never leaves the context ahead of \<open>to\<close>.\<close>

definition vt_le :: "u32 \<Rightarrow> timestamp \<Rightarrow> ('st, 'w) sim \<Rightarrow> bool" where
  "vt_le i T = all_ctx (\<lambda>j cx. j = i \<longrightarrow> cx_vt cx \<le> T)"

lemma vt_le_upd_ctx:
  "vt_le i T s \<Longrightarrow> (\<And>cx. cx_vt cx \<le> T \<Longrightarrow> cx_vt (f cx) \<le> T) \<Longrightarrow> vt_le i T (upd_ctx j f s)"
  unfolding vt_le_def by (rule all_ctx_upd_ctx) auto

lemma vt_le_cong: "m_lps t = m_lps s \<Longrightarrow> vt_le i T t = vt_le i T s"
  unfolding vt_le_def by (rule all_ctx_cong)

lemma keeps_upd_vt_le: "(\<And>s. m_lps (f s) = m_lps s) \<Longrightarrow> keeps (vt_le i T) (upd f)"
  by (rule keeps_upd) (simp add: vt_le_def all_ctx_def)

lemma vt_le_undo: "vt_le i T s \<Longrightarrow> vt_le i T (fold (undo_one j) rs s)"
proof (induction rs arbitrary: s)
  case (Cons r rs)
  have "vt_le i T (undo_one j r s)"
    unfolding undo_one_def Let_def
    using Cons.prems by (intro vt_le_upd_ctx) (simp_all add: vt_le_def all_ctx_def)
  then show ?case using Cons.IH by simp
qed simp

lemma keeps_send_vt_le: "keeps (vt_le i T) (send ev)"
  by (rule keeps_send_cores_inv) (auto simp: vt_le_def ctx_core_def elim!: all_ctx_cores)

lemma keeps_rollback_vt_le:
  assumes "to \<le> T"
  shows "keeps (vt_le i T) (rollback j to)"
proof -
  have undo: "keeps (vt_le i T) (undo_processed j to rs)" for rs
    by (simp add: keeps_def undo_processed_run vt_le_undo)
  have "prev_stamp to \<le> T" using prev_stamp_le assms by (rule order_trans)
  then have "keeps (vt_le i T) (upd (upd_ctx j (\<lambda>c. c\<lparr>cx_vt := prev_stamp to\<rparr>)))"
    by (intro keeps_upd vt_le_upd_ctx) simp_all
  moreover have "keeps (vt_le i T) (restore_state j undone)"
    "keeps (vt_le i T) (send_antis j to l)" for undone l
    by (intro keeps_restore_state keeps_send_antis keeps_send_vt_le vt_le_upd_ctx, simp_all)+
  moreover have "keeps (vt_le i T) (upd (\<lambda>s. s\<lparr>m_rollbacksTotal := m_rollbacksTotal s + 1\<rparr>))"
    "keeps (vt_le i T) (upd (\<lambda>s. s\<lparr>m_rollbackUndoneEvents := m_rollbackUndoneEvents s + n\<rparr>))" for n
    by (rule keeps_upd, simp add: vt_le_def all_ctx_def)+
  ultimately show ?thesis
    unfolding rollback_def by (intro keeps_intros undo)
qed

lemma note_cancelled_fields [simp]:
  "m_lps (note_cancelled ev s) = m_lps s" "m_pending (note_cancelled ev s) = m_pending s"
  "queues_wf (note_cancelled ev s) = queues_wf s" "m_cfg (note_cancelled ev s) = m_cfg s"
  "m_lastGvt (note_cancelled ev s) = m_lastGvt s" "m_world (note_cancelled ev s) = m_world s"
  "m_inflightByUid (note_cancelled ev s) = m_inflightByUid s"
  by (simp_all add: note_cancelled_def wf_defs split: option.split)

lemma idle_wf_cong: "m_lps t = m_lps s \<Longrightarrow> queues_wf t = queues_wf s \<Longrightarrow> idle_wf t = idle_wf s"
  by (simp add: sim_wf_def lps_wf_def idle_def all_ctx_def)

lemma keeps_upd_idle_wf:
  "(\<And>s. m_lps (f s) = m_lps s) \<Longrightarrow> (\<And>s. queues_wf (f s) = queues_wf s) \<Longrightarrow> keeps idle_wf (upd f)"
  by (rule keeps_upd) (metis idle_wf_cong)

lemma find_Some_in: "find P xs = Some x \<Longrightarrow> x \<in> set xs \<and> P x"
  by (auto simp: find_Some_iff)

text \<open>\<open>R\<close> is what is known of the time stamp of the record an anti-message hits.\<close>

lemma keeps_cancel:
  assumes roll: "\<And>i to. R to \<Longrightarrow> keeps I (rollback i to)"
    and note_it: "\<And>s. I s \<Longrightarrow> I (note_cancelled anti s)"
    and counts: "\<And>f. (\<And>s. m_lps (f s) = m_lps s) \<Longrightarrow> (\<And>s. queues_wf (f s) = queues_wf s) \<Longrightarrow>
      (\<And>s. m_cfg (f s) = m_cfg s) \<Longrightarrow> (\<And>s. m_lastGvt (f s) = m_lastGvt s) \<Longrightarrow>
      (\<And>s. m_pending (f s) = m_pending s) \<Longrightarrow> (\<And>s. m_inflightByUid (f s) = m_inflightByUid s) \<Longrightarrow>
      keeps I (upd f)"
    and bound: "\<And>s cx r. I s \<Longrightarrow> map_of (m_lps s) (ev_dst anti) = Some cx \<Longrightarrow>
      r \<in> set (cx_processed cx) \<Longrightarrow> R (pr_ts r)"
  shows "keeps I (cancel anti)"
proof -
  have counts': "keeps I (upd (\<lambda>s. s\<lparr>m_antiCancelledProcessed := m_antiCancelledProcessed s + 1,
      m_rollbacksAnti := m_rollbacksAnti s + 1\<rparr>))"
    "keeps I (upd (\<lambda>s. s\<lparr>m_antiCancelledPending := m_antiCancelledPending s + 1\<rparr>))"
    by (rule counts; simp add: wf_defs)+
  have "keeps I (upd (note_cancelled anti))" by (rule keeps_upd) (rule note_it)
  then show ?thesis
    unfolding cancel_def
  proof (rule keeps_thn, intro keeps_bnd_ctx_of)
    fix cx s assume s: "I s" "map_of (m_lps s) (ev_dst anti) = Some cx"
    show "I (snd ((case find (cancels anti) (rev (cx_processed cx)) of
        None \<Rightarrow> upd (\<lambda>s. s\<lparr>m_antiCancelledPending := m_antiCancelledPending s + 1\<rparr>)
      | Some r \<Rightarrow>
          thn (upd (\<lambda>s. s\<lparr>m_antiCancelledProcessed := m_antiCancelledProcessed s + 1,
                          m_rollbacksAnti := m_rollbacksAnti s + 1\<rparr>))
          (rollback (ev_dst anti) (pr_ts r))) s))"
    proof (cases "find (cancels anti) (rev (cx_processed cx))")
      case None
      then show ?thesis using keepsD [OF counts'(2) s(1)] by simp
    next
      case (Some r)
      then have "r \<in> set (cx_processed cx)" by (auto dest: find_Some_in)
      then have "keeps I (rollback (ev_dst anti) (pr_ts r))" using bound [OF s] roll by blast
      then show ?thesis using Some keepsD [OF keeps_thn [OF counts'(1)] s(1)] by simp
    qed
  qed
qed

lemma keeps_cancel_idle_wf: "keeps idle_wf (cancel anti)"
proof (rule keeps_cancel [where R = "\<lambda>_. True"])
  show "keeps idle_wf (rollback i to)" for i to by (rule keeps_rollback_idle_wf)
  show "\<And>s. idle_wf s \<Longrightarrow> idle_wf (note_cancelled anti s)"
    by (simp add: idle_wf_cong [OF note_cancelled_fields(1,3)])
qed (simp_all add: keeps_upd_idle_wf)

lemma keeps_cancel_vt_le:
  "keeps (\<lambda>s. idle_wf s \<and> vt_le (ev_dst anti) T s) (cancel anti)"
proof (rule keeps_cancel [where R = "\<lambda>to. to \<le> T"])
  show "to \<le> T \<Longrightarrow> keeps (\<lambda>s. idle_wf s \<and> vt_le (ev_dst anti) T s) (rollback i to)" for i to
    by (intro keeps_conj keeps_rollback_idle_wf keeps_rollback_vt_le)
  show "\<And>s. idle_wf s \<and> vt_le (ev_dst anti) T s \<Longrightarrow>
      idle_wf (note_cancelled anti s) \<and> vt_le (ev_dst anti) T (note_cancelled anti s)"
    by (simp add: idle_wf_cong [OF note_cancelled_fields(1,3)] vt_le_cong [OF note_cancelled_fields(1)])
  show "keeps (\<lambda>s. idle_wf s \<and> vt_le (ev_dst anti) T s) (upd f)"
    if "\<And>s. m_lps (f s) = m_lps s" "\<And>s. queues_wf (f s) = queues_wf s"
      "\<And>s. m_cfg (f s) = m_cfg s" "\<And>s. m_lastGvt (f s) = m_lastGvt s" "\<And>s. m_pending (f s) = m_pending s"
    for f :: "('a, 'b) sim \<Rightarrow> ('a, 'b) sim"
    using that by (intro keeps_conj keeps_upd_idle_wf keeps_upd_vt_le)
  show "pr_ts r \<le> T" if "idle_wf s \<and> vt_le (ev_dst anti) T s"
    "map_of (m_lps s) (ev_dst anti) = Some cx" "r \<in> set (cx_processed cx)"
    for s :: "('a, 'b) sim" and cx r
  proof -
    have "pr_ts r \<le> cx_vt cx" using that sim_wf_ctx by (auto simp: ctx_wf_def)
    also have "cx_vt cx \<le> T" using that by (auto simp: vt_le_def dest: all_ctx_map_of)
    finally show ?thesis .
  qed
qed

subsection \<open>Dispatch\<close>

lemma keeps_straggler_idle_wf: "keeps idle_wf (straggler ev)"
proof -
  have "keeps idle_wf (upd (\<lambda>s. s\<lparr>m_rollbacksStraggler := m_rollbacksStraggler s + 1\<rparr>))"
    by (rule keeps_upd_idle_wf) (simp_all add: wf_defs)
  then show ?thesis
    unfolding straggler_def by (intro keeps_intros keeps_rollback_idle_wf keeps_enqueue_idle_wf)
qed

lemma anti_record_ev [simp]: "pr_ev (anti_record ev cx s) = ev"
  by (simp add: anti_record_def new_record_def split: option.split)

text \<open>Appending the record of an event at the context's new virtual time.\<close>

lemma ctx_wf_append:
  assumes "ctx_wf cx" and "cx_vt cx \<le> T" and "pr_ts r = T"
  shows "ctx_wf (cx\<lparr>cx_vt := T, cx_inEvent := False, cx_processed := cx_processed cx @ [r]\<rparr>)"
proof -
  have "pr_ts x \<le> T" if "x \<in> set (cx_processed cx)" for x
    using that assms(1,2) by (auto simp: ctx_wf_def intro: order_trans)
  then show ?thesis using assms(1,3) by (auto simp: ctx_wf_def sorted_append)
qed

lemma ctx_wf_append_anti:
  assumes "ctx_wf cx" and "cx_vt cx \<le> T" and "pr_ts r = T" and "\<not> cx_inEvent cx"
  shows "ctx_wf (cx\<lparr>cx_vt := T, cx_processed := cx_processed cx @ [r]\<rparr>)"
  using ctx_wf_append [OF assms(1-3)] assms(4) by (simp add: ctx_wf_def)

lemma keeps_dispatch_anti_idle_wf: "keeps idle_wf (dispatch_anti ev)"
  unfolding dispatch_anti_def
proof (intro keeps_bnd_ctx_of)
  fix cx and s :: "('a, 'b) sim"
  let ?P = "\<lambda>s :: ('a, 'b) sim. idle_wf s \<and> vt_le (ev_dst ev) (ev_ts ev) s"
  let ?noted = "\<lambda>rec :: processed_record. \<lambda>c :: 'a lp_context.
    c\<lparr>cx_vt := ev_ts ev, cx_processed := cx_processed c @ [rec]\<rparr>"
  assume s: "idle_wf s" "map_of (m_lps s) (ev_dst ev) = Some cx"
  show "idle_wf (snd ((if ev_ts ev < cx_vt cx then straggler ev
     else bnd (gets (anti_record ev cx)) (\<lambda>rec.
       thn (cancel ev)
       (thn (upd (upd_ctx (ev_dst ev) (?noted rec))) validate_invariants))) s))"
  proof (cases "ev_ts ev < cx_vt cx")
    case True
    then show ?thesis using keepsD [OF keeps_straggler_idle_wf s(1)] by simp
  next
    case False
    have P: "?P s" using s False sim_wf_unique [of s "ev_dst ev" cx] by (auto simp: vt_le_def all_ctx_def)
    have append: "idle_wf (upd_ctx (ev_dst ev) (?noted rec) t)"
      if "?P t" "pr_ts rec = ev_ts ev" for rec and t :: "('a, 'b) sim"
      using that by (intro idle_wf_upd_ctx)
        (auto simp: vt_le_def intro!: ctx_wf_append_anti dest: all_ctxD)
    have "triple ?P (thn (cancel ev)
        (thn (upd (upd_ctx (ev_dst ev) (?noted (anti_record ev cx s)))) validate_invariants))
        (\<lambda>_. idle_wf) idle_wf"
      apply (rule triple_thn [OF triple_keeps [OF keeps_cancel_vt_le]], simp)
      apply (rule triple_thn [where R = idle_wf])
       apply (rule triple_upd, erule append, simp)
      apply (rule keeps_validate [unfolded keeps_triple])
      done
    from this [unfolded triple_def, rule_format, OF P] False show ?thesis
      by (auto simp: case_prod_beta split: sum.splits)
  qed
qed

subsection \<open>Running a handler\<close>

text \<open>
  While the handler of an event at \<open>T\<close> runs in context \<open>i\<close>, whose virtual time was \<open>V\<close>.
\<close>

definition running :: "u32 \<Rightarrow> timestamp \<Rightarrow> timestamp \<Rightarrow> ('st, 'w) sim \<Rightarrow> bool" where
  "running i T V = all_ctx (\<lambda>j cx. if j = i
     then cx_inEvent cx \<and> cx_vt cx = T \<and> (\<forall>r \<in> set (cx_processed cx). pr_ts r \<le> V)
     else \<not> cx_inEvent cx)"

abbreviation running_wf :: "u32 \<Rightarrow> timestamp \<Rightarrow> timestamp \<Rightarrow> ('st, 'w) sim \<Rightarrow> bool" where
  "running_wf i T V s \<equiv> sim_wf s \<and> running i T V s"

lemma running_wf_cores: "cores t = cores s \<Longrightarrow> running i T V s \<Longrightarrow> running i T V t"
  unfolding running_def by (erule all_ctx_cores) (auto simp: ctx_core_def split: if_splits)

lemma keeps_send_running: "keeps (running_wf i T V) (send ev)"
  by (intro keeps_conj keeps_send_sim_wf keeps_send_cores_inv [OF running_wf_cores]) simp_all

lemma running_set_state:
  assumes "running_wf i T V s"
  shows "running_wf i T V (upd_ctx j (\<lambda>c. c\<lparr>cx_lp := (cx_lp c)\<lparr>lp_state := st\<rparr>\<rparr>) s)"
  using assms unfolding running_def
  by (intro conjI sim_wf_upd_ctx all_ctx_upd_ctx) (auto simp: ctx_wf_def split: if_splits)

lemma keeps_run_sink_call:
  assumes "\<And>ev. keeps I (send ev)"
    and "\<And>s st. I s \<Longrightarrow> I (upd_ctx i (\<lambda>c. c\<lparr>cx_lp := (cx_lp c)\<lparr>lp_state := st\<rparr>\<rparr>) s)"
  shows "keeps I (run_sink_call i c)"
  by (cases c) (auto simp: set_lp_state_def intro!: assms keeps_upd)

lemma keeps_request_write: "keeps I (request_write i entity rec)"
  unfolding request_write_def Let_def by (intro keeps_intros)

lemma keeps_run_handler:
  assumes "\<And>c. keeps I (run_sink_call i c)"
  shows "keeps I (run_handler i cs rec)"
proof (induction cs arbitrary: rec)
  case (Cons c cs)
  have "keeps I (run_ctx_call i c rec)"
    using assms keeps_request_write by (cases c) (auto simp: emit_committed_def intro!: keeps_intros)
  then show ?case using Cons.IH by (auto intro: keeps_bnd)
qed simp

text \<open>The record keeps the event it was made for.\<close>

lemma yields_run_ctx_call: "yields (\<lambda>r. pr_ev r = pr_ev rec) (run_ctx_call i c rec)"
proof (cases c)
  case (Request_Write entity)
  then show ?thesis
    unfolding Request_Write run_ctx_call.simps request_write_def Let_def
    by (intro yields_intros) simp_all
qed (auto simp: emit_committed_def intro!: yields_intros simp del: ret_run)

lemma yields_run_handler:
  "yields (\<lambda>r. pr_ev r = pr_ev rec) (run_handler i cs rec :: (('st, 'w) sim, processed_record) eff)"
proof (induction cs arbitrary: rec)
  case Nil
  then show ?case by (auto simp: yields_def)
next
  case (Cons c cs)
  show ?case
    unfolding run_handler.simps
  proof (rule yields_bnd_with [OF yields_run_ctx_call])
    fix rec' :: processed_record assume "pr_ev rec' = pr_ev rec"
    then show "yields (\<lambda>r. pr_ev r = pr_ev rec)
        (run_handler i cs rec' :: (('st, 'w) sim, processed_record) eff)"
      using Cons.IH [of rec'] by simp
  qed
qed

lemma triple_keeps_yields:
  assumes "keeps P m" and "yields Q m"
  shows "triple P m (\<lambda>x s. Q x \<and> P s) P"
  unfolding triple_def
proof (intro allI impI)
  fix s assume "P s"
  obtain r t where rt: "m s = (r, t)" by fastforce
  have "P t" by (rule keeps_result [OF assms(1) \<open>P s\<close> rt])
  then show "case m s of (Inl e, t) \<Rightarrow> P t | (Inr x, t) \<Rightarrow> Q x \<and> P t"
    using rt assms(2) by (cases r) (auto dest: yieldsD)
qed

lemma for_each_enqueue:
  "for_each enqueue evs s = (Inr (), s\<lparr>m_pending := fold pending_push evs (m_pending s)\<rparr>)"
  by (induction evs arbitrary: s) (simp_all add: enqueue_def)

lemma pending_wf_fold_push: "pending_wf q \<Longrightarrow> pending_wf (fold pending_push evs q)"
  by (induction evs arbitrary: q) simp_all

lemma triple_release: "triple idle_wf (release_deferred_for l e) (\<lambda>_. idle_wf) E"
proof -
  have "idle_wf (s\<lparr>m_pending := fold pending_push evs (m_pending s), m_deferredTargeted := d\<rparr>)"
    if "idle_wf s" for s :: "('a, 'b) sim" and evs d
    using that pending_wf_fold_push by (simp add: wf_defs)
  then show ?thesis
    by (auto simp: triple_def release_deferred_for_def Let_def for_each_enqueue
        split: option.split)
qed

lemma running_wf_start:
  assumes "idle_wf s" and "map_of (m_lps s) (ev_dst ev) = Some cx" and "\<not> ev_ts ev < cx_vt cx"
  shows "running_wf (ev_dst ev) (ev_ts ev) (cx_vt cx)
    (upd_ctx (ev_dst ev) (\<lambda>c. c\<lparr>cx_vt := ev_ts ev, cx_inEvent := True, cx_currentExecTs := ev_ts ev\<rparr>) s)"
proof
  have wf: "sim_wf s" using assms(1) by simp
  have unique: "cx' = cx" if "(ev_dst ev, cx') \<in> set (m_lps s)" for cx'
    using that sim_wf_unique [OF wf assms(2)] by simp
  have le: "pr_ts r \<le> cx_vt cx" if "r \<in> set (cx_processed cx)" for r
    using that sim_wf_ctx [OF wf assms(2)] by (simp add: ctx_wf_def)
  have "cx_vt cx \<le> ev_ts ev" using assms(3) by simp
  then show "sim_wf (upd_ctx (ev_dst ev)
      (\<lambda>c. c\<lparr>cx_vt := ev_ts ev, cx_inEvent := True, cx_currentExecTs := ev_ts ev\<rparr>) s)"
    using unique le by (intro sim_wf_upd_ctx wf) (auto simp: ctx_wf_def intro: order_trans)
  show "running (ev_dst ev) (ev_ts ev) (cx_vt cx) (upd_ctx (ev_dst ev)
      (\<lambda>c. c\<lparr>cx_vt := ev_ts ev, cx_inEvent := True, cx_currentExecTs := ev_ts ev\<rparr>) s)"
    using assms(1) unique le unfolding running_def idle_def all_ctx_upd_iff
    by (auto dest: all_ctxD)
qed

lemma running_wf_finish:
  assumes "running_wf i T V s" and "V \<le> T" and "pr_ts r = T"
  shows "idle_wf (upd_ctx i (\<lambda>c. c\<lparr>cx_inEvent := False, cx_processed := cx_processed c @ [r]\<rparr>) s)"
proof
  have "ctx_wf (cx\<lparr>cx_inEvent := False, cx_processed := cx_processed cx @ [r]\<rparr>)"
    if "ctx_wf cx" "(i, cx) \<in> set (m_lps s)" for cx
    using that assms
    by (auto simp: running_def ctx_wf_def sorted_append dest!: all_ctxD)
  then show "sim_wf (upd_ctx i
      (\<lambda>c. c\<lparr>cx_inEvent := False, cx_processed := cx_processed c @ [r]\<rparr>) s)"
    using assms(1) by (intro sim_wf_upd_ctx) auto
  show "idle (upd_ctx i (\<lambda>c. c\<lparr>cx_inEvent := False, cx_processed := cx_processed c @ [r]\<rparr>) s)"
    using assms(1) unfolding idle_def running_def all_ctx_upd_iff by (auto dest!: all_ctxD)
qed

lemma running_wf_abort:
  assumes "running_wf i T V s"
  shows "idle_wf (upd_ctx i (\<lambda>c. c\<lparr>cx_inEvent := False\<rparr>) s)"
    and "idle_wf (upd_ctx i (\<lambda>c. c\<lparr>cx_vt := V, cx_currentExecTs := V\<rparr>)
      (upd_ctx i (\<lambda>c. c\<lparr>cx_inEvent := False\<rparr>) s))"
proof -
  have ctx: "ctx_wf (cx\<lparr>cx_inEvent := False\<rparr>)"
    "ctx_wf (cx\<lparr>cx_inEvent := False, cx_vt := V, cx_currentExecTs := V\<rparr>)"
    if "ctx_wf cx" "(i, cx) \<in> set (m_lps s)" for cx
    using that assms by (auto simp: running_def ctx_wf_def dest!: all_ctxD)
  have stop: "idle (upd_ctx i (\<lambda>c. c\<lparr>cx_inEvent := False\<rparr>) s)"
    using assms unfolding idle_def running_def all_ctx_upd_iff by (auto dest!: all_ctxD)
  have "sim_wf (upd_ctx i (\<lambda>c. c\<lparr>cx_inEvent := False\<rparr>) s)"
    using assms ctx(1) by (intro sim_wf_upd_ctx) auto
  with stop show "idle_wf (upd_ctx i (\<lambda>c. c\<lparr>cx_inEvent := False\<rparr>) s)" by simp
  have "sim_wf (upd_ctx i (\<lambda>c. c\<lparr>cx_inEvent := False, cx_vt := V, cx_currentExecTs := V\<rparr>) s)"
    using assms ctx(2) by (intro sim_wf_upd_ctx) auto
  moreover have "idle (upd_ctx i (\<lambda>c. c\<lparr>cx_inEvent := False, cx_vt := V, cx_currentExecTs := V\<rparr>) s)"
    using assms unfolding idle_def running_def all_ctx_upd_iff by (auto dest!: all_ctxD)
  ultimately show "idle_wf (upd_ctx i (\<lambda>c. c\<lparr>cx_vt := V, cx_currentExecTs := V\<rparr>)
      (upd_ctx i (\<lambda>c. c\<lparr>cx_inEvent := False\<rparr>) s))"
    by (simp add: upd_ctx_def comp_def)
qed

lemma triple_execute:
  assumes "V = cx_vt cx" and "\<not> ev_ts ev < cx_vt cx"
  shows "triple (\<lambda>s. idle_wf s \<and> map_of (m_lps s) (ev_dst ev) = Some cx) (execute ev cx)
    (\<lambda>_. idle_wf) (running_wf (ev_dst ev) (ev_ts ev) V)"
proof -
  let ?R = "running_wf (ev_dst ev) (ev_ts ev) V"
  let ?E = "running_wf (ev_dst ev) (ev_ts ev) V"
  have handler: "keeps ?R (run_handler (ev_dst ev) cs rec)" for cs rec
    by (intro keeps_run_handler keeps_run_sink_call keeps_send_running running_set_state)
  have le: "V \<le> ev_ts ev" using assms by simp
  show ?thesis
    unfolding execute_def
    apply (rule triple_thn [where R = ?R])
     apply (rule triple_upd)
     apply (use running_wf_start assms in blast)
    apply (rule triple_bnd [OF triple_keeps_yields [OF handler yields_run_handler]])
    apply (rule triple_pure)
    apply (rule triple_thn [where R = idle_wf])
     apply (rule triple_upd, rule running_wf_finish)
       apply assumption
      apply (rule le)
     apply (simp add: new_record_def)
    apply (rule triple_bnd [where R = "\<lambda>_. idle_wf"])
     apply (rule triple_gets, assumption)
    apply (rule triple_thn [where R = idle_wf])
     apply (unfold when_eff_def)
     apply (rule triple_if)
      apply (rule triple_release)
     apply (rule triple_ret, assumption)
    apply (rule triple_ret, assumption)
    done
qed

lemma triple_on_handler_exception:
  "triple (running_wf (ev_dst ev) T V) (on_handler_exception ev V e) (\<lambda>_. idle_wf) idle_wf"
proof -
  have defer_it: "keeps idle_wf (defer_targeted_event ev')" for ev'
    unfolding defer_targeted_event_def Let_def by (rule keeps_upd_idle_wf) (simp_all add: wf_defs)
  show ?thesis
    unfolding triple_def
  proof (intro allI impI)
    fix s :: "('a, 'b) sim" assume R: "running_wf (ev_dst ev) T V s"
    let ?s1 = "upd_ctx (ev_dst ev) (\<lambda>c. c\<lparr>cx_inEvent := False\<rparr>) s"
    let ?s2 = "upd_ctx (ev_dst ev) (\<lambda>c. c\<lparr>cx_vt := V, cx_currentExecTs := V\<rparr>) ?s1"
    have "keeps idle_wf (thn (defer_targeted_event ev) (thn validate_invariants (ret False)))"
      by (intro keeps_intros defer_it)
    then have "idle_wf (snd (thn (defer_targeted_event ev) (thn validate_invariants (ret False)) ?s2))"
      using running_wf_abort(2) [OF R] by (rule keepsD)
    then have "idle_wf (snd (on_handler_exception ev V e s))"
      using running_wf_abort(1) [OF R] by (simp add: on_handler_exception_def)
    then show "case on_handler_exception ev V e s of
        (Inl e, t) \<Rightarrow> idle_wf t | (Inr x, t) \<Rightarrow> idle_wf t"
      by (simp add: case_prod_beta split: sum.split)
  qed
qed

lemma triple_catching:
  assumes m: "triple P m Q E'" and h: "\<And>e. triple E' (h e) Q E"
  shows "triple P (catching m h) Q E"
  unfolding triple_def
proof (intro allI impI)
  fix s assume "P s"
  obtain r t where rt: "m s = (r, t)" by fastforce
  show "case catching m h s of (Inl e, t) \<Rightarrow> E t | (Inr x, t) \<Rightarrow> Q x t"
  proof (cases r)
    case (Inl e)
    then have "E' t" using triple_Inl [OF m \<open>P s\<close>] rt by blast
    then show ?thesis using h [of e] rt Inl by (simp add: catching_def triple_def)
  next
    case (Inr x)
    then show ?thesis using triple_Inr [OF m \<open>P s\<close>] rt by (simp add: catching_def)
  qed
qed

lemma keeps_dispatch_event_idle_wf: "keeps idle_wf (dispatch_event ev)"
  unfolding dispatch_event_def
proof (intro keeps_bnd_ctx_of)
  fix cx and s :: "('a, 'b) sim"
  assume s: "idle_wf s" "map_of (m_lps s) (ev_dst ev) = Some cx"
  let ?finish = "\<lambda>completed. when_eff completed
    (thn (upd (\<lambda>s :: ('a, 'b) sim. s\<lparr>m_totalProcessed := m_totalProcessed s + 1\<rparr>)) validate_invariants)"
  have finish: "keeps idle_wf (?finish b)" for b
    by (intro keeps_intros keeps_upd_idle_wf) (simp_all add: wf_defs)
  show "idle_wf (snd ((if ev_ts ev < cx_vt cx then thn (straggler ev) validate_invariants
     else bnd (catching (execute ev cx) (on_handler_exception ev (cx_vt cx))) ?finish) s))"
  proof (cases "ev_ts ev < cx_vt cx")
    case True
    then show ?thesis
      using keepsD [OF keeps_thn [OF keeps_straggler_idle_wf keeps_validate] s(1)] by simp
  next
    case False
    have "triple (\<lambda>s. idle_wf s \<and> map_of (m_lps s) (ev_dst ev) = Some cx)
        (bnd (catching (execute ev cx) (on_handler_exception ev (cx_vt cx))) ?finish)
        (\<lambda>_. idle_wf) idle_wf"
      by (rule triple_bnd [OF triple_catching [OF triple_execute triple_on_handler_exception]
            finish [unfolded keeps_triple]]) (use False in simp_all)
    from this [unfolded triple_def, rule_format, of s] s False show ?thesis
      by (auto simp: case_prod_beta split: sum.splits)
  qed
qed

theorem keeps_dispatch: "keeps idle_wf (dispatch ev)"
  unfolding dispatch_def
  by (intro keeps_intros keeps_dispatch_anti_idle_wf keeps_dispatch_event_idle_wf)

subsection \<open>Taking the next event\<close>

lemma pending_wf_dropWhile: "pending_wf q \<Longrightarrow> pending_wf (dropWhile P q)"
  by (induction q) (auto dest: pending_wf_tl)

lemma drop_cancelled_dropWhile:
  "drop_cancelled s q = dropWhile (\<lambda>ev. \<not> ev_isAnti ev \<and> cancelled s ev) q"
  by (induction q) auto

lemma keeps_set_pending:
  "idle_wf s \<Longrightarrow> pending_wf q \<Longrightarrow> idle_wf (s\<lparr>m_pending := q\<rparr>)"
  by (simp add: wf_defs)

lemma keeps_pop_next: "keeps idle_wf pop_next"
proof (rule keepsI)
  fix s :: "('a, 'b) sim" assume s: "idle_wf s"
  then have "pending_wf (drop_cancelled s (m_pending s))"
    by (simp add: drop_cancelled_dropWhile pending_wf_dropWhile sim_wf_def queues_wf_def)
  then show "idle_wf (snd (pop_next s))"
    unfolding pop_next_def
    by (cases "drop_cancelled s (m_pending s)")
      (auto simp: pending_wf_def dest: pending_wf_tl [unfolded pending_wf_def] intro!: keeps_set_pending [OF s, simplified])
qed

subsection \<open>GVT, commitment and migration\<close>

lemma keeps_compute_gvt: "keeps idle_wf compute_gvt"
proof -
  have "keeps (idle_wf :: ('a, 'b) sim \<Rightarrow> bool) peek_next_pending_ts"
  proof (rule keepsI)
    fix s :: "('a, 'b) sim" assume s: "idle_wf s"
    then have "pending_wf (dropWhile (cancelled s) (m_pending s))"
      by (simp add: pending_wf_dropWhile sim_wf_def queues_wf_def)
    then show "idle_wf (snd (peek_next_pending_ts s))"
      using keeps_set_pending [OF s] by (simp add: peek_next_pending_ts_def Let_def)
  qed
  then show ?thesis unfolding compute_gvt_def Let_def by (intro keeps_intros)
qed

lemma ctx_wf_prune: "ctx_wf cx \<Longrightarrow> ctx_wf (prune_ctx gvt cx)"
proof -
  have "sorted (map f (dropWhile P xs))" if "sorted (map f xs)" for f :: "processed_record \<Rightarrow> timestamp" and P xs
    using that by (induction xs) auto
  then show "ctx_wf cx \<Longrightarrow> ctx_wf (prune_ctx gvt cx)"
    by (auto simp: ctx_wf_def prune_ctx_def dest: set_dropWhileD)
qed

lemma prune_ctx_fields [simp]:
  "cx_lp (prune_ctx gvt cx) = cx_lp cx" "cx_vt (prune_ctx gvt cx) = cx_vt cx"
  "cx_inEvent (prune_ctx gvt cx) = cx_inEvent cx"
  by (simp_all add: prune_ctx_def)

lemma idle_wf_prune: "idle_wf s \<Longrightarrow> idle_wf (prune_state gvt s)"
proof -
  assume s: "idle_wf s"
  let ?m = "map (\<lambda>(i, cx). (i, prune_ctx gvt cx)) (m_lps s)"
  have "distinct (map fst ?m)"
    using s by (simp add: case_prod_beta comp_def sim_wf_def lps_wf_def)
  moreover have "all_ctx (\<lambda>i cx. lp_id (cx_lp cx) = i \<and> ctx_wf cx) (s\<lparr>m_lps := ?m\<rparr>)"
    "idle (s\<lparr>m_lps := ?m\<rparr>)"
    using s unfolding sim_wf_def lps_wf_def idle_def all_ctx_def by (auto simp: ctx_wf_prune)
  ultimately have "lps_wf (s\<lparr>m_lps := ?m\<rparr>)" "idle (s\<lparr>m_lps := ?m\<rparr>)"
    by (simp_all add: lps_wf_def)
  moreover have "queues_wf (prune_state gvt s)" using s by (simp add: prune_state_def wf_defs)
  ultimately show ?thesis
    by (simp add: sim_wf_def lps_wf_def idle_def all_ctx_def prune_state_def)
qed

lemma keeps_prune_to_gvt: "keeps idle_wf (prune_to_gvt gvt)"
  unfolding prune_to_gvt_def
  by (intro keeps_intros keeps_upd idle_wf_prune keeps_in_world_idle_wf)

lemma keeps_apply_ready: "keeps idle_wf (apply_ready ms)"
proof (induction ms)
  case (Cons m ms)
  obtain ts mig where m: "m = (ts, mig)" by fastforce
  have "keeps idle_wf (upd (\<lambda>s. s\<lparr>m_pendingMigrations := ms\<rparr>))"
    "keeps idle_wf (upd (\<lambda>s. s\<lparr>m_entityOwner := f s\<rparr>))" for f
    by (rule keeps_upd_idle_wf; simp add: wf_defs)+
  then show ?case
    unfolding m apply_ready.simps by (intro keeps_intros keeps_in_lp_idle_wf Cons.IH)
qed simp

lemma keeps_apply_ready_migrations: "keeps idle_wf apply_ready_migrations"
  unfolding apply_ready_migrations_def by (intro keeps_intros keeps_apply_ready)

lemma keeps_apply_migration: "keeps idle_wf (apply_migration mig)"
proof -
  have "keeps idle_wf (upd (\<lambda>s. s\<lparr>m_pendingMigrations := f s\<rparr>))" for f
    by (rule keeps_upd_idle_wf) (simp_all add: wf_defs)
  then show ?thesis
    unfolding apply_migration_def by (intro keeps_intros keeps_apply_ready_migrations)
qed

lemma keeps_notify: "keeps idle_wf (notify_directories_gvt gvt)"
proof -
  have "keeps idle_wf (upd (\<lambda>s. s\<lparr>m_lastDirectoryGcGvt := gvt\<rparr>))"
    by (rule keeps_upd_idle_wf) (simp_all add: wf_defs)
  then show ?thesis
    unfolding notify_directories_gvt_def by (intro keeps_intros keeps_send_idle_wf)
qed

lemma keeps_set_gvt: "keeps idle_wf (upd (\<lambda>s. s\<lparr>m_lastGvt := gvt\<rparr>))"
  by (rule keeps_upd_idle_wf) (simp_all add: wf_defs)

lemma color_flip: "c \<in> {0, 1} \<Longrightarrow> c XOR 1 \<in> {0, 1 :: u8}"
  by auto

lemma keeps_advance_gvt_colored: "keeps idle_wf advance_gvt_colored"
proof -
  have red: "keeps idle_wf (upd start_red_phase)" "keeps idle_wf (upd end_red_phase)"
    by (rule keeps_upd; use color_flip in \<open>force simp: wf_defs start_red_phase_def end_red_phase_def\<close>)+
  show ?thesis
    unfolding advance_gvt_colored_def
    by (intro keeps_intros keeps_in_world_idle_wf red keeps_compute_gvt keeps_set_gvt
        keeps_prune_to_gvt keeps_notify)
qed

lemma keeps_advance_gvt_ack: "keeps idle_wf advance_gvt_ack"
  unfolding advance_gvt_ack_def
  by (intro keeps_intros keeps_in_world_idle_wf keeps_compute_gvt keeps_set_gvt
      keeps_prune_to_gvt keeps_notify keeps_apply_ready_migrations)

theorem keeps_fossil_collect: "keeps idle_wf (fossil_collect b)"
  unfolding fossil_collect_def
  by (intro keeps_intros keeps_prune_to_gvt keeps_notify keeps_apply_ready_migrations
      keeps_advance_gvt_colored keeps_advance_gvt_ack)

subsection \<open>Messages, seeding and the loops\<close>

lemma keeps_receive_event: "keeps idle_wf (receive_event sender ev)"
proof -
  have count: "keeps idle_wf (count_received ev)"
    unfolding count_received_def by (rule keeps_upd_idle_wf) (simp_all add: wf_defs)
  have color: "keeps idle_wf (count_color_received ev)"
    unfolding count_color_received_def Let_def by (rule keeps_upd) (simp add: wf_defs)
  have "keeps (idle_wf :: ('a, 'b) sim \<Rightarrow> bool) (track_inflight_recv ev)"
  proof (rule keepsI)
    fix s :: "('a, 'b) sim" assume s: "idle_wf s"
    then have "inflight_wf (snd (track_inflight_recv ev s))"
      by (simp add: track_inflight_recv_clear inflight_wf_clear sim_wf_def queues_wf_def)
    then show "idle_wf (snd (track_inflight_recv ev s))"
      using s by (auto simp: track_inflight_recv_def sim_wf_def lps_wf_def idle_def all_ctx_def
          queues_wf_def colors_wf_def split: option.splits)
  qed
  with count color show ?thesis
    unfolding receive_event_def
    by (intro keeps_intros keeps_in_world_idle_wf keeps_enqueue_idle_wf)
qed

lemma keeps_clear_inflight: "keeps idle_wf (clear_inflight_key key)"
proof (rule keepsI)
  fix s :: "('a, 'b) sim" assume s: "idle_wf s"
  then have "inflight_wf (snd (clear_inflight_key key s))"
    by (simp add: inflight_wf_clear sim_wf_def queues_wf_def)
  then show "idle_wf (snd (clear_inflight_key key s))"
    using s by (auto simp: clear_inflight_key_def sim_wf_def lps_wf_def idle_def all_ctx_def
        queues_wf_def colors_wf_def split: option.splits)
qed

lemma keeps_handle_message: "keeps idle_wf (handle_message msg)"
proof (cases "wm_kind msg")
  case Ack_Message
  then show ?thesis
    unfolding handle_message_def
    by (simp only: message_kind.case) (intro keeps_intros keeps_clear_inflight)
qed (auto simp: handle_message_def intro!: keeps_intros keeps_receive_event keeps_apply_migration)

lemma keeps_poll_transport_count: "keeps idle_wf (poll_transport_count fuel n)"
proof (induction fuel arbitrary: n)
  case (Suc fuel)
  then show ?case
    unfolding poll_transport_count.simps poll_message_def
    by (intro keeps_intros keeps_in_world_idle_wf keeps_handle_message)
qed simp

lemma keeps_start: "keeps idle_wf start_if_needed"
proof -
  have "keeps idle_wf (upd (\<lambda>s. s\<lparr>m_started := True\<rparr>))"
    by (rule keeps_upd_idle_wf) (simp_all add: wf_defs)
  then show ?thesis
    unfolding start_if_needed_def start_lp_def
    by (intro keeps_intros keeps_run_sink_call keeps_send_idle_wf idle_wf_set_state)
qed

lemma keeps_dispatch_next: "keeps idle_wf dispatch_next"
  unfolding dispatch_next_def by (intro keeps_intros keeps_pop_next keeps_dispatch)

theorem keeps_run_one: "keeps idle_wf (run_one fuel b)"
  unfolding run_one_def
  by (intro keeps_intros keeps_start keeps_poll_transport_count keeps_dispatch_next
      keeps_fossil_collect)

lemma keeps_finalize: "keeps idle_wf finalize_at_end"
  unfolding finalize_at_end_def check_digest_def global_digest_def reduce_with_def Let_def
  by (intro keeps_intros keeps_prune_to_gvt keeps_apply_ready_migrations keeps_in_world_idle_wf)

lemma keeps_local_has_work: "keeps idle_wf (local_has_work b)"
  unfolding local_has_work_def pending_or_in_transport_def
  by (intro keeps_intros keeps_in_world_idle_wf)

lemma keeps_run_iteration: "keeps idle_wf (run_iteration pf b)"
  unfolding run_iteration_def poll_transport_def
  by (intro keeps_intros keeps_poll_transport_count keeps_dispatch_next keeps_fossil_collect
      keeps_local_has_work keeps_in_world_idle_wf keeps_finalize)

lemma keeps_run_loop: "keeps idle_wf (run_loop fuel pf period iters)"
proof (induction fuel arbitrary: iters)
  case (Suc fuel)
  then show ?case
    unfolding run_loop.simps by (intro keeps_intros keeps_run_iteration)
qed simp

theorem keeps_run: "keeps idle_wf (run fuel pf)"
  unfolding run_def by (intro keeps_intros keeps_start keeps_run_loop)

subsection \<open>The initial state\<close>

lemma new_simulation_wf: "new_simulation cfg (Some tr) w = Inr s \<Longrightarrow> idle_wf s"
  by (auto simp: new_simulation_def wf_defs pending_wf_def)

lemma keeps_add_lp: "keeps idle_wf (add_lp lp_opt)"
proof (cases lp_opt)
  case (Some lp)
  have "idle_wf (snd (add_lp (Some lp) s))" if s: "idle_wf s" for s :: "('a, 'b) sim"
  proof (cases "map_of (m_lps s) (lp_id lp)")
    case None
    then have "lp_id lp \<notin> fst ` set (m_lps s)" by (simp add: map_of_eq_None_iff)
    then show ?thesis
      using s None by (auto simp: add_lp_def Let_def wf_defs ctx_wf_def)
  qed (use s in \<open>simp add: add_lp_def\<close>)
  then show ?thesis by (simp add: Some keeps_def)
qed (simp add: add_lp_def)

subsection \<open>The run-time checks\<close>

definition counter_messages :: "string set" where
  "counter_messages = {''invariant: nextSeqNormal must be non-zero'',
     ''invariant: nextSeqControl must be non-zero'', ''invariant: nextUid must be non-zero''}"

lemma ctx_checks_fail:
  assumes wf: "ctx_wf cx" and c: "c \<in> set (ctx_checks cx)" "\<not> fst c"
  shows "snd c \<in> counter_messages"
proof -
  have "pr_ts (cx_processed cx ! (i - 1)) \<le> pr_ts (cx_processed cx ! i)"
    if "i < length (cx_processed cx)" for i
    using that wf sorted_nth_mono [of "map pr_ts (cx_processed cx)" "i - 1" i]
    by (simp add: ctx_wf_def)
  moreover have "pr_ts (last (cx_processed cx)) \<le> cx_vt cx" if "cx_processed cx \<noteq> []"
    using that wf by (simp add: ctx_wf_def)
  ultimately show ?thesis
    using wf c by (auto simp: ctx_checks_def counter_messages_def ctx_wf_def leD split: if_splits)
qed

lemma inflight_checks_pass: "inflight_wf s \<Longrightarrow> c \<in> set (inflight_checks s) \<Longrightarrow> fst c"
  by (auto simp: inflight_checks_def inflight_wf_def Let_def split: if_splits)

lemma pop_out_of_order_less: "pop_out_of_order prev ev = event_time_order ev prev"
  by (auto simp: pop_out_of_order_def event_time_order_def)

lemma sorted_wrt_zip_tl: "sorted_wrt P xs \<Longrightarrow> (a, b) \<in> set (zip xs (tl xs)) \<Longrightarrow> P a b"
proof (induction xs)
  case (Cons x xs)
  then show ?case by (cases xs) auto
qed simp

lemma pending_checks_pass:
  assumes "pending_wf (m_pending s)" and "c \<in> set (pending_checks s)"
  shows "fst c"
proof -
  let ?evs = "filter (\<lambda>ev. ev_isAnti ev \<or> \<not> cancelled s ev) (m_pending s)"
  have "sorted_wrt (\<lambda>a b. \<not> event_time_order b a) ?evs"
    using assms(1) by (simp add: pending_wf_def sorted_by_def sorted_wrt_filter)
  then show ?thesis
    using assms(2) by (auto simp: pending_checks_def Let_def pop_out_of_order_less dest: sorted_wrt_zip_tl)
qed

text \<open>A check that fails on a well-formed state is one on a counter.\<close>

lemma failing_check:
  assumes wf: "sim_wf s" and c: "find (\<lambda>c. \<not> fst c) (invariant_checks s) = Some c"
  obtains i cx where "(i, cx) \<in> set (m_lps s)" and "c \<in> set (ctx_checks cx)" and "\<not> fst c"
    and "snd c \<in> counter_messages"
proof -
  from c have c: "c \<in> set (invariant_checks s)" "\<not> fst c" by (auto dest: find_Some_in)
  then obtain i cx where cx: "(i, cx) \<in> set (m_lps s)" "c \<in> set (ctx_checks cx)"
    using wf inflight_checks_pass [of s c] pending_checks_pass [of s c]
    by (auto simp: invariant_checks_def sim_wf_def queues_wf_def)
  then have "ctx_wf cx" using wf by (auto simp: sim_wf_def lps_wf_def dest: all_ctxD)
  then show ?thesis using that cx c(2) ctx_checks_fail by blast
qed

lemma validate_fails_only_on_counters:
  assumes wf: "sim_wf s" and fails: "validate_invariants s = (Inl e, t)"
  shows "\<exists>msg \<in> counter_messages. e = Runtime_Error msg"
proof -
  from fails obtain c where c: "find (\<lambda>c. \<not> fst c) (invariant_checks s) = Some c"
    and e: "e = Runtime_Error (snd c)"
    by (auto simp: validate_invariants_def split: if_splits option.splits)
  from failing_check [OF wf c] e show ?thesis by blast
qed

definition counters_ok :: "('st, 'w) sim \<Rightarrow> bool" where
  "counters_ok = all_ctx (\<lambda>_ cx. cx_nextSeqNormal cx \<noteq> 0 \<and> cx_nextSeqControl cx \<noteq> 0 \<and> cx_nextUid cx \<noteq> 0)"

lemma ctx_checks_counters:
  "c \<in> set (ctx_checks cx) \<Longrightarrow> \<not> fst c \<Longrightarrow> snd c \<in> counter_messages \<Longrightarrow>
   cx_nextSeqNormal cx = 0 \<or> cx_nextSeqControl cx = 0 \<or> cx_nextUid cx = 0"
  by (auto simp: ctx_checks_def counter_messages_def split: if_splits)

lemma validate_passes:
  assumes wf: "sim_wf s" and counters: "counters_ok s"
  shows "validate_invariants s = (Inr (), s)"
proof -
  have "find (\<lambda>c. \<not> fst c) (invariant_checks s) = None"
  proof (rule ccontr)
    assume "\<not> ?thesis"
    then obtain c where "find (\<lambda>c. \<not> fst c) (invariant_checks s) = Some c" by blast
    from failing_check [OF wf this] obtain i cx where cx: "(i, cx) \<in> set (m_lps s)"
      "cx_nextSeqNormal cx = 0 \<or> cx_nextSeqControl cx = 0 \<or> cx_nextUid cx = 0"
      using ctx_checks_counters by metis
    with counters show False by (auto simp: counters_ok_def dest: all_ctxD)
  qed
  then show ?thesis by (simp add: validate_invariants_def)
qed

end
