(* ===== verification/Kernel_Rollback.thy ===== *)
theory Kernel_Rollback
  imports Kernel_Steps
begin

text \<open>
  What a rollback does, in closed form, on a rank that holds all logical processes: the
  loops of \<open>rollback\<close> become list functions of the history and of the sent log. The closed
  form gives the functional properties (history cut, state restored, sequence counters
  restored, events back in the queue, anti-messages for what had been sent); the snapshot
  discipline of the modeling contract then gives that the restored state is the state the
  process had before the first undone event.
\<close>

subsection \<open>Sending an anti-message\<close>

definition local_mode :: "('st, 'w) sim \<Rightarrow> bool" where
  "local_mode s \<longleftrightarrow> c_lpToRank (m_cfg s) = None"

definition anti_event :: "u32 \<Rightarrow> sent_record \<Rightarrow> event" where
  "anti_event i r = empty_event\<lparr>ev_ts := sr_msgTime r, ev_src := i, ev_dst := sr_dst r,
     ev_target := 0, ev_uid := sr_uid r, ev_isAnti := True\<rparr>"

lemma anti_of_event: "anti_of cx r = anti_event (lp_id (cx_lp cx)) r"
  by (simp add: anti_of_def anti_event_def)

lemma anti_event_fields [simp]:
  "ev_isAnti (anti_event i r)" "ev_uid (anti_event i r) = sr_uid r"
  "ev_ts (anti_event i r) = sr_msgTime r" "ev_target (anti_event i r) = 0"
  "ev_src (anti_event i r) = i" "ev_dst (anti_event i r) = sr_dst r"
  by (simp_all add: anti_event_def)

definition deliver_anti :: "event \<Rightarrow> ('st, 'w) sim \<Rightarrow> ('st, 'w) sim" where
  "deliver_anti ev s = s\<lparr>m_sentAnti := m_sentAnti s + 1,
     m_pending := pending_push (paint s ev) (m_pending s)\<rparr>"

text \<open>A sent record whose identity was assigned: what \<open>send\<close> logs.\<close>

definition sent_ok :: "sent_record \<Rightarrow> bool" where
  "sent_ok r \<longleftrightarrow> sr_uid r \<noteq> 0 \<and> ts_sequence (sr_msgTime r) \<noteq> 0"

abbreviation sound :: "('st, 'w) sim \<Rightarrow> bool" where
  "sound s \<equiv> idle_wf s \<and> counters_ok s \<and> local_mode s"

lemma paint_isAnti [simp]: "ev_isAnti (paint s ev) = ev_isAnti ev"
  and paint_ts [simp]: "ev_ts (paint s ev) = ev_ts ev"
  and paint_src [simp]: "ev_src (paint s ev) = ev_src ev"
  and paint_uid [simp]: "ev_uid (paint s ev) = ev_uid ev"
  by (simp_all add: paint_def)

lemma sound_deliver_anti: "sound s \<Longrightarrow> sound (deliver_anti ev s)"
  by (simp add: deliver_anti_def wf_defs counters_ok_def local_mode_def)

lemma send_anti_local:
  assumes "sound s" and "sent_ok r"
  shows "send (anti_event i r) s = (Inr (), deliver_anti (anti_event i r) s)"
proof -
  let ?ev = "anti_event i r"
  have valid: "validate_invariants s = (Inr (), s)"
    using assms(1) by (simp add: validate_passes)
  have valid': "validate_invariants (deliver_anti ?ev s) = (Inr (), deliver_anti ?ev s)"
    using sound_deliver_anti [OF assms(1)] by (simp add: validate_passes)
  have ids: "ev_uid ?ev \<noteq> 0" "ts_sequence (ev_ts ?ev) \<noteq> 0"
    using assms(2) by (simp_all add: sent_ok_def)
  have here: "rank_of s (ev_dst ?ev) = c_rank (m_cfg s)"
    using assms(1) by (simp add: rank_of_def local_mode_def)
  have deliver: "s\<lparr>m_sentAnti := m_sentAnti s + 1, m_pending := pending_push (paint s ?ev) (m_pending s)\<rparr>
      = deliver_anti ?ev s"
    by (simp add: deliver_anti_def)
  have "send_local ?ev s = (Inr (), deliver_anti ?ev s)"
    using valid' by (simp add: send_local_def count_sent_def enqueue_def log_sent_def when_eff_def deliver)
  with valid ids here show ?thesis
    by (simp add: send_def assign_uid_def assign_sequence_def route_event_def Let_def del: anti_event_fields)
      (simp add: route_event_def)
qed

definition recall_one :: "u32 \<Rightarrow> sent_record \<Rightarrow> ('st, 'w) sim \<Rightarrow> ('st, 'w) sim" where
  "recall_one i r s = upd_ctx i (\<lambda>c. c\<lparr>cx_sentLog := butlast (cx_sentLog c)\<rparr>)
     (deliver_anti (anti_event i r) s)"

lemma sound_upd_ctx:
  assumes "sound s"
    and "\<And>cx. (i, cx) \<in> set (m_lps s) \<Longrightarrow> lp_id (cx_lp cx) = i \<Longrightarrow> ctx_wf cx \<Longrightarrow> \<not> cx_inEvent cx \<Longrightarrow>
      lp_id (cx_lp (f cx)) = i \<and> ctx_wf (f cx) \<and> \<not> cx_inEvent (f cx)
      \<and> cx_nextSeqNormal (f cx) \<noteq> 0 \<and> cx_nextSeqControl (f cx) \<noteq> 0 \<and> cx_nextUid (f cx) \<noteq> 0"
  shows "sound (upd_ctx i f s)"
proof -
  have facts: "lp_id (cx_lp (f cx)) = i \<and> ctx_wf (f cx) \<and> \<not> cx_inEvent (f cx)
      \<and> cx_nextSeqNormal (f cx) \<noteq> 0 \<and> cx_nextSeqControl (f cx) \<noteq> 0 \<and> cx_nextUid (f cx) \<noteq> 0"
    if "(i, cx) \<in> set (m_lps s)" for cx
    using assms that by (auto simp: sim_wf_def lps_wf_def idle_def dest: all_ctxD)
  have "idle_wf (upd_ctx i f s)"
    using assms(1) facts by (intro idle_wf_upd_ctx) auto
  moreover have "counters_ok (upd_ctx i f s)"
    using assms(1) facts unfolding counters_ok_def by (intro all_ctx_upd_ctx) auto
  ultimately show ?thesis using assms(1) by (simp add: local_mode_def)
qed

lemma sound_recall_one: "sound s \<Longrightarrow> sound (recall_one i r s)"
  unfolding recall_one_def
  by (rule sound_upd_ctx [OF sound_deliver_anti])
    (auto simp: ctx_wf_def counters_ok_def deliver_anti_def dest: all_ctxD)

lemma map_of_recall_one:
  "map_of (m_lps (recall_one i r s)) i =
     map_option (\<lambda>c. c\<lparr>cx_sentLog := butlast (cx_sentLog c)\<rparr>) (map_of (m_lps s) i)"
  by (simp add: recall_one_def deliver_anti_def)

text \<open>The last loop of \<open>rollback\<close> in closed form.\<close>

lemma send_antis_run:
  assumes "sound s" and "map_of (m_lps s) i = Some cx" and "list_all sent_ok rs"
  shows "send_antis i to rs s =
    (Inr (), fold (recall_one i) (takeWhile (\<lambda>r. \<not> sr_sendTime r < to) rs) s)"
  using assms
proof (induction rs arbitrary: s cx)
  case (Cons r rs)
  have id: "lp_id (cx_lp cx) = i" using Cons.prems sim_wf_ctx by blast
  show ?case
  proof (cases "sr_sendTime r < to")
    case False
    have "send_antis i to rs (recall_one i r s) =
        (Inr (), fold (recall_one i) (takeWhile (\<lambda>r. \<not> sr_sendTime r < to) rs) (recall_one i r s))"
      using Cons.prems by (intro Cons.IH sound_recall_one) (simp_all add: map_of_recall_one)
    then show ?thesis
      using Cons.prems False id send_anti_local [of s r i]
      by (simp add: anti_of_event flip: recall_one_def)
  qed simp
qed simp

lemma on_key_sub: "(\<And>c. (i, c) \<in> set m \<Longrightarrow> f c = g c) \<Longrightarrow> on_key i f m = on_key i g m"
  by (auto simp: on_key_def)

lemma m_lps_recall_one:
  "m_lps (recall_one i r s) = on_key i (\<lambda>c. c\<lparr>cx_sentLog := butlast (cx_sentLog c)\<rparr>) (m_lps s)"
  by (simp add: recall_one_def deliver_anti_def)

lemma m_lps_recall:
  "m_lps (fold (recall_one i) rs s) =
     on_key i (\<lambda>c. c\<lparr>cx_sentLog := take (length (cx_sentLog c) - length rs) (cx_sentLog c)\<rparr>) (m_lps s)"
proof (induction rs arbitrary: s)
  case Nil
  show ?case by (simp add: on_key_id)
next
  case (Cons r rs)
  have "take (length (butlast xs) - length rs) (butlast xs) = take (length xs - length (r # rs)) xs"
    for xs :: "sent_record list"
    by (simp add: butlast_conv_take min_def)
  then show ?case
    by (simp add: Cons.IH m_lps_recall_one comp_def)
qed

lemma recall_fields:
  "m_cfg (fold (recall_one i) rs s) = m_cfg s" "m_lastGvt (fold (recall_one i) rs s) = m_lastGvt s"
  "m_world (fold (recall_one i) rs s) = m_world s"
  "m_gvtColor (fold (recall_one i) rs s) = m_gvtColor s"
  "m_cancelledByUid (fold (recall_one i) rs s) = m_cancelledByUid s"
  by (induction rs arbitrary: s) (simp_all add: recall_one_def deliver_anti_def)

lemma paint_recall: "paint (recall_one i r s) = paint s"
  by (rule ext) (simp add: paint_def recall_one_def deliver_anti_def)

lemma m_pending_recall:
  "m_pending (fold (recall_one i) rs s) =
     fold (\<lambda>r. pending_push (paint s (anti_event i r))) rs (m_pending s)"
proof (induction rs arbitrary: s)
  case (Cons r rs)
  have "m_pending (recall_one i r s) = pending_push (paint s (anti_event i r)) (m_pending s)"
    by (simp add: recall_one_def deliver_anti_def)
  then show ?case by (simp add: Cons.IH paint_recall)
qed simp

lemma sound_recall: "sound s \<Longrightarrow> sound (fold (recall_one i) rs s)"
proof (induction rs arbitrary: s)
  case (Cons r rs)
  then show ?case using Cons.IH [OF sound_recall_one [of s i r]] by simp
qed simp

subsection \<open>Restoring the model state\<close>

text \<open>The loads on the model object alone, without the kernel around it.\<close>

definition restore_lp :: "'st lp \<Rightarrow> processed_record list \<Rightarrow> ('st, unit) eff" where
  "restore_lp lp undone =
     (if undone = [] then ret ()
      else thn (case oldest_snapshot undone of
                  None \<Rightarrow> ret () | Some snap \<Rightarrow> lp_load_state lp (pr_preLpState snap))
        (bnd (gets (lp_supports_entity_snapshots lp)) (\<lambda>supports.
         when_eff supports (for_each (\<lambda>(entity, bs). lp_load_entity lp entity bs)
           (oldest_entity_states [] (concat (map pr_preEntityState (rev undone))))))))"

definition put_state :: "'st \<Rightarrow> 'st lp_context \<Rightarrow> 'st lp_context" where
  "put_state st c = c\<lparr>cx_lp := (cx_lp c)\<lparr>lp_state := st\<rparr>\<rparr>"

lemma put_state_simps [simp]:
  "put_state st (put_state st' c) = put_state st c"
  "put_state (lp_state (cx_lp c)) c = c"
  "lp_state (cx_lp (put_state st c)) = st"
  "lp_load_state (cx_lp (put_state st c)) = lp_load_state (cx_lp c)"
  "lp_load_entity (cx_lp (put_state st c)) = lp_load_entity (cx_lp c)"
  "lp_supports_entity_snapshots (cx_lp (put_state st c)) = lp_supports_entity_snapshots (cx_lp c)"
  "lp_id (cx_lp (put_state st c)) = lp_id (cx_lp c)"
  by (simp_all add: put_state_def)

text \<open>
  Running an operation of the object inside its context changes the object's state and
  nothing else, so sequences of such operations are sequences on the object.
\<close>

lemma in_lp_run:
  assumes "map_of (m_lps s) i = Some cx" and "m (cx_lp cx) (lp_state (cx_lp cx)) = (r, st)"
  shows "in_lp i m s = (r, upd_ctx i (put_state st) s)"
  using assms by (simp add: in_lp_def put_state_def [abs_def])

lemma upd_ctx_upd_ctx: "upd_ctx i f (upd_ctx i g s) = upd_ctx i (f \<circ> g) s"
  by (simp add: upd_ctx_def comp_def)

lemma upd_ctx_put_put [simp]:
  "upd_ctx i (put_state st) (upd_ctx i (put_state st') s) = upd_ctx i (put_state st) s"
  by (simp add: upd_ctx_upd_ctx comp_def)

lemma upd_ctx_put_same:
  assumes "sim_wf s" and "map_of (m_lps s) i = Some cx"
  shows "upd_ctx i (put_state (lp_state (cx_lp cx))) s = s"
proof -
  have "on_key i (put_state (lp_state (cx_lp cx))) (m_lps s) = on_key i id (m_lps s)"
    using sim_wf_unique [OF assms] by (intro on_key_sub) simp
  also have "\<dots> = m_lps s" by (simp add: on_key_id)
  finally show ?thesis by (simp add: upd_ctx_def)
qed

lemma load_entities_run:
  assumes "sim_wf s" and "map_of (m_lps s) i = Some cx"
    and "for_each (\<lambda>(e, bs). lp_load_entity (cx_lp cx) e bs) es (lp_state (cx_lp cx)) = (Inr (), st)"
  shows "for_each (\<lambda>(e, bs). in_lp i (\<lambda>lp. lp_load_entity lp e bs)) es s =
    (Inr (), upd_ctx i (put_state st) s)"
  using assms
proof (induction es arbitrary: s cx)
  case Nil
  then show ?case using upd_ctx_put_same by fastforce
next
  case (Cons e es)
  obtain ent bs where e: "e = (ent, bs)" by fastforce
  from Cons.prems(3) obtain st1 where
    st1: "lp_load_entity (cx_lp cx) ent bs (lp_state (cx_lp cx)) = (Inr (), st1)"
    and rest: "for_each (\<lambda>(e, bs). lp_load_entity (cx_lp cx) e bs) es st1 = (Inr (), st)"
    by (auto simp: e elim: thn_cases)
  let ?s1 = "upd_ctx i (put_state st1) s"
  have wf: "sim_wf ?s1"
    using Cons.prems(1) by (rule sim_wf_upd_ctx) (auto simp: put_state_def ctx_wf_def)
  have step: "in_lp i (\<lambda>lp. lp_load_entity lp ent bs) s = (Inr (), ?s1)"
    using Cons.prems(2) st1 by (rule in_lp_run)
  have "for_each (\<lambda>(e, bs). in_lp i (\<lambda>lp. lp_load_entity lp e bs)) es ?s1 =
      (Inr (), upd_ctx i (put_state st) ?s1)"
    by (rule Cons.IH [OF wf, of "put_state st1 cx"]) (use Cons.prems(2) rest in simp_all)
  then show ?case using step by (simp add: e)
qed

text \<open>The state change of a successful restore.\<close>

definition restored_ctx :: "processed_record list \<Rightarrow> 'st \<Rightarrow> 'st lp_context \<Rightarrow> 'st lp_context" where
  "restored_ctx undone st c =
     (if undone = [] then c
      else put_state st (c\<lparr>cx_nextSeqNormal := pr_preNextSeqNormal (last undone),
                           cx_nextSeqControl := pr_preNextSeqControl (last undone)\<rparr>))"

lemma restore_state_run:
  assumes wf: "sim_wf s" and cx: "map_of (m_lps s) i = Some cx"
    and load: "restore_lp (cx_lp cx) undone (lp_state (cx_lp cx)) = (Inr (), st)"
  shows "restore_state i undone s = (Inr (), upd_ctx i (restored_ctx undone st) s)"
proof (cases "undone = []")
  case True
  then show ?thesis by (simp add: restore_state_def restored_ctx_def [abs_def] upd_ctx_def on_key_id)
next
  case False
  let ?seq = "\<lambda>c :: 'a lp_context. c\<lparr>cx_nextSeqNormal := pr_preNextSeqNormal (last undone),
    cx_nextSeqControl := pr_preNextSeqControl (last undone)\<rparr>"
  let ?s1 = "upd_ctx i ?seq s"
  have wf1: "sim_wf ?s1" using wf by (rule sim_wf_upd_ctx) (auto simp: ctx_wf_def)
  have cx1: "map_of (m_lps ?s1) i = Some (?seq cx)" using cx by simp
  from load False obtain st1 where
    st1: "(case oldest_snapshot undone of None \<Rightarrow> ret () | Some snap \<Rightarrow> lp_load_state (cx_lp cx) (pr_preLpState snap))
            (lp_state (cx_lp cx)) = (Inr (), st1)"
    and rest: "when_eff (lp_supports_entity_snapshots (cx_lp cx) st1)
        (for_each (\<lambda>(entity, bs). lp_load_entity (cx_lp cx) entity bs)
          (oldest_entity_states [] (concat (map pr_preEntityState (rev undone))))) st1 = (Inr (), st)"
    by (auto simp: restore_lp_def elim!: thn_cases)
  let ?s2 = "upd_ctx i (put_state st1) ?s1"
  have loaded: "(case oldest_snapshot undone of None \<Rightarrow> ret ()
      | Some snap \<Rightarrow> in_lp i (\<lambda>lp. lp_load_state lp (pr_preLpState snap))) ?s1 = (Inr (), ?s2)"
  proof (cases "oldest_snapshot undone")
    case None
    then show ?thesis using st1 upd_ctx_put_same [OF wf1 cx1] by simp
  next
    case (Some snap)
    then show ?thesis using st1 cx1 by (simp add: in_lp_run)
  qed
  have wf2: "sim_wf ?s2" using wf1 by (rule sim_wf_upd_ctx) (auto simp: put_state_def ctx_wf_def)
  have cx2: "map_of (m_lps ?s2) i = Some (put_state st1 (?seq cx))" using cx by simp
  have "when_eff (lp_supports_entity_snapshots (cx_lp cx) st1)
      (for_each (\<lambda>(entity, bs). in_lp i (\<lambda>lp. lp_load_entity lp entity bs))
        (oldest_entity_states [] (concat (map pr_preEntityState (rev undone))))) ?s2 =
      (Inr (), upd_ctx i (put_state st) ?s2)"
  proof (cases "lp_supports_entity_snapshots (cx_lp cx) st1")
    case True
    then show ?thesis
      using load_entities_run [OF wf2 cx2] rest by (simp add: when_eff_def put_state_def)
  next
    case unsupported: False
    then have "st1 = st" using rest by (simp add: when_eff_def)
    then show ?thesis using unsupported by (simp add: when_eff_def)
  qed
  with loaded cx2 False show ?thesis
    by (simp add: restore_state_def Let_def restored_ctx_def [abs_def] upd_ctx_upd_ctx comp_def
        put_state_def)
qed

subsection \<open>Rollback in closed form\<close>

abbreviation undone_of :: "timestamp \<Rightarrow> 'st lp_context \<Rightarrow> processed_record list" where
  "undone_of to cx \<equiv> takeWhile (\<lambda>r. \<not> pr_ts r < to) (rev (cx_processed cx))"

abbreviation recalled_of :: "timestamp \<Rightarrow> 'st lp_context \<Rightarrow> sent_record list" where
  "recalled_of to cx \<equiv> takeWhile (\<lambda>r. \<not> sr_sendTime r < to) (rev (cx_sentLog cx))"

definition rolled_back ::
  "u32 \<Rightarrow> timestamp \<Rightarrow> 'st lp_context \<Rightarrow> 'st \<Rightarrow> ('st, 'w) sim \<Rightarrow> ('st, 'w) sim" where
  "rolled_back i to cx st s =
     (let s = s\<lparr>m_rollbacksTotal := m_rollbacksTotal s + 1\<rparr>;
          s = fold (undo_one i) (undone_of to cx) s;
          s = s\<lparr>m_rollbackUndoneEvents := m_rollbackUndoneEvents s + word_of_nat (length (undone_of to cx))\<rparr>;
          s = upd_ctx i (restored_ctx (undone_of to cx) st) s;
          s = upd_ctx i (\<lambda>c. c\<lparr>cx_vt := prev_stamp to\<rparr>) s
      in fold (recall_one i) (recalled_of to cx) s)"

text \<open>The context has identities in its log and counters in its records: what \<open>send\<close> and \<open>dispatch\<close> put there.\<close>

definition record_ok :: "processed_record \<Rightarrow> bool" where
  "record_ok r \<longleftrightarrow> pr_preNextSeqNormal r \<noteq> 0 \<and> pr_preNextSeqControl r \<noteq> 0"

definition history_ok :: "'st lp_context \<Rightarrow> bool" where
  "history_ok cx \<longleftrightarrow> list_all record_ok (cx_processed cx) \<and> list_all sent_ok (cx_sentLog cx)"

lemma restore_cancellation_more [simp]:
  "local_mode (restore_cancellation r s) = local_mode s"
  "m_gvtColor (restore_cancellation r s) = m_gvtColor s"
  by (simp_all add: restore_cancellation_def local_mode_def)

lemma undo_one_fields [simp]:
  "m_cfg (undo_one i r s) = m_cfg s" "m_world (undo_one i r s) = m_world s"
  "m_lastGvt (undo_one i r s) = m_lastGvt s" "m_gvtColor (undo_one i r s) = m_gvtColor s"
  by (simp_all add: undo_one_def Let_def)

lemma undo_fields:
  "m_cfg (fold (undo_one i) rs s) = m_cfg s" "m_world (fold (undo_one i) rs s) = m_world s"
  "m_lastGvt (fold (undo_one i) rs s) = m_lastGvt s"
  "m_gvtColor (fold (undo_one i) rs s) = m_gvtColor s"
  by (induction rs arbitrary: s) simp_all

lemma counters_ok_undo: "counters_ok s \<Longrightarrow> counters_ok (fold (undo_one i) rs s)"
  unfolding counters_ok_def all_ctx_def m_lps_undo by (auto simp: in_set_on_key split: if_splits)

lemma sound_undo: "sound s \<Longrightarrow> sound (fold (undo_one i) rs s)"
  using idle_wf_undo [of s i rs] by (simp add: counters_ok_undo local_mode_def undo_fields)

lemma ctx_wf_set_vt:
  "sorted (map pr_ts (cx_processed c)) \<Longrightarrow> \<forall>r \<in> set (cx_processed c). pr_ts r < to \<Longrightarrow>
   \<not> cx_inEvent c \<Longrightarrow> ctx_wf (c\<lparr>cx_vt := prev_stamp to\<rparr>)"
  by (auto simp: ctx_wf_def intro: less_imp_le_prev)

lemma restored_ctx_fields [simp]:
  "cx_processed (restored_ctx undone st c) = cx_processed c"
  "cx_sentLog (restored_ctx undone st c) = cx_sentLog c"
  "cx_inEvent (restored_ctx undone st c) = cx_inEvent c"
  "cx_nextUid (restored_ctx undone st c) = cx_nextUid c"
  "cx_vt (restored_ctx undone st c) = cx_vt c"
  "cx_currentExecTs (restored_ctx undone st c) = cx_currentExecTs c"
  "lp_id (cx_lp (restored_ctx undone st c)) = lp_id (cx_lp c)"
  by (simp_all add: restored_ctx_def put_state_def)

lemma rollback_run:
  assumes s: "sound s" and cx: "map_of (m_lps s) i = Some cx" and ok: "history_ok cx"
    and load: "restore_lp (cx_lp cx) (undone_of to cx) (lp_state (cx_lp cx)) = (Inr (), st)"
  shows "rollback i to s = (Inr (), rolled_back i to cx st s)" and "sound (rolled_back i to cx st s)"
proof -
  let ?undone = "undone_of to cx" and ?recalled = "recalled_of to cx"
  let ?s1 = "s\<lparr>m_rollbacksTotal := m_rollbacksTotal s + 1\<rparr>"
  let ?s2 = "fold (undo_one i) ?undone ?s1"
  let ?s3 = "?s2\<lparr>m_rollbackUndoneEvents := m_rollbackUndoneEvents ?s2 + word_of_nat (length ?undone)\<rparr>"
  let ?s4 = "upd_ctx i (restored_ctx ?undone st) ?s3"
  let ?s5 = "upd_ctx i (\<lambda>c. c\<lparr>cx_vt := prev_stamp to\<rparr>) ?s4"
  let ?s6 = "fold (recall_one i) ?recalled ?s5"
  have s1: "sound ?s1" using s by (simp add: wf_defs counters_ok_def local_mode_def)
  have s2: "sound ?s2" using s1 by (rule sound_undo)
  have s3: "sound ?s3" using s2 by (simp add: wf_defs counters_ok_def local_mode_def)
  have sorted: "sorted (map pr_ts (cx_processed cx))" using s cx sim_wf_ctx by (auto simp: ctx_wf_def)
  have kept: "take (length (cx_processed cx) - length ?undone) (cx_processed cx)
      = takeWhile (\<lambda>r. pr_ts r < to) (cx_processed cx)"
    by (rule kept_prefix [OF sorted])
  let ?cx3 = "cx\<lparr>cx_processed := takeWhile (\<lambda>r. pr_ts r < to) (cx_processed cx)\<rparr>"
  have cx3: "map_of (m_lps ?s3) i = Some ?cx3"
    using cx by (simp add: m_lps_undo kept)
  have last_ok: "record_ok (last ?undone)" if "?undone \<noteq> []"
  proof -
    have "last ?undone \<in> set (cx_processed cx)"
      using last_in_set [OF that] set_takeWhileD by fastforce
    then show ?thesis using ok by (auto simp: history_ok_def list_all_iff)
  qed
  have "sound (upd_ctx i (\<lambda>c. (restored_ctx ?undone st c)\<lparr>cx_vt := prev_stamp to\<rparr>) ?s3)"
  proof (rule sound_upd_ctx [OF s3])
    fix c assume c: "(i, c) \<in> set (m_lps ?s3)" "lp_id (cx_lp c) = i" "ctx_wf c" "\<not> cx_inEvent c"
    then have "c = ?cx3" using s3 cx3 sim_wf_unique by blast
    then have "\<forall>r \<in> set (cx_processed c). pr_ts r < to" by (auto dest: set_takeWhileD)
    moreover have "cx_nextSeqNormal c \<noteq> 0 \<and> cx_nextSeqControl c \<noteq> 0 \<and> cx_nextUid c \<noteq> 0"
      using s3 c(1) by (auto simp: counters_ok_def dest: all_ctxD)
    ultimately show "lp_id (cx_lp ((restored_ctx ?undone st c)\<lparr>cx_vt := prev_stamp to\<rparr>)) = i \<and>
      ctx_wf ((restored_ctx ?undone st c)\<lparr>cx_vt := prev_stamp to\<rparr>) \<and>
      \<not> cx_inEvent ((restored_ctx ?undone st c)\<lparr>cx_vt := prev_stamp to\<rparr>) \<and>
      cx_nextSeqNormal ((restored_ctx ?undone st c)\<lparr>cx_vt := prev_stamp to\<rparr>) \<noteq> 0 \<and>
      cx_nextSeqControl ((restored_ctx ?undone st c)\<lparr>cx_vt := prev_stamp to\<rparr>) \<noteq> 0 \<and>
      cx_nextUid ((restored_ctx ?undone st c)\<lparr>cx_vt := prev_stamp to\<rparr>) \<noteq> 0"
      using c last_ok by (auto simp: restored_ctx_def put_state_def record_ok_def
          ctx_wf_def intro: less_imp_le_prev)
  qed
  then have s5: "sound ?s5" by (simp add: upd_ctx_upd_ctx comp_def)
  have restore: "restore_state i ?undone ?s3 = (Inr (), ?s4)"
  proof (rule restore_state_run [OF _ cx3])
    show "sim_wf ?s3" using s3 by blast
  qed (use load in simp)
  let ?cx5 = "(restored_ctx ?undone st ?cx3)\<lparr>cx_vt := prev_stamp to\<rparr>"
  have cx5: "map_of (m_lps ?s5) i = Some ?cx5" using cx by (simp add: m_lps_undo kept)
  have "list_all sent_ok (rev (cx_sentLog cx))" using ok by (simp add: history_ok_def list_all_iff)
  then have antis: "send_antis i to (rev (cx_sentLog cx)) ?s5 = (Inr (), ?s6)"
    using s5 cx5 by (intro send_antis_run)
  have s6: "sound ?s6" using s5 by (rule sound_recall)
  have "rolled_back i to cx st s = ?s6" by (simp add: rolled_back_def Let_def)
  with s6 show "sound (rolled_back i to cx st s)" by simp
  have cx1: "ctx_of i ?s1 = (Inr cx, ?s1)" using cx by simp
  show "rollback i to s = (Inr (), rolled_back i to cx st s)"
    unfolding rollback_def \<open>rolled_back i to cx st s = ?s6\<close>
    using s s6 cx1 cx5 restore antis
    by (simp add: validate_passes undo_processed_run del: fold_simps)
qed

subsection \<open>Effects of a rollback\<close>

definition rolled_back_ctx :: "timestamp \<Rightarrow> 'st \<Rightarrow> 'st lp_context \<Rightarrow> 'st lp_context" where
  "rolled_back_ctx to st cx =
     (restored_ctx (undone_of to cx) st (cx\<lparr>cx_processed := takeWhile (\<lambda>r. pr_ts r < to) (cx_processed cx)\<rparr>))
       \<lparr>cx_vt := prev_stamp to,
        cx_sentLog := take (length (cx_sentLog cx) - length (recalled_of to cx)) (cx_sentLog cx)\<rparr>"

lemma rolled_back_ctx_of:
  assumes wf: "sim_wf s" and cx: "map_of (m_lps s) i = Some cx"
  shows "map_of (m_lps (rolled_back i to cx st s)) i = Some (rolled_back_ctx to st cx)"
proof -
  have "sorted (map pr_ts (cx_processed cx))" using assms sim_wf_ctx by (auto simp: ctx_wf_def)
  note kept = kept_prefix [OF this, of to]
  show ?thesis
    using cx
    by (simp add: rolled_back_def Let_def m_lps_recall m_lps_undo rolled_back_ctx_def kept
        restored_ctx_def put_state_def)
qed

lemma rolled_back_other:
  "j \<noteq> i \<Longrightarrow> map_of (m_lps (rolled_back i to cx st s)) j = map_of (m_lps s) j"
  by (simp add: rolled_back_def Let_def m_lps_recall m_lps_undo)

lemma mset_fold_push:
  "mset (fold (\<lambda>r. pending_push (f r)) rs q) = mset (map f rs) + mset q"
  by (induction rs arbitrary: q) simp_all

lemma rolled_back_pending:
  "mset (m_pending (rolled_back i to cx st s)) =
     mset (m_pending s) + mset (map pr_ev (undone_of to cx))
     + mset (map (\<lambda>r. paint s (anti_event i r)) (recalled_of to cx))"
proof -
  have "paint (upd_ctx i f u) = paint s" if "m_cfg u = m_cfg s" "m_gvtColor u = m_gvtColor s"
    for f and u :: "('a, 'b) sim"
    using that by (intro ext) (simp add: paint_def)
  then show ?thesis
    by (simp add: rolled_back_def Let_def m_pending_recall m_pending_undo mset_fold_push undo_fields)
qed

lemma rolled_back_fields:
  "m_cfg (rolled_back i to cx st s) = m_cfg s" "m_lastGvt (rolled_back i to cx st s) = m_lastGvt s"
  "m_world (rolled_back i to cx st s) = m_world s"
  by (simp_all add: rolled_back_def Let_def recall_fields undo_fields)

text \<open>When the log is sorted by send time, exactly the entries at or after \<open>to\<close> are recalled.\<close>

lemma recalled_sorted:
  assumes "sorted (map sr_sendTime (cx_sentLog cx))"
  shows "recalled_of to cx = rev (dropWhile (\<lambda>r. sr_sendTime r < to) (cx_sentLog cx))"
    and "cx_sentLog (rolled_back_ctx to st cx) = takeWhile (\<lambda>r. sr_sendTime r < to) (cx_sentLog cx)"
  by (rule undone_suffix [OF assms]) (simp add: rolled_back_ctx_def kept_prefix [OF assms])

subsection \<open>The snapshot discipline\<close>

text \<open>
  \<open>replays save st rs st'\<close>: the records \<open>rs\<close> were made by events that took the object from
  state \<open>st\<close> to \<open>st'\<close> and that requested a write before changing it: a record without a
  snapshot belongs to an event that left the state alone.
\<close>

inductive replays :: "('st \<Rightarrow> exn + bytes) \<Rightarrow> 'st \<Rightarrow> processed_record list \<Rightarrow> 'st \<Rightarrow> bool"
  for save :: "'st \<Rightarrow> exn + bytes" where
  replays_Nil: "replays save st [] st"
| replays_write: "pr_hasLpSnapshot r \<Longrightarrow> save st = Inr (pr_preLpState r) \<Longrightarrow>
    replays save st' rs st'' \<Longrightarrow> replays save st (r # rs) st''"
| replays_read: "\<not> pr_hasLpSnapshot r \<Longrightarrow> replays save st rs st'' \<Longrightarrow> replays save st (r # rs) st''"

inductive_simps replays_Nil_iff [simp]: "replays save st [] st'"
inductive_cases replays_ConsE: "replays save st (r # rs) st'"

lemma replays_append:
  "replays save st (xs @ ys) st'' \<longleftrightarrow> (\<exists>st'. replays save st xs st' \<and> replays save st' ys st'')"
proof (induction xs arbitrary: st)
  case (Cons x xs)
  show ?case
  proof
    assume "replays save st ((x # xs) @ ys) st''"
    then have "replays save st (x # (xs @ ys)) st''" by simp
    then show "\<exists>st'. replays save st (x # xs) st' \<and> replays save st' ys st''"
      by (rule replays_ConsE) (use Cons.IH in \<open>blast intro: replays_write replays_read\<close>)+
  next
    assume "\<exists>st'. replays save st (x # xs) st' \<and> replays save st' ys st''"
    then obtain st' where "replays save st (x # xs) st'" "replays save st' ys st''" by blast
    then show "replays save st ((x # xs) @ ys) st''"
      by (elim replays_ConsE) (use Cons.IH in \<open>auto intro: replays_write replays_read\<close>)
  qed
qed simp

lemma replays_snapshot:
  "replays save st rs st' \<Longrightarrow>
   (case find pr_hasLpSnapshot rs of None \<Rightarrow> st' = st | Some r \<Rightarrow> save st = Inr (pr_preLpState r))"
  by (induction rule: replays.induct) auto

context snapshot_lp
begin

text \<open>Loading the oldest snapshot of the undone events gives the state before the first of them.\<close>

lemma load_oldest:
  assumes "replays save st us st'" and "ok st"
  shows "(case oldest_snapshot (rev us) of None \<Rightarrow> ret () | Some snap \<Rightarrow> load (pr_preLpState snap)) st'
    = (Inr (), st)"
proof (cases "find pr_hasLpSnapshot us")
  case None
  then show ?thesis using replays_snapshot [OF assms(1)] by (simp add: oldest_snapshot_def)
next
  case (Some r)
  then have "save st = Inr (pr_preLpState r)" using replays_snapshot [OF assms(1)] by simp
  with Some show ?thesis using load_save assms(2) by (simp add: oldest_snapshot_def)
qed

end

definition lp_wide :: "'st lp \<Rightarrow> bool" where
  "lp_wide lp \<longleftrightarrow> lp_supports_entity_snapshots lp = (\<lambda>_. False)"

lemma restore_lp_replays:
  assumes "snapshot_lp (lp_save_state lp) (lp_load_state lp) ok" and "lp_wide lp"
    and "replays (lp_save_state lp) st us st'" and "ok st"
  shows "restore_lp lp (rev us) st' = (Inr (), st)"
proof (cases "us = []")
  case True
  then show ?thesis using assms(3) by (simp add: restore_lp_def)
next
  case False
  have "bnd (gets (lp_supports_entity_snapshots lp)) (\<lambda>supports. when_eff supports m) st = (Inr (), st)" for m
    using assms(2) by (simp add: bnd_def lp_wide_def when_eff_def)
  then show ?thesis
    using False snapshot_lp.load_oldest [OF assms(1,3,4)] by (simp add: restore_lp_def)
qed

text \<open>What the handler leaves in the record agrees with that discipline.\<close>

lemma run_sink_call_lp:
  assumes "run_sink_call i c s = (Inr x, t)" and "map_of (m_lps s) i = Some cx"
  shows "\<exists>cx'. map_of (m_lps t) i = Some cx' \<and> cx_processed cx' = cx_processed cx \<and>
    cx_lp cx' = (cx_lp cx)\<lparr>lp_state := (case c of Become st \<Rightarrow> st | _ \<Rightarrow> lp_state (cx_lp cx))\<rparr>"
proof (cases c)
  case (Send ev)
  then have "cores t = cores s"
    using assms(1) send_keeps_frame by (auto simp: send_frame_def)
  from cores_map_of [OF this assms(2)] show ?thesis
    by (auto simp: Send ctx_core_def)
qed (use assms in \<open>auto simp: set_lp_state_def\<close>)

end
