(* ===== verification/Kernel_Exec.thy ===== *)
theory Kernel_Exec
  imports Kernel_Rollback
begin

text \<open>
  Executing an event and undoing it again: what a successful \<open>dispatch\<close> adds to a context's
  history, and that a rollback to the event's time takes the context back.
\<close>

subsection \<open>The handler's calls\<close>

text \<open>
  \<open>handled rec s cx calls rec' cx'\<close>: after a list of calls, the record and the context are
  related to those before as the write-before-mutation rule promises.
\<close>

definition handled ::
  "processed_record \<Rightarrow> 'st lp_context \<Rightarrow> 'st ctx_call list \<Rightarrow> processed_record \<Rightarrow> 'st lp_context \<Rightarrow> bool" where
  "handled rec cx cs rec' cx' \<longleftrightarrow>
     cx_processed cx' = cx_processed cx
     \<and> cx_lp cx' = (cx_lp cx)\<lparr>lp_state := final_state cs (lp_state (cx_lp cx))\<rparr>
     \<and> pr_ev rec' = pr_ev rec \<and> pr_preEntityState rec' = []
     \<and> pr_preNextSeqNormal rec' = pr_preNextSeqNormal rec
     \<and> pr_preNextSeqControl rec' = pr_preNextSeqControl rec
     \<and> (pr_hasLpSnapshot rec \<longrightarrow> pr_hasLpSnapshot rec' \<and> pr_preLpState rec' = pr_preLpState rec)
     \<and> (\<not> pr_hasLpSnapshot rec \<and> write_before_mutation cs \<longrightarrow>
          (if pr_hasLpSnapshot rec'
           then lp_save_state (cx_lp cx) (lp_state (cx_lp cx)) = Inr (pr_preLpState rec')
           else final_state cs (lp_state (cx_lp cx)) = lp_state (cx_lp cx)))"

lemma request_write_lp_wide:
  assumes "request_write i entity rec s = (Inr rec', t)" and "map_of (m_lps s) i = Some cx"
    and "lp_wide (cx_lp cx)" and "pr_preEntityState rec = []"
  shows "t = s" and "if pr_hasLpSnapshot rec then rec' = rec
    else \<exists>bs. lp_save_state (cx_lp cx) (lp_state (cx_lp cx)) = Inr bs
      \<and> rec' = rec\<lparr>pr_hasLpSnapshot := True, pr_preLpState := bs\<rparr>"
  using assms
  by (cases "lp_save_state (cx_lp cx) (lp_state (cx_lp cx))"; cases "pr_hasLpSnapshot rec";
      simp add: request_write_def lp_wide_def Let_def)+

lemma run_handler_handled:
  assumes "run_handler i cs rec s = (Inr rec', t)" and "map_of (m_lps s) i = Some cx"
    and "lp_wide (cx_lp cx)" and "pr_preEntityState rec = []"
  shows "\<exists>cx'. map_of (m_lps t) i = Some cx' \<and> handled rec cx cs rec' cx'"
  using assms
proof (induction cs arbitrary: rec s cx)
  case Nil
  then show ?case by (simp add: handled_def)
next
  case (Cons c cs)
  from Cons.prems(1) obtain rec1 s1 where
    call: "run_ctx_call i c rec s = (Inr rec1, s1)"
    and rest: "run_handler i cs rec1 s1 = (Inr rec', t)"
    by (auto elim: bnd_cases)
  show ?case
  proof (cases c)
    case (Sink sc)
    with call obtain x where sc: "run_sink_call i sc s = (Inr x, s1)" and rec1: "rec1 = rec"
      by (auto elim!: thn_cases)
    from run_sink_call_lp [OF sc Cons.prems(2)] obtain cx1 where
      cx1: "map_of (m_lps s1) i = Some cx1" "cx_processed cx1 = cx_processed cx"
        "cx_lp cx1 = (cx_lp cx)\<lparr>lp_state := (case sc of Become st \<Rightarrow> st | _ \<Rightarrow> lp_state (cx_lp cx))\<rparr>"
      by blast
    then have "lp_wide (cx_lp cx1)" using Cons.prems(3) by (simp add: lp_wide_def)
    from Cons.IH [OF rest cx1(1) this] Cons.prems(4) rec1 obtain cx' where
      "map_of (m_lps t) i = Some cx'" "handled rec cx1 cs rec' cx'" by auto
    then show ?thesis
      using cx1(2,3) Sink by (intro exI [of _ cx']) (cases sc, auto simp: handled_def)
  next
    case (Request_Write entity)
    with call have req: "request_write i entity rec s = (Inr rec1, s1)" by simp
    note w = request_write_lp_wide [OF req Cons.prems(2,3,4)]
    have "pr_preEntityState rec1 = []" using w(2) Cons.prems(4) by (auto split: if_splits)
    from Cons.IH [OF rest _ Cons.prems(3) this] w(1) Cons.prems(2) obtain cx' where
      "map_of (m_lps t) i = Some cx'" "handled rec1 cx cs rec' cx'" by auto
    then show ?thesis
      using w(2) Request_Write by (intro exI [of _ cx']) (auto simp: handled_def split: if_splits)
  next
    case (Emit_Committed ts p)
    with call have e: "s1 = s" "rec1 = rec\<lparr>pr_committed := pr_committed rec @ [(ts, p)]\<rparr>"
      by (auto simp: emit_committed_def split: if_splits)
    from Cons.IH [OF rest _ Cons.prems(3)] Cons.prems(2,4) e obtain cx' where
      "map_of (m_lps t) i = Some cx'" "handled rec1 cx cs rec' cx'" by auto
    then show ?thesis
      using e(2) Emit_Committed by (intro exI [of _ cx']) (auto simp: handled_def)
  qed
qed

subsection \<open>A successful dispatch\<close>

text \<open>
  Buffering of early targeted events is off, so a dispatch that returns has executed the
  event.
\<close>

definition buffering_off :: "('st, 'w) sim \<Rightarrow> bool" where
  "buffering_off s \<longleftrightarrow> \<not> c_enableInstallBeforeUseBuffering (m_cfg s)"

lemma run_handler_cfg:
  fixes s :: "('a, 'b) sim"
  assumes "run_handler i cs rec s = (r, t)"
  shows "m_cfg t = m_cfg s"
proof -
  have "keeps (\<lambda>u. m_cfg u = m_cfg s) (send ev :: (('a, 'b) sim, unit) eff)" for ev
  proof (rule keepsI)
    fix u :: "('a, 'b) sim" assume "m_cfg u = m_cfg s"
    then show "m_cfg (snd (send ev u)) = m_cfg s"
      using send_keeps_frame [of ev u] by (cases "send ev u") (simp add: send_frame_def)
  qed
  then have "keeps (\<lambda>u. m_cfg u = m_cfg s) (run_handler i cs rec)"
    by (intro keeps_run_handler keeps_run_sink_call) simp_all
  from keepsD [OF this, of s] show ?thesis using assms by simp
qed

lemma handler_returns:
  assumes run: "dispatch_event ev s = (Inr (), t)" and off: "buffering_off s"
    and cx: "map_of (m_lps s) (ev_dst ev) = Some cx" and late: "\<not> ev_ts ev < cx_vt cx"
  obtains rec u where
    "run_handler (ev_dst ev) (lp_on_event (cx_lp cx) ev (lp_state (cx_lp cx))) (new_record ev cx)
       (upd_ctx (ev_dst ev) (\<lambda>c. c\<lparr>cx_vt := ev_ts ev, cx_inEvent := True, cx_currentExecTs := ev_ts ev\<rparr>) s)
     = (Inr rec, u)"
    and "t = (let u' = upd_ctx (ev_dst ev) (\<lambda>c. c\<lparr>cx_inEvent := False, cx_processed := cx_processed c @ [rec]\<rparr>) u
      in u'\<lparr>m_totalProcessed := m_totalProcessed u' + 1\<rparr>)"
proof -
  let ?s1 = "upd_ctx (ev_dst ev) (\<lambda>c. c\<lparr>cx_vt := ev_ts ev, cx_inEvent := True, cx_currentExecTs := ev_ts ev\<rparr>) s"
  let ?h = "run_handler (ev_dst ev) (lp_on_event (cx_lp cx) ev (lp_state (cx_lp cx))) (new_record ev cx)"
  obtain r u where h: "?h ?s1 = (r, u)" by fastforce
  have cfg: "\<not> c_enableInstallBeforeUseBuffering (m_cfg u)"
    using off run_handler_cfg [OF h] by (simp add: buffering_off_def)
  show ?thesis
  proof (cases r)
    case (Inl e)
    then have "catching (execute ev cx) (on_handler_exception ev (cx_vt cx)) s = (Inl e, upd_ctx (ev_dst ev) (\<lambda>c. c\<lparr>cx_inEvent := False\<rparr>) u)"
      using h cfg by (simp add: catching_def execute_def on_handler_exception_def)
    then show ?thesis using run cx late by (simp add: dispatch_event_def)
  next
    case (Inr rec)
    let ?u' = "upd_ctx (ev_dst ev) (\<lambda>c. c\<lparr>cx_inEvent := False, cx_processed := cx_processed c @ [rec]\<rparr>) u"
    have "catching (execute ev cx) (on_handler_exception ev (cx_vt cx)) s = (Inr True, ?u')"
      using h Inr cfg by (simp add: catching_def execute_def when_eff_def)
    then have "t = ?u'\<lparr>m_totalProcessed := m_totalProcessed ?u' + 1\<rparr>"
      using run cx late validate_state
      by (cases "validate_invariants (?u'\<lparr>m_totalProcessed := m_totalProcessed ?u' + 1\<rparr>)")
        (auto simp: dispatch_event_def when_eff_def dest: arg_cong [where f = snd])
    with h Inr that show ?thesis by (simp add: Let_def)
  qed
qed

lemma dispatch_executes:
  assumes run: "dispatch ev s = (Inr (), t)" and pos: "\<not> ev_isAnti ev" and off: "buffering_off s"
    and cx: "map_of (m_lps s) (ev_dst ev) = Some cx" and late: "\<not> ev_ts ev < cx_vt cx"
    and wide: "lp_wide (cx_lp cx)"
    and disciplined: "write_before_mutation (lp_on_event (cx_lp cx) ev (lp_state (cx_lp cx)))"
  shows "\<exists>cx' r. m_cfg t = m_cfg s \<and> map_of (m_lps t) (ev_dst ev) = Some cx'
    \<and> cx_processed cx' = cx_processed cx @ [r] \<and> pr_ev r = ev
    \<and> pr_preNextSeqNormal r = cx_nextSeqNormal cx \<and> pr_preNextSeqControl r = cx_nextSeqControl cx
    \<and> cx_lp cx' = (cx_lp cx)\<lparr>lp_state :=
        final_state (lp_on_event (cx_lp cx) ev (lp_state (cx_lp cx))) (lp_state (cx_lp cx))\<rparr>
    \<and> replays (lp_save_state (cx_lp cx)) (lp_state (cx_lp cx)) [r] (lp_state (cx_lp cx'))"
proof -
  let ?calls = "lp_on_event (cx_lp cx) ev (lp_state (cx_lp cx))"
  let ?start = "\<lambda>c :: 'a lp_context. c\<lparr>cx_vt := ev_ts ev, cx_inEvent := True, cx_currentExecTs := ev_ts ev\<rparr>"
  have "dispatch_event ev s = (Inr (), t)"
  proof (cases "validate_invariants s")
    case (Pair r u)
    then have "u = s" using validate_state [of s] by simp
    with Pair run pos show ?thesis by (cases r) (auto simp: dispatch_def)
  qed
  from handler_returns [OF this off cx late] obtain rec u where
    h: "run_handler (ev_dst ev) ?calls (new_record ev cx) (upd_ctx (ev_dst ev) ?start s) = (Inr rec, u)"
    and t: "t = (let u' = upd_ctx (ev_dst ev) (\<lambda>c. c\<lparr>cx_inEvent := False, cx_processed := cx_processed c @ [rec]\<rparr>) u
      in u'\<lparr>m_totalProcessed := m_totalProcessed u' + 1\<rparr>)" by blast
  have start: "map_of (m_lps (upd_ctx (ev_dst ev) ?start s)) (ev_dst ev) = Some (?start cx)"
    using cx by simp
  have "lp_wide (cx_lp (?start cx))" "pr_preEntityState (new_record ev cx) = []"
    using wide by (simp_all add: new_record_def)
  from run_handler_handled [OF h start this] obtain cx1 where
    cx1: "map_of (m_lps u) (ev_dst ev) = Some cx1" and hd: "handled (new_record ev cx) (?start cx) ?calls rec cx1"
    by blast
  let ?cx' = "cx1\<lparr>cx_inEvent := False, cx_processed := cx_processed cx1 @ [rec]\<rparr>"
  have "map_of (m_lps t) (ev_dst ev) = Some ?cx'" using cx1 by (simp add: t Let_def)
  moreover have "m_cfg t = m_cfg s" using run_handler_cfg [OF h] by (simp add: t Let_def)
  moreover have "replays (lp_save_state (cx_lp cx)) (lp_state (cx_lp cx)) [rec] (lp_state (cx_lp ?cx'))"
    using hd disciplined
    by (cases "pr_hasLpSnapshot rec")
      (auto simp: handled_def new_record_def intro: replays_write [OF _ _ replays_Nil] replays_read [OF _ replays_Nil])
  ultimately show ?thesis
    using hd by (intro exI [of _ ?cx'] exI [of _ rec]) (simp add: handled_def new_record_def)
qed

subsection \<open>Undoing it\<close>

text \<open>
  The central property of the optimistic kernel: rolling back to \<open>to\<close> a context whose
  history replays from \<open>st1\<close> leaves the object in \<open>st1\<close>, the history cut at \<open>to\<close>, and the
  sequence counters as they were before the first undone event.
\<close>

lemma rollback_restores:
  assumes s: "sound s" and cx: "map_of (m_lps s) i = Some cx" and ok: "history_ok cx"
    and contract: "snapshot_lp (lp_save_state (cx_lp cx)) (lp_load_state (cx_lp cx)) ok_st"
    and wide: "lp_wide (cx_lp cx)" and good: "ok_st st1"
    and rep: "replays (lp_save_state (cx_lp cx)) st1 (dropWhile (\<lambda>r. pr_ts r < to) (cx_processed cx))
      (lp_state (cx_lp cx))"
  shows "rollback i to s = (Inr (), rolled_back i to cx st1 s)"
    and "map_of (m_lps (rolled_back i to cx st1 s)) i = Some (rolled_back_ctx to st1 cx)"
    and "sound (rolled_back i to cx st1 s)"
    and "lp_state (cx_lp (rolled_back_ctx to st1 cx)) = st1"
proof -
  have "sorted (map pr_ts (cx_processed cx))" using s cx sim_wf_ctx by (auto simp: ctx_wf_def)
  note undone = undone_suffix [OF this, of to]
  have load: "restore_lp (cx_lp cx) (undone_of to cx) (lp_state (cx_lp cx)) = (Inr (), st1)"
    unfolding undone by (rule restore_lp_replays [OF contract wide rep good])
  show "rollback i to s = (Inr (), rolled_back i to cx st1 s)"
    and "sound (rolled_back i to cx st1 s)"
    by (rule rollback_run [OF s cx ok load])+
  show "map_of (m_lps (rolled_back i to cx st1 s)) i = Some (rolled_back_ctx to st1 cx)"
    using s cx by (intro rolled_back_ctx_of) simp_all
  show "lp_state (cx_lp (rolled_back_ctx to st1 cx)) = st1"
  proof (cases "undone_of to cx = []")
    case True
    then have none: "dropWhile (\<lambda>r. pr_ts r < to) (cx_processed cx) = []" unfolding undone by simp
    have "st1 = lp_state (cx_lp cx)" using rep unfolding none by simp
    with True show ?thesis by (simp add: rolled_back_ctx_def restored_ctx_def)
  qed (simp add: rolled_back_ctx_def restored_ctx_def put_state_def)
qed

lemma dispatch_then_rollback:
  assumes s: "sound s" and run: "dispatch ev s = (Inr (), t)" and pos: "\<not> ev_isAnti ev"
    and off: "buffering_off s" and cx: "map_of (m_lps s) (ev_dst ev) = Some cx"
    and later: "cx_vt cx < ev_ts ev" and wide: "lp_wide (cx_lp cx)"
    and disciplined: "write_before_mutation (lp_on_event (cx_lp cx) ev (lp_state (cx_lp cx)))"
    and contract: "snapshot_lp (lp_save_state (cx_lp cx)) (lp_load_state (cx_lp cx)) ok_st"
    and good: "ok_st (lp_state (cx_lp cx))"
    and history: "list_all record_ok (cx_processed cx)"
    and counters: "counters_ok t"
    and sent: "\<And>cx'. map_of (m_lps t) (ev_dst ev) = Some cx' \<Longrightarrow> list_all sent_ok (cx_sentLog cx')"
  shows "\<exists>u cx''. rollback (ev_dst ev) (ev_ts ev) t = (Inr (), u)
    \<and> map_of (m_lps u) (ev_dst ev) = Some cx''
    \<and> cx_lp cx'' = cx_lp cx \<and> cx_processed cx'' = cx_processed cx
    \<and> cx_nextSeqNormal cx'' = cx_nextSeqNormal cx \<and> cx_nextSeqControl cx'' = cx_nextSeqControl cx
    \<and> cx_vt cx'' = prev_stamp (ev_ts ev) \<and> ev \<in> set (m_pending u)"
proof -
  have late: "\<not> ev_ts ev < cx_vt cx" using later by simp
  from dispatch_executes [OF run pos off cx late wide disciplined] obtain cx' r where
    cfg: "m_cfg t = m_cfg s" and cx': "map_of (m_lps t) (ev_dst ev) = Some cx'"
    and proc: "cx_processed cx' = cx_processed cx @ [r]" and r: "pr_ev r = ev"
    and seqs: "pr_preNextSeqNormal r = cx_nextSeqNormal cx" "pr_preNextSeqControl r = cx_nextSeqControl cx"
    and lp: "cx_lp cx' = (cx_lp cx)\<lparr>lp_state :=
        final_state (lp_on_event (cx_lp cx) ev (lp_state (cx_lp cx))) (lp_state (cx_lp cx))\<rparr>"
    and rep: "replays (lp_save_state (cx_lp cx)) (lp_state (cx_lp cx)) [r] (lp_state (cx_lp cx'))"
    by blast
  have t: "sound t"
    using s cfg counters keeps_result [OF keeps_dispatch _ run] by (simp add: local_mode_def)
  have old: "pr_ts x < ev_ts ev" if "x \<in> set (cx_processed cx)" for x
    using that s cx later sim_wf_ctx by (fastforce simp: ctx_wf_def)
  then have cut: "dropWhile (\<lambda>x. pr_ts x < ev_ts ev) (cx_processed cx') = [r]"
    "takeWhile (\<lambda>x. pr_ts x < ev_ts ev) (cx_processed cx') = cx_processed cx"
    using r by (simp_all add: proc)
  have "sorted (map pr_ts (cx_processed cx'))" using t cx' sim_wf_ctx by (auto simp: ctx_wf_def)
  note undone = undone_suffix [OF this, of "ev_ts ev", unfolded cut(1), simplified]
  have nz: "cx_nextSeqNormal cx \<noteq> 0" "cx_nextSeqControl cx \<noteq> 0"
    using s cx by (auto simp: counters_ok_def dest: all_ctx_map_of)
  have ok: "history_ok cx'"
    using history sent [OF cx'] nz seqs by (simp add: history_ok_def proc record_ok_def)
  note restores = rollback_restores [OF t cx' ok, of ok_st "lp_state (cx_lp cx)" "ev_ts ev"]
  let ?u = "rolled_back (ev_dst ev) (ev_ts ev) cx' (lp_state (cx_lp cx)) t"
  let ?cx'' = "rolled_back_ctx (ev_ts ev) (lp_state (cx_lp cx)) cx'"
  have "rollback (ev_dst ev) (ev_ts ev) t = (Inr (), ?u)" "map_of (m_lps ?u) (ev_dst ev) = Some ?cx''"
    by (rule restores(1,2); use contract wide good rep cut in \<open>simp add: lp lp_wide_def\<close>)+
  moreover have "ev \<in># mset (m_pending ?u)"
    unfolding rolled_back_pending undone using r by simp
  ultimately show ?thesis
    using seqs undone cut
    by (intro exI [of _ ?u] exI [of _ ?cx''])
      (simp add: rolled_back_ctx_def restored_ctx_def put_state_def lp)
qed

end
