(* ===== verification/Kernel_Commit.thy ===== *)
theory Kernel_Commit
  imports Kernel_Exec
begin

text \<open>
  The GVT computation and commitment. \<open>compute_gvt\<close> is the greatest lower bound of the
  local work; pruning commits exactly the records below GVT, hands their output to the sinks
  in an order that does not depend on how the contexts are iterated, and feeds the
  determinism digest with the same items in any order.
\<close>

subsection \<open>The lower bound\<close>

definition bounds_work :: "('st, 'w) sim \<Rightarrow> timestamp \<Rightarrow> bool" where
  "bounds_work s x \<longleftrightarrow>
     all_ctx (\<lambda>_ cx. x \<le> cx_vt cx) s
     \<and> (\<forall>ev \<in> set (dropWhile (cancelled s) (m_pending s)). x \<le> ev_ts ev)
     \<and> (c_gvtMode (m_cfg s) = AckInflight \<longrightarrow> (\<forall>ts \<in> set (m_inflightTs s). x \<le> ts))"

lemma le_fold_min_stamp:
  "x \<le> fold (\<lambda>e gvt. min_stamp gvt (f e)) es g \<longleftrightarrow> x \<le> g \<and> (\<forall>e \<in> set es. x \<le> f e)"
  by (induction es arbitrary: g) (auto simp: min_stamp_min)

lemma le_hd_pending:
  "pending_wf (ev # q) \<Longrightarrow> x \<le> ev_ts ev \<longleftrightarrow> (\<forall>e \<in> set (ev # q). x \<le> ev_ts e)"
  using pending_head_least order_trans by fastforce

lemma le_hd_sorted: "sorted (t # ts) \<Longrightarrow> x \<le> t \<longleftrightarrow> (\<forall>u \<in> set (t # ts). x \<le> (u :: 'a :: linorder))"
  by fastforce

lemma compute_gvt_run:
  "compute_gvt s =
     (Inr (let gvt = fold (\<lambda>e gvt. min_stamp gvt (cx_vt (snd e))) (m_lps s) max_stamp;
               gvt = (case dropWhile (cancelled s) (m_pending s) of [] \<Rightarrow> gvt | ev # _ \<Rightarrow> min_stamp gvt (ev_ts ev))
           in if c_gvtMode (m_cfg s) = AckInflight \<and> m_inflightTs s \<noteq> []
              then min_stamp gvt (hd (m_inflightTs s)) else gvt),
      s\<lparr>m_pending := dropWhile (cancelled s) (m_pending s)\<rparr>)"
proof -
  obtain q where q: "dropWhile (cancelled s) (m_pending s) = q" by blast
  have "peek_next_pending_ts s =
      (Inr (case q of [] \<Rightarrow> None | ev # _ \<Rightarrow> Some (ev_ts ev)), s\<lparr>m_pending := q\<rparr>)"
    by (simp only: peek_next_pending_ts_def Let_def q)
  then show ?thesis
    unfolding q by (cases q) (simp_all add: compute_gvt_def Let_def)
qed

lemma compute_gvt_greatest:
  assumes wf: "sim_wf s" and g: "compute_gvt s = (Inr g, t)"
  shows "x \<le> g \<longleftrightarrow> bounds_work s x"
proof -
  let ?q = "dropWhile (cancelled s) (m_pending s)"
  let ?v = "fold (\<lambda>e gvt. min_stamp gvt (cx_vt (snd e))) (m_lps s) max_stamp"
  let ?p = "case ?q of [] \<Rightarrow> ?v | ev # _ \<Rightarrow> min_stamp ?v (ev_ts ev)"
  have q: "pending_wf ?q" using wf by (simp add: pending_wf_dropWhile sim_wf_def queues_wf_def)
  have fl: "sorted (m_inflightTs s)" using wf by (simp add: sim_wf_def queues_wf_def inflight_wf_def)
  have v: "x \<le> ?v \<longleftrightarrow> all_ctx (\<lambda>_ cx. x \<le> cx_vt cx) s"
    by (auto simp: le_fold_min_stamp all_ctx_def)
  have p: "x \<le> ?p \<longleftrightarrow> x \<le> ?v \<and> (\<forall>ev \<in> set ?q. x \<le> ev_ts ev)"
    using q
  proof (induction ?q)
    case (Cons ev q')
    show ?case
      unfolding Cons.hyps(2) [symmetric] list.case min_stamp_min min.bounded_iff
      using le_hd_pending [of ev q' x] Cons.prems Cons.hyps(2) by simp
  qed simp
  have g': "g = (if c_gvtMode (m_cfg s) = AckInflight \<and> m_inflightTs s \<noteq> []
      then min_stamp ?p (hd (m_inflightTs s)) else ?p)"
    using g unfolding compute_gvt_run Let_def by simp
  have "x \<le> g \<longleftrightarrow> x \<le> ?p \<and> (c_gvtMode (m_cfg s) = AckInflight \<longrightarrow> (\<forall>ts \<in> set (m_inflightTs s). x \<le> ts))"
    unfolding g' using le_hd_sorted [of _ _ x] fl
    by (cases "m_inflightTs s") (auto simp: min_stamp_min)
  then show ?thesis unfolding p v bounds_work_def by blast
qed

subsection \<open>The flush orders\<close>

text \<open>Comparing by one key after the other gives a strict weak order.\<close>

lemma comparator_key: "comparator (\<lambda>a b. f a < (f b :: 'k :: linorder))"
  by unfold_locales auto

lemma comparator_lex:
  assumes "comparator lt"
  shows "comparator (\<lambda>a b. f a < (f b :: 'k :: linorder) \<or> f a = f b \<and> lt a b)"
proof
  fix a b c
  show "\<not> (f a < f a \<or> f a = f a \<and> lt a a)" using comparator.lt_irrefl [OF assms] by simp
  show "f a < f b \<or> f a = f b \<and> lt a b \<Longrightarrow> f b < f c \<or> f b = f c \<and> lt b c \<Longrightarrow>
      f a < f c \<or> f a = f c \<and> lt a c"
    using comparator.lt_trans [OF assms, of a b c] by (elim disjE conjE) auto
  show "f a < f c \<or> f a = f c \<and> lt a c \<Longrightarrow>
      (f a < f b \<or> f a = f b \<and> lt a b) \<or> f b < f c \<or> f b = f c \<and> lt b c"
    using comparator.lt_negtrans [OF assms, of a c b] linorder_less_linear [of "f a" "f b"]
    by (elim disjE conjE) auto
qed

lemma if_less_key:
  "(if x < y then True else if y < x then False else P) \<longleftrightarrow> x < y \<or> x = (y :: 'k :: linorder) \<and> P"
  "(if x \<noteq> y then x < y else P) \<longleftrightarrow> x < y \<or> x = y \<and> P"
  by auto

lemma if_less_bool: "(if a then 1 else 0 :: int) < (if b then 1 else 0) \<longleftrightarrow> a < b"
  by auto

lemma flush_order_lex: "flush_order = (\<lambda>a b. fi_ts a < fi_ts b \<or> fi_ts a = fi_ts b \<and>
  (fi_lp a < fi_lp b \<or> fi_lp a = fi_lp b \<and> (fi_eventSrc a < fi_eventSrc b \<or> fi_eventSrc a = fi_eventSrc b \<and>
  (fi_eventUid a < fi_eventUid b \<or> fi_eventUid a = fi_eventUid b \<and> fi_index a < fi_index b))))"
  by (intro ext) (simp only: flush_order_def if_less_key)

lemma event_flush_order_lex: "event_flush_order = (\<lambda>a b. ei_ts a < ei_ts b \<or> ei_ts a = ei_ts b \<and>
  (ei_lp a < ei_lp b \<or> ei_lp a = ei_lp b \<and>
  (ev_src (ei_ev a) < ev_src (ei_ev b) \<or> ev_src (ei_ev a) = ev_src (ei_ev b) \<and>
  (ev_uid (ei_ev a) < ev_uid (ei_ev b) \<or> ev_uid (ei_ev a) = ev_uid (ei_ev b) \<and>
   ev_isAnti (ei_ev a) < ev_isAnti (ei_ev b)))))"
  by (intro ext) (simp only: event_flush_order_def if_less_key if_less_bool)

interpretation flush: comparator flush_order
  unfolding flush_order_lex by (intro comparator_lex comparator_key)

interpretation event_flush: comparator event_flush_order
  unfolding event_flush_order_lex by (intro comparator_lex comparator_key)

definition flush_key :: "flush_item \<Rightarrow> timestamp \<times> u32 \<times> u32 \<times> u64 \<times> u32" where
  "flush_key it = (fi_ts it, fi_lp it, fi_eventSrc it, fi_eventUid it, fi_index it)"

lemma flush_order_incomparable:
  "\<not> flush_order a b \<Longrightarrow> \<not> flush_order b a \<Longrightarrow> flush_key a = flush_key b"
  by (auto simp: flush_order_def flush_key_def split: if_splits)

lemma flush_order_ts: "\<not> flush_order b a \<Longrightarrow> fi_ts a \<le> fi_ts b"
  by (auto simp: flush_order_def split: if_splits)

lemma event_flush_order_ts: "\<not> event_flush_order b a \<Longrightarrow> ei_ts a \<le> ei_ts b"
  by (auto simp: event_flush_order_def split: if_splits)

text \<open>Committed output leaves the kernel in time-stamp order.\<close>

lemma flush_sorted_ts: "sorted (map fi_ts (flush_of safe))"
  using flush.sort_by_sorted unfolding flush_of_def sorted_by_def sorted_map
  by (rule sorted_wrt_mono_rel [rotated]) (auto intro: flush_order_ts)

lemma event_flush_sorted_ts: "sorted (map ei_ts (event_flush_of safe))"
  using event_flush.sort_by_sorted unfolding event_flush_of_def sorted_by_def sorted_map
  by (rule sorted_wrt_mono_rel [rotated]) (auto intro: event_flush_order_ts)

lemma mset_flush_of: "mset (flush_of safe) = mset (concat (map (\<lambda>(i, r). record_outputs i r) safe))"
  by (simp add: flush_of_def)

subsection \<open>What pruning commits\<close>

text \<open>On a sorted history the safe records are those below GVT, and the others stay.\<close>

lemma sorted_takeWhile_filter:
  "sorted (map f xs) \<Longrightarrow> takeWhile (\<lambda>x. f x < (g :: 'b :: linorder)) xs = filter (\<lambda>x. f x < g) xs"
  "sorted (map f xs) \<Longrightarrow> dropWhile (\<lambda>x. f x < g) xs = filter (\<lambda>x. \<not> f x < g) xs"
proof (induction xs)
  case (Cons a xs)
  have "filter (\<lambda>x. f x < g) xs = []" "filter (\<lambda>x. \<not> f x < g) xs = xs" if "\<not> f a < g" "sorted (map f (a # xs))"
    using that by (auto simp: filter_empty_conv filter_id_conv)
  with Cons show "sorted (map f (a # xs)) \<Longrightarrow>
      takeWhile (\<lambda>x. f x < g) (a # xs) = filter (\<lambda>x. f x < g) (a # xs)"
    "sorted (map f (a # xs)) \<Longrightarrow>
      dropWhile (\<lambda>x. f x < g) (a # xs) = filter (\<lambda>x. \<not> f x < g) (a # xs)"
    by auto
qed simp_all

lemma safe_records_filter: "ctx_wf cx \<Longrightarrow> safe_records g cx = filter (\<lambda>r. pr_ts r < g) (cx_processed cx)"
  by (simp add: safe_records_def ctx_wf_def sorted_takeWhile_filter)

lemma pruned_filter: "ctx_wf cx \<Longrightarrow> cx_processed (prune_ctx g cx) = filter (\<lambda>r. \<not> pr_ts r < g) (cx_processed cx)"
  by (simp add: prune_ctx_def ctx_wf_def sorted_takeWhile_filter)

lemma set_safe_of:
  "sim_wf s \<Longrightarrow> (i, r) \<in> set (safe_of g s) \<longleftrightarrow>
     (\<exists>cx. (i, cx) \<in> set (m_lps s) \<and> r \<in> set (cx_processed cx) \<and> pr_ts r < g)"
proof -
  assume wf: "sim_wf s"
  have safe: "set (safe_records g cx) = {r \<in> set (cx_processed cx). pr_ts r < g}"
    if "(i, cx) \<in> set (m_lps s)" for i cx
    using wf that by (auto simp: sim_wf_def lps_wf_def safe_records_filter dest!: all_ctxD)
  show ?thesis
  proof
    assume "(i, r) \<in> set (safe_of g s)"
    then obtain cx where "(i, cx) \<in> set (m_lps s)" "r \<in> set (safe_records g cx)"
      by (auto simp: safe_of_def)
    with safe show "\<exists>cx. (i, cx) \<in> set (m_lps s) \<and> r \<in> set (cx_processed cx) \<and> pr_ts r < g" by blast
  next
    assume "\<exists>cx. (i, cx) \<in> set (m_lps s) \<and> r \<in> set (cx_processed cx) \<and> pr_ts r < g"
    then obtain cx where "(i, cx) \<in> set (m_lps s)" "r \<in> set (safe_records g cx)" using safe by blast
    then show "(i, r) \<in> set (safe_of g s)" by (force simp: safe_of_def)
  qed
qed

text \<open>The sink calls of one pruning, as an operation on the outside world.\<close>

definition flush_calls :: "'w config \<Rightarrow> (u32 \<times> processed_record) list \<Rightarrow> ('w, unit) eff" where
  "flush_calls cfg safe =
     thn (case c_committedSink cfg of None \<Rightarrow> ret ()
          | Some sink \<Rightarrow> for_each (\<lambda>it. sink (c_rank cfg) (fi_lp it) (fi_ts it) (fi_payload it)) (flush_of safe))
         (case c_committedEventSink cfg of None \<Rightarrow> ret ()
          | Some sink \<Rightarrow> for_each (\<lambda>it. sink (c_rank cfg) (ei_lp it) (ei_ev it)) (event_flush_of safe))"

lemma for_each_in_world:
  "for_each (\<lambda>x. in_world (f x)) xs s =
     (case for_each f xs (m_world s) of (r, w) \<Rightarrow> (r, s\<lparr>m_world := w\<rparr>))"
proof (induction xs arbitrary: s)
  case (Cons x xs)
  obtain r w where rw: "f x (m_world s) = (r, w)" by fastforce
  show ?case
  proof (cases r)
    case (Inr u)
    then show ?thesis
      using rw Cons.IH [of "s\<lparr>m_world := w\<rparr>"] by (simp add: in_world_def split: prod.split)
  qed (use rw in \<open>simp add: in_world_def\<close>)
qed simp

lemma prune_to_gvt_run:
  "prune_to_gvt g s =
     (case flush_calls (m_cfg s) (safe_of g s) (m_world s) of
        (r, w) \<Rightarrow> (r, (prune_state g s)\<lparr>m_world := w\<rparr>))"
proof -
  have w: "m_world (prune_state g s) = m_world s" by (simp add: prune_state_def)
  have same: "(prune_state g s)\<lparr>m_world := m_world s\<rparr> = prune_state g s"
    by (simp add: prune_state_def)
  let ?sink = "\<lambda>sink. for_each (\<lambda>it. sink (c_rank (m_cfg s)) (fi_lp it) (fi_ts it) (fi_payload it)) (flush_of (safe_of g s))"
  show ?thesis
  proof (cases "c_committedSink (m_cfg s)")
    case None
    then show ?thesis
      by (cases "c_committedEventSink (m_cfg s)")
        (simp_all add: prune_to_gvt_def flush_calls_def for_each_in_world w same)
  next
    case (Some sink)
    obtain r w' where rw: "?sink sink (m_world s) = (r, w')" by fastforce
    show ?thesis
    proof (cases r)
      case (Inl e)
      then show ?thesis using Some rw
        by (simp add: prune_to_gvt_def flush_calls_def for_each_in_world w)
    next
      case (Inr u)
      then show ?thesis using Some rw
        by (cases "c_committedEventSink (m_cfg s)")
          (simp_all add: prune_to_gvt_def flush_calls_def for_each_in_world w split: prod.split)
    qed
  qed
qed

subsection \<open>Independence of the iteration order\<close>

text \<open>
  The contexts live in a hash map, so the order of \<open>m_lps\<close> is arbitrary. What a pruning
  commits and outputs does not depend on it, as long as the records can be told apart.
\<close>

definition commits_ok :: "(u32 \<times> processed_record) list \<Rightarrow> bool" where
  "commits_ok safe \<longleftrightarrow>
     (\<forall>i r q. (i, r) \<in> set safe \<longrightarrow> (i, q) \<in> set safe \<longrightarrow> pr_ts r = pr_ts q \<longrightarrow>
        ev_src (pr_ev r) = ev_src (pr_ev q) \<longrightarrow> ev_uid (pr_ev r) = ev_uid (pr_ev q) \<longrightarrow>
        ev_isAnti (pr_ev r) = ev_isAnti (pr_ev q) \<longrightarrow> r = q)
     \<and> (\<forall>i r. (i, r) \<in> set safe \<longrightarrow> (ev_isAnti (pr_ev r) \<longrightarrow> pr_committed r = [])
        \<and> length (pr_committed r) \<le> 2 ^ 32 \<and> (\<forall>c \<in> set (pr_committed r). fst c = pr_ts r))"

lemma in_record_outputs:
  "it \<in> set (record_outputs i r) \<longleftrightarrow> (\<exists>k < length (pr_committed r).
     it = \<lparr>fi_ts = fst (pr_committed r ! k), fi_lp = i, fi_eventSrc = ev_src (pr_ev r),
           fi_eventUid = ev_uid (pr_ev r), fi_index = word_of_nat k, fi_payload = snd (pr_committed r ! k)\<rparr>)"
proof -
  let ?item = "\<lambda>k. \<lparr>fi_ts = fst (pr_committed r ! k), fi_lp = i, fi_eventSrc = ev_src (pr_ev r),
    fi_eventUid = ev_uid (pr_ev r), fi_index = word_of_nat k, fi_payload = snd (pr_committed r ! k)\<rparr>"
  have "record_outputs i r = map ?item [0..<length (pr_committed r)]"
    by (rule nth_equalityI) (simp_all add: record_outputs_def nth_enumerate_eq case_prod_beta)
  then show ?thesis by auto
qed

lemma flush_items_unique:
  assumes ok: "commits_ok safe"
    and a: "a \<in> set (concat (map (\<lambda>(i, r). record_outputs i r) safe))"
    and b: "b \<in> set (concat (map (\<lambda>(i, r). record_outputs i r) safe))"
    and key: "flush_key a = flush_key b"
  shows "a = b"
proof -
  from a obtain i r k where r: "(i, r) \<in> set safe" "k < length (pr_committed r)"
    and a': "a = \<lparr>fi_ts = fst (pr_committed r ! k), fi_lp = i, fi_eventSrc = ev_src (pr_ev r),
      fi_eventUid = ev_uid (pr_ev r), fi_index = word_of_nat k, fi_payload = snd (pr_committed r ! k)\<rparr>"
    by (auto simp: in_record_outputs)
  from b obtain j q l where q: "(j, q) \<in> set safe" "l < length (pr_committed q)"
    and b': "b = \<lparr>fi_ts = fst (pr_committed q ! l), fi_lp = j, fi_eventSrc = ev_src (pr_ev q),
      fi_eventUid = ev_uid (pr_ev q), fi_index = word_of_nat l, fi_payload = snd (pr_committed q ! l)\<rparr>"
    by (auto simp: in_record_outputs)
  have ts: "fst (pr_committed r ! k) = pr_ts r" "fst (pr_committed q ! l) = pr_ts q"
    using ok r q by (auto simp: commits_ok_def)
  have pos: "\<not> ev_isAnti (pr_ev r)" "\<not> ev_isAnti (pr_ev q)"
    using ok r q by (auto simp: commits_ok_def)
  have small: "k < 2 ^ 32" "l < 2 ^ 32"
    using ok r q by (fastforce simp: commits_ok_def)+
  have "i = j" "pr_ts r = pr_ts q" "ev_src (pr_ev r) = ev_src (pr_ev q)"
    "ev_uid (pr_ev r) = ev_uid (pr_ev q)" "(word_of_nat k :: u32) = word_of_nat l"
    using key ts by (simp_all add: flush_key_def a' b')
  moreover have "k = l"
  proof -
    have "unat (word_of_nat k :: u32) = k" "unat (word_of_nat l :: u32) = l"
      using small by (simp_all add: unat_of_nat take_bit_nat_eq_self)
    then show ?thesis unfolding \<open>(word_of_nat k :: u32) = word_of_nat l\<close> by (rule trans [OF sym])
  qed
  moreover have "r = q" using ok r(1) q(1) calculation pos unfolding commits_ok_def by blast
  ultimately show ?thesis by (simp add: a' b')
qed

lemma event_items_unique:
  assumes ok: "commits_ok safe"
    and a: "a \<in> set (map (\<lambda>(i, r). record_event i r) safe)"
    and b: "b \<in> set (map (\<lambda>(i, r). record_event i r) safe)"
    and eq: "\<not> event_flush_order a b" "\<not> event_flush_order b a"
  shows "a = b"
proof -
  from a obtain i r where r: "(i, r) \<in> set safe" "a = record_event i r" by auto
  from b obtain j q where q: "(j, q) \<in> set safe" "b = record_event j q" by auto
  have "i = j" "pr_ts r = pr_ts q" "ev_src (pr_ev r) = ev_src (pr_ev q)"
    "ev_uid (pr_ev r) = ev_uid (pr_ev q)" "ev_isAnti (pr_ev r) = ev_isAnti (pr_ev q)"
    using eq by (auto simp: event_flush_order_def r q record_event_def split: if_splits)
  then have "r = q" using ok r(1) q(1) unfolding commits_ok_def by blast
  with \<open>i = j\<close> r q show ?thesis by simp
qed

lemma mset_concat_map: "mset xs = mset ys \<Longrightarrow> mset (concat (map f xs)) = mset (concat (map f ys))"
  by (metis mset_concat mset_map sum_mset_sum_list)

lemma mset_safe_of: "mset (m_lps s') = mset (m_lps s) \<Longrightarrow> mset (safe_of g s') = mset (safe_of g s)"
  unfolding safe_of_def by (rule mset_concat_map)

lemma flushes_order_free:
  assumes ok: "commits_ok safe" and same: "mset safe = mset safe'"
  shows "flush_of safe' = flush_of safe" and "event_flush_of safe' = event_flush_of safe"
proof -
  show "flush_of safe' = flush_of safe"
    unfolding flush_of_def
    by (rule flush.sort_by_perm_eq [symmetric])
      (use flush_items_unique [OF ok] flush_order_incomparable mset_concat_map [OF same] in blast)+
  have "mset (map (\<lambda>(i, r). record_event i r) safe) = mset (map (\<lambda>(i, r). record_event i r) safe')"
    using same by simp
  then show "event_flush_of safe' = event_flush_of safe"
    unfolding event_flush_of_def
    by (rule event_flush.sort_by_perm_eq [symmetric]) (use event_items_unique [OF ok] in blast)
qed

lemma commit_order_free:
  assumes lps: "mset (m_lps s') = mset (m_lps s)"
    and cfg: "m_cfg s' = m_cfg s" "m_world s' = m_world s" "m_determinism s' = m_determinism s"
    and ok: "commits_ok (safe_of g s)"
    and run: "prune_to_gvt g s = (r, t)" "prune_to_gvt g s' = (r', t')"
  shows "r' = r" and "m_world t' = m_world t" and "m_determinism t' = m_determinism t"
    and "mset (m_lps t') = mset (m_lps t)"
proof -
  note same = mset_safe_of [OF lps, of g]
  have "flush_calls (m_cfg s') (safe_of g s') = flush_calls (m_cfg s) (safe_of g s)"
    unfolding flush_calls_def cfg flushes_order_free [OF ok same [symmetric]] ..
  then show "r' = r" "m_world t' = m_world t"
    using run cfg unfolding prune_to_gvt_run by (auto split: prod.splits)
  have states: "m_determinism t = m_determinism (prune_state g s)" "m_lps t = m_lps (prune_state g s)"
    "m_determinism t' = m_determinism (prune_state g s')" "m_lps t' = m_lps (prune_state g s')"
    using run unfolding prune_to_gvt_run by (auto split: prod.splits)
  have "mset (concat (map (\<lambda>(i, r). record_items (m_cfg s') i r) (safe_of g s'))) =
      mset (concat (map (\<lambda>(i, r). record_items (m_cfg s) i r) (safe_of g s)))"
    unfolding cfg(1) by (rule mset_concat_map [OF same])
  from det_digest.fold_mset_eq [OF this] show "m_determinism t' = m_determinism t"
    unfolding states by (simp add: prune_state_def cfg)
  show "mset (m_lps t') = mset (m_lps t)"
    unfolding states using lps by (simp add: prune_state_def)
qed

end
