(* ===== verification/Kernel_Safety.thy ===== *)
theory Kernel_Safety
  imports Kernel_Commit
begin

text \<open>
  Safety of commitment on a single rank: GVT never decreases, and nothing at a time below it
  is ever pending, in a history, or the target of a rollback again. The processes have to be
  causal (an event's handler sends only into the event's future), and buffering of early
  targeted events has to be off (buffered events are not part of the GVT computation).
\<close>

subsection \<open>The floor\<close>

definition causal :: "'st lp \<Rightarrow> bool" where
  "causal lp \<longleftrightarrow> (\<forall>ev st e. Sink (Send e) \<in> set (lp_on_event lp ev st) \<longrightarrow> ev_ts ev \<le> ev_ts e)"

text \<open>Sent records lead forward in time, and the processes are causal.\<close>

definition forward :: "('st, 'w) sim \<Rightarrow> bool" where
  "forward = all_ctx (\<lambda>_ cx. (\<forall>l \<in> set (cx_sentLog cx). sr_sendTime l \<le> sr_msgTime l) \<and> causal (cx_lp cx))"

definition history_from :: "timestamp \<Rightarrow> ('st, 'w) sim \<Rightarrow> bool" where
  "history_from G = all_ctx (\<lambda>_ cx. \<forall>r \<in> set (cx_processed cx). G \<le> pr_ts r)"

definition pending_from :: "timestamp \<Rightarrow> ('st, 'w) sim \<Rightarrow> bool" where
  "pending_from G s \<longleftrightarrow> (\<forall>ev \<in> set (m_pending s). G \<le> ev_ts ev)"

definition inflight_from :: "timestamp \<Rightarrow> ('st, 'w) sim \<Rightarrow> bool" where
  "inflight_from G s \<longleftrightarrow> (\<forall>e \<in> set (m_inflightByUid s). G \<le> snd e)"

definition from_gvt :: "'w config \<Rightarrow> timestamp \<Rightarrow> ('st, 'w) sim \<Rightarrow> bool" where
  "from_gvt C G s \<longleftrightarrow> m_cfg s = C \<and> m_lastGvt s = G \<and> pending_from G s
     \<and> inflight_from G s \<and> history_from G s \<and> forward s"

text \<open>No context is in an event later than \<open>T\<close>.\<close>

definition clock_le :: "timestamp \<Rightarrow> ('st, 'w) sim \<Rightarrow> bool" where
  "clock_le T = all_ctx (\<lambda>_ cx. cx_inEvent cx \<longrightarrow> cx_currentExecTs cx \<le> T)"

lemmas from_defs = from_gvt_def pending_from_def inflight_from_def history_from_def forward_def all_ctx_def clock_le_def

lemma clock_le_max [simp]: "clock_le max_stamp s"
  by (simp add: clock_le_def all_ctx_def)

lemma clock_le_idle: "idle s \<Longrightarrow> clock_le T s"
  by (auto simp: clock_le_def idle_def all_ctx_def)

lemma causal_state [simp]: "causal (lp\<lparr>lp_state := st\<rparr>) = causal lp"
  by (simp add: causal_def)

definition ok_at :: "timestamp \<Rightarrow> timestamp \<Rightarrow> event \<Rightarrow> bool" where
  "ok_at G T ev \<longleftrightarrow> G \<le> ev_ts ev \<and> (ev_isAnti ev \<or> T \<le> ev_ts ev)"

lemma from_gvt_upd_ctx:
  assumes "from_gvt C G s"
    and "\<And>cx. (i, cx) \<in> set (m_lps s) \<Longrightarrow> set (cx_processed (f cx)) \<subseteq> set (cx_processed cx) \<union> {r. G \<le> pr_ts r}"
    and "\<And>cx. (i, cx) \<in> set (m_lps s) \<Longrightarrow> set (cx_sentLog (f cx)) \<subseteq> set (cx_sentLog cx) \<union> {l. sr_sendTime l \<le> sr_msgTime l}"
    and "\<And>cx. causal (cx_lp (f cx)) = causal (cx_lp cx)"
  shows "from_gvt C G (upd_ctx i f s)"
proof -
  have h: "history_from G (upd_ctx i f s)"
    using assms(1,2) unfolding from_gvt_def history_from_def by (intro all_ctx_upd_ctx) auto
  have "forward (upd_ctx i f s)"
    using assms(1,3,4) unfolding from_gvt_def forward_def by (intro all_ctx_upd_ctx) auto
  with h show ?thesis using assms(1) by (simp add: from_gvt_def pending_from_def inflight_from_def)
qed

lemma clock_le_upd_ctx:
  "clock_le T s \<Longrightarrow> (\<And>cx. cx_inEvent (f cx) = cx_inEvent cx \<and> cx_currentExecTs (f cx) = cx_currentExecTs cx) \<Longrightarrow>
   clock_le T (upd_ctx i f s)"
  unfolding clock_le_def by (rule all_ctx_upd_ctx) auto

lemma ts_le_sequence:
  "G \<le> t \<Longrightarrow> ts_sequence t = 0 \<Longrightarrow> G \<le> TimeStamp (ts_time t) q"
proof (cases G; cases t)
  fix a b c d assume "G \<le> t" "ts_sequence t = 0" "G = TimeStamp a b" "t = TimeStamp c d"
  then show ?thesis by auto
qed

interpretation send_from: send_stable "\<lambda>s. from_gvt C G s \<and> clock_le T s" "ok_at G T" for C G T
proof (unfold_locales, goal_cases)
  case (2 ev q)
  then show ?case by (auto simp: ok_at_def set_ev_sequence_def ts_le_sequence)
next
  case (5 s i u)
  then show ?case by (auto intro!: from_gvt_upd_ctx clock_le_upd_ctx)
next
  case (6 s i u)
  then show ?case by (auto intro!: from_gvt_upd_ctx clock_le_upd_ctx)
next
  case (7 s i u)
  then show ?case by (auto intro!: from_gvt_upd_ctx clock_le_upd_ctx)
next
  case (12 s ev cx)
  have "(if cx_inEvent cx then cx_currentExecTs cx else zero_stamp) \<le> ev_ts ev"
    using 12 by (auto simp: clock_le_def ok_at_def dest: all_ctx_map_of)
  then show ?case using 12 by (auto intro!: from_gvt_upd_ctx clock_le_upd_ctx)
next
  case (14 s ev)
  then show ?case
    by (cases "map_of (m_inflightByUid s) (inflight_key_of ev) = None")
      (simp_all add: track_inflight_send_def ok_at_def from_defs)
next
  case (15 s ev)
  then show ?case
    by (cases "ev_gvtColor ev = m_gvtWhiteColor s")
      (simp_all add: count_red_sent_def Let_def from_defs)
qed (auto simp: ok_at_def set_ev_uid_def from_defs)

lemma keeps_from_max: "keeps (\<lambda>s. from_gvt C G s \<and> clock_le max_stamp s) m \<longleftrightarrow> keeps (from_gvt C G) m"
  by (simp add: keeps_def)

subsection \<open>Rollback stays above the floor\<close>

lemma from_gvt_undo_one:
  assumes "from_gvt C G s" and "G \<le> pr_ts r"
  shows "from_gvt C G (undo_one i r s)"
  unfolding undo_one_def Let_def
proof (rule from_gvt_upd_ctx)
  show "from_gvt C G ((restore_cancellation r s)\<lparr>m_pending := pending_push (pr_ev r) (m_pending (restore_cancellation r s))\<rparr>)"
    using assms by (auto simp: from_defs restore_cancellation_def)
qed (auto dest: in_set_butlastD)

lemma from_gvt_undo:
  "from_gvt C G s \<Longrightarrow> \<forall>r \<in> set rs. G \<le> pr_ts r \<Longrightarrow> from_gvt C G (fold (undo_one i) rs s)"
  by (induction rs arbitrary: s) (simp_all add: from_gvt_undo_one)

lemma keeps_send_anti_from: "G \<le> ev_ts ev \<Longrightarrow> ev_isAnti ev \<Longrightarrow> keeps (from_gvt C G) (send ev)"
  using send_from.keeps_send [of G max_stamp ev C] by (simp add: keeps_from_max ok_at_def)

lemma keeps_send_antis_from:
  assumes "G \<le> to" and "\<forall>r \<in> set rs. sr_sendTime r \<le> sr_msgTime r"
  shows "keeps (from_gvt C G) (send_antis i to rs)"
  using assms(2)
proof (induction rs)
  case (Cons r rs)
  show ?case
  proof (cases "sr_sendTime r < to")
    case False
    have "G \<le> sr_msgTime r" using False Cons.prems assms(1) by (auto intro: order_trans)
    then have "keeps (from_gvt C G) (send (anti_of cx r))" for cx :: "'a lp_context"
      by (intro keeps_send_anti_from) (simp_all add: anti_of_event)
    moreover have "keeps (from_gvt C G) (upd (upd_ctx i (\<lambda>c. c\<lparr>cx_sentLog := butlast (cx_sentLog c)\<rparr>)))"
      by (intro keeps_upd from_gvt_upd_ctx) (auto dest: in_set_butlastD)
    ultimately show ?thesis
      using False Cons by (auto intro!: keeps_intros)
  qed simp
qed simp

lemma keeps_rollback_from:
  assumes "G \<le> to"
  shows "keeps (from_gvt C G :: ('a, 'b) sim \<Rightarrow> bool) (rollback i to)"
proof -
  have ctx: "triple (from_gvt C G) (ctx_of i)
      (\<lambda>cx s :: ('a, 'b) sim. from_gvt C G s \<and> map_of (m_lps s) i = Some cx) (from_gvt C G)"
    by (auto simp: triple_def ctx_of_def split: option.splits)
  have undo: "triple (\<lambda>s :: ('a, 'b) sim. from_gvt C G s \<and> map_of (m_lps s) i = Some cx)
      (undo_processed i to (rev (cx_processed cx))) (\<lambda>_. from_gvt C G) (from_gvt C G)" for cx
    unfolding triple_def undo_processed_run
  proof (intro allI impI)
    fix s :: "('a, 'b) sim" assume s: "from_gvt C G s \<and> map_of (m_lps s) i = Some cx"
    then have "\<forall>r \<in> set (cx_processed cx). G \<le> pr_ts r"
      by (auto simp: from_gvt_def history_from_def dest: all_ctx_map_of)
    then have "\<forall>r \<in> set (undone_of to cx). G \<le> pr_ts r" by (auto dest: set_takeWhileD)
    with s show "case (Inr (undone_of to cx), fold (undo_one i) (undone_of to cx) s) of
        (Inl e, t) \<Rightarrow> from_gvt C G t | (Inr x, t) \<Rightarrow> from_gvt C G t"
      by (simp add: from_gvt_undo)
  qed
  have restore: "keeps (from_gvt C G :: ('a, 'b) sim \<Rightarrow> bool) (restore_state i undone)" for undone
    by (intro keeps_restore_state from_gvt_upd_ctx) auto
  have upds: "keeps (from_gvt C G :: ('a, 'b) sim \<Rightarrow> bool) (upd (\<lambda>s. s\<lparr>m_rollbacksTotal := m_rollbacksTotal s + 1\<rparr>))"
    "keeps (from_gvt C G :: ('a, 'b) sim \<Rightarrow> bool) (upd (\<lambda>s. s\<lparr>m_rollbackUndoneEvents := m_rollbackUndoneEvents s + n\<rparr>))"
    "keeps (from_gvt C G :: ('a, 'b) sim \<Rightarrow> bool) (upd (upd_ctx i (\<lambda>c. c\<lparr>cx_vt := v\<rparr>)))" for n v
    by (rule keeps_upd, simp add: from_defs, rule keeps_upd, simp add: from_defs)
      (intro keeps_upd from_gvt_upd_ctx, auto)
  have antis: "triple (\<lambda>s :: ('a, 'b) sim. from_gvt C G s \<and> map_of (m_lps s) i = Some cx)
      (thn (send_antis i to (rev (cx_sentLog cx))) validate_invariants) (\<lambda>_. from_gvt C G) (from_gvt C G)" for cx
    unfolding triple_def
  proof (intro allI impI)
    fix s :: "('a, 'b) sim" assume s: "from_gvt C G s \<and> map_of (m_lps s) i = Some cx"
    then have "\<forall>l \<in> set (rev (cx_sentLog cx)). sr_sendTime l \<le> sr_msgTime l"
      by (auto simp: from_gvt_def forward_def dest: all_ctx_map_of)
    then have "keeps (from_gvt C G :: ('a, 'b) sim \<Rightarrow> bool)
        (thn (send_antis i to (rev (cx_sentLog cx))) validate_invariants)"
      by (intro keeps_intros keeps_send_antis_from assms)
    from keepsD [OF this] s
    show "case thn (send_antis i to (rev (cx_sentLog cx))) validate_invariants s of
        (Inl e, t) \<Rightarrow> from_gvt C G t | (Inr x, t) \<Rightarrow> from_gvt C G t"
      by (auto simp: case_prod_beta split: sum.split)
  qed
  have "triple (from_gvt C G :: ('a, 'b) sim \<Rightarrow> bool) (rollback i to) (\<lambda>_. from_gvt C G) (from_gvt C G)"
    unfolding rollback_def
    by (intro triple_thn [OF keeps_validate [unfolded keeps_triple]]
        triple_thn [OF upds(1) [unfolded keeps_triple]] triple_bnd [OF ctx] triple_bnd [OF undo]
        triple_thn [OF upds(2) [unfolded keeps_triple]] triple_thn [OF restore [unfolded keeps_triple]]
        triple_thn [OF upds(3) [unfolded keeps_triple]] antis)
  then show ?thesis by (simp add: keeps_triple)
qed

subsection \<open>Dispatch stays above the floor\<close>

lemma keeps_upd_from:
  "(\<And>s. m_lps (f s) = m_lps s) \<Longrightarrow> (\<And>s. m_cfg (f s) = m_cfg s) \<Longrightarrow> (\<And>s. m_lastGvt (f s) = m_lastGvt s) \<Longrightarrow>
   (\<And>s. m_pending (f s) = m_pending s) \<Longrightarrow> (\<And>s. m_inflightByUid (f s) = m_inflightByUid s) \<Longrightarrow>
   keeps (from_gvt C G) (upd f)"
  by (rule keeps_upd) (simp add: from_defs)

lemma keeps_enqueue_from: "G \<le> ev_ts ev \<Longrightarrow> keeps (from_gvt C G) (enqueue ev)"
  unfolding enqueue_def by (rule keeps_upd) (auto simp: from_defs)

lemma keeps_straggler_from: "G \<le> ev_ts ev \<Longrightarrow> keeps (from_gvt C G) (straggler ev)"
  unfolding straggler_def
  by (intro keeps_intros keeps_rollback_from keeps_enqueue_from keeps_upd_from) simp_all

lemma keeps_cancel_from: "keeps (\<lambda>s. idle_wf s \<and> from_gvt C G s) (cancel anti)"
proof (rule keeps_cancel [where R = "\<lambda>to. G \<le> to"])
  show "G \<le> to \<Longrightarrow> keeps (\<lambda>s. idle_wf s \<and> from_gvt C G s) (rollback i to)" for i to
    by (intro keeps_conj keeps_rollback_idle_wf keeps_rollback_from)
  show "idle_wf (note_cancelled anti s) \<and> from_gvt C G (note_cancelled anti s)"
    if "idle_wf s \<and> from_gvt C G s" for s :: "('a, 'b) sim"
    using that by (simp add: idle_wf_cong [OF note_cancelled_fields(1,3)]) (simp add: from_defs)
  show "keeps (\<lambda>s. idle_wf s \<and> from_gvt C G s) (upd f)"
    if "\<And>s. m_lps (f s) = m_lps s" "\<And>s. queues_wf (f s) = queues_wf s"
      "\<And>s. m_cfg (f s) = m_cfg s" "\<And>s. m_lastGvt (f s) = m_lastGvt s" "\<And>s. m_pending (f s) = m_pending s"
      "\<And>s. m_inflightByUid (f s) = m_inflightByUid s"
    for f :: "('a, 'b) sim \<Rightarrow> ('a, 'b) sim"
    using that by (intro keeps_conj keeps_upd_idle_wf keeps_upd_from)
  show "G \<le> pr_ts r" if "idle_wf s \<and> from_gvt C G s"
    "map_of (m_lps s) (ev_dst anti) = Some cx" "r \<in> set (cx_processed cx)"
    for s :: "('a, 'b) sim" and cx r
    using that by (auto simp: from_gvt_def history_from_def dest: all_ctx_map_of)
qed

abbreviation safe_state :: "'w config \<Rightarrow> timestamp \<Rightarrow> ('st, 'w) sim \<Rightarrow> bool" where
  "safe_state C G s \<equiv> idle_wf s \<and> from_gvt C G s"

lemma triple_from_keeps: "keeps J m \<Longrightarrow> triple (\<lambda>s. I s \<and> J s) m (\<lambda>_. J) J"
  unfolding keeps_triple by (erule triple_weaken) simp_all

lemma keeps_conj_triple:
  assumes "keeps I m" and "triple (\<lambda>s. I s \<and> J s) m (\<lambda>_. J) J"
  shows "keeps (\<lambda>s. I s \<and> J s) m"
proof (rule keepsI)
  fix s assume s: "I s \<and> J s"
  then have "I (snd (m s))" using keepsD [OF assms(1)] by blast
  moreover have "J (snd (m s))"
    using assms(2) s unfolding triple_def by (auto simp: case_prod_beta split: sum.splits)
  ultimately show "I (snd (m s)) \<and> J (snd (m s))" by simp
qed

lemma keeps_dispatch_anti_safe:
  assumes "G \<le> ev_ts ev"
  shows "keeps (safe_state C G :: ('a, 'b) sim \<Rightarrow> bool) (dispatch_anti ev)"
proof (rule keeps_conj_triple [OF keeps_dispatch_anti_idle_wf])
  let ?F = "from_gvt C G :: ('a, 'b) sim \<Rightarrow> bool"
  have append: "keeps ?F (upd (upd_ctx (ev_dst ev)
      (\<lambda>c. c\<lparr>cx_vt := ev_ts ev, cx_processed := cx_processed c @ [rec]\<rparr>)))" if "pr_ev rec = ev" for rec
    using that assms by (intro keeps_upd from_gvt_upd_ctx) auto
  have rec_ev: "triple (safe_state C G :: ('a, 'b) sim \<Rightarrow> bool) (gets (anti_record ev cx))
      (\<lambda>rec s. pr_ev rec = ev \<and> safe_state C G s) ?F" for cx
    by (rule triple_gets) simp
  show "triple (safe_state C G :: ('a, 'b) sim \<Rightarrow> bool) (dispatch_anti ev) (\<lambda>_. ?F) ?F"
    unfolding dispatch_anti_def
    apply (rule triple_bnd [OF triple_keeps [OF keeps_ctx_of]], simp)
    apply (rule triple_if)
     apply (rule triple_from_keeps [OF keeps_straggler_from [OF assms]])
    apply (rule triple_bnd [OF rec_ev])
    apply (rule triple_pure)
    apply (rule triple_thn [OF triple_keeps [OF keeps_cancel_from]], simp)
    apply (rule triple_from_keeps)
    apply (intro keeps_intros append, assumption)
    done
qed

lemma keeps_run_handler_calls:
  assumes "\<And>c. Sink c \<in> set cs \<Longrightarrow> keeps I (run_sink_call i c)"
  shows "keeps I (run_handler i cs rec)"
  using assms
proof (induction cs arbitrary: rec)
  case (Cons c cs)
  have "keeps I (run_ctx_call i c rec)"
    using Cons.prems keeps_request_write
    by (cases c) (auto simp: emit_committed_def intro!: keeps_intros)
  then show ?case using Cons by (auto intro: keeps_bnd)
qed simp

text \<open>The handler of a causal process, run for an event at or above the floor.\<close>

lemma keeps_handler_from:
  assumes "G \<le> ev_ts ev" and "causal (cx_lp cx)"
  shows "keeps (\<lambda>s. from_gvt C G s \<and> clock_le (ev_ts ev) s)
    (run_handler i (lp_on_event (cx_lp cx) ev st) rec)"
proof (rule keeps_run_handler_calls)
  fix c assume c: "Sink c \<in> set (lp_on_event (cx_lp cx) ev st)"
  show "keeps (\<lambda>s. from_gvt C G s \<and> clock_le (ev_ts ev) s) (run_sink_call i c)"
  proof (cases c)
    case (Send e)
    then have "ev_ts ev \<le> ev_ts e" using c assms(2) by (auto simp: causal_def)
    then have "ok_at G (ev_ts ev) e" using assms(1) by (auto simp: ok_at_def)
    then show ?thesis using Send by (simp add: send_from.keeps_send)
  next
    case (Become st')
    have "from_gvt C G (upd_ctx i f s) \<and> clock_le (ev_ts ev) (upd_ctx i f s)"
      if "from_gvt C G s \<and> clock_le (ev_ts ev) s" "f = (\<lambda>c. c\<lparr>cx_lp := (cx_lp c)\<lparr>lp_state := st'\<rparr>\<rparr>)" for s f
      using that by (auto intro!: from_gvt_upd_ctx clock_le_upd_ctx)
    then show ?thesis by (auto simp: Become set_lp_state_def intro!: keeps_upd)
  qed simp
qed

lemma triple_execute_from:
  fixes C :: "'b config"
  assumes floor: "G \<le> ev_ts ev" and causal: "causal (cx_lp cx)"
    and off: "\<not> c_enableInstallBeforeUseBuffering C"
  shows "triple (safe_state C G :: ('a, 'b) sim \<Rightarrow> bool) (execute ev cx)
    (\<lambda>_. from_gvt C G) (from_gvt C G)"
proof -
  let ?F = "from_gvt C G :: ('a, 'b) sim \<Rightarrow> bool"
  let ?H = "\<lambda>s :: ('a, 'b) sim. from_gvt C G s \<and> clock_le (ev_ts ev) s"
  let ?i = "ev_dst ev"
  have start: "?H (upd_ctx ?i (\<lambda>c. c\<lparr>cx_vt := ev_ts ev, cx_inEvent := True, cx_currentExecTs := ev_ts ev\<rparr>) s)"
    if "safe_state C G s" for s
  proof
    show "from_gvt C G (upd_ctx ?i (\<lambda>c. c\<lparr>cx_vt := ev_ts ev, cx_inEvent := True, cx_currentExecTs := ev_ts ev\<rparr>) s)"
      using that by (auto intro!: from_gvt_upd_ctx)
    show "clock_le (ev_ts ev) (upd_ctx ?i (\<lambda>c. c\<lparr>cx_vt := ev_ts ev, cx_inEvent := True, cx_currentExecTs := ev_ts ev\<rparr>) s)"
      using that clock_le_idle [of s "ev_ts ev"] unfolding clock_le_def by (auto intro: all_ctx_upd_ctx)
  qed
  have handler: "triple ?H (run_handler ?i (lp_on_event (cx_lp cx) ev (lp_state (cx_lp cx))) (new_record ev cx))
      (\<lambda>rec s. pr_ev rec = ev \<and> ?H s) ?F"
    using triple_keeps_yields [OF keeps_handler_from [OF floor causal] yields_run_handler,
        of C ?i "lp_state (cx_lp cx)" "new_record ev cx"]
    by (rule triple_weaken) (auto simp: new_record_def)
  have finish: "?F (upd_ctx ?i (\<lambda>c. c\<lparr>cx_inEvent := False, cx_processed := cx_processed c @ [rec]\<rparr>) s)"
    if "?H s" "pr_ev rec = ev" for rec and s :: "('a, 'b) sim"
    using that floor by (intro from_gvt_upd_ctx) auto
  have config: "triple ?F (gets m_cfg) (\<lambda>cfg s. cfg = C \<and> ?F s) ?F"
    by (rule triple_gets) (simp add: from_gvt_def)
  show ?thesis
    unfolding execute_def
    apply (rule triple_thn [where R = ?H])
     apply (rule triple_upd, erule start)
    apply (rule triple_bnd [OF handler])
    apply (rule triple_pure)
    apply (rule triple_thn [where R = ?F])
     apply (rule triple_upd, erule finish, assumption)
    apply (rule triple_bnd [OF config])
    apply (rule triple_pure)
    apply (simp add: off when_eff_def triple_def)
    done
qed

lemma triple_exception_from:
  fixes C :: "'b config"
  assumes off: "\<not> c_enableInstallBeforeUseBuffering C"
  shows "triple (from_gvt C G :: ('a, 'b) sim \<Rightarrow> bool) (on_handler_exception ev V e)
    (\<lambda>_. from_gvt C G) (from_gvt C G)"
proof -
  let ?F = "from_gvt C G :: ('a, 'b) sim \<Rightarrow> bool"
  have "keeps ?F (upd (upd_ctx (ev_dst ev) (\<lambda>c. c\<lparr>cx_inEvent := False\<rparr>)))"
    by (intro keeps_upd from_gvt_upd_ctx) auto
  note abort = this [unfolded keeps_triple]
  have config: "triple ?F (gets m_cfg) (\<lambda>cfg s. cfg = C \<and> ?F s) ?F"
    by (rule triple_gets) (simp add: from_gvt_def)
  show ?thesis
    unfolding on_handler_exception_def
    apply (rule triple_thn [OF abort])
    apply (rule triple_bnd [OF config])
    apply (rule triple_pure)
    apply (simp add: off triple_def)
    done
qed

lemma keeps_dispatch_event_safe:
  fixes C :: "'b config"
  assumes floor: "G \<le> ev_ts ev" and off: "\<not> c_enableInstallBeforeUseBuffering C"
  shows "keeps (safe_state C G :: ('a, 'b) sim \<Rightarrow> bool) (dispatch_event ev)"
proof (rule keeps_conj_triple [OF keeps_dispatch_event_idle_wf])
  let ?F = "from_gvt C G :: ('a, 'b) sim \<Rightarrow> bool"
  have ctx: "triple (safe_state C G) (ctx_of (ev_dst ev))
      (\<lambda>cx s :: ('a, 'b) sim. causal (cx_lp cx) \<and> safe_state C G s) ?F"
    by (auto simp: triple_def ctx_of_def from_gvt_def forward_def split: option.splits dest: all_ctx_map_of)
  have count: "keeps ?F (upd (\<lambda>s. s\<lparr>m_totalProcessed := m_totalProcessed s + 1\<rparr>))"
    by (rule keeps_upd_from) simp_all
  show "triple (safe_state C G :: ('a, 'b) sim \<Rightarrow> bool) (dispatch_event ev) (\<lambda>_. ?F) ?F"
    unfolding dispatch_event_def
    apply (rule triple_bnd [OF ctx])
    apply (rule triple_pure)
    apply (rule triple_if)
     apply (rule triple_from_keeps)
     apply (intro keeps_intros keeps_straggler_from floor)
    apply (rule triple_bnd [OF triple_catching [OF triple_execute_from [OF floor _ off] triple_exception_from [OF off]]])
     apply assumption
    apply (unfold keeps_triple [symmetric])
    apply (intro keeps_intros count)
    done
qed

lemma keeps_dispatch_safe:
  assumes "G \<le> ev_ts ev" and "\<not> c_enableInstallBeforeUseBuffering C"
  shows "keeps (safe_state C G) (dispatch ev)"
  unfolding dispatch_def
  by (intro keeps_intros keeps_dispatch_anti_safe keeps_dispatch_event_safe assms)

lemma pop_next_pending:
  assumes "pop_next s = (Inr (Some ev), t)"
  shows "ev \<in> set (m_pending s)"
  using assms set_dropWhileD [of ev "\<lambda>ev. \<not> ev_isAnti ev \<and> cancelled s ev" "m_pending s"]
  by (auto simp: pop_next_def drop_cancelled_dropWhile split: list.splits)

lemma keeps_pop_next_from: "keeps (from_gvt C G) pop_next"
proof (rule keepsI)
  fix s assume "from_gvt C G s"
  moreover have "set (m_pending (snd (pop_next s))) \<subseteq> set (m_pending s)"
    by (auto simp: pop_next_def drop_cancelled_dropWhile split: list.splits
        dest: set_dropWhileD [of _ _ "m_pending s"])
      (metis list.set_intros(2) set_dropWhileD)
  ultimately show "from_gvt C G (snd (pop_next s))"
    by (cases "drop_cancelled s (m_pending s)") (auto simp: pop_next_def from_defs)
qed

lemma keeps_dispatch_next_safe:
  fixes C :: "'b config"
  assumes "\<not> c_enableInstallBeforeUseBuffering C"
  shows "keeps (safe_state C G :: ('a, 'b) sim \<Rightarrow> bool) dispatch_next"
proof -
  have "triple (safe_state C G :: ('a, 'b) sim \<Rightarrow> bool) pop_next
      (\<lambda>ev s. (case ev of None \<Rightarrow> True | Some ev \<Rightarrow> G \<le> ev_ts ev) \<and> safe_state C G s) (safe_state C G)"
    unfolding triple_def
  proof (intro allI impI)
    fix s :: "('a, 'b) sim" assume s: "safe_state C G s"
    obtain r t where rt: "pop_next s = (r, t)" by fastforce
    have t: "safe_state C G t"
      using s keepsD [OF keeps_pop_next, of s] keepsD [OF keeps_pop_next_from, of C G s] rt by auto
    have "G \<le> ev_ts ev" if "r = Inr (Some ev)" for ev
      using pop_next_pending [of s ev t] rt that s by (auto simp: from_gvt_def pending_from_def)
    with t rt show "case pop_next s of (Inl e, t) \<Rightarrow> safe_state C G t
        | (Inr ev, t) \<Rightarrow> (case ev of None \<Rightarrow> True | Some ev \<Rightarrow> G \<le> ev_ts ev) \<and> safe_state C G t"
      by (auto split: sum.split option.split)
  qed
  note pop = this
  have next_ev: "triple (\<lambda>s. (case ev of None \<Rightarrow> True | Some ev \<Rightarrow> G \<le> ev_ts ev) \<and> safe_state C G s)
      (case ev of None \<Rightarrow> ret False | Some ev \<Rightarrow> thn (dispatch ev) (ret True))
      (\<lambda>_. safe_state C G) (safe_state C G :: ('a, 'b) sim \<Rightarrow> bool)" for ev
  proof (rule triple_pure)
    assume ok: "case ev of None \<Rightarrow> True | Some ev \<Rightarrow> G \<le> ev_ts ev"
    have "keeps (safe_state C G :: ('a, 'b) sim \<Rightarrow> bool)
        (case ev of None \<Rightarrow> ret False | Some ev \<Rightarrow> thn (dispatch ev) (ret True))"
      using ok keeps_dispatch_safe [OF _ assms] by (cases ev) (auto intro!: keeps_intros)
    then show "triple (safe_state C G :: ('a, 'b) sim \<Rightarrow> bool)
        (case ev of None \<Rightarrow> ret False | Some ev \<Rightarrow> thn (dispatch ev) (ret True))
        (\<lambda>_. safe_state C G) (safe_state C G)"
      by (simp add: keeps_triple)
  qed
  have body: "keeps (safe_state C G :: ('a, 'b) sim \<Rightarrow> bool)
      (bnd pop_next (\<lambda>ev. case ev of None \<Rightarrow> ret False | Some ev \<Rightarrow> thn (dispatch ev) (ret True)))"
    unfolding keeps_triple by (rule triple_bnd [OF pop next_ev])
  show ?thesis
    unfolding dispatch_next_def by (rule keeps_bnd [OF keeps_gets], rule keeps_if [OF keeps_ret body])
qed

subsection \<open>Advancing GVT\<close>

text \<open>A rank on its own, with acknowledgements: no reduction, no rank mapping.\<close>

definition single_rank :: "'w config \<Rightarrow> bool" where
  "single_rank C \<longleftrightarrow> c_lpToRank C = None \<and> c_gvtReduceMin C = None \<and> c_gvtMode C = AckInflight
     \<and> \<not> c_enableInstallBeforeUseBuffering C"

text \<open>Safe, with a GVT that is at least \<open>G\<close>.\<close>

definition safe_since :: "'w config \<Rightarrow> timestamp \<Rightarrow> ('st, 'w) sim \<Rightarrow> bool" where
  "safe_since C G s \<longleftrightarrow> G \<le> m_lastGvt s \<and> safe_state C (m_lastGvt s) s"

lemma safe_since_iff: "safe_since C G s \<longleftrightarrow> (\<exists>G'. G \<le> G' \<and> safe_state C G' s)"
  by (auto simp: safe_since_def from_gvt_def)

lemma keeps_safe_since: "(\<And>G'. G \<le> G' \<Longrightarrow> keeps (safe_state C G') m) \<Longrightarrow> keeps (safe_since C G) m"
  unfolding keeps_def safe_since_iff by blast

lemma keeps_in_world_from: "keeps (from_gvt C G) (in_world m)"
  by (rule keeps_in_world) (simp add: from_defs)

lemma from_gvt_prune: "from_gvt C G s \<Longrightarrow> from_gvt C G (prune_state g s)"
  by (fastforce simp: from_defs prune_state_def prune_ctx_def dest: set_dropWhileD)

lemma keeps_prune_safe: "keeps (safe_state C G) (prune_to_gvt g)"
  by (rule keeps_conj [OF keeps_prune_to_gvt]) (unfold prune_to_gvt_def,
      intro keeps_intros keeps_upd from_gvt_prune keeps_in_world_from)

lemma keeps_apply_ready_from: "keeps (from_gvt C G) (apply_ready ms)"
proof (induction ms)
  case (Cons m ms)
  obtain ts mig where m: "m = (ts, mig)" by fastforce
  have "keeps (from_gvt C G) (in_lp i f)" for i and f :: "'a lp \<Rightarrow> ('a, unit) eff"
    by (intro keeps_in_lp from_gvt_upd_ctx) auto
  then show ?case
    unfolding m apply_ready.simps by (intro keeps_intros keeps_upd_from Cons.IH) simp_all
qed simp

lemma keeps_apply_ready_migrations_safe: "keeps (safe_state C G) apply_ready_migrations"
  by (rule keeps_conj [OF keeps_apply_ready_migrations])
    (unfold apply_ready_migrations_def, intro keeps_intros keeps_apply_ready_from)

text \<open>The notifications carry the GVT itself as their time stamp.\<close>

lemma keeps_notify_safe: "keeps (safe_state C G) (notify_directories_gvt G)"
proof (rule keeps_conj_triple [OF keeps_notify])
  let ?H = "\<lambda>s :: ('a, 'b) sim. from_gvt C G s \<and> clock_le zero_stamp s"
  have "ok_at G zero_stamp (gc_event cfg src G dir)" for cfg :: "'b config" and src dir
    by (simp add: ok_at_def gc_event_def)
  then have "keeps ?H (send (gc_event cfg src G dir))" for cfg :: "'b config" and src dir
    by (rule send_from.keeps_send)
  moreover have "keeps ?H (upd (\<lambda>s. s\<lparr>m_lastDirectoryGcGvt := G\<rparr>))"
    by (rule keeps_upd) (simp add: from_defs)
  ultimately have "keeps ?H (notify_directories_gvt G)"
    unfolding notify_directories_gvt_def by (intro keeps_intros)
  then show "triple (safe_state C G :: ('a, 'b) sim \<Rightarrow> bool) (notify_directories_gvt G)
      (\<lambda>_. from_gvt C G) (from_gvt C G)"
    unfolding keeps_triple by (rule triple_weaken) (auto intro: clock_le_idle)
qed

lemma compute_gvt_floor:
  assumes s: "sim_wf s" and g: "compute_gvt s = (Inr g, t)"
  shows "\<forall>ev \<in> set (m_pending t). g \<le> ev_ts ev"
    and "t = s\<lparr>m_pending := dropWhile (cancelled s) (m_pending s)\<rparr>"
    and "c_gvtMode (m_cfg s) = AckInflight \<Longrightarrow> inflight_from g t"
proof -
  show t: "t = s\<lparr>m_pending := dropWhile (cancelled s) (m_pending s)\<rparr>"
    using g by (simp add: compute_gvt_run)
  have b: "bounds_work s g" using compute_gvt_greatest [OF s g, of g] by simp
  then show "\<forall>ev \<in> set (m_pending t). g \<le> ev_ts ev" by (simp add: bounds_work_def t)
  show "c_gvtMode (m_cfg s) = AckInflight \<Longrightarrow> inflight_from g t"
    using b s by (simp add: bounds_work_def t inflight_from_def sim_wf_def queues_wf_def inflight_wf_def)
qed

text \<open>After GVT is raised, and before the histories are pruned.\<close>

definition raised :: "'w config \<Rightarrow> timestamp \<Rightarrow> ('st, 'w) sim \<Rightarrow> bool" where
  "raised C g s \<longleftrightarrow> idle_wf s \<and> m_cfg s = C \<and> m_lastGvt s = g \<and> pending_from g s
     \<and> inflight_from g s \<and> forward s"

lemma raised_prune:
  assumes "raised C g s"
  shows "safe_state C g (prune_state g s)"
proof
  show "idle_wf (prune_state g s)" using assms idle_wf_prune by (auto simp: raised_def)
  have "\<not> pr_ts r < g" if "(i, cx) \<in> set (m_lps s)" "r \<in> set (cx_processed (prune_ctx g cx))" for i cx r
  proof -
    have "ctx_wf cx" using assms that by (auto simp: raised_def sim_wf_def lps_wf_def dest: all_ctxD)
    then show ?thesis using that by (simp add: pruned_filter)
  qed
  then have "history_from g (prune_state g s)"
    by (fastforce simp: history_from_def all_ctx_def prune_state_def)
  moreover have "forward (prune_state g s)"
    using assms by (fastforce simp: raised_def forward_def all_ctx_def prune_state_def prune_ctx_def
        dest: set_dropWhileD)
  ultimately show "from_gvt C g (prune_state g s)"
    using assms by (simp add: from_gvt_def raised_def pending_from_def inflight_from_def prune_state_def)
qed

lemma triple_prune_raised: "triple (raised C g) (prune_to_gvt g) (\<lambda>_. safe_state C g) (safe_state C g)"
  unfolding triple_def
proof (intro allI impI)
  fix s :: "('a, 'b) sim" assume "raised C g s"
  from raised_prune [OF this] have "safe_state C g ((prune_state g s)\<lparr>m_world := w\<rparr>)" for w
    by (simp add: wf_defs from_defs)
  then show "case prune_to_gvt g s of (Inl e, t) \<Rightarrow> safe_state C g t | (Inr x, t) \<Rightarrow> safe_state C g t"
    unfolding prune_to_gvt_run by (simp add: case_prod_beta split: sum.split)
qed

lemma keeps_advance_gvt_ack_safe:
  fixes C :: "'b config"
  assumes C: "single_rank C"
  shows "keeps (safe_since C G :: ('a, 'b) sim \<Rightarrow> bool) advance_gvt_ack"
proof (rule keepsI)
  fix s :: "('a, 'b) sim" assume s: "safe_since C G s"
  then have wf: "sim_wf s" and le: "G \<le> m_lastGvt s" and safe: "safe_state C (m_lastGvt s) s"
    by (simp_all add: safe_since_def)
  obtain g t where g: "compute_gvt s = (Inr g, t)" by (simp add: compute_gvt_run)
  note t = compute_gvt_floor [OF wf g]
  have idle_t: "idle_wf t" using keepsD [OF keeps_compute_gvt, of s] safe g by simp
  let ?rest = "thn (upd (\<lambda>s :: ('a, 'b) sim. s\<lparr>m_lastGvt := g\<rparr>)) (thn (prune_to_gvt g)
    (thn apply_ready_migrations (thn (notify_directories_gvt g) validate_invariants)))"
  have cfg: "c_gvtReduceMin (m_cfg t) = None"
    using safe C by (simp add: t(2) from_gvt_def single_rank_def)
  have unfold: "advance_gvt_ack s = (if g < m_lastGvt s then validate_invariants t else ?rest t)"
    using g cfg by (simp add: advance_gvt_ack_def t(2))
  show "safe_since C G (snd (advance_gvt_ack s))"
  proof (cases "g < m_lastGvt s")
    case True
    have "from_gvt C (m_lastGvt s) t"
      using safe set_dropWhileD [of _ "cancelled s" "m_pending s"] by (auto simp: t(2) from_defs)
    with True idle_t le show ?thesis by (auto simp: unfold safe_since_iff)
  next
    case False
    have "inflight_from g t" using t(3) C safe by (simp add: single_rank_def from_gvt_def)
    then have "raised C g (t\<lparr>m_lastGvt := g\<rparr>)"
      using idle_t t(1) safe
      by (simp add: inflight_from_def raised_def pending_from_def t(2) from_gvt_def) (simp add: wf_defs forward_def)
    moreover have "triple (raised C g) (thn (prune_to_gvt g)
        (thn apply_ready_migrations (thn (notify_directories_gvt g) validate_invariants)))
        (\<lambda>_. safe_state C g) (safe_state C g :: ('a, 'b) sim \<Rightarrow> bool)"
      by (intro triple_thn [OF triple_prune_raised]) (unfold keeps_triple [symmetric],
          intro keeps_intros keeps_apply_ready_migrations_safe keeps_notify_safe)
    ultimately have "safe_state C g (snd (?rest t))"
      unfolding triple_def by (auto simp: case_prod_beta split: sum.splits)
    with False le show ?thesis by (auto simp: unfold safe_since_iff intro!: exI [of _ g])
  qed
qed

lemma keeps_fossil_collect_safe:
  assumes "single_rank C"
  shows "keeps (safe_since C G) (fossil_collect b)"
proof -
  have advance: "keeps (safe_since C G) advance_gvt_ack" by (rule keeps_advance_gvt_ack_safe [OF assms])
  have "keeps (safe_since C G) (prune_to_gvt g)" "keeps (safe_since C G) apply_ready_migrations" for g
    by (intro keeps_safe_since keeps_prune_safe keeps_apply_ready_migrations_safe)+
  note parts = this advance
  have "triple (safe_since C G) (gets m_cfg) (\<lambda>cfg s. cfg = C \<and> safe_since C G s) (safe_since C G)"
    by (rule triple_gets) (simp add: safe_since_def from_gvt_def)
  note config = this
  show ?thesis
    unfolding fossil_collect_def keeps_triple
    apply (rule triple_thn [OF keeps_validate [unfolded keeps_triple]])
    apply (rule triple_bnd [OF config])
    apply (rule triple_pure)
    apply (use assms in \<open>simp add: single_rank_def\<close>)
    apply (unfold keeps_triple [symmetric])
    apply (intro keeps_intros parts)
    done
qed

subsection \<open>Runs\<close>

text \<open>
  The steps of a rank: dispatching the next event, collecting garbage (with or without
  throwing), and an application scheduling an event that is not in the past.
\<close>

inductive rank_step :: "('st, 'w) sim \<Rightarrow> ('st, 'w) sim \<Rightarrow> bool" where
  step_dispatch: "dispatch_next s = (r, t) \<Longrightarrow> rank_step s t"
| step_fossil: "fossil_collect b s = (r', t) \<Longrightarrow> rank_step s t"
| step_schedule: "m_lastGvt s \<le> ev_ts ev \<Longrightarrow> schedule ev s = (r'', t) \<Longrightarrow> rank_step s t"

inductive rank_steps :: "('st, 'w) sim \<Rightarrow> ('st, 'w) sim \<Rightarrow> bool" where
  steps_refl: "rank_steps s s"
| steps_step: "rank_steps s t \<Longrightarrow> rank_step t u \<Longrightarrow> rank_steps s u"

lemma rank_step_safe:
  assumes "rank_step s t" and "single_rank C" and "safe_since C G s"
  shows "safe_since C G t"
  using assms
proof (induction rule: rank_step.induct)
  case (step_dispatch s r t)
  then have "keeps (safe_since C G) dispatch_next"
    by (intro keeps_safe_since keeps_dispatch_next_safe) (simp add: single_rank_def)
  from keeps_result [OF this _ step_dispatch(1)] step_dispatch show ?case by blast
next
  case (step_fossil b s r t)
  from keeps_result [OF keeps_fossil_collect_safe step_fossil(3) step_fossil(1)] step_fossil(2)
  show ?case by blast
next
  case (step_schedule s ev r t)
  have safe: "safe_state C (m_lastGvt s) s" and le: "G \<le> m_lastGvt s"
    using step_schedule by (simp_all add: safe_since_def)
  have "keeps (safe_state C (m_lastGvt s)) (enqueue ev)"
    by (intro keeps_conj keeps_enqueue_idle_wf keeps_enqueue_from step_schedule(1))
  from keepsD [OF this safe] have "safe_state C (m_lastGvt s) t"
    using step_schedule(2) by (simp add: schedule_def)
  with le show ?case by (auto simp: safe_since_iff)
qed

lemma rank_steps_safe:
  "rank_steps s t \<Longrightarrow> single_rank C \<Longrightarrow> safe_since C G s \<Longrightarrow> safe_since C G t"
  by (induction rule: rank_steps.induct) (auto intro: rank_step_safe)

end
