(* ===== verification/Kernel_Poll.thy ===== *)
theory Kernel_Poll
  imports Kernel_Safety
begin

text \<open>
  Receiving: the acknowledgement a rank sends is understood by the one that gets it, and on
  any reliable transport \<open>poll_transport_count\<close> drains the queue and returns, the
  acknowledgements it sends to itself included.
\<close>

subsection \<open>Acknowledgements\<close>

abbreviation "put_key \<equiv> put_pair write_u32 (put_pair write_u64 write_u8)"
abbreviation "get_key \<equiv> get_pair read_u32 (get_pair read_u64 read_u8)"
abbreviation "ok_key \<equiv> ok_pair any_value (ok_pair any_value any_value)"

interpretation uid_flag: wire_pair write_u64 read_u64 any_value write_u8 read_u8 any_value ..
interpretation ack_wire: wire_pair write_u32 read_u32 any_value
  "put_pair write_u64 write_u8" "get_pair read_u64 read_u8" "ok_pair any_value any_value" ..

lemma decode_ack_via_fields:
  "decode_ack bs = (case fst (get_key (open_reader bs)) of
     Inl e \<Rightarrow> Inl e | Inr (src, uid, isAnti) \<Rightarrow> Inr (src, uid, isAnti \<noteq> 0))"
proof -
  have read: "read_ack = bnd get_key (\<lambda>(src, uid, isAnti). ret (src, uid, isAnti \<noteq> 0))"
    by (simp add: read_ack_def get_pair_def bnd_assoc del: ret_run)
  show ?thesis
    unfolding decode_ack_def read
    by (cases "get_key (open_reader bs)"; cases "fst (get_key (open_reader bs))") auto
qed

lemma decode_ack_of: "decode_ack (wm_bytes (ack_of rank sender ev)) = Inr (inflight_key_of ev)"
proof -
  have "wm_bytes (ack_of rank sender ev) = put_key (ev_src ev, ev_uid ev, if ev_isAnti ev then 1 else 0) []"
    by (simp add: ack_of_def put_pair_def)
  then show ?thesis
    by (simp add: decode_ack_via_fields ack_wire.pair.decode_encode ok_pair_def inflight_key_of_def)
qed

subsection \<open>Draining the transport\<close>

text \<open>
  Messages that can be received without a fault; the kernel never sends a migration over the
  wire itself, and the model object's own handler is not of interest here.
\<close>

definition receivable :: "wire_message \<Rightarrow> bool" where
  "receivable m \<longleftrightarrow> (case wm_kind m of
     Event_Message \<Rightarrow> \<exists>ev. decode_event (wm_bytes m) = Inr ev
   | Migration_Message \<Rightarrow> False
   | Ack_Message \<Rightarrow> \<exists>key. decode_ack (wm_bytes m) = Inr key
   | Other_Message _ \<Rightarrow> True)"

lemma ack_kind [simp]: "wm_kind (ack_of rank sender ev) = Ack_Message"
  by (simp add: ack_of_def)

lemma receivable_ack: "receivable (ack_of rank sender ev)"
  unfolding receivable_def ack_kind message_kind.case using decode_ack_of by blast

text \<open>The iterations a message costs: an event is answered by an acknowledgement.\<close>

definition message_cost :: "gvt_mode \<Rightarrow> wire_message \<Rightarrow> nat" where
  "message_cost mode m = (if mode = AckInflight \<and> wm_kind m = Event_Message then 2 else 1)"

definition queue_cost :: "gvt_mode \<Rightarrow> wire_message list \<Rightarrow> nat" where
  "queue_cost mode ms = sum_list (map (message_cost mode) ms)"

lemma queue_cost_simps [simp]:
  "queue_cost mode [] = 0"
  "queue_cost mode (m # ms) = message_cost mode m + queue_cost mode ms"
  "queue_cost mode (ms @ ns) = queue_cost mode ms + queue_cost mode ns"
  by (simp_all add: queue_cost_def)

context reliable_transport
begin

definition receiving :: "('st, 'w) sim \<Rightarrow> bool" where
  "receiving s \<longleftrightarrow> m_transport s = tr \<and> list_all receivable (queued (m_world s))"

lemma send_run: "\<exists>w'. t_send tr m w = (Inr (), w') \<and> queued w' = queued w @ [m]"
  using send_queued [of m w] by (cases "t_send tr m w") auto

lemma receive_event_run:
  assumes "m_transport s = tr"
  shows "\<exists>t. receive_event sender ev s = (Inr (), t) \<and> m_transport t = tr \<and> m_cfg t = m_cfg s
    \<and> queued (m_world t) = queued (m_world s) @
        (if c_gvtMode (m_cfg s) = AckInflight then [ack_of (c_rank (m_cfg s)) sender ev] else [])"
proof -
  let ?s1 = "snd (count_received ev s)"
  have s1: "count_received ev s = (Inr (), ?s1)" "m_transport ?s1 = tr" "m_cfg ?s1 = m_cfg s"
    "m_world ?s1 = m_world s"
    using assms by (simp_all add: count_received_def)
  show ?thesis
  proof (cases "c_gvtMode (m_cfg s)")
    case AckInflight
    obtain w where w: "t_send tr (ack_of (c_rank (m_cfg s)) sender ev) (m_world s) = (Inr (), w)"
      "queued w = queued (m_world s) @ [ack_of (c_rank (m_cfg s)) sender ev]"
      using send_run by blast
    let ?s2 = "?s1\<lparr>m_world := w\<rparr>"
    let ?s3 = "snd (track_inflight_recv ev ?s2)"
    have s3: "track_inflight_recv ev ?s2 = (Inr (), ?s3)" "m_transport ?s3 = tr" "m_cfg ?s3 = m_cfg s"
      "m_world ?s3 = w"
      using s1(2,3) by (simp_all add: track_inflight_recv_def split: option.split)
    have "receive_event sender ev s = (Inr (), ?s3\<lparr>m_pending := pending_push ev (m_pending ?s3)\<rparr>)"
      using s1 s3(1) w(1) AckInflight
      by (simp add: receive_event_def when_eff_def in_world_def enqueue_def)
    then show ?thesis
      by (intro exI [of _ "?s3\<lparr>m_pending := pending_push ev (m_pending ?s3)\<rparr>"])
        (use s3 w(2) AckInflight in simp)
  next
    case ColoredCounters
    let ?s2 = "snd (count_color_received ev ?s1)"
    have s2: "count_color_received ev ?s1 = (Inr (), ?s2)" "m_transport ?s2 = tr" "m_cfg ?s2 = m_cfg s"
      "m_world ?s2 = m_world s"
      using s1 by (simp_all add: count_color_received_def Let_def)
    have "receive_event sender ev s = (Inr (), ?s2\<lparr>m_pending := pending_push ev (m_pending ?s2)\<rparr>)"
      using s1 s2(1) ColoredCounters
      by (simp add: receive_event_def when_eff_def enqueue_def)
    then show ?thesis
      by (intro exI [of _ "?s2\<lparr>m_pending := pending_push ev (m_pending ?s2)\<rparr>"])
        (use s2 ColoredCounters in simp)
  qed
qed

lemma handle_message_run:
  assumes "receivable m" and "m_transport s = tr"
  shows "\<exists>t acks. handle_message m s = (Inr (), t) \<and> m_transport t = tr \<and> m_cfg t = m_cfg s
    \<and> queued (m_world t) = queued (m_world s) @ acks \<and> list_all receivable acks
    \<and> queue_cost (c_gvtMode (m_cfg s)) acks + 1 = message_cost (c_gvtMode (m_cfg s)) m"
proof (cases "wm_kind m")
  case Event_Message
  then obtain ev where ev: "decode_event (wm_bytes m) = Inr ev"
    using assms(1) by (auto simp: receivable_def)
  let ?acks = "if c_gvtMode (m_cfg s) = AckInflight then [ack_of (c_rank (m_cfg s)) (wm_srcRank m) ev] else []"
  obtain t where "receive_event (wm_srcRank m) ev s = (Inr (), t)" "m_transport t = tr" "m_cfg t = m_cfg s"
    "queued (m_world t) = queued (m_world s) @ ?acks"
    using receive_event_run [OF assms(2)] by blast
  then show ?thesis
    using Event_Message ev
    by (intro exI [of _ t] exI [of _ ?acks])
      (simp add: handle_message_def receivable_ack message_cost_def)
next
  case Migration_Message
  then show ?thesis using assms(1) by (simp add: receivable_def)
next
  case Ack_Message
  then obtain key where key: "decode_ack (wm_bytes m) = Inr key"
    using assms(1) by (auto simp: receivable_def)
  show ?thesis
  proof (cases "c_gvtMode (m_cfg s) = AckInflight")
    case True
    let ?t = "snd (clear_inflight_key key s)"
    have "clear_inflight_key key s = (Inr (), ?t)" by (simp add: clear_inflight_key_def)
    moreover have "m_transport ?t = tr" "m_cfg ?t = m_cfg s" "m_world ?t = m_world s"
      using assms(2) by (simp_all add: clear_inflight_key_def split: option.split)
    ultimately show ?thesis
      using Ack_Message key True
      by (intro exI [of _ ?t] exI [of _ "[]"]) (simp add: handle_message_def message_cost_def)
  next
    case False
    then show ?thesis
      using Ack_Message assms(2)
      by (intro exI [of _ s] exI [of _ "[]"]) (simp add: handle_message_def message_cost_def)
  qed
next
  case (Other_Message b)
  then show ?thesis
    using assms(2) by (intro exI [of _ s] exI [of _ "[]"]) (simp add: handle_message_def message_cost_def)
qed

text \<open>Every message is consumed, and fuel for one more iteration than that is enough.\<close>

lemma poll_drains:
  assumes "receiving s" and "queue_cost (c_gvtMode (m_cfg s)) (queued (m_world s)) < fuel"
  shows "\<exists>t. poll_transport_count fuel n s =
      (Inr (n + queue_cost (c_gvtMode (m_cfg s)) (queued (m_world s))), t)
    \<and> queued (m_world t) = [] \<and> m_transport t = tr"
  using assms
proof (induction fuel arbitrary: n s)
  case (Suc fuel)
  have tr: "m_transport s = tr" using Suc.prems(1) by (simp add: receiving_def)
  show ?case
  proof (cases "queued (m_world s)")
    case Nil
    obtain w where w: "t_poll tr (m_world s) = (Inr None, w)"
      using poll_None [OF Nil] by (metis prod.collapse)
    then have "queued w = []" using poll_queued [OF w] by simp
    then show ?thesis
      using w tr Nil by (simp add: poll_message_def in_world_def)
  next
    case (Cons m ms)
    obtain w where w: "t_poll tr (m_world s) = (Inr (Some m), w)" "queued w = ms"
      using poll_Some [OF Cons] by (metis prod.collapse)
    let ?s = "s\<lparr>m_world := w\<rparr>"
    have m: "receivable m" "list_all receivable ms"
      using Suc.prems(1) Cons by (simp_all add: receiving_def)
    obtain t acks where t: "handle_message m ?s = (Inr (), t)" "m_transport t = tr" "m_cfg t = m_cfg s"
      "queued (m_world t) = ms @ acks" "list_all receivable acks"
      "queue_cost (c_gvtMode (m_cfg s)) acks + 1 = message_cost (c_gvtMode (m_cfg s)) m"
      using handle_message_run [OF m(1), of ?s] tr w(2) by auto
    have "receiving t" using t m by (simp add: receiving_def)
    moreover have "queue_cost (c_gvtMode (m_cfg t)) (queued (m_world t)) < fuel"
      using Suc.prems(2) t Cons by simp
    ultimately obtain u where u: "poll_transport_count fuel (Suc n) t =
        (Inr (Suc n + queue_cost (c_gvtMode (m_cfg t)) (queued (m_world t))), u)"
      "queued (m_world u) = []" "m_transport u = tr"
      using Suc.IH by blast
    have "Suc n + queue_cost (c_gvtMode (m_cfg t)) (queued (m_world t))
        = n + queue_cost (c_gvtMode (m_cfg s)) (queued (m_world s))"
      using t Cons by simp
    then show ?thesis
      using u t(1) w(1) tr by (simp add: poll_message_def in_world_def)
  qed
qed simp

end

end
