(* ===== verification/Directory.thy ===== *)
theory Directory
  imports Lp Layout Ordered_Map
begin

text \<open>
  The ownership directory (\<open>src/src/directory_lp.hpp\<close>): a logical process that keeps, for
  every entity, the history of its owners, forwards entity-addressed events to the owner at
  their time, records ownership updates, and prunes the histories at GVT.
\<close>

subsection \<open>Configuration and state\<close>

record directory_migration_log =
  dm_entity :: u64
  dm_oldOwner :: u32
  dm_newOwner :: u32
  dm_sentInstall :: u8

record directory_update =
  du_entity :: u64
  du_newOwner :: u32
  du_sendInstall :: bool
  du_installPayload :: payload

record directory_config =
  dc_id :: u32
  dc_stateEntityId :: u64
  dc_updateOwnerKind :: u32
  dc_decodeUpdate :: "(event \<Rightarrow> exn + directory_update) option"
  dc_migrationLogKind :: u32
  dc_fossilCollectKind :: u32
  dc_decodeFossilCollect :: "(event \<Rightarrow> exn + timestamp) option"
  dc_defaultOwner :: "(u64 \<Rightarrow> timestamp \<Rightarrow> u32) option"

type_synonym timeline = "(timestamp, u32) omap"
type_synonym owner_history = "(u64, timeline) omap"

text \<open>
  The representation of the log record: 21 bytes of fields, the explicit \<open>_pad\<close>, and four
  bytes the ABI adds behind it, whose contents the code leaves open.
\<close>

definition migration_log_bytes :: "bytes \<Rightarrow> directory_migration_log \<Rightarrow> bytes" where
  "migration_log_bytes pad r =
     le_bytes 8 (dm_entity r) @ le_bytes 4 (dm_oldOwner r) @ le_bytes 4 (dm_newOwner r)
     @ le_bytes 1 (dm_sentInstall r) @ replicate 3 0 @ pad"

definition migration_log_of_bytes :: "bytes \<Rightarrow> directory_migration_log" where
  "migration_log_of_bytes bs = \<lparr>dm_entity = field_at 0 8 bs, dm_oldOwner = field_at 8 4 bs,
     dm_newOwner = field_at 12 4 bs, dm_sentInstall = field_at 16 1 bs\<rparr>"

interpretation migration_log_layout: trivial_layout migration_log_bytes migration_log_of_bytes 24 4
proof
  fix pad :: bytes and x :: directory_migration_log and rest
  let ?e = "le_bytes 8 (dm_entity x)" and ?o = "le_bytes 4 (dm_oldOwner x)"
  let ?n = "le_bytes 4 (dm_newOwner x)" and ?s = "le_bytes 1 (dm_sentInstall x)"
  let ?r = "replicate 3 0 @ pad @ rest"
  have "field_at 0 8 ([] @ ?e @ (?o @ ?n @ ?s @ ?r)) = dm_entity x"
    "field_at 8 4 (?e @ ?o @ (?n @ ?s @ ?r)) = dm_oldOwner x"
    "field_at 12 4 ((?e @ ?o) @ ?n @ (?s @ ?r)) = dm_newOwner x"
    "field_at 16 1 ((?e @ ?o @ ?n) @ ?s @ ?r) = dm_sentInstall x"
    by (rule field_at_here; simp)+
  then show "migration_log_of_bytes (migration_log_bytes pad x @ rest) = x"
    by (simp add: migration_log_of_bytes_def migration_log_bytes_def)
qed (simp add: migration_log_bytes_def)

subsection \<open>Ownership\<close>

definition owner_default :: "directory_config \<Rightarrow> u64 \<Rightarrow> timestamp \<Rightarrow> u32" where
  "owner_default cfg entity ts = (case dc_defaultOwner cfg of Some f \<Rightarrow> f entity ts | None \<Rightarrow> 0)"

definition owner_at :: "directory_config \<Rightarrow> u64 \<Rightarrow> timestamp \<Rightarrow> owner_history \<Rightarrow> u32" where
  "owner_at cfg entity ts h =
     (case map_of h entity of
        None \<Rightarrow> owner_default cfg entity ts
      | Some line \<Rightarrow>
          if line = [] then owner_default cfg entity ts
          else let it = upper_bound ts line in
            if it = 0 then owner_default cfg entity ts else snd (line ! (it - 1)))"

text \<open>\<open>m_ownerHistory[entity][ts] = owner\<close>, which creates the timeline if there is none.\<close>

definition at_entity :: "u64 \<Rightarrow> (timeline \<Rightarrow> timeline) \<Rightarrow> owner_history \<Rightarrow> owner_history" where
  "at_entity entity f h =
     map (\<lambda>(e, line). (e, if e = entity then f line else line)) (om_emplace entity [] h)"

definition set_owner :: "u64 \<Rightarrow> timestamp \<Rightarrow> u32 \<Rightarrow> owner_history \<Rightarrow> owner_history" where
  "set_owner entity ts owner h = at_entity entity (om_assign ts owner) h"

definition prune_timeline :: "timestamp \<Rightarrow> timeline \<Rightarrow> timeline" where
  "prune_timeline gvt line =
     (let it = lower_bound gvt line in
      if it = 0 then line
      else if it < length line \<and> fst (line ! it) = gvt then drop it line
      else drop (it - 1) line)"

text \<open>A timeline that is empty, before or after, is erased.\<close>

fun prune_history :: "timestamp \<Rightarrow> owner_history \<Rightarrow> owner_history" where
  "prune_history gvt [] = []"
| "prune_history gvt ((entity, line) # h) =
     (if line = [] \<or> prune_timeline gvt line = [] then prune_history gvt h
      else (entity, prune_timeline gvt line) # prune_history gvt h)"

definition history_wf :: "owner_history \<Rightarrow> bool" where
  "history_wf h \<longleftrightarrow> ordered_keys h \<and> (\<forall>(e, line) \<in> set h. ordered_keys line)"

subsection \<open>Events\<close>

definition install_event :: "directory_config \<Rightarrow> event \<Rightarrow> directory_update \<Rightarrow> event" where
  "install_event cfg ev u = empty_event\<lparr>ev_ts := ev_ts ev, ev_src := dc_id cfg,
     ev_dst := du_newOwner u, ev_target := du_entity u, ev_payload := du_installPayload u\<rparr>"

definition migration_log_payload :: "bytes \<Rightarrow> directory_config \<Rightarrow> u32 \<Rightarrow> directory_update \<Rightarrow> payload" where
  "migration_log_payload pad cfg oldOwner u = \<lparr>p_kind = dc_migrationLogKind cfg,
     p_bytes = migration_log_bytes pad \<lparr>dm_entity = du_entity u, dm_oldOwner = oldOwner,
       dm_newOwner = du_newOwner u, dm_sentInstall = (if du_sendInstall u then 1 else 0)\<rparr>\<rparr>"

definition forwarded_event :: "directory_config \<Rightarrow> event \<Rightarrow> u32 \<Rightarrow> event" where
  "forwarded_event cfg ev owner = ev\<lparr>ev_src := dc_id cfg, ev_dst := owner, ev_uid := 0,
     ev_ts := TimeStamp (ts_time (ev_ts ev)) 0\<rparr>"

abbreviation failing :: "string \<Rightarrow> 'st ctx_call list" where
  "failing msg \<equiv> [Sink (Fail (Runtime_Error msg))]"

definition directory_on_event ::
  "bytes \<Rightarrow> directory_config \<Rightarrow> event \<Rightarrow> owner_history \<Rightarrow> owner_history ctx_call list" where
  "directory_on_event pad cfg ev h =
     (let kind = p_kind (ev_payload ev) in
      if dc_fossilCollectKind cfg \<noteq> 0 \<and> kind = dc_fossilCollectKind cfg then
        (case dc_decodeFossilCollect cfg of
           None \<Rightarrow> failing ''DirectoryLP: fossilCollectKind set but decodeFossilCollect missing''
         | Some decode \<Rightarrow>
             if dc_stateEntityId cfg = 0
             then failing ''DirectoryLP: stateEntityId required for fossil collection''
             else (case decode ev of
                 Inl e \<Rightarrow> [Sink (Fail e)]
               | Inr gvt \<Rightarrow> [Request_Write (dc_stateEntityId cfg), Sink (Become (prune_history gvt h))]))
      else if dc_updateOwnerKind cfg \<noteq> 0 \<and> kind = dc_updateOwnerKind cfg then
        (case dc_decodeUpdate cfg of
           None \<Rightarrow> failing ''DirectoryLP: updateOwnerKind set but decodeUpdate missing''
         | Some decode \<Rightarrow>
             if dc_stateEntityId cfg = 0
             then failing ''DirectoryLP: stateEntityId required for updates''
             else (case decode ev of
                 Inl e \<Rightarrow> [Sink (Fail e)]
               | Inr u \<Rightarrow>
                   let oldOwner = owner_at cfg (du_entity u) (ev_ts ev) h in
                   [Request_Write (dc_stateEntityId cfg),
                    Sink (Become (set_owner (du_entity u) (ev_ts ev) (du_newOwner u) h))]
                   @ (if du_sendInstall u then [Sink (Send (install_event cfg ev u))] else [])
                   @ (if dc_migrationLogKind cfg \<noteq> 0
                      then [Emit_Committed (ev_ts ev) (migration_log_payload pad cfg oldOwner u)] else [])))
      else if ev_target ev = 0 then failing ''DirectoryLP: unexpected non-target event''
      else [Sink (Send (forwarded_event cfg ev (owner_at cfg (ev_target ev) (ev_ts ev) h)))])"

subsection \<open>Snapshots\<close>

definition save_entry :: "timestamp \<times> u32 \<Rightarrow> bytes" where
  "save_entry e = le_bytes 8 (ts_time (fst e)) @ le_bytes 8 (ts_sequence (fst e)) @ le_bytes 4 (snd e)"

definition save_timeline :: "u64 \<times> timeline \<Rightarrow> bytes" where
  "save_timeline t =
     le_bytes 8 (fst t) @ le_bytes 4 (word_of_nat (length (snd t)) :: u32) @ concat (map save_entry (snd t))"

definition directory_save_state :: "owner_history \<Rightarrow> exn + bytes" where
  "directory_save_state h =
     Inr (le_bytes 4 (word_of_nat (length h) :: u32) @ concat (map save_timeline h))"

text \<open>\<open>read\<close>: a field at an offset, and the offset behind it.\<close>

definition read_field :: "nat \<Rightarrow> bytes \<Rightarrow> nat \<Rightarrow> ('s, 'a::len word \<times> nat) eff" where
  "read_field n state off = read_at ''DirectoryLP: bad state'' n state off"

fun load_entries :: "nat \<Rightarrow> u64 \<Rightarrow> bytes \<Rightarrow> nat \<Rightarrow> (owner_history, nat) eff" where
  "load_entries 0 entity state off = ret off"
| "load_entries (Suc n) entity state off =
     bnd (read_field 8 state off) (\<lambda>(time, off).
     bnd (read_field 8 state off) (\<lambda>(seq, off).
     bnd (read_field 4 state off) (\<lambda>(owner, off).
     thn (upd (at_entity entity (om_emplace (TimeStamp time seq) owner)))
     (load_entries n entity state off))))"

fun load_timelines :: "nat \<Rightarrow> bytes \<Rightarrow> nat \<Rightarrow> (owner_history, unit) eff" where
  "load_timelines 0 state off = ret ()"
| "load_timelines (Suc k) state off =
     bnd (read_field 8 state off) (\<lambda>(entity, off).
     bnd (read_field 4 state off) (\<lambda>(n :: u32, off).
     thn (upd (at_entity entity (\<lambda>line. line)))
     (bnd (load_entries (unat n) entity state off) (\<lambda>off.
     load_timelines k state off))))"

definition directory_load_state :: "bytes \<Rightarrow> (owner_history, unit) eff" where
  "directory_load_state state =
     bnd (read_field 4 state 0) (\<lambda>(nEntities :: u32, off).
     thn (upd (\<lambda>_. []))
     (load_timelines (unat nEntities) state off))"

text \<open>The object; its constructor rejects the identifier 0.\<close>

definition directory_lp :: "bytes \<Rightarrow> directory_config \<Rightarrow> exn + owner_history lp" where
  "directory_lp pad cfg =
     (if dc_id cfg = 0 then Inl (Runtime_Error ''DirectoryLP: id must be non-zero'')
      else Inr ((default_lp (dc_id cfg) [])
        \<lparr>lp_on_event := directory_on_event pad cfg,
         lp_save_state := directory_save_state,
         lp_load_state := directory_load_state\<rparr>))"

subsection \<open>The ownership timeline\<close>

text \<open>The timeline of an entity, empty if it has none.\<close>

definition timeline_of :: "u64 \<Rightarrow> owner_history \<Rightarrow> timeline" where
  "timeline_of entity h = (case map_of h entity of None \<Rightarrow> [] | Some line \<Rightarrow> line)"

lemma timeline_of_wf: "history_wf h \<Longrightarrow> ordered_keys (timeline_of entity h)"
  by (auto simp: history_wf_def timeline_of_def split: option.split dest!: map_of_SomeD)

lemma owner_at_floor:
  assumes "history_wf h"
  shows "owner_at cfg entity ts h =
    (case floor_entry ts (timeline_of entity h) of
       None \<Rightarrow> owner_default cfg entity ts | Some (_, owner) \<Rightarrow> owner)"
proof (cases "map_of h entity")
  case None
  then show ?thesis by (simp add: owner_at_def timeline_of_def floor_entry_def)
next
  case (Some line)
  then have "ordered_keys line" using timeline_of_wf [OF assms, of entity] by (simp add: timeline_of_def)
  then show ?thesis
    using Some by (auto simp: owner_at_def timeline_of_def floor_entry_upper_bound upper_bound_def
        Let_def case_prod_unfold)
qed

lemma map_of_map_update:
  "map_of (map (\<lambda>(e, line). (e, if e = k then f line else line)) h) x =
     (if x = k then map_option f (map_of h k) else map_of h x)"
  by (induction h) auto

lemma map_of_at_entity:
  "ordered_keys h \<Longrightarrow>
   map_of (at_entity entity f h) x =
     (if x = entity then Some (f (timeline_of entity h)) else map_of h x)"
  by (auto simp: at_entity_def map_of_map_update map_of_om_emplace timeline_of_def split: option.split)

lemma timeline_at_entity:
  "ordered_keys h \<Longrightarrow>
   timeline_of x (at_entity entity f h) =
     (if x = entity then f (timeline_of entity h) else timeline_of x h)"
  by (simp add: timeline_of_def [of x] map_of_at_entity)

lemma ordered_map_update:
  "ordered_keys (map (\<lambda>(e, line). (e, g e line)) h) \<longleftrightarrow> ordered_keys h"
  by (simp add: ordered_keys_def comp_def case_prod_unfold)

lemma history_wf_at_entity:
  assumes "history_wf h" and "\<And>line. ordered_keys line \<Longrightarrow> ordered_keys (f line)"
  shows "history_wf (at_entity entity f h)"
  using assms set_om_emplace [of entity "[]" h]
  by (fastforce simp: history_wf_def at_entity_def ordered_map_update
      [where g = "\<lambda>e line. if e = entity then f line else line"])

lemma history_wf_set_owner: "history_wf h \<Longrightarrow> history_wf (set_owner entity ts owner h)"
  unfolding set_owner_def by (rule history_wf_at_entity) simp_all

text \<open>
  An update takes effect at its time and holds until the entity's next later entry; it
  changes the answer nowhere else.
\<close>

definition next_update_by :: "u64 \<Rightarrow> timestamp \<Rightarrow> timestamp \<Rightarrow> owner_history \<Rightarrow> bool" where
  "next_update_by entity ts ts' h \<longleftrightarrow> (\<exists>e \<in> set (timeline_of entity h). ts < fst e \<and> fst e \<le> ts')"

lemma floor_entry_assign:
  assumes "ordered_keys m"
  shows "floor_entry x (om_assign k v m) =
    (if k \<le> x \<and> \<not> (\<exists>e \<in> set m. k < fst e \<and> fst e \<le> x) then Some (k, v) else floor_entry x m)"
proof (cases "k \<le> x \<and> \<not> (\<exists>e \<in> set m. k < fst e \<and> fst e \<le> x)")
  case True
  have "y \<le> k" if "y \<in> dom ((map_of m)(k \<mapsto> v))" "y \<le> x" for y
    using that True by (auto simp: dom_map_of_conv_image_fst not_less [symmetric])
  then have "floor_entry x (om_assign k v m) = Some (k, v)"
    using True assms by (simp add: floor_entry_Some_iff map_of_om_assign)
  with True show ?thesis by simp
next
  case False
  have "floor_entry x (om_assign k v m) = floor_entry x m"
  proof (cases "k \<le> x")
    case True
    then obtain e where e: "e \<in> set m" "k < fst e" "fst e \<le> x" using False by blast
    have ne: "floor_entry x m \<noteq> None"
      using e by (auto simp: floor_entry_None_iff dom_map_of_conv_image_fst)
    then obtain k' v' where f: "floor_entry x m = Some (k', v')" by auto
    have "fst e \<le> k'"
      using f e assms by (auto simp: floor_entry_Some_iff dom_map_of_conv_image_fst)
    then have "k < k'" using e by (meson less_le_trans)
    with f have "floor_entry x (om_assign k v m) = Some (k', v')"
      using assms by (auto simp: floor_entry_Some_iff map_of_om_assign less_imp_le)
    with f show ?thesis by simp
  next
    case later: False
    have "filter (\<lambda>e. fst e \<le> x) (om_assign k v m) = filter (\<lambda>e. fst e \<le> x) m"
      using later by (induction k v m rule: om_assign.induct) auto
    then show ?thesis by (simp add: floor_entry_def)
  qed
  then show ?thesis unfolding if_not_P [OF False] .
qed

lemma owner_at_update:
  assumes "history_wf h"
  shows "owner_at cfg e' ts' (set_owner entity ts owner h) =
    (if e' = entity \<and> ts \<le> ts' \<and> \<not> next_update_by entity ts ts' h then owner
     else owner_at cfg e' ts' h)"
proof -
  have o: "ordered_keys h" and l: "ordered_keys (timeline_of entity h)"
    using assms timeline_of_wf by (auto simp: history_wf_def)
  show ?thesis
    unfolding owner_at_floor [OF assms] owner_at_floor [OF history_wf_set_owner [OF assms]]
    using o l by (auto simp: set_owner_def timeline_at_entity floor_entry_assign next_update_by_def)
qed

subsection \<open>Pruning\<close>

lemma prune_timeline_ordered: "ordered_keys line \<Longrightarrow> ordered_keys (prune_timeline gvt line)"
  by (simp add: prune_timeline_def Let_def)

lemma prune_timeline_floor:
  assumes "ordered_keys line" and "gvt \<le> ts"
  shows "floor_entry ts (prune_timeline gvt line) = floor_entry ts line"
proof -
  let ?it = "lower_bound gvt line"
  have sub: "floor_entry ts (drop n line) = floor_entry ts line"
    if "n < length line" "fst (line ! n) \<le> ts" for n
  proof -
    have "filter (\<lambda>e. fst e \<le> ts) (drop n line) \<noteq> []"
      using that by (simp add: Cons_nth_drop_Suc [symmetric])
    then have "floor_entry ts (take n line @ drop n line) = floor_entry ts (drop n line)"
      by (rule floor_entry_append)
    then show ?thesis by simp
  qed
  have le: "?it \<le> length line" by (rule lower_bound_le)
  consider (start) "?it = 0" | (exact) "?it \<noteq> 0" "?it < length line" "fst (line ! ?it) = gvt"
    | (floor) "?it \<noteq> 0" "\<not> (?it < length line \<and> fst (line ! ?it) = gvt)" by blast
  then show ?thesis
  proof cases
    case start
    then show ?thesis by (simp add: prune_timeline_def)
  next
    case exact
    then show ?thesis using sub assms by (simp add: prune_timeline_def)
  next
    case floor
    have "line ! (?it - 1) \<in> set (take ?it line)"
      using floor le by (metis One_nat_def diff_less le_less_trans less_le_trans nth_take nth_mem
          length_take min_absorb2 neq0_conv zero_less_one)
    then have "fst (line ! (?it - 1)) < gvt"
      using assms(1) by (simp add: take_lower_bound)
    then have "fst (line ! (?it - 1)) \<le> ts" using assms(2) by (meson less_imp_le less_le_trans)
    then show ?thesis using floor le sub by (auto simp: prune_timeline_def Let_def)
  qed
qed

lemma prune_timeline_Nil: "prune_timeline gvt line = [] \<Longrightarrow> line = []"
  using lower_bound_le [of gvt line]
  by (auto simp: prune_timeline_def Let_def split: if_splits)

lemma set_prune_history: "fst ` set (prune_history gvt h) \<subseteq> fst ` set h"
  by (induction gvt h rule: prune_history.induct) auto

lemma prune_history_wf: "history_wf h \<Longrightarrow> history_wf (prune_history gvt h)"
proof (induction gvt h rule: prune_history.induct)
  case (2 gvt entity line h)
  then have IH: "history_wf (prune_history gvt h)" by (auto simp: history_wf_def)
  have "entity < fst e" if "e \<in> set (prune_history gvt h)" for e
    using that 2(3) set_prune_history [of gvt h] by (fastforce simp: history_wf_def)
  with IH 2(3) show ?case by (auto simp: history_wf_def prune_timeline_ordered)
qed (simp add: history_wf_def)

lemma timeline_prune_history:
  assumes "history_wf h"
  shows "timeline_of entity (prune_history gvt h) = prune_timeline gvt (timeline_of entity h)"
  using assms
proof (induction gvt h rule: prune_history.induct)
  case (1 gvt)
  show ?case by (simp add: timeline_of_def prune_timeline_def lower_bound_def)
next
  case (2 gvt e line h)
  have IH: "timeline_of entity (prune_history gvt h) = prune_timeline gvt (timeline_of entity h)"
    using 2 by (auto simp: history_wf_def)
  have cons: "timeline_of x ((e, l) # g) = (if x = e then l else timeline_of x g)" for x l g
    by (simp add: timeline_of_def)
  show ?case
  proof (cases "entity = e")
    case True
    have "map_of h e = None"
      using 2(3) by (force simp: history_wf_def map_of_eq_None_iff)
    then have h0: "timeline_of e h = []" by (simp add: timeline_of_def)
    have p0: "prune_timeline gvt [] = []" by (simp add: prune_timeline_def lower_bound_def)
    show ?thesis
      using IH True h0 p0 prune_timeline_Nil [of gvt line] by (auto simp: cons)
  next
    case False
    then show ?thesis using IH by (auto simp: cons)
  qed
qed

lemma owner_at_prune:
  "history_wf h \<Longrightarrow> gvt \<le> ts \<Longrightarrow>
   owner_at cfg entity ts (prune_history gvt h) = owner_at cfg entity ts h"
  by (simp add: owner_at_floor prune_history_wf timeline_prune_history prune_timeline_floor timeline_of_wf)

lemma prune_timeline_bound:
  assumes "ordered_keys line"
  shows "length (filter (\<lambda>e. fst e < gvt) (prune_timeline gvt line)) \<le> 1"
proof -
  let ?it = "lower_bound gvt line"
  have tail: "filter (\<lambda>e. fst e < gvt) (drop ?it line) = []"
    using assms by (simp add: drop_lower_bound filter_empty_conv)
  have step: "filter (\<lambda>e. fst e < gvt) (drop (?it - 1) line)
      = filter (\<lambda>e. fst e < gvt) (if ?it = 0 then [] else [line ! (?it - 1)])"
    if "line \<noteq> []"
  proof (cases "?it = 0")
    case False
    then have "?it - 1 < length line" using lower_bound_le [of gvt line] that by (cases ?it) auto
    then have "drop (?it - 1) line = line ! (?it - 1) # drop ?it line"
      using False by (metis Cons_nth_drop_Suc Suc_pred' neq0_conv)
    then show ?thesis using False tail by simp
  qed (use tail in simp)
  show ?thesis
  proof (cases "line = []")
    case False
    then show ?thesis
      using tail step by (auto simp: prune_timeline_def Let_def)
  qed (simp add: prune_timeline_def lower_bound_def)
qed

subsection \<open>Snapshots\<close>

lemma read_field_here [simp]:
  assumes "LENGTH('a) \<le> 8 * n" and "off = length pre"
  shows "read_field n (pre @ le_bytes n (v :: 'a::len word) @ post) off s = (Inr (v, off + n), s)"
  using read_at_here [OF assms] by (simp add: read_field_def)

text \<open>What a serialised history needs: every count fits its 32-bit field.\<close>

definition saveable :: "owner_history \<Rightarrow> bool" where
  "saveable h \<longleftrightarrow> history_wf h \<and> length h < 2 ^ 32 \<and> (\<forall>(e, line) \<in> set h. length line < 2 ^ 32)"

lemma at_entity_last:
  "\<forall>e \<in> set h. fst e < entity \<Longrightarrow>
   at_entity entity f (h @ [(entity, line)]) = h @ [(entity, f line)]"
proof (induction h)
  case Nil
  then show ?case by (simp add: at_entity_def)
next
  case (Cons a h)
  then show ?case by (cases a) (auto simp: at_entity_def)
qed

lemma at_entity_new:
  "\<forall>e \<in> set h. fst e < entity \<Longrightarrow> at_entity entity f h = h @ [(entity, f [])]"
  by (auto simp: at_entity_def om_emplace_last intro!: map_idI)

lemma load_entries_run:
  assumes "\<forall>e \<in> set h. fst e < entity" and "ordered_keys (done_line @ line)"
  shows "load_entries (length line) entity (pre @ concat (map save_entry line) @ post) (length pre)
      (h @ [(entity, done_line)])
    = (Inr (length pre + length (concat (map save_entry line))), h @ [(entity, done_line @ line)])"
  using assms(2)
proof (induction line arbitrary: pre done_line)
  case (Cons e line)
  obtain t q o' where e: "e = (TimeStamp t q, o')" by (metis prod.exhaust timestamp.exhaust)
  let ?rest = "concat (map save_entry line) @ post"
  let ?b = "le_bytes 8 t" and ?c = "le_bytes 8 q" and ?d = "le_bytes 4 o'"
  have bytes: "pre @ concat (map save_entry (e # line)) @ post = pre @ ?b @ ?c @ ?d @ ?rest"
    by (simp add: e save_entry_def)
  have r1: "read_field 8 (pre @ ?b @ ?c @ ?d @ ?rest) (length pre) s = (Inr (t, length pre + 8), s)"
    and r2: "read_field 8 (pre @ ?b @ ?c @ ?d @ ?rest) (length pre + 8) s = (Inr (q, length pre + 16), s)"
    and r3: "read_field 4 (pre @ ?b @ ?c @ ?d @ ?rest) (length pre + 16) s = (Inr (o', length pre + 20), s)"
    for s :: owner_history
    using read_field_here [of 8 "length pre" pre t "?c @ ?d @ ?rest" s]
      read_field_here [of 8 "length pre + 8" "pre @ ?b" q "?d @ ?rest" s]
      read_field_here [of 4 "length pre + 16" "pre @ ?b @ ?c" o' "?rest" s] by simp_all
  have "om_emplace (TimeStamp t q) o' done_line = done_line @ [e]"
    using Cons.prems e by (auto simp: ordered_keys_append intro!: om_emplace_last)
  then have step: "at_entity entity (om_emplace (TimeStamp t q) o') (h @ [(entity, done_line)])
      = h @ [(entity, done_line @ [e])]"
    using assms(1) by (simp add: at_entity_last)
  have "load_entries (length line) entity ((pre @ ?b @ ?c @ ?d) @ ?rest) (length (pre @ ?b @ ?c @ ?d))
      (h @ [(entity, done_line @ [e])])
    = (Inr (length (pre @ ?b @ ?c @ ?d) + length (concat (map save_entry line))),
       h @ [(entity, (done_line @ [e]) @ line)])"
    by (rule Cons.IH) (use Cons.prems in simp)
  then have next_ones: "load_entries (length line) entity (pre @ ?b @ ?c @ ?d @ ?rest) (length pre + 20)
      (h @ [(entity, done_line @ [e])])
    = (Inr (length pre + 20 + length (concat (map save_entry line))), h @ [(entity, done_line @ e # line)])"
    by simp
  have len: "length (save_entry e) = 20" by (simp add: e save_entry_def)
  show ?case
    unfolding bytes by (simp add: r1 r2 r3 step next_ones len thn_def)
qed simp

lemma load_timelines_run:
  assumes "ordered_keys (h @ ts)" and "\<forall>(e, line) \<in> set ts. ordered_keys line \<and> length line < 2 ^ 32"
  shows "load_timelines (length ts) (pre @ concat (map save_timeline ts) @ post) (length pre) h
    = (Inr (), h @ ts)"
  using assms
proof (induction ts arbitrary: pre h)
  case (Cons e ts)
  obtain k line where e: "e = (k, line)" by fastforce
  let ?n = "word_of_nat (length line) :: u32"
  let ?b = "le_bytes 8 k" and ?c = "le_bytes 4 ?n" and ?d = "concat (map save_entry line)"
  let ?rest = "concat (map save_timeline ts) @ post"
  have bytes: "pre @ concat (map save_timeline (e # ts)) @ post = pre @ ?b @ ?c @ ?d @ ?rest"
    by (simp add: e save_timeline_def)
  have n: "unat ?n = length line"
    using Cons.prems(2) e by (simp add: unat_of_nat take_bit_nat_eq_self)
  have below: "\<forall>x \<in> set h. fst x < k"
    using Cons.prems(1) e by (auto simp: ordered_keys_append)
  have r1: "read_field 8 (pre @ ?b @ ?c @ ?d @ ?rest) (length pre) s = (Inr (k, length pre + 8), s)"
    and r2: "read_field 4 (pre @ ?b @ ?c @ ?d @ ?rest) (length pre + 8) s = (Inr (?n, length pre + 12), s)"
    for s :: owner_history
    using read_field_here [of 8 "length pre" pre k "?c @ ?d @ ?rest" s]
      read_field_here [of 4 "length pre + 8" "pre @ ?b" ?n "?d @ ?rest" s] by simp_all
  have entries: "load_entries (length line) k ((pre @ ?b @ ?c) @ ?d @ ?rest) (length (pre @ ?b @ ?c))
      (h @ [(k, [])])
    = (Inr (length (pre @ ?b @ ?c) + length ?d), h @ [(k, [] @ line)])"
    by (rule load_entries_run) (use below Cons.prems(2) e in simp_all)
  have IH: "load_timelines (length ts) ((pre @ ?b @ ?c @ ?d) @ ?rest) (length (pre @ ?b @ ?c @ ?d))
      (h @ [(k, line)])
    = (Inr (), (h @ [(k, line)]) @ ts)"
    by (rule Cons.IH) (use Cons.prems e in simp_all)
  show ?case
    unfolding bytes using entries IH
    by (simp add: r1 r2 n at_entity_new [OF below] thn_def e add.assoc)
qed simp

lemma directory_load_saved:
  assumes "saveable h" and "directory_save_state h = Inr bs"
  shows "directory_load_state bs h' = (Inr (), h)"
proof -
  let ?n = "word_of_nat (length h) :: u32"
  have bs: "bs = le_bytes 4 ?n @ concat (map save_timeline h)"
    using assms(2) by (simp add: directory_save_state_def)
  have n: "unat ?n = length h"
    using assms(1) by (simp add: saveable_def unat_of_nat take_bit_nat_eq_self)
  have r: "read_field 4 bs 0 s = (Inr (?n, 4), s)" for s :: owner_history
    using read_field_here [of 4 0 "[]" ?n "concat (map save_timeline h)" s] bs by simp
  have "load_timelines (length h) (le_bytes 4 ?n @ concat (map save_timeline h) @ [])
      (length (le_bytes 4 ?n)) [] = (Inr (), [] @ h)"
    by (rule load_timelines_run) (use assms(1) in \<open>auto simp: saveable_def history_wf_def\<close>)
  then have "load_timelines (length h) bs 4 [] = (Inr (), h)" by (simp add: bs)
  then show ?thesis
    by (simp add: directory_load_state_def r n thn_def)
qed

interpretation directory_snapshots: snapshot_lp directory_save_state directory_load_state saveable
  by unfold_locales (simp_all add: directory_load_saved, simp add: directory_save_state_def)

subsection \<open>The handler\<close>

lemma directory_writes_before_mutation: "write_before_mutation (directory_on_event pad cfg ev h)"
  by (auto simp: directory_on_event_def Let_def split: option.split sum.split)

lemma directory_keeps_wf: "history_wf h \<Longrightarrow> history_wf (final_state (directory_on_event pad cfg ev h) h)"
  by (auto simp: directory_on_event_def Let_def prune_history_wf history_wf_set_owner
      split: option.split sum.split)

end
