(* ===== verification/Migration.thy ===== *)
theory Migration
  imports Directory
begin

text \<open>
  The optimistic migration protocol (\<open>src/src/optimistic_migration.hpp\<close>): the payloads of
  the update-owner, install and fossil-collect events and of the migration log, the policy
  wrapper, and the directory configuration that decodes them.
\<close>

definition DefaultUpdateOwnerKind :: u32 where "DefaultUpdateOwnerKind = 42001"
definition DefaultInstallKind :: u32 where "DefaultInstallKind = 42002"
definition DefaultFossilCollectKind :: u32 where "DefaultFossilCollectKind = 42003"
definition DefaultMigrationLogKind :: u32 where "DefaultMigrationLogKind = 42004"

lemmas default_kinds = DefaultUpdateOwnerKind_def DefaultInstallKind_def
  DefaultFossilCollectKind_def DefaultMigrationLogKind_def

abbreviation migration_error :: "string \<Rightarrow> exn + 'a" where
  "migration_error msg \<equiv> Inl (Runtime_Error (''optimistic_migration: '' @ msg))"

subsection \<open>The migration log\<close>

definition decode_migration_log_payload :: "payload \<Rightarrow> exn + directory_migration_log" where
  "decode_migration_log_payload p =
     (if p_kind p \<noteq> DefaultMigrationLogKind then migration_error ''wrong migration-log kind''
      else if length (p_bytes p) \<noteq> 24 then migration_error ''bad migration-log payload''
      else Inr (migration_log_of_bytes (p_bytes p)))"

subsection \<open>Headers\<close>

record update_owner_header =
  uo_entity :: u64
  uo_newOwner :: u32
  uo_stateBytes :: u32

record install_header =
  ih_entity :: u64
  ih_stateBytes :: u32

definition update_owner_bytes :: "update_owner_header \<Rightarrow> bytes" where
  "update_owner_bytes h =
     le_bytes 8 (uo_entity h) @ le_bytes 4 (uo_newOwner h) @ le_bytes 4 (uo_stateBytes h)"

definition update_owner_of_bytes :: "bytes \<Rightarrow> update_owner_header" where
  "update_owner_of_bytes bs = \<lparr>uo_entity = field_at 0 8 bs, uo_newOwner = field_at 8 4 bs,
     uo_stateBytes = field_at 12 4 bs\<rparr>"

text \<open>The ABI pads the install header from 12 to 16 bytes.\<close>

definition install_bytes :: "bytes \<Rightarrow> install_header \<Rightarrow> bytes" where
  "install_bytes pad h = le_bytes 8 (ih_entity h) @ le_bytes 4 (ih_stateBytes h) @ pad"

definition install_of_bytes :: "bytes \<Rightarrow> install_header" where
  "install_of_bytes bs = \<lparr>ih_entity = field_at 0 8 bs, ih_stateBytes = field_at 8 4 bs\<rparr>"

interpretation update_owner_layout:
  trivial_layout "\<lambda>_. update_owner_bytes" update_owner_of_bytes 16 0
proof
  fix x :: update_owner_header and rest
  let ?e = "le_bytes 8 (uo_entity x)" and ?o = "le_bytes 4 (uo_newOwner x)"
  let ?n = "le_bytes 4 (uo_stateBytes x)"
  have "field_at 0 8 ([] @ ?e @ (?o @ ?n @ rest)) = uo_entity x"
    "field_at 8 4 (?e @ ?o @ (?n @ rest)) = uo_newOwner x"
    "field_at 12 4 ((?e @ ?o) @ ?n @ rest) = uo_stateBytes x"
    by (rule field_at_here; simp)+
  then show "update_owner_of_bytes (update_owner_bytes x @ rest) = x"
    by (simp add: update_owner_of_bytes_def update_owner_bytes_def)
qed (simp add: update_owner_bytes_def)

interpretation install_layout: trivial_layout install_bytes install_of_bytes 16 4
proof
  fix pad :: bytes and x :: install_header and rest
  let ?e = "le_bytes 8 (ih_entity x)" and ?n = "le_bytes 4 (ih_stateBytes x)"
  have "field_at 0 8 ([] @ ?e @ (?n @ pad @ rest)) = ih_entity x"
    "field_at 8 4 (?e @ ?n @ (pad @ rest)) = ih_stateBytes x"
    by (rule field_at_here; simp)+
  then show "install_of_bytes (install_bytes pad x @ rest) = x"
    by (simp add: install_of_bytes_def install_bytes_def)
qed (simp add: install_bytes_def)

subsection \<open>Payloads\<close>

definition make_default_update_owner_payload :: "u64 \<Rightarrow> u32 \<Rightarrow> bytes \<Rightarrow> exn + payload" where
  "make_default_update_owner_payload entity newOwner state =
     (if length state > unat (- 1 :: u32) then migration_error ''state too large''
      else Inr \<lparr>p_kind = DefaultUpdateOwnerKind,
        p_bytes = update_owner_bytes \<lparr>uo_entity = entity, uo_newOwner = newOwner,
          uo_stateBytes = word_of_nat (length state)\<rparr> @ state\<rparr>)"

definition make_update_owner_payload :: "u32 \<Rightarrow> u64 \<Rightarrow> u32 \<Rightarrow> bytes \<Rightarrow> exn + payload" where
  "make_update_owner_payload kind entity newOwner state =
     (case make_default_update_owner_payload entity newOwner state of
        Inl e \<Rightarrow> Inl e | Inr p \<Rightarrow> Inr (p\<lparr>p_kind := kind\<rparr>))"

text \<open>
  What the directory makes of an update: the install payload is a header of its own and the
  state bytes.
\<close>

definition decode_update_owner_as_directory_update :: "bytes \<Rightarrow> event \<Rightarrow> exn + directory_update" where
  "decode_update_owner_as_directory_update pad ev =
     (let bs = p_bytes (ev_payload ev) in
      if p_kind (ev_payload ev) \<noteq> DefaultUpdateOwnerKind then migration_error ''wrong update kind''
      else if length bs < 16 then migration_error ''bad update payload''
      else let h = update_owner_of_bytes bs in
        if length bs \<noteq> 16 + unat (uo_stateBytes h) then migration_error ''bad update payload size''
        else Inr \<lparr>du_entity = uo_entity h, du_newOwner = uo_newOwner h, du_sendInstall = True,
          du_installPayload = \<lparr>p_kind = DefaultInstallKind,
            p_bytes = install_bytes pad \<lparr>ih_entity = uo_entity h, ih_stateBytes = uo_stateBytes h\<rparr>
                      @ take (unat (uo_stateBytes h)) (drop 16 bs)\<rparr>\<rparr>)"

definition decode_install :: "event \<Rightarrow> exn + u64 \<times> bytes" where
  "decode_install ev =
     (let bs = p_bytes (ev_payload ev) in
      if p_kind (ev_payload ev) \<noteq> DefaultInstallKind then migration_error ''wrong install kind''
      else if length bs < 16 then migration_error ''bad install payload''
      else let h = install_of_bytes bs in
        if length bs \<noteq> 16 + unat (ih_stateBytes h) then migration_error ''bad install payload size''
        else Inr (ih_entity h, take (unat (ih_stateBytes h)) (drop 16 bs)))"

definition make_fossil_collect_payload :: "timestamp \<Rightarrow> payload" where
  "make_fossil_collect_payload gvt = \<lparr>p_kind = DefaultFossilCollectKind, p_bytes = stamp_bytes gvt\<rparr>"

definition decode_fossil_collect_payload :: "event \<Rightarrow> exn + timestamp" where
  "decode_fossil_collect_payload ev =
     (if p_kind (ev_payload ev) \<noteq> DefaultFossilCollectKind then migration_error ''wrong fossil-collect kind''
      else if length (p_bytes (ev_payload ev)) \<noteq> 16 then migration_error ''bad fossil-collect payload''
      else Inr (stamp_of_bytes (p_bytes (ev_payload ev))))"

subsection \<open>Sending an update\<close>

record migration_inputs =
  mi_entity :: u64
  mi_currentOwner :: u32
  mi_self :: u32
  mi_now :: timestamp
  mi_localWork :: u64
  mi_remoteWork :: u64

definition send_update_owner ::
  "timestamp \<Rightarrow> u32 \<Rightarrow> u32 \<Rightarrow> u32 \<Rightarrow> u64 \<Rightarrow> u32 \<Rightarrow> bytes \<Rightarrow> u64 \<Rightarrow> 'st sink_call list" where
  "send_update_owner ts src directoryLp updateOwnerKind entity newOwner state uid =
     (case make_update_owner_payload updateOwnerKind entity newOwner state of
        Inl e \<Rightarrow> [Fail e]
      | Inr p \<Rightarrow> [Send (empty_event\<lparr>ev_ts := ts, ev_src := src, ev_dst := directoryLp,
                      ev_target := entity, ev_uid := uid, ev_payload := p\<rparr>)])"

definition maybe_migrate ::
  "timestamp \<Rightarrow> u32 \<Rightarrow> u32 \<Rightarrow> u32 \<Rightarrow> bytes \<Rightarrow> migration_inputs
     \<Rightarrow> (migration_inputs \<Rightarrow> u32 option) option \<Rightarrow> u64 \<Rightarrow> bool \<times> 'st sink_call list" where
  "maybe_migrate effectiveTs src directoryLp updateOwnerKind state inputs decide uid =
     (case decide of
        None \<Rightarrow> (False, [])
      | Some f \<Rightarrow> (case f inputs of
          None \<Rightarrow> (False, [])
        | Some newOwner \<Rightarrow>
            if newOwner = 0 \<or> newOwner = mi_currentOwner inputs then (False, [])
            else (True, send_update_owner effectiveTs src directoryLp updateOwnerKind
                          (mi_entity inputs) newOwner state uid)))"

definition make_default_directory_config :: "bytes \<Rightarrow> u32 \<Rightarrow> u64 \<Rightarrow> directory_config" where
  "make_default_directory_config pad i stateEntityId = \<lparr>
     dc_id = i,
     dc_stateEntityId = stateEntityId,
     dc_updateOwnerKind = DefaultUpdateOwnerKind,
     dc_decodeUpdate = Some (decode_update_owner_as_directory_update pad),
     dc_migrationLogKind = DefaultMigrationLogKind,
     dc_fossilCollectKind = DefaultFossilCollectKind,
     dc_decodeFossilCollect = Some decode_fossil_collect_payload,
     dc_defaultOwner = None\<rparr>"

subsection \<open>Round trips\<close>

lemma unat_max_u32: "length state \<le> unat (- 1 :: u32) \<Longrightarrow> unat (word_of_nat (length state) :: u32) = length state"
  by (simp add: unat_of_nat take_bit_nat_eq_self unsigned_minus_1_eq_mask mask_eq_exp_minus_1)

lemmas update_owner_round = update_owner_layout.get_put [of "[]"]
  update_owner_layout.put_length [of "[]"] update_owner_layout.header_split [of "[]"]

lemma decode_made_update:
  assumes "make_update_owner_payload DefaultUpdateOwnerKind entity newOwner state = Inr p"
    and "ev_payload ev = p" and "length pad = 4"
  shows "\<exists>u. decode_update_owner_as_directory_update pad ev = Inr u
    \<and> du_entity u = entity \<and> du_newOwner u = newOwner \<and> du_sendInstall u
    \<and> (\<forall>i. ev_payload i = du_installPayload u \<longrightarrow> decode_install i = Inr (entity, state))"
proof -
  have fits: "length state \<le> unat (- 1 :: u32)"
    using assms(1) by (simp add: make_update_owner_payload_def make_default_update_owner_payload_def
        split: if_splits)
  have p: "p = \<lparr>p_kind = DefaultUpdateOwnerKind,
        p_bytes = update_owner_bytes \<lparr>uo_entity = entity, uo_newOwner = newOwner,
          uo_stateBytes = word_of_nat (length state)\<rparr> @ state\<rparr>"
    using assms(1) fits by (simp add: make_update_owner_payload_def make_default_update_owner_payload_def)
  show ?thesis
    using assms(2,3) unat_max_u32 [OF fits]
    by (simp add: p decode_update_owner_as_directory_update_def decode_install_def update_owner_round
        install_layout.get_put install_layout.put_length install_layout.header_split)
qed

lemma decode_made_fossil:
  "ev_payload ev = make_fossil_collect_payload gvt \<Longrightarrow> decode_fossil_collect_payload ev = Inr gvt"
  using stamp_layout.get_put_exact [of "[]" gvt] stamp_layout.put_length [of "[]" gvt]
  by (simp add: decode_fossil_collect_payload_def make_fossil_collect_payload_def)

lemma decode_made_log:
  "length pad = 4 \<Longrightarrow>
   decode_migration_log_payload \<lparr>p_kind = DefaultMigrationLogKind, p_bytes = migration_log_bytes pad r\<rparr> = Inr r"
  by (simp add: decode_migration_log_payload_def migration_log_layout.put_length
      migration_log_layout.get_put_exact)

lemma install_event_fields:
  "ev_ts (install_event cfg ev u) = ev_ts ev" "ev_dst (install_event cfg ev u) = du_newOwner u"
  "ev_target (install_event cfg ev u) = du_entity u"
  by (simp_all add: install_event_def)

text \<open>
  An update processed by a directory with the default configuration: the write request, the
  new history, the install at the new owner, the log of the change.
\<close>

lemma directory_applies_update:
  assumes made: "make_update_owner_payload DefaultUpdateOwnerKind entity newOwner state = Inr p"
    and ev: "ev_payload ev = p" and pads: "length pad = 4" "length pad' = 4" and "sid \<noteq> 0"
  shows "\<exists>install log.
    directory_on_event pad' (make_default_directory_config pad i sid) ev h =
      [Request_Write sid, Sink (Become (set_owner entity (ev_ts ev) newOwner h)),
       Sink (Send install), Emit_Committed (ev_ts ev) log]
    \<and> ev_ts install = ev_ts ev \<and> ev_dst install = newOwner \<and> ev_target install = entity
    \<and> decode_install install = Inr (entity, state)
    \<and> decode_migration_log_payload log = Inr \<lparr>dm_entity = entity,
        dm_oldOwner = owner_at (make_default_directory_config pad i sid) entity (ev_ts ev) h,
        dm_newOwner = newOwner, dm_sentInstall = 1\<rparr>"
proof -
  let ?cfg = "make_default_directory_config pad i sid"
  have kind: "p_kind (ev_payload ev) = DefaultUpdateOwnerKind"
    unfolding ev using made by (auto simp: make_update_owner_payload_def split: sum.splits)
  obtain u where u: "decode_update_owner_as_directory_update pad ev = Inr u"
    "du_entity u = entity" "du_newOwner u = newOwner" "du_sendInstall u"
    "\<And>i. ev_payload i = du_installPayload u \<Longrightarrow> decode_install i = Inr (entity, state)"
    using decode_made_update [OF made ev pads(1)] by blast
  have run: "directory_on_event pad' ?cfg ev h =
      [Request_Write sid, Sink (Become (set_owner entity (ev_ts ev) newOwner h)),
       Sink (Send (install_event ?cfg ev u)),
       Emit_Committed (ev_ts ev)
         (migration_log_payload pad' ?cfg (owner_at ?cfg entity (ev_ts ev) h) u)]"
    using kind u(1-4) \<open>sid \<noteq> 0\<close>
    by (simp add: directory_on_event_def make_default_directory_config_def Let_def default_kinds)
  have inst: "decode_install (install_event ?cfg ev u) = Inr (entity, state)"
    by (rule u(5)) (simp add: install_event_def)
  have log: "decode_migration_log_payload
      (migration_log_payload pad' ?cfg (owner_at ?cfg entity (ev_ts ev) h) u)
    = Inr \<lparr>dm_entity = entity, dm_oldOwner = owner_at ?cfg entity (ev_ts ev) h,
        dm_newOwner = newOwner, dm_sentInstall = 1\<rparr>"
    using decode_made_log [OF pads(2)] u(2-4)
    by (simp add: migration_log_payload_def make_default_directory_config_def)
  show ?thesis
    by (intro exI conjI, rule run)
      (use inst log in \<open>simp_all add: u(2,3) install_event_fields\<close>)
qed

text \<open>A fossil request prunes and nothing else.\<close>

lemma directory_applies_fossil:
  assumes "ev_payload ev = make_fossil_collect_payload gvt" and "sid \<noteq> 0"
  shows "directory_on_event pad' (make_default_directory_config pad i sid) ev h =
    [Request_Write sid, Sink (Become (prune_history gvt h))]"
  using assms decode_made_fossil [of ev gvt]
  by (simp add: directory_on_event_def make_default_directory_config_def Let_def
      make_fossil_collect_payload_def default_kinds)


end
