(* ===== verification/Rng.thy ===== *)
theory Rng
  imports Prelude Complex_Main
begin

text \<open>
  The stateless random numbers of \<open>src/src/random.hpp\<close>. The doubles of
  \<open>rng_unit_double\<close> are computed exactly: the mantissa has at most 53 bits, so its
  conversion is exact, and the multiplication by a power of two only shifts the exponent;
  the model has their value as a rational number. Division by a zero \<open>span\<close> in
  \<open>rng_u64_range\<close> is undefined in C++ and is \<open>Undefined\<close> here.
\<close>

definition splitmix64 :: "u64 \<Rightarrow> u64" where
  "splitmix64 x =
     (let x = x + 0x9e3779b97f4a7c15;
          x = (x XOR drop_bit 30 x) * 0xbf58476d1ce4e5b9;
          x = (x XOR drop_bit 27 x) * 0x94d049bb133111eb
      in x XOR drop_bit 31 x)"

definition mix_u64 :: "u64 \<Rightarrow> u64 \<Rightarrow> u64" where
  "mix_u64 a b = splitmix64 (a XOR splitmix64 b)"

definition rng_u64 :: "u64 \<Rightarrow> u32 \<Rightarrow> u32 \<Rightarrow> u64 \<Rightarrow> u32 \<Rightarrow> u64" where
  "rng_u64 seed lp stream eventUid draw =
     (let x = seed;
          x = mix_u64 x (ucast lp);
          x = mix_u64 x (ucast stream);
          x = mix_u64 x eventUid;
          x = mix_u64 x (ucast draw)
      in splitmix64 x)"

definition rng_u64_src :: "u64 \<Rightarrow> u32 \<Rightarrow> u32 \<Rightarrow> u32 \<Rightarrow> u64 \<Rightarrow> u32 \<Rightarrow> u64" where
  "rng_u64_src seed lp stream eventSrc eventUid draw =
     (let x = seed;
          x = mix_u64 x (ucast lp);
          x = mix_u64 x (ucast stream);
          x = mix_u64 x (ucast eventSrc);
          x = mix_u64 x eventUid;
          x = mix_u64 x (ucast draw)
      in splitmix64 x)"

definition unit_double_of :: "u64 \<Rightarrow> rat" where
  "unit_double_of r = of_nat (unat (drop_bit 11 r)) * (1 / 9007199254740992)"

definition rng_unit_double :: "u64 \<Rightarrow> u32 \<Rightarrow> u32 \<Rightarrow> u64 \<Rightarrow> u32 \<Rightarrow> rat" where
  "rng_unit_double seed lp stream eventUid draw =
     unit_double_of (rng_u64 seed lp stream eventUid draw)"

definition rng_unit_double_src :: "u64 \<Rightarrow> u32 \<Rightarrow> u32 \<Rightarrow> u32 \<Rightarrow> u64 \<Rightarrow> u32 \<Rightarrow> rat" where
  "rng_unit_double_src seed lp stream eventSrc eventUid draw =
     unit_double_of (rng_u64_src seed lp stream eventSrc eventUid draw)"

definition range_of :: "u64 \<Rightarrow> u64 \<Rightarrow> u64 \<Rightarrow> exn + u64" where
  "range_of r lo hi =
     (let span = (hi - lo) + 1 in if span = 0 then Inl Undefined else Inr (lo + r mod span))"

definition rng_u64_range :: "u64 \<Rightarrow> u32 \<Rightarrow> u32 \<Rightarrow> u64 \<Rightarrow> u64 \<Rightarrow> u64 \<Rightarrow> u32 \<Rightarrow> exn + u64" where
  "rng_u64_range seed lp stream eventUid lo hi draw =
     range_of (rng_u64 seed lp stream eventUid draw) lo hi"

definition rng_u64_range_src ::
  "u64 \<Rightarrow> u32 \<Rightarrow> u32 \<Rightarrow> u32 \<Rightarrow> u64 \<Rightarrow> u64 \<Rightarrow> u64 \<Rightarrow> u32 \<Rightarrow> exn + u64" where
  "rng_u64_range_src seed lp stream eventSrc eventUid lo hi draw =
     range_of (rng_u64_src seed lp stream eventSrc eventUid draw) lo hi"

subsection \<open>The mixing steps are invertible\<close>

text \<open>
  Xor with a right shift of itself is injective: the top bits are unchanged, and every
  lower bit is determined by its own output bit and a higher input bit.
\<close>

lemma xorshift_inj:
  fixes x y :: "'a::len word"
  assumes "0 < k" and "x XOR drop_bit k x = y XOR drop_bit k y"
  shows "x = y"
proof (rule bit_eqI)
  fix n
  have "bit x m = bit y m" for m
  proof (induction "LENGTH('a) - m" arbitrary: m rule: less_induct)
    case less
    show ?case
    proof (cases "m < LENGTH('a)")
      case True
      then have "bit x (m + k) = bit y (m + k)"
        using assms(1) by (intro less) simp
      moreover have "bit (x XOR drop_bit k x) m = bit (y XOR drop_bit k y) m"
        using assms(2) by simp
      ultimately show ?thesis
        by (auto simp: bit_xor_iff bit_drop_bit_eq add.commute)
    next
      case False
      then show ?thesis by (auto dest: bit_imp_le_length)
    qed
  qed
  then show "bit x n \<longleftrightarrow> bit y n" by simp
qed

lemma mult_inj:
  fixes x y c d :: "'a::len word"
  assumes "c * d = 1" and "x * c = y * c"
  shows "x = y"
proof -
  have "x * (c * d) = y * (c * d)" using assms(2) by (simp flip: mult.assoc)
  then show ?thesis by (simp add: assms(1))
qed

lemma splitmix64_inj: "splitmix64 x = splitmix64 y \<Longrightarrow> x = y"
proof -
  have inv1: "(0xbf58476d1ce4e5b9 :: u64) * 0x96de1b173f119089 = 1" by simp
  have inv2: "(0x94d049bb133111eb :: u64) * 0x319642b2d24d8ec3 = 1" by simp
  let ?x1 = "x + 0x9e3779b97f4a7c15" and ?y1 = "y + 0x9e3779b97f4a7c15"
  let ?x2 = "(?x1 XOR drop_bit 30 ?x1) * 0xbf58476d1ce4e5b9"
  let ?y2 = "(?y1 XOR drop_bit 30 ?y1) * 0xbf58476d1ce4e5b9"
  let ?x3 = "(?x2 XOR drop_bit 27 ?x2) * 0x94d049bb133111eb"
  let ?y3 = "(?y2 XOR drop_bit 27 ?y2) * 0x94d049bb133111eb"
  assume "splitmix64 x = splitmix64 y"
  then have "?x3 XOR drop_bit 31 ?x3 = ?y3 XOR drop_bit 31 ?y3"
    by (simp only: splitmix64_def Let_def)
  then have "?x3 = ?y3" by (rule xorshift_inj [rotated]) simp
  then have "?x2 XOR drop_bit 27 ?x2 = ?y2 XOR drop_bit 27 ?y2" by (rule mult_inj [OF inv2])
  then have "?x2 = ?y2" by (rule xorshift_inj [rotated]) simp
  then have "?x1 XOR drop_bit 30 ?x1 = ?y1 XOR drop_bit 30 ?y1" by (rule mult_inj [OF inv1])
  then have "?x1 = ?y1" by (rule xorshift_inj [rotated]) simp
  then show "x = y" by simp
qed

lemma splitmix64_eq [simp]: "splitmix64 x = splitmix64 y \<longleftrightarrow> x = y"
  using splitmix64_inj by blast

lemma xor_left_cancel [simp]: "a XOR b = a XOR c \<longleftrightarrow> b = c"
  and xor_right_cancel [simp]: "b XOR a = c XOR a \<longleftrightarrow> b = c" for a b c :: "'a::len word"
  by (metis xor.assoc xor.commute xor.left_neutral xor_self_eq)+

lemma mix_u64_left [simp]: "mix_u64 a k = mix_u64 b k \<longleftrightarrow> a = b"
  and mix_u64_right [simp]: "mix_u64 k a = mix_u64 k b \<longleftrightarrow> a = b"
  by (simp_all add: mix_u64_def)

lemma ucast_u32_u64_eq [simp]: "(ucast a :: u64) = ucast b \<longleftrightarrow> a = b" for a b :: u32
proof
  assume "(ucast a :: u64) = ucast b"
  then have "(ucast (ucast a :: u64) :: u32) = ucast (ucast b :: u64)" by simp
  then show "a = b" by (simp add: ucast_up_ucast_id is_up)
qed simp

subsection \<open>Ranges\<close>

lemma range_of_bounds:
  assumes "lo \<le> hi" and "range_of r lo hi = Inr v"
  shows "lo \<le> v \<and> v \<le> hi"
proof -
  let ?span = "hi - lo + 1"
  have v: "v = lo + r mod ?span" and nz: "?span \<noteq> 0"
    using assms(2) by (auto simp: range_of_def Let_def split: if_splits)
  have "r mod ?span < ?span"
    using nz by (simp add: word_less_nat_alt unat_mod word_neq_0_conv)
  moreover have "unat ?span = unat (hi - lo) + 1"
    using nz unatSuc [of "hi - lo"] by (simp add: add.commute)
  moreover have "unat (hi - lo) = unat hi - unat lo"
    using assms(1) by (rule unat_sub)
  ultimately have m: "unat (r mod ?span) \<le> unat hi - unat lo"
    by (simp add: word_less_nat_alt)
  have "unat lo \<le> unat hi" using assms(1) by (simp add: word_le_nat_alt)
  then have "unat lo + unat (r mod ?span) \<le> unat hi" using m by simp
  then have "unat (lo + r mod ?span) = unat lo + unat (r mod ?span)"
    using unsigned_less [of hi, where ?'a = nat] by (intro unat_add_lem [THEN iffD1]) simp
  then show ?thesis
    using \<open>unat lo + unat (r mod ?span) \<le> unat hi\<close> by (simp add: v word_le_nat_alt)
qed

lemma unit_double_of_bounds: "0 \<le> unit_double_of r \<and> unit_double_of r < 1"
proof -
  have "unat (drop_bit 11 r) = unat r div 2 ^ 11"
    by (simp add: drop_bit_eq_div unat_div)
  moreover have "unat r < 2 ^ 64" using unsigned_less [of r, where ?'a = nat] by simp
  ultimately have "unat (drop_bit 11 r) < 9007199254740992" by simp
  then have "(of_nat (unat (drop_bit 11 r)) :: rat) < of_nat 9007199254740992"
    by (simp only: of_nat_less_iff)
  moreover have "0 \<le> (of_nat (unat (drop_bit 11 r)) :: rat)" by (rule of_nat_0_le_iff)
  ultimately show ?thesis by (simp add: unit_double_of_def)
qed

end
