(* ===== verification/Modeling.thy ===== *)
theory Modeling
  imports Lp Layout Rng
begin

text \<open>
  The helpers models are written with (\<open>src/src/modeling.hpp\<close>): typed payloads, events,
  targeted events, the write guard, committed output, and the RNG keyed by an event. A
  template parameter \<open>T\<close> is the layout of the type: its size and its readers, or the bytes of
  the value where it is only copied.
\<close>

definition event_identity_string :: "event \<Rightarrow> string" where
  "event_identity_string ev =
     ''ts=('' @ decimal (unat (ts_time (ev_ts ev))) @ '','' @ decimal (unat (ts_sequence (ev_ts ev))) @ '')''
     @ '' src='' @ decimal (unat (ev_src ev))
     @ '' uid='' @ decimal (unat (ev_uid ev))
     @ '' kind='' @ decimal (unat (p_kind (ev_payload ev)))
     @ (if ev_isAnti ev then '' anti=1'' else '' anti=0'')"

definition pack :: "u32 \<Rightarrow> bytes \<Rightarrow> payload" where
  "pack kind value_bytes = \<lparr>p_kind = kind, p_bytes = value_bytes\<rparr>"

definition unpack :: "nat \<Rightarrow> (bytes \<Rightarrow> 'a) \<Rightarrow> payload \<Rightarrow> u32 \<Rightarrow> string \<Rightarrow> exn + 'a" where
  "unpack sz get p expectedKind what =
     (if p_kind p \<noteq> expectedKind
      then Inl (Runtime_Error (''modeling::unpack: wrong kind for '' @ what
             @ '' (expected='' @ decimal (unat expectedKind)
             @ '' got='' @ decimal (unat (p_kind p)) @ '')''))
      else if length (p_bytes p) \<noteq> sz
      then Inl (Runtime_Error (''modeling::unpack: wrong size for '' @ what
             @ '' (expected='' @ decimal sz
             @ '' got='' @ decimal (length (p_bytes p)) @ '')''))
      else Inr (get (p_bytes p)))"

definition unpack_event :: "nat \<Rightarrow> (bytes \<Rightarrow> 'a) \<Rightarrow> event \<Rightarrow> u32 \<Rightarrow> string \<Rightarrow> exn + 'a" where
  "unpack_event sz get ev expectedKind what =
     (case unpack sz get (ev_payload ev) expectedKind what of
        Inl (Runtime_Error msg) \<Rightarrow> Inl (Runtime_Error (msg @ '' @ '' @ event_identity_string ev))
      | r \<Rightarrow> r)"

text \<open>Constructing a \<open>WriteGuard\<close> requests the write.\<close>

definition write_guard :: "u64 \<Rightarrow> 'st ctx_call list" where
  "write_guard entity = [Request_Write entity]"

definition make_event_payload :: "timestamp \<Rightarrow> u32 \<Rightarrow> u32 \<Rightarrow> payload \<Rightarrow> u64 \<Rightarrow> u64 \<Rightarrow> event" where
  "make_event_payload ts src dst p target uid =
     empty_event\<lparr>ev_ts := ts, ev_src := src, ev_dst := dst, ev_target := target, ev_uid := uid,
       ev_payload := p\<rparr>"

definition make_event :: "timestamp \<Rightarrow> u32 \<Rightarrow> u32 \<Rightarrow> u32 \<Rightarrow> bytes \<Rightarrow> u64 \<Rightarrow> u64 \<Rightarrow> event" where
  "make_event ts src dst kind args target uid =
     empty_event\<lparr>ev_ts := ts, ev_src := src, ev_dst := dst, ev_target := target, ev_uid := uid,
       ev_payload := pack kind args\<rparr>"

definition model_send :: "timestamp \<Rightarrow> u32 \<Rightarrow> u32 \<Rightarrow> u32 \<Rightarrow> bytes \<Rightarrow> u64 \<Rightarrow> u64 \<Rightarrow> 'st sink_call" where
  "model_send ts src dst kind args target uid = Send (make_event ts src dst kind args target uid)"

definition model_send_payload :: "timestamp \<Rightarrow> u32 \<Rightarrow> u32 \<Rightarrow> payload \<Rightarrow> u64 \<Rightarrow> u64 \<Rightarrow> 'st sink_call" where
  "model_send_payload ts src dst p target uid = Send (make_event_payload ts src dst p target uid)"

definition UnsetDst :: u32 where
  "UnsetDst = - 1"

definition make_targeted_event :: "timestamp \<Rightarrow> u32 \<Rightarrow> u64 \<Rightarrow> u32 \<Rightarrow> bytes \<Rightarrow> u64 \<Rightarrow> event" where
  "make_targeted_event ts src target kind args uid = make_event ts src UnsetDst kind args target uid"

definition make_targeted_event_payload :: "timestamp \<Rightarrow> u32 \<Rightarrow> u64 \<Rightarrow> payload \<Rightarrow> u64 \<Rightarrow> event" where
  "make_targeted_event_payload ts src target p uid = make_event_payload ts src UnsetDst p target uid"

definition send_targeted :: "timestamp \<Rightarrow> u32 \<Rightarrow> u64 \<Rightarrow> u32 \<Rightarrow> bytes \<Rightarrow> u64 \<Rightarrow> 'st sink_call" where
  "send_targeted ts src target kind args uid = Send (make_targeted_event ts src target kind args uid)"

definition send_targeted_payload :: "timestamp \<Rightarrow> u32 \<Rightarrow> u64 \<Rightarrow> payload \<Rightarrow> u64 \<Rightarrow> 'st sink_call" where
  "send_targeted_payload ts src target p uid = Send (make_targeted_event_payload ts src target p uid)"

definition require_payload :: "nat \<Rightarrow> (bytes \<Rightarrow> 'a) \<Rightarrow> event \<Rightarrow> u32 \<Rightarrow> string \<Rightarrow> exn + 'a" where
  "require_payload sz get ev expectedKind what = unpack_event sz get ev expectedKind what"

definition emit_committed_value :: "timestamp \<Rightarrow> u32 \<Rightarrow> bytes \<Rightarrow> 'st ctx_call" where
  "emit_committed_value ts kind value_bytes = Emit_Committed ts (pack kind value_bytes)"

definition event_rng_u64 :: "u64 \<Rightarrow> u32 \<Rightarrow> event \<Rightarrow> u32 \<Rightarrow> u32 \<Rightarrow> u64" where
  "event_rng_u64 seed lp ev stream draw = rng_u64_src seed lp stream (ev_src ev) (ev_uid ev) draw"

definition event_rng_unit_double :: "u64 \<Rightarrow> u32 \<Rightarrow> event \<Rightarrow> u32 \<Rightarrow> u32 \<Rightarrow> rat" where
  "event_rng_unit_double seed lp ev stream draw =
     rng_unit_double_src seed lp stream (ev_src ev) (ev_uid ev) draw"

definition event_rng_u64_range :: "u64 \<Rightarrow> u32 \<Rightarrow> event \<Rightarrow> u32 \<Rightarrow> u64 \<Rightarrow> u64 \<Rightarrow> u32 \<Rightarrow> exn + u64" where
  "event_rng_u64_range seed lp ev stream lo hi draw =
     rng_u64_range_src seed lp stream (ev_src ev) (ev_uid ev) lo hi draw"

context trivial_layout
begin

lemma unpack_pack: "length pad = npad \<Longrightarrow> unpack size get (pack kind (put pad x)) kind what = Inr x"
  by (simp add: unpack_def pack_def put_length get_put_exact)

lemma unpack_event_pack:
  "length pad = npad \<Longrightarrow>
   unpack_event size get (make_event ts src dst kind (put pad x) target uid) kind what = Inr x"
  by (simp add: unpack_event_def make_event_def unpack_pack)

end

text \<open>Unpacking returns a value exactly for the right kind and size.\<close>

lemma unpack_Inr_iff:
  "unpack sz get p kind what = Inr x \<longleftrightarrow>
   p_kind p = kind \<and> length (p_bytes p) = sz \<and> get (p_bytes p) = x"
  by (auto simp: unpack_def)

lemma unpack_event_Inr_iff:
  "unpack_event sz get ev kind what = Inr x \<longleftrightarrow> unpack sz get (ev_payload ev) kind what = Inr x"
  by (auto simp: unpack_event_def split: sum.split exn.split)

end
