(* ===== verification/World.thy ===== *)
theory World
  imports Kernel_Dispatch Modeling
begin

text \<open>
  The entity store of \<open>src/src/world.hpp\<close>: the registry of entity types, the world, and the
  transaction that couples its writes to the event context. Entity values, behind
  \<open>void *\<close> in the code, have type \<open>'v\<close>; a reference returned for writing is the update done
  through it. An empty \<open>std::function\<close> is \<open>None\<close>.
\<close>

record 'v type_ops =
  ot_type :: u32
  ot_create :: "'v option"
  ot_destroy :: bool
  ot_serialize :: "('v \<Rightarrow> bytes) option"
  ot_deserialize :: "(bytes \<Rightarrow> ('v, unit) eff) option"

type_synonym 'v registry = "(u32 \<times> 'v type_ops) list"

definition register_type :: "'v type_ops \<Rightarrow> ('v registry, unit) eff" where
  "register_type ops =
     thn (throw_if (ot_type ops = 0 \<or> ot_create ops = None \<or> \<not> ot_destroy ops
                    \<or> ot_serialize ops = None \<or> ot_deserialize ops = None)
            ''register_type: incomplete ops'')
     (bnd get_st (\<lambda>reg.
      if map_of reg (ot_type ops) \<noteq> None
      then raise (Runtime_Error ''register_type: duplicate EntityTypeId'')
      else upd (\<lambda>reg. (ot_type ops, ops) # reg)))"

text \<open>
  \<open>register_trivial\<close> for a type of the given size, default value and representation; a
  buffer of another size deserializes to the default.
\<close>

definition trivial_ops :: "u32 \<Rightarrow> 'v \<Rightarrow> nat \<Rightarrow> ('v \<Rightarrow> bytes) \<Rightarrow> (bytes \<Rightarrow> 'v) \<Rightarrow> 'v type_ops" where
  "trivial_ops type init sz put get = \<lparr>ot_type = type, ot_create = Some init, ot_destroy = True,
     ot_serialize = Some put,
     ot_deserialize = Some (\<lambda>bs. upd (\<lambda>_. if length bs = sz then get bs else init))\<rparr>"

definition register_trivial ::
  "u32 \<Rightarrow> 'v \<Rightarrow> nat \<Rightarrow> ('v \<Rightarrow> bytes) \<Rightarrow> (bytes \<Rightarrow> 'v) \<Rightarrow> ('v registry, unit) eff" where
  "register_trivial type init sz put get = register_type (trivial_ops type init sz put get)"

definition registry_get :: "'v registry \<Rightarrow> u32 \<Rightarrow> exn + 'v type_ops" where
  "registry_get reg type = (case map_of reg type of
     None \<Rightarrow> Inl (Runtime_Error ''Unknown EntityTypeId'') | Some ops \<Rightarrow> Inr ops)"

record 'v world =
  w_registry :: "'v registry"
  w_entities :: "(u64 \<times> u32 \<times> 'v) list"

definition lift_result :: "exn + 'a \<Rightarrow> ('s, 'a) eff" where
  "lift_result r s = (r, s)"

definition world_record :: "u64 \<Rightarrow> 'v world \<Rightarrow> exn + u32 \<times> 'v" where
  "world_record eid w = (case map_of (w_entities w) eid of
     None \<Rightarrow> Inl (Runtime_Error (''World: unknown EntityId='' @ decimal (unat eid)))
   | Some rec \<Rightarrow> Inr rec)"

definition world_emplace :: "u64 \<Rightarrow> u32 \<Rightarrow> 'v \<Rightarrow> ('v world, unit) eff" where
  "world_emplace eid type value =
     bnd get_st (\<lambda>w.
     bnd (lift_result (registry_get (w_registry w) type)) (\<lambda>ops.
     if map_of (w_entities w) eid \<noteq> None
     then raise (Runtime_Error ''World::emplace: duplicate EntityId'')
     else upd (\<lambda>w. w\<lparr>w_entities := (eid, type, value) # w_entities w\<rparr>)))"

definition world_type_of :: "u64 \<Rightarrow> 'v world \<Rightarrow> exn + u32" where
  "world_type_of eid w = (case world_record eid w of Inl e \<Rightarrow> Inl e | Inr rec \<Rightarrow> Inr (fst rec))"

definition world_read :: "u64 \<Rightarrow> u32 \<Rightarrow> 'v world \<Rightarrow> exn + 'v" where
  "world_read eid type w = (case world_record eid w of Inl e \<Rightarrow> Inl e
     | Inr rec \<Rightarrow> if fst rec \<noteq> type then Inl (Runtime_Error ''World::read: type mismatch'')
                else Inr (snd rec))"

definition set_entity :: "u64 \<Rightarrow> 'v \<Rightarrow> 'v world \<Rightarrow> 'v world" where
  "set_entity eid value w = w\<lparr>w_entities := on_key eid (\<lambda>rec. (fst rec, value)) (w_entities w)\<rparr>"

definition world_write :: "u64 \<Rightarrow> u32 \<Rightarrow> ('v \<Rightarrow> 'v) \<Rightarrow> ('v world, unit) eff" where
  "world_write eid type f =
     bnd (gets (world_record eid)) (\<lambda>r.
     bnd (lift_result r) (\<lambda>rec.
     if fst rec \<noteq> type then raise (Runtime_Error ''World::write: type mismatch'')
     else upd (set_entity eid (f (snd rec)))))"

definition serialize_entity :: "u64 \<Rightarrow> 'v world \<Rightarrow> exn + bytes" where
  "serialize_entity eid w = (case world_record eid w of Inl e \<Rightarrow> Inl e
     | Inr rec \<Rightarrow> (case registry_get (w_registry w) (fst rec) of Inl e \<Rightarrow> Inl e
         | Inr ops \<Rightarrow> (case ot_serialize ops of None \<Rightarrow> Inl Undefined | Some f \<Rightarrow> Inr (f (snd rec)))))"

definition deserialize_entity :: "u64 \<Rightarrow> bytes \<Rightarrow> ('v world, unit) eff" where
  "deserialize_entity eid bs =
     bnd get_st (\<lambda>w.
     bnd (lift_result (world_record eid w)) (\<lambda>rec.
     bnd (lift_result (registry_get (w_registry w) (fst rec))) (\<lambda>ops.
     case ot_deserialize ops of
       None \<Rightarrow> raise Undefined
     | Some f \<Rightarrow> (\<lambda>w. case f bs (snd rec) of (r, v) \<Rightarrow> (r, set_entity eid v w)))))"

subsection \<open>Transactions\<close>

definition txn_read :: "u64 \<Rightarrow> u32 \<Rightarrow> 'v world \<Rightarrow> exn + 'v" where
  "txn_read eid type w = world_read eid type w"

text \<open>
  \<open>WorldTxn::write\<close> requests the write before it touches the entity. In a handler whose
  state contains the world, it is this list of calls.
\<close>

definition txn_write :: "u64 \<Rightarrow> u32 \<Rightarrow> ('v \<Rightarrow> 'v) \<Rightarrow> 'v world \<Rightarrow> 'v world ctx_call list" where
  "txn_write eid type f w =
     Request_Write eid # (case world_write eid type f w of
       (Inl e, _) \<Rightarrow> [Sink (Fail e)] | (Inr _, w') \<Rightarrow> [Sink (Become w')])"

lemma lift_result_run [simp]: "lift_result r s = (r, s)"
  by (simp add: lift_result_def)

lemma txn_write_disciplined: "write_before_mutation (txn_write eid type f w)"
  by (simp add: txn_write_def)

text \<open>The error of an unknown entity is the one the kernel's buffering looks for.\<close>

lemma unknown_entity_is_missing:
  "map_of (w_entities w) eid = None \<Longrightarrow>
   \<exists>e. world_record eid w = Inl e \<and> is_missing_entity_error e"
  by (simp add: world_record_def is_missing_entity_error_def missing_prefix_def)

lemma world_read_emplaced:
  "world_emplace eid type v w = (Inr (), w') \<Longrightarrow> world_read eid type w' = Inr v"
  by (cases "registry_get (w_registry w) type"; cases "map_of (w_entities w) eid")
    (auto simp: world_emplace_def world_read_def world_record_def)

lemma world_record_set:
  "world_record eid w = Inr rec \<Longrightarrow> world_record eid (set_entity eid v w) = Inr (fst rec, v)"
  by (auto simp: world_record_def set_entity_def split: option.splits)

lemma world_record_set_other:
  "other \<noteq> eid \<Longrightarrow> world_record other (set_entity eid v w) = world_record other w"
  by (simp add: world_record_def set_entity_def)

text \<open>Snapshots of an entity of a trivially registered type restore it.\<close>

lemma deserialize_serialize:
  assumes layout: "trivial_layout (\<lambda>_. put) get sz 0"
    and reg: "registry_get (w_registry w) type = Inr (trivial_ops type init sz put get)"
    and rec: "world_record eid w = Inr (type, v)"
    and later: "world_record eid w' = Inr (type, v')" "w_registry w' = w_registry w"
  shows "\<exists>bs. serialize_entity eid w = Inr bs \<and>
    deserialize_entity eid bs w' = (Inr (), set_entity eid v w')"
proof -
  have "length (put v) = sz" "get (put v) = v"
    using trivial_layout.put_length [OF layout, of "[]" v]
      trivial_layout.get_put_exact [OF layout, of "[]" v] by simp_all
  then show ?thesis
    using assms(2-) by (simp add: serialize_entity_def deserialize_entity_def trivial_ops_def)
qed

end
