(* ===== verification/Dispatcher.thy ===== *)
theory Dispatcher
  imports Modeling
begin

text \<open>
  \<open>EventDispatcher\<close> (\<open>src/src/event_dispatcher.hpp\<close>): handlers by event kind. A handler's
  effects on the context and on the extra context it is given (part of the model's state)
  are its calls, as for \<open>on_event\<close>; an exception is a final \<open>Fail\<close>.
\<close>

type_synonym 'st handler = "event \<Rightarrow> 'st \<Rightarrow> 'st ctx_call list"
type_synonym 'st dispatcher = "(u32 \<times> 'st handler) list"

definition register_handler :: "u32 \<Rightarrow> 'st handler option \<Rightarrow> ('st dispatcher, unit) eff" where
  "register_handler eventTypeId handler =
     (case handler of
        None \<Rightarrow> raise (Runtime_Error ''register_handler: null handler'')
      | Some h \<Rightarrow> bnd get_st (\<lambda>handlers.
          if map_of handlers eventTypeId \<noteq> None
          then raise (Runtime_Error ''register_handler: duplicate eventTypeId'')
          else upd (\<lambda>handlers. (eventTypeId, h) # handlers)))"

definition dispatch_to_handler :: "'st dispatcher \<Rightarrow> 'st handler" where
  "dispatch_to_handler handlers ev st =
     (case map_of handlers (p_kind (ev_payload ev)) of
        None \<Rightarrow> [Sink (Fail (Runtime_Error ''dispatch: unknown eventTypeId''))]
      | Some h \<Rightarrow> h ev st)"

definition trivial_handler ::
  "nat \<Rightarrow> (bytes \<Rightarrow> 'a) \<Rightarrow> (u64 \<Rightarrow> 'a \<Rightarrow> event \<Rightarrow> 'st \<Rightarrow> 'st ctx_call list) \<Rightarrow> 'st handler" where
  "trivial_handler sz get fn ev st =
     (if length (p_bytes (ev_payload ev)) \<noteq> sz
      then [Sink (Fail (Runtime_Error ''dispatch: bad args size''))]
      else fn (ev_target ev) (get (p_bytes (ev_payload ev))) ev st)"

definition register_trivial_handler ::
  "u32 \<Rightarrow> nat \<Rightarrow> (bytes \<Rightarrow> 'a) \<Rightarrow> (u64 \<Rightarrow> 'a \<Rightarrow> event \<Rightarrow> 'st \<Rightarrow> 'st ctx_call list) \<Rightarrow> ('st dispatcher, unit) eff" where
  "register_trivial_handler eventTypeId sz get fn =
     register_handler eventTypeId (Some (trivial_handler sz get fn))"

definition make_trivial_payload :: "u32 \<Rightarrow> bytes \<Rightarrow> payload" where
  "make_trivial_payload eventTypeId args = \<lparr>p_kind = eventTypeId, p_bytes = args\<rparr>"

lemma register_dispatch:
  assumes "register_handler k (Some h) handlers = (Inr (), handlers')"
  shows "dispatch_to_handler handlers' ev =
    (if p_kind (ev_payload ev) = k then h ev else dispatch_to_handler handlers ev)"
  using assms
  by (auto simp: register_handler_def dispatch_to_handler_def fun_eq_iff split: if_splits)

context trivial_layout
begin

lemma registered_trivial_dispatch:
  assumes reg: "register_trivial_handler k size get fn handlers = (Inr (), handlers')"
    and pad: "length pad = npad" and ev: "ev_payload ev = make_trivial_payload k (put pad args)"
  shows "dispatch_to_handler handlers' ev st = fn (ev_target ev) args ev st"
  using register_dispatch [OF reg [unfolded register_trivial_handler_def], of ev] pad ev
  by (simp add: make_trivial_payload_def trivial_handler_def put_length get_put_exact)

end

end
