(* ===== verification/Sample.thy ===== *)
theory Sample
  imports Kernel_Poll Migration World Dispatcher
begin

text \<open>
  A concrete simulation on which the properties with hypotheses are applied: one rank, one
  process that counts its events and answers each with a message to itself at the end of
  time, on the in-process transport.
\<close>

definition tally_lp :: "u64 lp" where
  "tally_lp = (default_lp 1 0)\<lparr>
     lp_on_event := (\<lambda>ev n. [Request_Write 1, Sink (Become (n + 1)),
       Sink (Send (empty_event\<lparr>ev_ts := max_stamp, ev_src := 1, ev_dst := 1\<rparr>))]),
     lp_save_state := (\<lambda>n. Inr (le_bytes 8 n)),
     lp_load_state := (\<lambda>bs. upd (\<lambda>_. load_le 0 bs))\<rparr>"

definition tally_sim :: "(u64, inproc) sim" where
  "tally_sim = snd (add_lp (Some tally_lp) (projr (new_simulation default_config (Some inproc_transport) [])))"

definition tally_event :: event where
  "tally_event = empty_event\<lparr>ev_ts := TimeStamp 5 1, ev_src := 1, ev_dst := 1, ev_uid := 9\<rparr>"

text \<open>After the event has been executed.\<close>

definition tally_done :: "(u64, inproc) sim" where
  "tally_done = snd (dispatch tally_event tally_sim)"

definition tally_ctx :: "(u64, inproc) sim \<Rightarrow> u64 lp_context" where
  "tally_ctx s = the (map_of (m_lps s) 1)"

lemma all_ctx_list: "all_ctx P s \<longleftrightarrow> list_all (\<lambda>(i, cx). P i cx) (m_lps s)"
  by (auto simp: all_ctx_def list_all_iff)

lemma tally_lp_simps [simp]:
  "lp_id tally_lp = 1" "lp_state tally_lp = 0"
  "lp_save_state tally_lp = (\<lambda>n. Inr (le_bytes 8 n))"
  "lp_load_state tally_lp = (\<lambda>bs. upd (\<lambda>_. load_le 0 bs))"
  "lp_supports_entity_snapshots tally_lp = (\<lambda>_. False)"
  by (simp_all add: tally_lp_def default_lp_def)

interpretation tally_snapshots:
  snapshot_lp "lp_save_state tally_lp" "lp_load_state tally_lp" "\<lambda>_. True"
  by unfold_locales (auto simp: load_le_bytes)

lemma tally_lp_facts:
  "lp_wide tally_lp" "causal tally_lp" "write_before_mutation (lp_on_event tally_lp ev n)"
  by (auto simp: tally_lp_def default_lp_def lp_wide_def causal_def)

lemma tally_sim_lps: "m_lps tally_sim = [(1, \<lparr>cx_lp = tally_lp, cx_vt = zero_stamp, cx_inEvent = False,
    cx_currentExecTs = zero_stamp, cx_processed = [], cx_sentLog = [], cx_nextSeqNormal = 1,
    cx_nextSeqControl = 1, cx_nextUid = 1\<rparr>)]"
  and tally_sim_cfg: "m_cfg tally_sim = default_config"
  by (simp_all add: tally_sim_def new_simulation_def add_lp_def Let_def)

lemma tally_sim_wf: "idle_wf tally_sim"
  unfolding tally_sim_def
  by (rule keepsD [OF keeps_add_lp], rule new_simulation_wf [of default_config inproc_transport "[]"])
    (simp add: new_simulation_def)

lemma tally_sim_sound: "sound tally_sim"
  using tally_sim_wf
  by (simp add: counters_ok_def all_ctx_list tally_sim_lps local_mode_def tally_sim_cfg default_config_def)

lemma tally_dispatch: "dispatch tally_event tally_sim = (Inr (), tally_done)"
proof -
  have "fst (dispatch tally_event tally_sim) = Inr ()" by code_simp
  then show ?thesis by (simp add: tally_done_def prod_eq_iff)
qed

lemma tally_done_counters: "counters_ok tally_done"
proof -
  have "list_all (\<lambda>(_, cx). cx_nextSeqNormal cx \<noteq> 0 \<and> cx_nextSeqControl cx \<noteq> 0 \<and> cx_nextUid cx \<noteq> 0)
    (m_lps tally_done)" by code_simp
  then show ?thesis by (simp add: counters_ok_def all_ctx_list)
qed


lemma tally_done_sound: "sound tally_done"
proof -
  have "idle_wf tally_done"
    using keepsD [OF keeps_dispatch tally_sim_wf] by (simp add: tally_done_def)
  moreover have "c_lpToRank (m_cfg tally_done) = None \<longleftrightarrow> True"
  proof -
    have "(case c_lpToRank (m_cfg tally_done) of None \<Rightarrow> True | Some _ \<Rightarrow> False)" by code_simp
    then show ?thesis by (simp split: option.splits)
  qed
  ultimately show ?thesis using tally_done_counters by (simp add: local_mode_def)
qed

lemma tally_done_ctx: "map_of (m_lps tally_done) 1 = Some (tally_ctx tally_done)"
proof -
  have "(case map_of (m_lps tally_done) 1 of None \<Rightarrow> False | Some _ \<Rightarrow> True)" by code_simp
  then show ?thesis by (auto simp: tally_ctx_def split: option.splits)
qed

lemma tally_done_history: "history_ok (tally_ctx tally_done)"
  "sorted (map sr_sendTime (cx_sentLog (tally_ctx tally_done)))"
  by code_simp+

lemma tally_done_lp:
  "lp_save_state (cx_lp (tally_ctx tally_done)) = lp_save_state tally_lp"
  "lp_load_state (cx_lp (tally_ctx tally_done)) = lp_load_state tally_lp"
  "lp_supports_entity_snapshots (cx_lp (tally_ctx tally_done)) = lp_supports_entity_snapshots tally_lp"
proof -
  have "map_of (m_lps tally_sim) (ev_dst tally_event) = Some \<lparr>cx_lp = tally_lp, cx_vt = zero_stamp,
      cx_inEvent = False, cx_currentExecTs = zero_stamp, cx_processed = [], cx_sentLog = [],
      cx_nextSeqNormal = 1, cx_nextSeqControl = 1, cx_nextUid = 1\<rparr>"
    by (simp add: tally_sim_lps tally_event_def)
  from dispatch_executes [OF tally_dispatch _ _ this]
  obtain cx' where "map_of (m_lps tally_done) (ev_dst tally_event) = Some cx'"
    "cx_lp cx' = tally_lp\<lparr>lp_state := final_state (lp_on_event tally_lp tally_event 0) 0\<rparr>"
    using tally_lp_facts
    by (auto simp: tally_event_def empty_event_def buffering_off_def tally_sim_cfg default_config_def zero_stamp_def)
  then have "cx_lp (tally_ctx tally_done)
      = tally_lp\<lparr>lp_state := final_state (lp_on_event tally_lp tally_event 0) 0\<rparr>"
    using tally_done_ctx by (simp add: tally_event_def)
  then show "lp_save_state (cx_lp (tally_ctx tally_done)) = lp_save_state tally_lp"
    "lp_load_state (cx_lp (tally_ctx tally_done)) = lp_load_state tally_lp"
    "lp_supports_entity_snapshots (cx_lp (tally_ctx tally_done)) = lp_supports_entity_snapshots tally_lp"
    by simp_all
qed

text \<open>Undoing the event finds the state before it.\<close>

lemma tally_done_restore:
  "restore_lp (cx_lp (tally_ctx tally_done)) (undone_of (TimeStamp 5 1) (tally_ctx tally_done))
     (lp_state (cx_lp (tally_ctx tally_done))) = (Inr (), 0)"
proof -
  have "fst (restore_lp (cx_lp (tally_ctx tally_done)) (undone_of (TimeStamp 5 1) (tally_ctx tally_done))
      (lp_state (cx_lp (tally_ctx tally_done)))) = Inr ()
    \<and> snd (restore_lp (cx_lp (tally_ctx tally_done)) (undone_of (TimeStamp 5 1) (tally_ctx tally_done))
      (lp_state (cx_lp (tally_ctx tally_done)))) = 0" by code_simp
  then show ?thesis by (simp add: prod_eq_iff)
qed

text \<open>A rank that has executed the event and collected fossils.\<close>

definition tally_collected :: "(u64, inproc) sim" where
  "tally_collected = snd (fossil_collect True (snd (dispatch_next (snd (schedule tally_event tally_sim)))))"

lemma tally_collected_steps: "rank_steps tally_sim tally_collected"
proof -
  let ?s1 = "snd (schedule tally_event tally_sim)"
  let ?s2 = "snd (dispatch_next ?s1)"
  have "m_lastGvt tally_sim = zero_stamp"
    by (simp add: tally_sim_def new_simulation_def add_lp_def Let_def)
  then have "rank_step tally_sim ?s1"
    by (intro step_schedule [where ev = tally_event and r'' = "fst (schedule tally_event tally_sim)"]) simp_all
  moreover have "rank_step ?s1 ?s2" by (rule step_dispatch [where r = "fst (dispatch_next ?s1)"]) simp
  moreover have "rank_step ?s2 tally_collected"
    unfolding tally_collected_def
    by (rule step_fossil [where b = True and r' = "fst (fossil_collect True ?s2)"]) simp
  ultimately show ?thesis by (meson steps_refl steps_step)
qed

lemma tally_sim_safe: "safe_since default_config zero_stamp tally_sim"
proof -
  have "m_lastGvt tally_sim = zero_stamp" "m_pending tally_sim = []" "m_inflightByUid tally_sim = []"
    by (simp_all add: tally_sim_def new_simulation_def add_lp_def Let_def)
  then show ?thesis
    using tally_sim_wf tally_lp_facts(2)
    by (simp add: safe_since_def from_gvt_def tally_sim_cfg pending_from_def inflight_from_def history_from_def forward_def
        all_ctx_list tally_sim_lps)
qed

lemma tally_single_rank: "single_rank default_config"
  by (simp add: single_rank_def default_config_def)

end
