(* ===== verification/Kernel_Progress.thy ===== *)
theory Kernel_Progress
  imports Kernel_Poll
begin

text \<open>
  Further behaviour of the driver: which event is taken next, what buffering does with an
  event whose entity has not arrived, and that GVT never decreases, in either mode and on
  any number of ranks.
\<close>

subsection \<open>The next event\<close>

definition live :: "('st, 'w) sim \<Rightarrow> event \<Rightarrow> bool" where
  "live s ev \<longleftrightarrow> ev_isAnti ev \<or> \<not> cancelled s ev"

lemma drop_cancelled_live: "drop_cancelled s q = dropWhile (\<lambda>ev. \<not> live s ev) q"
  by (induction q) (auto simp: live_def)

lemma filter_dropWhile_not: "filter P (dropWhile (\<lambda>x. \<not> P x) xs) = filter P xs"
  by (induction xs) auto

lemma pop_next_live:
  assumes wf: "pending_wf (m_pending s)" and run: "pop_next s = (Inr r, t)"
  shows "case r of
      None \<Rightarrow> filter (live s) (m_pending s) = [] \<and> m_pending t = []
    | Some ev \<Rightarrow> live s ev \<and> filter (live s) (m_pending s) = ev # filter (live s) (m_pending t)
        \<and> (\<forall>e \<in> set (m_pending t). \<not> event_time_order e ev)"
proof -
  let ?q = "dropWhile (\<lambda>ev. \<not> live s ev) (m_pending s)"
  have kept: "filter (live s) ?q = filter (live s) (m_pending s)" by (rule filter_dropWhile_not)
  have q: "pending_wf ?q" using wf by (rule pending_wf_dropWhile)
  show ?thesis
  proof (cases ?q)
    case Nil
    then have "r = None" "m_pending t = []"
      using run unfolding pop_next_def drop_cancelled_live Nil by auto
    then show ?thesis using kept unfolding Nil by simp
  next
    case (Cons ev q')
    then have "live s ev" by (metis dropWhile_eq_Cons_conv)
    moreover have "\<forall>e \<in> set q'. \<not> event_time_order e ev"
      using q Cons by (auto simp: pending_wf_def dest: event_order.sorted_by_head_least)
    moreover have "r = Some ev" "m_pending t = q'"
      using run unfolding pop_next_def drop_cancelled_live Cons by auto
    ultimately show ?thesis using kept unfolding Cons by simp
  qed
qed

subsection \<open>Buffering\<close>

text \<open>
  A handler that fails on an entity that is not there, before it has done anything else but
  ask for writes and emit output.
\<close>

lemma dispatch_defers:
  assumes cx: "map_of (m_lps s) (ev_dst ev) = Some cx" and late: "\<not> ev_ts ev < cx_vt cx"
    and fails: "run_handler (ev_dst ev) (lp_on_event (cx_lp cx) ev (lp_state (cx_lp cx))) (new_record ev cx)
        (upd_ctx (ev_dst ev) (\<lambda>c. c\<lparr>cx_vt := ev_ts ev, cx_inEvent := True, cx_currentExecTs := ev_ts ev\<rparr>) s)
      = (Inl e, upd_ctx (ev_dst ev) (\<lambda>c. c\<lparr>cx_vt := ev_ts ev, cx_inEvent := True, cx_currentExecTs := ev_ts ev\<rparr>) s)"
    and missing: "is_missing_entity_error e"
    and on: "c_enableInstallBeforeUseBuffering (m_cfg s)" "ev_target ev \<noteq> 0"
      "p_kind (ev_payload ev) \<noteq> c_installEventKind (m_cfg s)"
    and pos: "\<not> ev_isAnti ev" and off: "\<not> c_enableInvariantChecks (m_cfg s)"
  shows "\<exists>t. dispatch ev s = (Inr (), t) \<and> m_pending t = m_pending s
    \<and> map_of (m_lps t) (ev_dst ev) = Some (cx\<lparr>cx_inEvent := False, cx_currentExecTs := cx_vt cx\<rparr>)
    \<and> map_of (m_deferredTargeted t) (deferred_key (ev_dst ev) (ev_target ev)) =
        Some ((case map_of (m_deferredTargeted s) (deferred_key (ev_dst ev) (ev_target ev)) of
                 None \<Rightarrow> [] | Some q \<Rightarrow> q) @ [ev])"
proof -
  let ?start = "\<lambda>c :: 'a lp_context. c\<lparr>cx_vt := ev_ts ev, cx_inEvent := True, cx_currentExecTs := ev_ts ev\<rparr>"
  let ?u = "upd_ctx (ev_dst ev) ?start s"
  let ?u1 = "upd_ctx (ev_dst ev) (\<lambda>c. c\<lparr>cx_inEvent := False\<rparr>) ?u"
  let ?u2 = "upd_ctx (ev_dst ev) (\<lambda>c. c\<lparr>cx_vt := cx_vt cx, cx_currentExecTs := cx_vt cx\<rparr>) ?u1"
  let ?t = "snd (defer_targeted_event ev ?u2)"
  have t: "defer_targeted_event ev ?u2 = (Inr (), ?t)" by (simp add: defer_targeted_event_def)
  have t_cfg: "m_cfg ?t = m_cfg s" by (simp add: defer_targeted_event_def Let_def)
  have ex: "execute ev cx s = (Inl e, ?u)"
    using fails by (simp add: execute_def)
  have "on_handler_exception ev (cx_vt cx) e ?u = (Inr False, ?t)"
    using on missing off t t_cfg by (simp add: on_handler_exception_def)
  then have run: "dispatch ev s = (Inr (), ?t)"
    using cx late pos off ex
    by (simp add: dispatch_def dispatch_event_def catching_def when_eff_def)
  have "map_of (m_lps ?t) (ev_dst ev) = Some (cx\<lparr>cx_inEvent := False, cx_currentExecTs := cx_vt cx\<rparr>)"
    using cx by (simp add: defer_targeted_event_def Let_def)
  moreover have "m_pending ?t = m_pending s" by (simp add: defer_targeted_event_def Let_def)
  moreover have "map_of (m_deferredTargeted ?t) (deferred_key (ev_dst ev) (ev_target ev)) =
      Some ((case map_of (m_deferredTargeted s) (deferred_key (ev_dst ev) (ev_target ev)) of
               None \<Rightarrow> [] | Some q \<Rightarrow> q) @ [ev])"
    by (simp add: defer_targeted_event_def Let_def update_conv')
  ultimately show ?thesis using run by blast
qed

text \<open>The install event puts what was deferred for its entity back into the queue.\<close>

lemma release_returns_deferred:
  assumes "map_of (m_deferredTargeted s) (deferred_key l e) = Some q"
  shows "\<exists>t. release_deferred_for l e s = (Inr (), t)
    \<and> mset (m_pending t) = mset (m_pending s) + mset q
    \<and> map_of (m_deferredTargeted t) (deferred_key l e) = None"
proof -
  have push: "mset (fold pending_push xs p) = mset p + mset xs" for xs p
    by (induction xs arbitrary: p) simp_all
  let ?t = "s\<lparr>m_pending := fold pending_push (sort_by event_time_order q) (m_pending s),
    m_deferredTargeted := AList.delete (deferred_key l e) (m_deferredTargeted s)\<rparr>"
  have "release_deferred_for l e s = (Inr (), ?t)"
    unfolding release_deferred_for_def Let_def using assms by (simp add: for_each_enqueue)
  then show ?thesis
    by (intro exI [of _ ?t]) (simp add: push delete_conv')
qed

subsection \<open>GVT never decreases\<close>

definition gvt_from :: "timestamp \<Rightarrow> ('st, 'w) sim \<Rightarrow> bool" where
  "gvt_from G s \<longleftrightarrow> G \<le> m_lastGvt s"

lemma gvt_from_cong: "m_lastGvt t = m_lastGvt s \<Longrightarrow> gvt_from G t = gvt_from G s"
  by (simp add: gvt_from_def)

lemma keeps_send_gvt: "keeps (gvt_from G :: ('a, 'b) sim \<Rightarrow> bool) (send ev)"
proof (rule keepsI)
  fix s :: "('a, 'b) sim" assume "gvt_from G s"
  then show "gvt_from G (snd (send ev s))"
    using send_keeps_frame [of ev s] by (cases "send ev s") (simp add: send_frame_def gvt_from_def)
qed

lemma keeps_in_world_gvt [keeps_intros]: "keeps (gvt_from G) (in_world m)"
  by (rule keeps_in_world) (simp add: gvt_from_def)

lemma keeps_upd_gvt: "(\<And>s. m_lastGvt (f s) = m_lastGvt s) \<Longrightarrow> keeps (gvt_from G) (upd f)"
  by (rule keeps_upd) (simp add: gvt_from_def)

lemma keeps_in_lp_gvt [keeps_intros]: "keeps (gvt_from G) (in_lp i m)"
  by (rule keeps_in_lp) (simp add: gvt_from_def)

lemma keeps_set_gvt_from: "G \<le> g \<Longrightarrow> keeps (gvt_from G) (upd (\<lambda>s. s\<lparr>m_lastGvt := g\<rparr>))"
  by (rule keeps_upd) (simp add: gvt_from_def)

lemma keeps_prune_gvt: "keeps (gvt_from G) (prune_to_gvt g)"
  unfolding prune_to_gvt_def
  by (intro keeps_intros keeps_upd_gvt) (simp add: prune_state_def)

lemma keeps_apply_ready_gvt: "keeps (gvt_from G) (apply_ready ms)"
  by (induction ms) (auto simp del: thn_Inr intro!: keeps_intros keeps_upd_gvt)

lemma keeps_apply_migrations_gvt: "keeps (gvt_from G) apply_ready_migrations"
  unfolding apply_ready_migrations_def by (intro keeps_intros keeps_apply_ready_gvt)

lemma keeps_notify_gvt: "keeps (gvt_from G) (notify_directories_gvt g)"
  unfolding notify_directories_gvt_def by (intro keeps_intros keeps_send_gvt keeps_upd_gvt) simp

lemma keeps_compute_gvt_gvt: "keeps (gvt_from G) compute_gvt"
  by (rule keepsI) (simp add: compute_gvt_run gvt_from_def)

lemmas gvt_steps = keeps_prune_gvt keeps_apply_migrations_gvt keeps_notify_gvt keeps_compute_gvt_gvt

text \<open>The guard of both protocols: a bound below the last GVT is not taken.\<close>

lemma keeps_raise_gvt:
  assumes "keeps (gvt_from G) k" and "keeps (gvt_from G) m"
  shows "keeps (gvt_from G) (bnd (gets m_lastGvt) (\<lambda>last. if g < last then k
    else thn (upd (\<lambda>s. s\<lparr>m_lastGvt := g\<rparr>)) m))"
proof (rule keeps_bnd_gets)
  fix s :: "('a, 'b) sim" assume s: "gvt_from G s"
  show "gvt_from G (snd ((if g < m_lastGvt s then k else thn (upd (\<lambda>s. s\<lparr>m_lastGvt := g\<rparr>)) m) s))"
  proof (cases "g < m_lastGvt s")
    case True
    then show ?thesis using keepsD [OF assms(1) s] by simp
  next
    case False
    then have "G \<le> g" using s by (auto simp: gvt_from_def)
    then have "keeps (gvt_from G) (thn (upd (\<lambda>s. s\<lparr>m_lastGvt := g\<rparr>)) m)"
      by (intro keeps_thn keeps_set_gvt_from assms(2))
    from keepsD [OF this s] False show ?thesis by simp
  qed
qed

lemma keeps_colored_gvt: "keeps (gvt_from G) advance_gvt_colored"
proof -
  have "keeps (gvt_from G) (upd start_red_phase)" "keeps (gvt_from G) (upd end_red_phase)"
    by (rule keeps_upd_gvt, simp add: start_red_phase_def end_red_phase_def)+
  then show ?thesis
    unfolding advance_gvt_colored_def by (intro keeps_raise_gvt gvt_steps keeps_intros)
qed

lemma keeps_ack_gvt: "keeps (gvt_from G) advance_gvt_ack"
  unfolding advance_gvt_ack_def by (intro keeps_raise_gvt gvt_steps keeps_intros)

lemma keeps_fossil_gvt: "keeps (gvt_from G) (fossil_collect b)"
  unfolding fossil_collect_def by (intro keeps_colored_gvt keeps_ack_gvt gvt_steps keeps_intros)

text \<open>Everything else leaves it alone.\<close>

lemma keeps_enqueue_gvt: "keeps (gvt_from G) (enqueue ev)"
  unfolding enqueue_def by (rule keeps_upd_gvt) simp

lemma keeps_upd_ctx_gvt: "keeps (gvt_from G) (upd (upd_ctx i f))"
  by (rule keeps_upd_gvt) simp

lemma keeps_restore_cancellation_gvt: "keeps (gvt_from G) (upd (restore_cancellation r))"
  by (rule keeps_upd_gvt) (simp add: restore_cancellation_def)

lemmas gvt_frame = keeps_enqueue_gvt keeps_upd_ctx_gvt keeps_send_gvt keeps_in_lp_gvt keeps_restore_cancellation_gvt

lemma keeps_undo_gvt: "keeps (gvt_from G) (undo_processed i to rs)"
  by (induction rs) (auto simp del: thn_Inr bnd_Inr intro!: gvt_frame keeps_intros)

lemma keeps_send_antis_gvt: "keeps (gvt_from G) (send_antis i to rs)"
  by (induction rs) (auto simp del: thn_Inr bnd_Inr intro!: gvt_frame keeps_intros)

lemma keeps_restore_gvt: "keeps (gvt_from G) (restore_state i undone)"
proof -
  have "keeps (gvt_from G) (case p of (entity, bs) \<Rightarrow> in_lp i (\<lambda>lp. lp_load_entity lp entity bs))" for p
    by (cases p) (simp add: keeps_in_lp_gvt)
  then show ?thesis
    unfolding restore_state_def Let_def by (intro gvt_frame keeps_intros)
qed

lemma keeps_rollback_gvt: "keeps (gvt_from G) (rollback i to)"
  unfolding rollback_def
  by (intro gvt_frame keeps_undo_gvt keeps_send_antis_gvt keeps_restore_gvt keeps_upd_gvt keeps_intros) simp_all

lemma keeps_cancel_gvt: "keeps (gvt_from G) (cancel anti)"
  unfolding cancel_def
  by (intro keeps_rollback_gvt keeps_upd_gvt keeps_intros) (simp_all add: note_cancelled_def split: option.split)

lemma keeps_straggler_gvt: "keeps (gvt_from G) (straggler ev)"
  unfolding straggler_def by (intro keeps_rollback_gvt keeps_enqueue_gvt keeps_upd_gvt keeps_intros) simp

lemma keeps_dispatch_anti_gvt: "keeps (gvt_from G) (dispatch_anti ev)"
  unfolding dispatch_anti_def
  by (intro keeps_straggler_gvt keeps_cancel_gvt gvt_frame keeps_intros)

lemma keeps_run_handler_gvt: "keeps (gvt_from G) (run_handler i cs rec)"
proof (rule keeps_run_handler)
  show "keeps (gvt_from G) (run_sink_call i c)" for c
    by (cases c) (simp_all add: keeps_send_gvt set_lp_state_def keeps_upd_ctx_gvt)
qed

lemma keeps_release_gvt: "keeps (gvt_from G) (release_deferred_for l e)"
  unfolding release_deferred_for_def Let_def by (intro keeps_enqueue_gvt keeps_upd_gvt keeps_intros) simp

lemma keeps_catching:
  assumes "keeps I m" and "\<And>e. keeps I (h e)"
  shows "keeps I (catching m h)"
proof (rule keepsI)
  fix s assume "I s"
  then have "I (snd (m s))" by (rule keepsD [OF assms(1)])
  then show "I (snd (catching m h s))"
    using keepsD [OF assms(2)] by (cases "m s"; cases "fst (m s)") (auto simp: catching_def)
qed

lemma keeps_dispatch_event_gvt: "keeps (gvt_from G) (dispatch_event ev)"
  unfolding dispatch_event_def execute_def on_handler_exception_def defer_targeted_event_def
  by (intro keeps_catching keeps_straggler_gvt keeps_run_handler_gvt keeps_release_gvt keeps_upd_ctx_gvt
      keeps_upd_gvt keeps_intros) (simp_all add: Let_def)

lemma keeps_dispatch_gvt: "keeps (gvt_from G) (dispatch ev)"
  unfolding dispatch_def by (intro keeps_dispatch_anti_gvt keeps_dispatch_event_gvt keeps_intros)

lemma keeps_dispatch_next_gvt: "keeps (gvt_from G) dispatch_next"
proof -
  have "keeps (gvt_from G) pop_next"
    by (rule keepsI) (simp add: pop_next_def gvt_from_def split: list.split)
  then show ?thesis unfolding dispatch_next_def by (intro keeps_dispatch_gvt keeps_intros)
qed

lemma keeps_handle_message_gvt: "keeps (gvt_from G) (handle_message msg)"
proof -
  have counters: "keeps (gvt_from G) (count_received ev)" "keeps (gvt_from G) (count_color_received ev)"
    "keeps (gvt_from G) (track_inflight_recv ev)" "keeps (gvt_from G) (clear_inflight_key key)" for ev key
    unfolding count_received_def count_color_received_def track_inflight_recv_def clear_inflight_key_def
    by (rule keeps_upd_gvt, simp add: Let_def split: option.split)+
  then have "keeps (gvt_from G) (receive_event sender ev)" for sender ev
    unfolding receive_event_def by (intro keeps_enqueue_gvt keeps_intros)
  moreover have "keeps (gvt_from G) (apply_migration mig)" for mig
    unfolding apply_migration_def
    by (intro keeps_apply_migrations_gvt keeps_upd_gvt keeps_intros) simp
  moreover note counters
  ultimately show ?thesis
    unfolding handle_message_def by (cases "wm_kind msg") (auto intro!: keeps_intros)
qed

lemma keeps_poll_gvt: "keeps (gvt_from G) (poll_transport_count fuel n)"
  by (induction fuel n rule: poll_transport_count.induct)
    (auto simp: poll_message_def simp del: bnd_Inr thn_Inr intro!: keeps_handle_message_gvt keeps_intros)

lemma keeps_start_gvt: "keeps (gvt_from G) start_if_needed"
proof -
  have "keeps (gvt_from G) (run_sink_call i c)" for i c
    by (cases c) (simp_all add: keeps_send_gvt set_lp_state_def keeps_upd_ctx_gvt)
  then show ?thesis
    unfolding start_if_needed_def start_lp_def by (intro keeps_upd_gvt keeps_intros) simp_all
qed

lemmas gvt_driver = keeps_start_gvt keeps_poll_gvt keeps_dispatch_next_gvt keeps_fossil_gvt

lemma keeps_run_one_gvt: "keeps (gvt_from G) (run_one fuel b)"
  unfolding run_one_def by (intro gvt_driver keeps_intros)

lemma keeps_finalize_gvt: "keeps (gvt_from G) finalize_at_end"
  unfolding finalize_at_end_def check_digest_def global_digest_def reduce_with_def Let_def
  by (intro gvt_steps keeps_intros)

lemma keeps_has_work_gvt: "keeps (gvt_from G) (local_has_work b)"
  unfolding local_has_work_def pending_or_in_transport_def by (intro keeps_intros)

lemma keeps_run_loop_gvt: "keeps (gvt_from G) (run_loop fuel pf period iters)"
proof (induction fuel arbitrary: iters)
  case (Suc fuel)
  have "keeps (gvt_from G) (run_iteration pf b)" for b
    unfolding run_iteration_def poll_transport_def
    by (intro gvt_driver keeps_finalize_gvt keeps_has_work_gvt keeps_intros)
  then show ?case unfolding run_loop.simps by (intro Suc keeps_intros)
qed simp

lemma keeps_run_gvt: "keeps (gvt_from G) (run fuel pf)"
  unfolding run_def by (intro gvt_driver keeps_run_loop_gvt keeps_intros)

lemma gvt_never_decreases: "m_lastGvt s \<le> m_lastGvt (snd (fossil_collect b s))"
  using keepsD [OF keeps_fossil_gvt [of "m_lastGvt s" b], of s] by (simp add: gvt_from_def)

end
