(* ===== verification/Aoi.thy ===== *)
theory Aoi
  imports Lp Layout Ordered_Map
begin

text \<open>
  The area-of-interest service (\<open>src/src/aoi_lp.hpp\<close>) and its client
  (\<open>src/src/aoi_client.hpp\<close>): positions by entity, and queries for the entities inside a
  sphere or a cone. A \<open>double\<close> is its 64-bit representation; the arithmetic and the
  comparisons of the platform are the parameter \<open>fp\<close>, and no property depends on them.
\<close>

type_synonym double = u64

record fp =
  fp_add :: "double \<Rightarrow> double \<Rightarrow> double"
  fp_sub :: "double \<Rightarrow> double \<Rightarrow> double"
  fp_mul :: "double \<Rightarrow> double \<Rightarrow> double"
  fp_less :: "double \<Rightarrow> double \<Rightarrow> bool"
  fp_le :: "double \<Rightarrow> double \<Rightarrow> bool"
  fp_eq :: "double \<Rightarrow> double \<Rightarrow> bool"

record vec3 =
  v_x :: double
  v_y :: double
  v_z :: double

definition dot :: "fp \<Rightarrow> vec3 \<Rightarrow> vec3 \<Rightarrow> double" where
  "dot fp a b = fp_add fp (fp_add fp (fp_mul fp (v_x a) (v_x b)) (fp_mul fp (v_y a) (v_y b)))
     (fp_mul fp (v_z a) (v_z b))"

definition sub :: "fp \<Rightarrow> vec3 \<Rightarrow> vec3 \<Rightarrow> vec3" where
  "sub fp a b = \<lparr>v_x = fp_sub fp (v_x a) (v_x b), v_y = fp_sub fp (v_y a) (v_y b),
     v_z = fp_sub fp (v_z a) (v_z b)\<rparr>"

definition norm2 :: "fp \<Rightarrow> vec3 \<Rightarrow> double" where
  "norm2 fp a = dot fp a a"

subsection \<open>Configuration and messages\<close>

record aoi_config =
  ac_id :: u32
  ac_stateEntityId :: u64
  ac_updateKind :: u32
  ac_queryKind :: u32
  ac_resultKind :: u32
  ac_excludeSelf :: bool

record update_args =
  ua_entity :: u64
  ua_pos :: vec3

text \<open>The shape is kept as the integer it is sent as: 1 is a sphere, 2 a cone.\<close>

record query_args =
  qa_requestId :: u64
  qa_self :: u64
  qa_shape :: u32
  qa_origin :: vec3
  qa_radius :: double
  qa_direction :: vec3
  qa_range :: double
  qa_cosHalfAngle :: double

record result_header =
  rh_requestId :: u64
  rh_count :: u32

record aoi_result =
  ar_requestId :: u64
  ar_entities :: "u64 list"

definition vec3_bytes :: "vec3 \<Rightarrow> bytes" where
  "vec3_bytes v = le_bytes 8 (v_x v) @ le_bytes 8 (v_y v) @ le_bytes 8 (v_z v)"

definition vec3_at :: "nat \<Rightarrow> bytes \<Rightarrow> vec3" where
  "vec3_at off bs = \<lparr>v_x = field_at off 8 bs, v_y = field_at (off + 8) 8 bs, v_z = field_at (off + 16) 8 bs\<rparr>"

definition update_bytes :: "update_args \<Rightarrow> bytes" where
  "update_bytes u = le_bytes 8 (ua_entity u) @ vec3_bytes (ua_pos u)"

definition update_of_bytes :: "bytes \<Rightarrow> update_args" where
  "update_of_bytes bs = \<lparr>ua_entity = field_at 0 8 bs, ua_pos = vec3_at 8 bs\<rparr>"

text \<open>Four bytes of padding behind the shape.\<close>

definition query_bytes :: "bytes \<Rightarrow> query_args \<Rightarrow> bytes" where
  "query_bytes pad q = le_bytes 8 (qa_requestId q) @ le_bytes 8 (qa_self q) @ le_bytes 4 (qa_shape q) @ pad
     @ vec3_bytes (qa_origin q) @ le_bytes 8 (qa_radius q) @ vec3_bytes (qa_direction q)
     @ le_bytes 8 (qa_range q) @ le_bytes 8 (qa_cosHalfAngle q)"

definition query_of_bytes :: "bytes \<Rightarrow> query_args" where
  "query_of_bytes bs = \<lparr>qa_requestId = field_at 0 8 bs, qa_self = field_at 8 8 bs,
     qa_shape = field_at 16 4 bs, qa_origin = vec3_at 24 bs, qa_radius = field_at 48 8 bs,
     qa_direction = vec3_at 56 bs, qa_range = field_at 80 8 bs, qa_cosHalfAngle = field_at 88 8 bs\<rparr>"

definition header_bytes :: "bytes \<Rightarrow> result_header \<Rightarrow> bytes" where
  "header_bytes pad h = le_bytes 8 (rh_requestId h) @ le_bytes 4 (rh_count h) @ pad"

definition header_of_bytes :: "bytes \<Rightarrow> result_header" where
  "header_of_bytes bs = \<lparr>rh_requestId = field_at 0 8 bs, rh_count = field_at 8 4 bs\<rparr>"

lemma vec3_at_here: "length pre = off \<Longrightarrow> vec3_at off (pre @ vec3_bytes v @ post) = v"
  using field_at_here [of 8 pre off "v_x v" "le_bytes 8 (v_y v) @ le_bytes 8 (v_z v) @ post"]
    field_at_here [of 8 "pre @ le_bytes 8 (v_x v)" "off + 8" "v_y v" "le_bytes 8 (v_z v) @ post"]
    field_at_here [of 8 "pre @ le_bytes 8 (v_x v) @ le_bytes 8 (v_y v)" "off + 16" "v_z v" post]
  by (simp add: vec3_at_def vec3_bytes_def)

lemma length_vec3_bytes [simp]: "length (vec3_bytes v) = 24"
  by (simp add: vec3_bytes_def)

interpretation update_layout: trivial_layout "\<lambda>_. update_bytes" update_of_bytes 32 0
proof
  fix x :: update_args and rest
  have "field_at 0 8 ([] @ le_bytes 8 (ua_entity x) @ vec3_bytes (ua_pos x) @ rest) = ua_entity x"
    by (rule field_at_here) simp_all
  moreover have "vec3_at 8 (le_bytes 8 (ua_entity x) @ vec3_bytes (ua_pos x) @ rest) = ua_pos x"
    by (rule vec3_at_here) simp
  ultimately show "update_of_bytes (update_bytes x @ rest) = x"
    by (simp add: update_of_bytes_def update_bytes_def)
qed (simp add: update_bytes_def)

interpretation query_layout: trivial_layout query_bytes query_of_bytes 96 4
proof
  fix pad :: bytes and x :: query_args and rest
  assume pad: "length pad = 4"
  let ?a = "le_bytes 8 (qa_requestId x)" and ?b = "le_bytes 8 (qa_self x)" and ?c = "le_bytes 4 (qa_shape x)"
  let ?o = "vec3_bytes (qa_origin x)" and ?r = "le_bytes 8 (qa_radius x)"
  let ?d = "vec3_bytes (qa_direction x)" and ?g = "le_bytes 8 (qa_range x)" and ?h = "le_bytes 8 (qa_cosHalfAngle x)"
  have "field_at 0 8 ([] @ ?a @ (?b @ ?c @ pad @ ?o @ ?r @ ?d @ ?g @ ?h @ rest)) = qa_requestId x"
    "field_at 8 8 (?a @ ?b @ (?c @ pad @ ?o @ ?r @ ?d @ ?g @ ?h @ rest)) = qa_self x"
    "field_at 16 4 ((?a @ ?b) @ ?c @ (pad @ ?o @ ?r @ ?d @ ?g @ ?h @ rest)) = qa_shape x"
    "field_at 48 8 ((?a @ ?b @ ?c @ pad @ ?o) @ ?r @ (?d @ ?g @ ?h @ rest)) = qa_radius x"
    "field_at 80 8 ((?a @ ?b @ ?c @ pad @ ?o @ ?r @ ?d) @ ?g @ (?h @ rest)) = qa_range x"
    "field_at 88 8 ((?a @ ?b @ ?c @ pad @ ?o @ ?r @ ?d @ ?g) @ ?h @ rest) = qa_cosHalfAngle x"
    by (rule field_at_here; simp add: pad)+
  moreover have "vec3_at 24 ((?a @ ?b @ ?c @ pad) @ ?o @ (?r @ ?d @ ?g @ ?h @ rest)) = qa_origin x"
    "vec3_at 56 ((?a @ ?b @ ?c @ pad @ ?o @ ?r) @ ?d @ (?g @ ?h @ rest)) = qa_direction x"
    by (rule vec3_at_here; simp add: pad)+
  ultimately show "query_of_bytes (query_bytes pad x @ rest) = x"
    by (simp add: query_of_bytes_def query_bytes_def)
qed (simp add: query_bytes_def)

interpretation header_layout: trivial_layout header_bytes header_of_bytes 16 4
proof
  fix pad :: bytes and x :: result_header and rest
  have "field_at 0 8 ([] @ le_bytes 8 (rh_requestId x) @ (le_bytes 4 (rh_count x) @ pad @ rest)) = rh_requestId x"
    "field_at 8 4 (le_bytes 8 (rh_requestId x) @ le_bytes 4 (rh_count x) @ (pad @ rest)) = rh_count x"
    by (rule field_at_here; simp)+
  then show "header_of_bytes (header_bytes pad x @ rest) = x"
    by (simp add: header_of_bytes_def header_bytes_def)
qed (simp add: header_bytes_def)

subsection \<open>Results on the wire\<close>

definition encode_result :: "bytes \<Rightarrow> u64 \<Rightarrow> u64 list \<Rightarrow> bytes" where
  "encode_result pad requestId entities =
     header_bytes pad \<lparr>rh_requestId = requestId, rh_count = word_of_nat (length entities)\<rparr>
     @ concat (map (le_bytes 8) entities)"

definition decode_result_bytes :: "bytes \<Rightarrow> exn + aoi_result" where
  "decode_result_bytes bs =
     (if length bs < 16 then Inl (Runtime_Error ''AoiLP: bad result payload'')
      else let h = header_of_bytes bs in
        if length bs \<noteq> 16 + unat (rh_count h) * 8
        then Inl (Runtime_Error ''AoiLP: bad result payload size'')
        else Inr \<lparr>ar_requestId = rh_requestId h,
          ar_entities = map (\<lambda>i. field_at (16 + 8 * i) 8 bs) [0..<unat (rh_count h)]\<rparr>)"

subsection \<open>The process\<close>

type_synonym positions = "(u64, vec3) omap"

definition aoi_decode :: "nat \<Rightarrow> (bytes \<Rightarrow> 'a) \<Rightarrow> event \<Rightarrow> exn + 'a" where
  "aoi_decode sz get ev =
     (if length (p_bytes (ev_payload ev)) \<noteq> sz then Inl (Runtime_Error ''AoiLP: bad payload size'')
      else Inr (get (p_bytes (ev_payload ev))))"

definition is_self :: "aoi_config \<Rightarrow> query_args \<Rightarrow> u64 \<Rightarrow> bool" where
  "is_self cfg q entity \<longleftrightarrow> ac_excludeSelf cfg \<and> qa_self q \<noteq> 0 \<and> entity = qa_self q"

definition in_sphere :: "fp \<Rightarrow> query_args \<Rightarrow> vec3 \<Rightarrow> bool" where
  "in_sphere fp q pos \<longleftrightarrow>
     fp_le fp (norm2 fp (sub fp pos (qa_origin q))) (fp_mul fp (qa_radius q) (qa_radius q))"

text \<open>The constant 0 of the comparisons with \<open>dd\<close> and \<open>dir2\<close> has the representation 0.\<close>

definition in_cone :: "fp \<Rightarrow> query_args \<Rightarrow> vec3 \<Rightarrow> bool" where
  "in_cone fp q pos \<longleftrightarrow>
     (let range2 = fp_mul fp (qa_range q) (qa_range q);
          d = sub fp pos (qa_origin q);
          d2 = norm2 fp d
      in if fp_less fp range2 d2 then False
         else let dd = dot fp d (qa_direction q) in
           if fp_le fp dd 0 then False
           else let dir2 = norm2 fp (qa_direction q) in
             if fp_eq fp dir2 0 then False
             else fp_le fp (fp_mul fp (fp_mul fp (fp_mul fp (qa_cosHalfAngle q) (qa_cosHalfAngle q)) d2) dir2)
                    (fp_mul fp dd dd))"

definition aoi_hits :: "aoi_config \<Rightarrow> query_args \<Rightarrow> (vec3 \<Rightarrow> bool) \<Rightarrow> positions \<Rightarrow> u64 list" where
  "aoi_hits cfg q inside m =
     sort (map fst (filter (\<lambda>(entity, pos). \<not> is_self cfg q entity \<and> inside pos) m))"

definition result_event :: "bytes \<Rightarrow> aoi_config \<Rightarrow> event \<Rightarrow> u64 \<Rightarrow> u64 list \<Rightarrow> event" where
  "result_event pad cfg ev requestId hits = empty_event\<lparr>ev_ts := ev_ts ev, ev_src := ac_id cfg,
     ev_dst := ev_src ev, ev_target := 0,
     ev_payload := \<lparr>p_kind = ac_resultKind cfg, p_bytes = encode_result pad requestId hits\<rparr>\<rparr>"

definition aoi_query :: "fp \<Rightarrow> aoi_config \<Rightarrow> query_args \<Rightarrow> positions \<Rightarrow> exn + u64 list" where
  "aoi_query fp cfg q m =
     (if qa_shape q = 1 then Inr (aoi_hits cfg q (in_sphere fp q) m)
      else if qa_shape q = 2 then Inr (aoi_hits cfg q (in_cone fp q) m)
      else Inl (Runtime_Error ''AoiLP: unknown query shape''))"

definition aoi_on_event ::
  "fp \<Rightarrow> bytes \<Rightarrow> aoi_config \<Rightarrow> event \<Rightarrow> positions \<Rightarrow> positions ctx_call list" where
  "aoi_on_event fp pad cfg ev m =
     (if p_kind (ev_payload ev) = ac_updateKind cfg then
        (case aoi_decode 32 update_of_bytes ev of
           Inl e \<Rightarrow> [Sink (Fail e)]
         | Inr a \<Rightarrow> [Request_Write (ac_stateEntityId cfg),
                    Sink (Become (om_assign (ua_entity a) (ua_pos a) m))])
      else if p_kind (ev_payload ev) = ac_queryKind cfg then
        (case aoi_decode 96 query_of_bytes ev of
           Inl e \<Rightarrow> [Sink (Fail e)]
         | Inr q \<Rightarrow> (case aoi_query fp cfg q m of
               Inl e \<Rightarrow> [Sink (Fail e)]
             | Inr hits \<Rightarrow> [Sink (Send (result_event pad cfg ev (qa_requestId q) hits))]))
      else [])"

subsection \<open>Snapshots\<close>

definition save_position :: "u64 \<times> vec3 \<Rightarrow> bytes" where
  "save_position e = le_bytes 8 (fst e) @ vec3_bytes (snd e)"

definition aoi_save_state :: "positions \<Rightarrow> exn + bytes" where
  "aoi_save_state m = Inr (le_bytes 4 (word_of_nat (length m) :: u32) @ concat (map save_position m))"

definition aoi_read :: "nat \<Rightarrow> bytes \<Rightarrow> nat \<Rightarrow> ('s, 'a::len word \<times> nat) eff" where
  "aoi_read n state off = read_at ''AoiLP: bad state'' n state off"

definition aoi_read_vec3 :: "bytes \<Rightarrow> nat \<Rightarrow> ('s, vec3 \<times> nat) eff" where
  "aoi_read_vec3 state off =
     (if off + 24 > length state then raise (Runtime_Error ''AoiLP: bad state'')
      else ret (vec3_at off state, off + 24))"

fun load_positions :: "nat \<Rightarrow> bytes \<Rightarrow> nat \<Rightarrow> (positions, unit) eff" where
  "load_positions 0 state off = ret ()"
| "load_positions (Suc n) state off =
     bnd (aoi_read 8 state off) (\<lambda>(entity, off).
     bnd (aoi_read_vec3 state off) (\<lambda>(pos, off).
     thn (upd (om_emplace entity pos))
     (load_positions n state off)))"

definition aoi_load_state :: "bytes \<Rightarrow> (positions, unit) eff" where
  "aoi_load_state state =
     bnd (aoi_read 4 state 0) (\<lambda>(n :: u32, off).
     thn (upd (\<lambda>_. []))
     (load_positions (unat n) state off))"

definition aoi_lp :: "fp \<Rightarrow> bytes \<Rightarrow> aoi_config \<Rightarrow> exn + positions lp" where
  "aoi_lp fp pad cfg =
     (if ac_id cfg = 0 then Inl (Runtime_Error ''AoiLP: id must be non-zero'')
      else if ac_stateEntityId cfg = 0 then Inl (Runtime_Error ''AoiLP: stateEntityId must be non-zero'')
      else if ac_updateKind cfg = 0 \<or> ac_queryKind cfg = 0 \<or> ac_resultKind cfg = 0
      then Inl (Runtime_Error ''AoiLP: update/query/result kinds must be non-zero'')
      else Inr ((default_lp (ac_id cfg) [])
        \<lparr>lp_on_event := aoi_on_event fp pad cfg,
         lp_save_state := aoi_save_state,
         lp_load_state := aoi_load_state\<rparr>))"

subsection \<open>The client\<close>

record aoi_client =
  cl_aoiLp :: u32
  cl_updateKind :: u32
  cl_queryKind :: u32

definition client_event :: "aoi_client \<Rightarrow> timestamp \<Rightarrow> u32 \<Rightarrow> u32 \<Rightarrow> bytes \<Rightarrow> event" where
  "client_event cl ts srcLp kind bs = empty_event\<lparr>ev_ts := ts, ev_src := srcLp, ev_dst := cl_aoiLp cl,
     ev_target := 0, ev_payload := \<lparr>p_kind = kind, p_bytes = bs\<rparr>\<rparr>"

definition client_send_update :: "aoi_client \<Rightarrow> timestamp \<Rightarrow> u32 \<Rightarrow> u64 \<Rightarrow> vec3 \<Rightarrow> 'st sink_call" where
  "client_send_update cl ts srcLp entity pos =
     Send (client_event cl ts srcLp (cl_updateKind cl) (update_bytes \<lparr>ua_entity = entity, ua_pos = pos\<rparr>))"

definition client_send_query :: "bytes \<Rightarrow> aoi_client \<Rightarrow> timestamp \<Rightarrow> u32 \<Rightarrow> query_args \<Rightarrow> 'st sink_call" where
  "client_send_query pad cl ts srcLp q = Send (client_event cl ts srcLp (cl_queryKind cl) (query_bytes pad q))"

definition client_decode_result :: "payload \<Rightarrow> exn + aoi_result" where
  "client_decode_result p = decode_result_bytes (p_bytes p)"

subsection \<open>Correctness\<close>

lemma set_aoi_hits:
  "ordered_keys m \<Longrightarrow> e \<in> set (aoi_hits cfg q inside m) \<longleftrightarrow>
     (\<exists>pos. map_of m e = Some pos \<and> \<not> is_self cfg q e \<and> inside pos)"
  using ordered_keys_distinct [of m] by (force simp: aoi_hits_def map_of_eq_Some_iff)

lemma aoi_hits_sorted: "sorted (aoi_hits cfg q inside m)"
  and aoi_hits_distinct: "ordered_keys m \<Longrightarrow> distinct (aoi_hits cfg q inside m)"
  using ordered_keys_distinct [of m] by (simp_all add: aoi_hits_def distinct_map_filter)

lemma nth_entities:
  "i < length es \<Longrightarrow> length pre = k \<Longrightarrow>
   field_at (k + 8 * i) 8 (pre @ concat (map (le_bytes 8) es)) = (es ! i :: u64)"
proof (induction es arbitrary: i pre k)
  case (Cons e es)
  show ?case
  proof (cases i)
    case 0
    then show ?thesis using Cons.prems field_at_here [of 8 pre k e "concat (map (le_bytes 8) es)"] by simp
  next
    case (Suc j)
    then show ?thesis using Cons.IH [of j "pre @ le_bytes 8 e" "k + 8"] Cons.prems by (simp add: add.assoc)
  qed
qed simp

lemma decode_encode_result:
  assumes "length pad = 4" and "length es < 2 ^ 32"
  shows "decode_result_bytes (encode_result pad rid es) = Inr \<lparr>ar_requestId = rid, ar_entities = es\<rparr>"
proof -
  let ?h = "\<lparr>rh_requestId = rid, rh_count = word_of_nat (length es)\<rparr>"
  let ?bs = "header_bytes pad ?h @ concat (map (le_bytes 8) es)"
  have n: "unat (word_of_nat (length es) :: u32) = length es"
    using assms(2) by (simp add: unat_of_nat take_bit_nat_eq_self)
  have len: "length (concat (map (le_bytes 8) es)) = length es * 8"
    by (induction es) simp_all
  have h: "length (header_bytes pad ?h) = 16" "header_of_bytes ?bs = ?h"
    using assms(1) by (simp_all add: header_layout.put_length header_layout.get_put)
  have "map (\<lambda>i. field_at (16 + 8 * i) 8 ?bs) [0..<length es] = es"
    using nth_entities [of _ es "header_bytes pad ?h" 16] h(1) by (intro nth_equalityI) simp_all
  then show ?thesis
    unfolding decode_result_bytes_def encode_result_def h(2) Let_def by (simp add: h(1) len n)
qed

definition aoi_saveable :: "positions \<Rightarrow> bool" where
  "aoi_saveable m \<longleftrightarrow> ordered_keys m \<and> length m < 2 ^ 32"

lemma aoi_read_vec3_here:
  "off = length pre \<Longrightarrow> aoi_read_vec3 (pre @ vec3_bytes v @ post) off s = (Inr (v, off + 24), s)"
  by (simp add: aoi_read_vec3_def vec3_at_here)

lemma load_positions_run:
  assumes "ordered_keys (done_part @ m)"
  shows "load_positions (length m) (pre @ concat (map save_position m)) (length pre) done_part
    = (Inr (), done_part @ m)"
  using assms
proof (induction m arbitrary: pre done_part)
  case (Cons e m)
  obtain k v where e: "e = (k, v)" by fastforce
  let ?rest = "concat (map save_position m)"
  have bytes: "pre @ concat (map save_position (e # m)) = pre @ le_bytes 8 k @ vec3_bytes v @ ?rest"
    by (simp add: e save_position_def)
  have r1: "aoi_read 8 (pre @ le_bytes 8 k @ vec3_bytes v @ ?rest) (length pre) s = (Inr (k, length pre + 8), s)"
    for s :: positions
    unfolding aoi_read_def by (rule read_at_here) simp_all
  have r2: "aoi_read_vec3 (pre @ le_bytes 8 k @ vec3_bytes v @ ?rest) (length pre + 8) s
      = (Inr (v, length pre + 32), s)" for s :: positions
    using aoi_read_vec3_here [of "length pre + 8" "pre @ le_bytes 8 k" v ?rest s] by simp
  have step: "om_emplace k v done_part = done_part @ [e]"
    using Cons.prems e by (auto simp: ordered_keys_append intro!: om_emplace_last)
  have "load_positions (length m) ((pre @ le_bytes 8 k @ vec3_bytes v) @ ?rest)
      (length (pre @ le_bytes 8 k @ vec3_bytes v)) (done_part @ [e]) = (Inr (), (done_part @ [e]) @ m)"
    by (rule Cons.IH) (use Cons.prems in simp)
  then show ?case unfolding bytes by (simp add: r1 r2 step thn_def)
qed simp

interpretation aoi_snapshots: snapshot_lp aoi_save_state aoi_load_state aoi_saveable
proof
  fix m bs m' assume ok: "aoi_saveable m" and "aoi_save_state m = Inr bs"
  let ?n = "word_of_nat (length m) :: u32"
  have bs: "bs = le_bytes 4 ?n @ concat (map save_position m)"
    using \<open>aoi_save_state m = Inr bs\<close> by (simp add: aoi_save_state_def)
  have n: "unat ?n = length m" using ok by (simp add: aoi_saveable_def unat_of_nat take_bit_nat_eq_self)
  have r: "aoi_read 4 bs 0 s = (Inr (?n, 4), s)" for s :: positions
    using read_at_here [of 4 0 "[]" _ ?n "concat (map save_position m)" s] bs by (simp add: aoi_read_def)
  have "load_positions (length m) bs 4 [] = (Inr (), m)"
    using load_positions_run [of "[]" m "le_bytes 4 ?n"] ok by (simp add: bs aoi_saveable_def)
  then show "aoi_load_state bs m' = (Inr (), m)" by (simp add: aoi_load_state_def r n thn_def)
qed (simp add: aoi_save_state_def)

lemma aoi_writes_before_mutation: "write_before_mutation (aoi_on_event fp pad cfg ev m)"
  by (auto simp: aoi_on_event_def split: sum.split)

lemma aoi_keeps_order: "ordered_keys m \<Longrightarrow> ordered_keys (final_state (aoi_on_event fp pad cfg ev m) m)"
  by (auto simp: aoi_on_event_def split: sum.split)

lemma aoi_answers_in_time:
  "Sink (Send e) \<in> set (aoi_on_event fp pad cfg ev m) \<Longrightarrow> ev_ts e = ev_ts ev \<and> ev_dst e = ev_src ev"
  by (auto simp: aoi_on_event_def result_event_def split: sum.splits if_splits)

text \<open>A query made with the client, answered by the service, decoded by the client.\<close>

lemma query_answered_by:
  assumes sent: "client_send_query pad cl ts srcLp q = Send ev" and pad: "length pad = 4" "length pad' = 4"
    and kinds: "cl_queryKind cl = ac_queryKind cfg" "ac_updateKind cfg \<noteq> ac_queryKind cfg"
    and m: "ordered_keys m" "length m < 2 ^ 32" and shape: "aoi_query fp cfg q m = Inr (aoi_hits cfg q inside m)"
  shows "\<exists>reply es. aoi_on_event fp pad' cfg ev m = [Sink (Send reply)]
    \<and> ev_dst reply = srcLp \<and> ev_ts reply = ts \<and> p_kind (ev_payload reply) = ac_resultKind cfg
    \<and> client_decode_result (ev_payload reply) = Inr \<lparr>ar_requestId = qa_requestId q, ar_entities = es\<rparr>
    \<and> sorted es \<and> distinct es
    \<and> (\<forall>e. e \<in> set es \<longleftrightarrow> (\<exists>pos. map_of m e = Some pos \<and> \<not> is_self cfg q e \<and> inside pos))"
proof -
  let ?es = "aoi_hits cfg q inside m"
  have ev: "p_kind (ev_payload ev) = ac_queryKind cfg" "p_bytes (ev_payload ev) = query_bytes pad q"
    "ev_src ev = srcLp" "ev_ts ev = ts"
    using sent kinds by (auto simp: client_send_query_def client_event_def)
  have "aoi_decode 96 query_of_bytes ev = Inr q"
    using ev pad by (simp add: aoi_decode_def query_layout.put_length query_layout.get_put_exact)
  then have run: "aoi_on_event fp pad' cfg ev m = [Sink (Send (result_event pad' cfg ev (qa_requestId q) ?es))]"
    using ev kinds shape by (simp add: aoi_on_event_def)
  have "length ?es \<le> length m" by (simp add: aoi_hits_def)
  then have small: "length ?es < 2 ^ 32" using m(2) by (rule le_less_trans)
  let ?reply = "result_event pad' cfg ev (qa_requestId q) ?es"
  have "client_decode_result (ev_payload ?reply) = Inr \<lparr>ar_requestId = qa_requestId q, ar_entities = ?es\<rparr>"
    using decode_encode_result [OF pad(2) small] by (simp add: client_decode_result_def result_event_def)
  then show ?thesis
    using run ev(3,4) aoi_hits_sorted [of cfg q inside m] aoi_hits_distinct [OF m(1)] set_aoi_hits [OF m(1)]
    by (intro exI [of _ ?reply] exI [of _ ?es]) (simp add: result_event_def)
qed

lemma query_answered:
  assumes "client_send_query pad cl ts srcLp q = Send ev" and "length pad = 4" "length pad' = 4"
    and "cl_queryKind cl = ac_queryKind cfg" "ac_updateKind cfg \<noteq> ac_queryKind cfg"
    and "ordered_keys m" "length m < 2 ^ 32" and "qa_shape q = 1"
  shows "\<exists>reply es. aoi_on_event fp pad' cfg ev m = [Sink (Send reply)]
    \<and> ev_dst reply = srcLp \<and> ev_ts reply = ts
    \<and> client_decode_result (ev_payload reply) = Inr \<lparr>ar_requestId = qa_requestId q, ar_entities = es\<rparr>
    \<and> sorted es \<and> distinct es
    \<and> (\<forall>e. e \<in> set es \<longleftrightarrow> (\<exists>pos. map_of m e = Some pos \<and> \<not> is_self cfg q e \<and> in_sphere fp q pos))"
  using query_answered_by [OF assms(1-7), of fp "in_sphere fp q"] assms(8) by (auto simp: aoi_query_def)

end
