(* ===== verification/Mpi.thy ===== *)
theory Mpi
  imports Transport
begin

text \<open>
  The MPI transport (\<open>src/src/mpi_transport.hpp\<close>) and the collectives
  (\<open>src/src/mpi_collectives.hpp\<close>) over an MPI library that is a parameter: a record of the
  calls the code makes, on a network of type \<open>'n\<close> with requests of type \<open>'r\<close>. A call returns
  whether it succeeded (\<open>MPI_SUCCESS\<close>) and its results.
\<close>

record ('n, 'r) mpi =
  mpi_isend :: "bytes \<Rightarrow> u32 \<Rightarrow> 'n \<Rightarrow> (bool \<times> 'r) \<times> 'n"
  mpi_iprobe :: "'n \<Rightarrow> (bool \<times> bool) \<times> 'n"
  mpi_get_count :: "'n \<Rightarrow> bool \<times> int"
  mpi_recv :: "nat \<Rightarrow> 'n \<Rightarrow> (bool \<times> bytes) \<times> 'n"
  mpi_test :: "'r \<Rightarrow> 'n \<Rightarrow> (bool \<times> bool) \<times> 'n"
  mpi_allreduce_stamp :: "timestamp \<Rightarrow> 'n \<Rightarrow> (bool \<times> timestamp) \<times> 'n"
  mpi_allreduce_lor :: "int \<Rightarrow> 'n \<Rightarrow> (bool \<times> int) \<times> 'n"
  mpi_allreduce_sum :: "u64 \<Rightarrow> 'n \<Rightarrow> (bool \<times> u64) \<times> 'n"

text \<open>The transport object with the network it acts on: the sends that have not completed.\<close>

record ('n, 'r) mpi_state =
  ms_net :: 'n
  ms_pendingSends :: "(bytes \<times> 'r) list"

definition on_net :: "('n \<Rightarrow> 'a \<times> 'n) \<Rightarrow> (('n, 'r) mpi_state, 'a) eff" where
  "on_net f s = (case f (ms_net s) of (x, n) \<Rightarrow> (Inr x, s\<lparr>ms_net := n\<rparr>))"

definition check_mpi :: "bool \<Rightarrow> string \<Rightarrow> ('s, unit) eff" where
  "check_mpi ok msg = throw_if (\<not> ok) (''MpiTransport: '' @ msg)"

subsection \<open>The transport\<close>

text \<open>\<open>k\<close> is the number of entries from \<open>i\<close> on: each iteration tests one of them.\<close>

fun mpi_drain_from :: "('n, 'r) mpi \<Rightarrow> nat \<Rightarrow> nat \<Rightarrow> (('n, 'r) mpi_state, unit) eff" where
  "mpi_drain_from mpi 0 i = ret ()"
| "mpi_drain_from mpi (Suc k) i =
     bnd (gets (\<lambda>s. snd (ms_pendingSends s ! i))) (\<lambda>req.
     bnd (on_net (mpi_test mpi req)) (\<lambda>(ok, completed).
     thn (check_mpi ok ''MPI_Test failed'')
     (if completed
      then thn (upd (\<lambda>s. s\<lparr>ms_pendingSends :=
              butlast ((ms_pendingSends s)[i := last (ms_pendingSends s)])\<rparr>))
           (mpi_drain_from mpi k i)
      else mpi_drain_from mpi k (Suc i))))"

definition mpi_drain :: "('n, 'r) mpi \<Rightarrow> (('n, 'r) mpi_state, unit) eff" where
  "mpi_drain mpi = bnd (gets (\<lambda>s. length (ms_pendingSends s))) (\<lambda>n. mpi_drain_from mpi n 0)"

definition mpi_send :: "('n, 'r) mpi \<Rightarrow> wire_message \<Rightarrow> (('n, 'r) mpi_state, unit) eff" where
  "mpi_send mpi msg =
     thn (mpi_drain mpi)
     (let buf = mpi_frame msg in
      bnd (on_net (mpi_isend mpi buf (wm_dstRank msg))) (\<lambda>(ok, req).
      thn (check_mpi ok ''MPI_Isend failed'')
      (upd (\<lambda>s. s\<lparr>ms_pendingSends := ms_pendingSends s @ [(buf, req)]\<rparr>))))"

definition mpi_poll :: "('n, 'r) mpi \<Rightarrow> (('n, 'r) mpi_state, wire_message option) eff" where
  "mpi_poll mpi =
     thn (mpi_drain mpi)
     (bnd (on_net (mpi_iprobe mpi)) (\<lambda>(ok, flag).
      thn (check_mpi ok ''MPI_Iprobe failed'')
      (if \<not> flag then ret None
       else bnd (gets (\<lambda>s. mpi_get_count mpi (ms_net s))) (\<lambda>(ok, count).
         thn (check_mpi (ok \<and> count > 0) ''MPI_Get_count failed'')
         (bnd (on_net (mpi_recv mpi (nat count))) (\<lambda>(ok, buf).
          thn (check_mpi ok ''MPI_Recv failed'')
          (case mpi_unframe buf of Inl e \<Rightarrow> raise e | Inr msg \<Rightarrow> ret (Some msg))))))))"

definition mpi_has_pending :: "('n, 'r) mpi \<Rightarrow> (('n, 'r) mpi_state, bool) eff" where
  "mpi_has_pending mpi =
     thn (mpi_drain mpi)
     (bnd (on_net (mpi_iprobe mpi)) (\<lambda>(ok, flag).
      if \<not> ok then ret False
      else if flag then ret True
      else gets (\<lambda>s. ms_pendingSends s \<noteq> [])))"

definition mpi_transport :: "('n, 'r) mpi \<Rightarrow> ('n, 'r) mpi_state transport" where
  "mpi_transport mpi = \<lparr>t_send = mpi_send mpi, t_poll = mpi_poll mpi, t_has_pending = mpi_has_pending mpi\<rparr>"

subsection \<open>Collectives\<close>

definition mpi_allreduce_min_timestamp ::
  "('n, 'r) mpi \<Rightarrow> timestamp \<Rightarrow> (('n, 'r) mpi_state, timestamp) eff" where
  "mpi_allreduce_min_timestamp mpi local =
     bnd (on_net (mpi_allreduce_stamp mpi local)) (\<lambda>(ok, out).
     if ok then ret out else raise (Aborted 3))"

definition mpi_allreduce_any_work :: "('n, 'r) mpi \<Rightarrow> bool \<Rightarrow> (('n, 'r) mpi_state, bool) eff" where
  "mpi_allreduce_any_work mpi localHasWork =
     bnd (on_net (mpi_allreduce_lor mpi (if localHasWork then 1 else 0))) (\<lambda>(ok, out).
     if ok then ret (out \<noteq> 0) else raise (Aborted 4))"

definition mpi_allreduce_sum_i64 :: "('n, 'r) mpi \<Rightarrow> u64 \<Rightarrow> (('n, 'r) mpi_state, u64) eff" where
  "mpi_allreduce_sum_i64 mpi local =
     bnd (on_net (mpi_allreduce_sum mpi local)) (\<lambda>(ok, out).
     if ok then ret out else raise (Aborted 5))"

subsection \<open>Draining\<close>

text \<open>A network whose tests succeed and tell, request by request, what has completed.\<close>

definition tests_by :: "('n, 'r) mpi \<Rightarrow> ('r \<Rightarrow> bool) \<Rightarrow> bool" where
  "tests_by mpi completed \<longleftrightarrow> (\<forall>req n. mpi_test mpi req n = ((True, completed req), n))"

lemma mpi_drain_from_run:
  assumes "tests_by mpi completed" and "length (ms_pendingSends s) = i + k"
  shows "mpi_drain_from mpi k i s =
    (Inr (), s\<lparr>ms_pendingSends := drain_completed_sends (completed \<circ> snd) i (ms_pendingSends s)\<rparr>)"
  using assms(2)
proof (induction k arbitrary: i s)
  case 0
  then show ?case by (simp add: drain_completed_sends.simps [of _ i])
next
  case (Suc k)
  let ?xs = "ms_pendingSends s"
  have i: "i < length ?xs" using Suc.prems by simp
  have test: "on_net (mpi_test mpi (snd (?xs ! i))) s = (Inr (True, completed (snd (?xs ! i))), s)"
    using assms(1) by (simp add: on_net_def tests_by_def)
  show ?case
  proof (cases "completed (snd (?xs ! i))")
    case True
    let ?s = "s\<lparr>ms_pendingSends := butlast (?xs[i := last ?xs])\<rparr>"
    have "mpi_drain_from mpi k i ?s =
        (Inr (), ?s\<lparr>ms_pendingSends := drain_completed_sends (completed \<circ> snd) i (ms_pendingSends ?s)\<rparr>)"
      using Suc.prems by (intro Suc.IH) simp
    then show ?thesis
      using test True i
      by (simp add: check_mpi_def throw_if_def thn_def comp_def drain_completed_sends.simps [of _ i ?xs])
  next
    case False
    then show ?thesis
      using test Suc.IH [of s "Suc i"] Suc.prems i
      by (simp add: check_mpi_def throw_if_def thn_def comp_def drain_completed_sends.simps [of _ i ?xs])
  qed
qed

lemma mpi_drain_run:
  "tests_by mpi completed \<Longrightarrow> mpi_drain mpi s =
     (Inr (), s\<lparr>ms_pendingSends := drain_completed_sends (completed \<circ> snd) 0 (ms_pendingSends s)\<rparr>)"
  using mpi_drain_from_run [of mpi completed s 0] by (simp add: mpi_drain_def)

subsection \<open>Sending and receiving\<close>

text \<open>What one rank sends, framed, is what the other one's \<open>poll\<close> returns.\<close>

lemma mpi_poll_receives:
  assumes t: "tests_by mpi completed" and msg: "message_fits msg"
    and probe: "mpi_iprobe mpi (ms_net s) = ((True, True), n)"
    and count: "mpi_get_count mpi n = (True, int (length (mpi_frame msg)))"
    and recv: "mpi_recv mpi (length (mpi_frame msg)) n = ((True, mpi_frame msg), n')"
  shows "\<exists>t. mpi_poll mpi s = (Inr (Some msg), t) \<and> ms_net t = n'"
proof -
  have pos: "length (mpi_frame msg) > 0"
    by (simp add: mpi_frame_def Let_def write_bytes_def write_u32_def write_u8_def)
  show ?thesis
    using probe count recv pos mpi_unframe_frame [OF msg]
    by (simp add: mpi_poll_def mpi_drain_run [OF t] on_net_def check_mpi_def throw_if_def)
qed

text \<open>A send that MPI refuses is reported and not recorded.\<close>

lemma mpi_send_refused:
  assumes t: "tests_by mpi completed"
    and isend: "mpi_isend mpi (mpi_frame msg) (wm_dstRank msg) (ms_net s) = ((False, req), n)"
  shows "fst (mpi_send mpi msg s) = Inl (Runtime_Error ''MpiTransport: MPI_Isend failed'')
    \<and> mset (ms_pendingSends (snd (mpi_send mpi msg s))) =
        filter_mset (\<lambda>p. \<not> completed (snd p)) (mset (ms_pendingSends s))"
  using isend drain_completed_sends_mset [of 0 "ms_pendingSends s" "completed \<circ> snd"]
  by (simp add: mpi_send_def mpi_drain_run [OF t] on_net_def check_mpi_def throw_if_def Let_def)

lemma remaining_sends:
  assumes "mset xs = filter_mset P (mset ys)"
  shows "xs \<noteq> [] \<longleftrightarrow> (\<exists>p \<in> set ys. P p)"
proof -
  have "set xs = {p \<in> set ys. P p}"
    using arg_cong [OF assms, of set_mset] by (simp only: set_mset_mset set_mset_filter)
  then show ?thesis by (cases xs) auto
qed

text \<open>Nothing is pending only when nothing can be received and every send has completed.\<close>

lemma mpi_has_pending_False:
  assumes t: "tests_by mpi completed" and probe: "mpi_iprobe mpi (ms_net s) = ((True, flag), n)"
  shows "fst (mpi_has_pending mpi s) = Inr (flag \<or> (\<exists>p \<in> set (ms_pendingSends s). \<not> completed (snd p)))"
proof -
  have "drain_completed_sends (completed \<circ> snd) 0 (ms_pendingSends s) \<noteq> []
      \<longleftrightarrow> (\<exists>p \<in> set (ms_pendingSends s). \<not> completed (snd p))"
    by (rule remaining_sends) (use drain_completed_sends_mset [of 0 "ms_pendingSends s" "completed \<circ> snd"] in simp)
  then show ?thesis
    using probe by (simp add: mpi_has_pending_def mpi_drain_run [OF t] on_net_def)
qed

subsection \<open>Reduction trees\<close>

text \<open>How MPI may combine the contributions of the ranks with an operator.\<close>

datatype reduction = Rank timestamp | Combine reduction reduction

fun contributions :: "reduction \<Rightarrow> timestamp list" where
  "contributions (Rank t) = [t]"
| "contributions (Combine l r) = contributions l @ contributions r"

fun reduce_min :: "reduction \<Rightarrow> timestamp list" where
  "reduce_min (Rank t) = [t]"
| "reduce_min (Combine l r) = mpi_ts_min_op (reduce_min l) (reduce_min r)"

lemma contributions_ne [simp]: "contributions r \<noteq> []"
  by (induction r) simp_all

lemma reduce_min_Min: "reduce_min r = [Min (set (contributions r))]"
proof (induction r)
  case (Combine l r)
  then show ?case by (simp add: mpi_ts_min_op_min min_stamp_min Min_Un min.commute del: mpi_ts_min_op.simps)
qed simp

end
