(* ===== verification/Log.thy ===== *)
theory Log
  imports Time_Stamp
begin

text \<open>
  The logger (\<open>src/src/log.hpp\<close>). An enumeration with a fixed underlying type can hold any
  value of it: \<open>Other_Level\<close> stands for the unnamed ones. The text that \<open>vsnprintf\<close> makes of
  the format and its arguments is a parameter, as is the digits printer.
\<close>

datatype log_level = Error_Level | Warn_Level | Info_Level | Debug_Level | Trace_Level | Off_Level
  | Other_Level u8

fun level_value :: "log_level \<Rightarrow> u8" where
  "level_value Error_Level = 0"
| "level_value Warn_Level = 1"
| "level_value Info_Level = 2"
| "level_value Debug_Level = 3"
| "level_value Trace_Level = 4"
| "level_value Off_Level = 255"
| "level_value (Other_Level v) = v"

fun log_level_name :: "log_level \<Rightarrow> string" where
  "log_level_name Error_Level = ''ERROR''"
| "log_level_name Warn_Level = ''WARN''"
| "log_level_name Info_Level = ''INFO''"
| "log_level_name Debug_Level = ''DEBUG''"
| "log_level_name Trace_Level = ''TRACE''"
| "log_level_name Off_Level = ''OFF''"
| "log_level_name (Other_Level v) = ''UNKNOWN''"

definition log_enabled :: "log_level \<Rightarrow> log_level \<Rightarrow> bool" where
  "log_enabled configured msg \<longleftrightarrow>
     configured \<noteq> Off_Level \<and> level_value msg \<le> level_value configured"

text \<open>The logger: \<open>lg_sink\<close> is what has been written to the file, if one is set.\<close>

record logger =
  lg_level :: log_level
  lg_sink :: "string option"

definition initial_logger :: logger where
  "initial_logger = \<lparr>lg_level = Off_Level, lg_sink = Some []\<rparr>"

definition set_level :: "log_level \<Rightarrow> logger \<Rightarrow> logger" where
  "set_level lvl g = g\<lparr>lg_level := lvl\<rparr>"

definition set_sink :: "string option \<Rightarrow> logger \<Rightarrow> logger" where
  "set_sink f g = g\<lparr>lg_sink := f\<rparr>"

definition logf :: "(u64 \<Rightarrow> string) \<Rightarrow> log_level \<Rightarrow> u32 \<Rightarrow> u32 \<Rightarrow> timestamp \<Rightarrow> string
    \<Rightarrow> logger \<Rightarrow> logger" where
  "logf digits lvl rank lp ts text g =
     (if \<not> log_enabled (lg_level g) lvl then g
      else let buf = take 1023 text in
        case lg_sink g of
          None \<Rightarrow> g
        | Some out \<Rightarrow> g\<lparr>lg_sink := Some (out @ ''['' @ log_level_name lvl @ ''][rank='' @ digits (ucast rank)
            @ ''][lp='' @ digits (ucast lp) @ ''][t='' @ digits (ts_time ts) @ ''.''
            @ digits (ts_sequence ts) @ ''] '' @ buf @ [CHR 0x0A])\<rparr>)"

lemma log_enabled_mono:
  "log_enabled c m \<Longrightarrow> c' \<noteq> Off_Level \<Longrightarrow> level_value c \<le> level_value c'
    \<Longrightarrow> level_value m' \<le> level_value m \<Longrightarrow> log_enabled c' m'"
  by (auto simp: log_enabled_def intro: order_trans)

lemma logf_off: "lg_level g = Off_Level \<Longrightarrow> logf digits lvl rank lp ts text g = g"
  by (simp add: logf_def log_enabled_def)

lemma logf_appends:
  "lg_sink g = Some out \<Longrightarrow> \<exists>line. lg_sink (logf digits lvl rank lp ts text g) = Some (out @ line)
    \<and> (line = [] \<longleftrightarrow> \<not> log_enabled (lg_level g) lvl)"
  by (auto simp: logf_def Let_def)

end
