(* ===== verification/Models.thy ===== *)
theory Models
  imports Kernel_Safety Modeling Mpi
begin

text \<open>
  What the example programs (\<open>src/examples/\<close>) share: the numbers of their command lines,
  reading saved states with a \<open>WireReader\<close>, the world a program runs in (the transport and what
  its committed sink accumulates), the ranks it runs on, and committed hashes.
\<close>

subsection \<open>Command lines\<close>

definition is_digit :: "char \<Rightarrow> bool" where
  "is_digit c \<longleftrightarrow> 48 \<le> (of_char c :: nat) \<and> (of_char c :: nat) \<le> 57"

text \<open>
  \<open>std::from_chars\<close> for an unsigned integer that has to consume the whole string: digits only,
  no sign, and the value in the range of the type it is read into (64 bits).
\<close>

definition parse_digits :: "string \<Rightarrow> nat option" where
  "parse_digits s =
     (if s \<noteq> [] \<and> list_all is_digit s \<and> value_of_decimal 0 s < 2 ^ 64
      then Some (value_of_decimal 0 s) else None)"

definition parse_u32 :: "string \<Rightarrow> u32 option" where
  "parse_u32 s = (case parse_digits s of
     None \<Rightarrow> None | Some v \<Rightarrow> if v > 2 ^ 32 - 1 then None else Some (word_of_nat v))"

definition parse_u64 :: "string \<Rightarrow> u64 option" where
  "parse_u64 s = map_option word_of_nat (parse_digits s)"

lemma is_digit_digit_char: "d < 10 \<Longrightarrow> is_digit (digit_char d)"
  by (simp add: is_digit_def digit_char_def of_char_of)

lemma decimal_digits: "list_all is_digit (decimal n)" and decimal_not_Nil: "decimal n \<noteq> []"
proof -
  show "list_all is_digit (decimal n)"
  proof (induction n rule: decimal.induct)
    case (1 n)
    then show ?case by (simp add: decimal.simps [of n] is_digit_digit_char)
  qed
  show "decimal n \<noteq> []" by (simp add: decimal.simps [of n])
qed

lemma parse_digits_decimal: "n < 2 ^ 64 \<Longrightarrow> parse_digits (decimal n) = Some n"
  using decimal_digits [of n] decimal_not_Nil [of n]
  by (simp add: parse_digits_def value_of_decimal_decimal)

lemma parse_u64_decimal: "parse_u64 (decimal (unat v)) = Some v"
  using unsigned_less [of v, where ?'a = nat] by (simp add: parse_u64_def parse_digits_decimal)

lemma parse_u32_decimal: "parse_u32 (decimal (unat v)) = Some v"
  using unsigned_less [of v, where ?'a = nat] by (simp add: parse_u32_def parse_digits_decimal)

subsection \<open>Loading with a reader\<close>

text \<open>A read of the local reader inside \<open>load_state\<close>: the value and the advanced reader.\<close>

definition reading :: "(reader, 'a) eff \<Rightarrow> reader \<Rightarrow> ('s, 'a \<times> reader) eff" where
  "reading m r s = (case m r of (Inl e, _) \<Rightarrow> (Inl e, s) | (Inr x, r') \<Rightarrow> (Inr (x, r'), s))"

context wire_codec
begin

lemma reading_put:
  assumes "ok x" and "pos = length pre"
  shows "reading get \<lparr>r_bytes = pre @ put x [] @ post, r_pos = pos\<rparr> s =
    (Inr (x, \<lparr>r_bytes = pre @ put x [] @ post, r_pos = pos + length (put x [])\<rparr>), s)"
  using get_put [OF assms(1), of pre post] by (simp add: reading_def assms(2))

end

text \<open>A read anywhere in the buffer, as the field at that place.\<close>

lemma read_at_field:
  "r_pos r + 8 \<le> length (r_bytes r) \<Longrightarrow> read_u64 r = (Inr (field_at (r_pos r) 8 (r_bytes r)), r\<lparr>r_pos := r_pos r + 8\<rparr>)"
  "r_pos r + 4 \<le> length (r_bytes r) \<Longrightarrow> read_u32 r = (Inr (field_at (r_pos r) 4 (r_bytes r)), r\<lparr>r_pos := r_pos r + 4\<rparr>)"
  "r_pos r + 1 \<le> length (r_bytes r) \<Longrightarrow> read_u8 r = (Inr (field_at (r_pos r) 1 (r_bytes r)), r\<lparr>r_pos := r_pos r + 1\<rparr>)"
  by (cases r; simp add: read_u64_def read_u32_def read_u8_def thn_def bnd_def read_le_run field_at_def next_byte_def
      take_Suc_conv_app_nth hd_drop_conv_nth take_drop)+

subsection \<open>The world of an example\<close>

text \<open>
  What the transport acts on (the in-process queue, or the state of the MPI transport), and
  what the committed sink of the program has accumulated.
\<close>

type_synonym ('n, 'h) example_world = "'n \<times> 'h"

definition on_wire :: "('n, 'a) eff \<Rightarrow> (('n, 'h) example_world, 'a) eff" where
  "on_wire m w = (case m (fst w) of (r, n) \<Rightarrow> (r, (n, snd w)))"

definition on_sink :: "('h, 'a) eff \<Rightarrow> (('n, 'h) example_world, 'a) eff" where
  "on_sink m w = (case m (snd w) of (r, h) \<Rightarrow> (r, (fst w, h)))"

definition wire_transport :: "'n transport \<Rightarrow> ('n, 'h) example_world transport" where
  "wire_transport t = \<lparr>t_send = (\<lambda>m. on_wire (t_send t m)), t_poll = on_wire (t_poll t),
     t_has_pending = on_wire (t_has_pending t)\<rparr>"

interpretation example: reliable_transport "wire_transport inproc_transport :: (inproc, 'h) example_world transport" fst
  by unfold_locales
    (auto simp: wire_transport_def inproc_transport_def on_wire_def inproc_send_def inproc_poll_def
      inproc_has_pending_def split: list.splits prod.splits)

text \<open>
  Where a program runs: its rank, how many there are, the transport, and the collective
  operations it uses when there are several (\<open>MPI_Allreduce\<close> with \<open>MPI_BXOR\<close>, \<open>MPI_SUM\<close> and
  \<open>MPI_MAX\<close>, whose results the programs use unchecked).
\<close>

record 'w example_env =
  env_rank :: u32
  env_size :: u32
  env_transport :: "'w transport"
  env_reduceMin :: "timestamp \<Rightarrow> ('w, timestamp) eff"
  env_anyWork :: "bool \<Rightarrow> ('w, bool) eff"
  env_bxor :: "u64 \<Rightarrow> ('w, u64) eff"
  env_sum :: "u64 \<Rightarrow> ('w, u64) eff"
  env_max :: "u64 \<Rightarrow> ('w, u64) eff"

definition sole_env :: "(inproc, 'h) example_world example_env" where
  "sole_env = \<lparr>env_rank = 0, env_size = 1, env_transport = wire_transport inproc_transport,
     env_reduceMin = ret, env_anyWork = ret, env_bxor = ret, env_sum = ret, env_max = ret\<rparr>"

definition mpi_env ::
  "('n, 'r) mpi \<Rightarrow> u32 \<Rightarrow> u32 \<Rightarrow> (u64 \<Rightarrow> 'n \<Rightarrow> u64 \<times> 'n) \<Rightarrow> (u64 \<Rightarrow> 'n \<Rightarrow> u64 \<times> 'n)
    \<Rightarrow> (u64 \<Rightarrow> 'n \<Rightarrow> u64 \<times> 'n) \<Rightarrow> (('n, 'r) mpi_state, 'h) example_world example_env" where
  "mpi_env mpi rank nranks bxor add most = \<lparr>env_rank = rank, env_size = nranks,
     env_transport = wire_transport (mpi_transport mpi),
     env_reduceMin = (\<lambda>ts. on_wire (mpi_allreduce_min_timestamp mpi ts)),
     env_anyWork = (\<lambda>b. on_wire (mpi_allreduce_any_work mpi b)),
     env_bxor = (\<lambda>x. on_wire (on_net (bxor x))), env_sum = (\<lambda>x. on_wire (on_net (add x))),
     env_max = (\<lambda>x. on_wire (on_net (most x)))\<rparr>"

text \<open>The settings of a run on several ranks, and which processes a rank creates.\<close>

definition distribute :: "'w example_env \<Rightarrow> (u32 \<Rightarrow> u32) \<Rightarrow> 'w config \<Rightarrow> 'w config" where
  "distribute env owner cfg =
     (if env_size env > 1
      then cfg\<lparr>c_lpToRank := Some owner, c_gvtReduceMin := Some (env_reduceMin env),
        c_anyRankHasWork := Some (env_anyWork env)\<rparr>
      else cfg)"

definition owns_lp :: "'w config \<Rightarrow> u32 \<Rightarrow> bool" where
  "owns_lp cfg i = (case c_lpToRank cfg of None \<Rightarrow> True | Some f \<Rightarrow> f i = c_rank cfg)"

definition reduce_if :: "'w example_env \<Rightarrow> (u64 \<Rightarrow> ('w, u64) eff) \<Rightarrow> u64 \<Rightarrow> ('w, u64) eff" where
  "reduce_if env f x = (if env_size env > 1 then f x else ret x)"

text \<open>
  The ranks create every process exactly once, whatever function places them, as long as
  it names a rank that exists.
\<close>

lemma processes_partitioned:
  assumes "1 < n" and "\<And>i. owner i < n" and "\<And>r. c_rank (cfg r) = r" and "\<And>r. env_size (env r) = n"
  shows "\<exists>!r. r < n \<and> owns_lp (distribute (env r) owner (cfg r)) i"
  using assms by (auto simp: owns_lp_def distribute_def)

subsection \<open>Hashes of committed output\<close>

definition xor_all :: "u64 list \<Rightarrow> u64" where
  "xor_all xs = fold (XOR) xs 0"

lemma xor_all_simps [simp]: "xor_all [] = 0" "xor_all (x # xs) = x XOR xor_all xs"
proof -
  have shift: "fold (XOR) ys a = a XOR fold (XOR) ys 0" for ys and a :: u64
  proof (induction ys arbitrary: a)
    case (Cons y ys)
    show ?case using Cons [of "y XOR a"] Cons [of y] by (simp add: ac_simps)
  qed simp
  show "xor_all [] = 0" "xor_all (x # xs) = x XOR xor_all xs"
    using shift [of xs x] by (simp_all add: xor_all_def)
qed

lemma xor_all_append [simp]: "xor_all (xs @ ys) = xor_all xs XOR xor_all ys"
  by (induction xs) (simp_all add: xor.assoc)

lemma xor_all_concat: "xor_all (concat xss) = xor_all (map xor_all xss)"
  by (induction xss) simp_all

lemma xor_all_order:
  assumes "mset xs = mset ys"
  shows "xor_all xs = xor_all ys"
  unfolding xor_all_def
  by (rule fun_cong [OF fold_multiset_equiv [OF _ assms]]) (auto simp: fun_eq_iff xor.left_commute)

text \<open>
  The sink of several programs: a good output is hashed and xored into an accumulator.
\<close>

type_synonym committed = "u32 \<times> u32 \<times> timestamp \<times> payload"

definition output_payload :: "committed \<Rightarrow> payload" where
  "output_payload = (\<lambda>(rank, lp, ts, p). p)"

locale xor_sink =
  fixes sink :: "u32 \<Rightarrow> u32 \<Rightarrow> timestamp \<Rightarrow> payload \<Rightarrow> (u64, unit) eff"
    and contribution :: "payload \<Rightarrow> u64"
    and good :: "payload \<Rightarrow> bool"
  assumes sink_good: "good p \<Longrightarrow> sink rank lp ts p h = (Inr (), h XOR contribution p)"
begin

lemma sink_all:
  assumes "list_all good (map output_payload outs)"
  shows "for_each (\<lambda>(rank, lp, ts, p). sink rank lp ts p) outs h
    = (Inr (), h XOR xor_all (map (contribution \<circ> output_payload) outs))"
  using assms by (induction outs arbitrary: h) (auto simp: sink_good output_payload_def xor.assoc)

text \<open>
  The order in which the outputs are committed, and which rank commits them, does not
  matter: the ranks' hashes combine to the one of a single rank.
\<close>

lemma sink_distributed:
  assumes "list_all good (map output_payload outs)"
    and "mset (map output_payload outs) = mset (map output_payload (concat outss))"
  shows "for_each (\<lambda>(rank, lp, ts, p). sink rank lp ts p) outs 0
    = (Inr (), xor_all (map (\<lambda>os. snd (for_each (\<lambda>(rank, lp, ts, p). sink rank lp ts p) os 0)) outss))"
proof -
  have good: "list_all good (map output_payload os)" if "os \<in> set outss" for os
    using assms(1) that arg_cong [OF assms(2), of set_mset] by (force simp: list_all_iff)
  have "map (\<lambda>os. snd (for_each (\<lambda>(rank, lp, ts, p). sink rank lp ts p) os 0)) outss
      = map (\<lambda>os. xor_all (map (contribution \<circ> output_payload) os)) outss"
    using good by (simp add: sink_all)
  then have parts: "xor_all (map (\<lambda>os. snd (for_each (\<lambda>(rank, lp, ts, p). sink rank lp ts p) os 0)) outss)
      = xor_all (map (contribution \<circ> output_payload) (concat outss))"
    by (simp only: xor_all_concat map_concat map_map comp_def)
  have "mset (map contribution (map output_payload outs))
      = mset (map contribution (map output_payload (concat outss)))"
    using assms(2) by (simp only: mset_map)
  then have "xor_all (map (contribution \<circ> output_payload) outs)
      = xor_all (map (contribution \<circ> output_payload) (concat outss))"
    by (metis map_map xor_all_order)
  then show ?thesis using parts by (simp add: sink_all [OF assms(1)])
qed

end

subsection \<open>Sends of a handler\<close>

fun sends_of :: "'st ctx_call list \<Rightarrow> event list" where
  "sends_of [] = []"
| "sends_of (Sink (Send e) # cs) = e # sends_of cs"
| "sends_of (_ # cs) = sends_of cs"

lemma sends_of_append [simp]: "sends_of (xs @ ys) = sends_of xs @ sends_of ys"
  by (induction xs rule: sends_of.induct) simp_all

lemma set_sends_of: "e \<in> set (sends_of cs) \<longleftrightarrow> Sink (Send e) \<in> set cs"
  by (induction cs rule: sends_of.induct) auto

lemma final_state_append: "final_state (xs @ ys) st = final_state ys (final_state xs st)"
  by (induction xs st rule: final_state.induct) simp_all

subsection \<open>Random delays\<close>

text \<open>A draw from \<open>lo\<close> to \<open>hi\<close> succeeds unless the range is that of all 64-bit numbers.\<close>

lemma range_of_draw:
  assumes "lo \<le> hi" and "hi - lo \<noteq> - 1"
  obtains v where "range_of r lo hi = Inr v" "lo \<le> v" "v \<le> hi"
proof -
  have "hi - lo + 1 \<noteq> 0" using assms(2) by (metis add_eq_0_iff2)
  then have "range_of r lo hi = Inr (lo + r mod (hi - lo + 1))" by (simp add: range_of_def Let_def)
  then show thesis using that range_of_bounds [OF assms(1)] by blast
qed

text \<open>A draw from 1 to a 32-bit bound, as a delay after a time that leaves room for it.\<close>

lemma unat_ucast_u32 [simp]: "unat (ucast (x :: u32) :: u64) = unat x"
  by (simp add: unsigned_ucast_eq take_bit_nat_eq_self_iff unsigned_less [THEN less_trans])

lemma range_of_delay:
  fixes bound :: u32
  assumes "0 < bound"
  obtains v where "range_of r 1 (ucast bound) = Inr v" "1 \<le> v" "v \<le> ucast bound"
proof (rule range_of_draw [of 1 "ucast bound" r])
  have "0 < unat bound" using assms by (simp add: word_less_nat_alt)
  then show one: "1 \<le> (ucast bound :: u64)" by (simp add: word_le_nat_alt Suc_le_eq)
  have "unat (ucast bound - 1 :: u64) = unat bound - 1"
    using one by (simp add: unat_sub unat_ucast_u32)
  moreover have "unat bound < 2 ^ 32" using unsigned_less [of bound, where ?'a = nat] by simp
  ultimately have "unat (ucast bound - 1 :: u64) < 2 ^ 32" by simp
  then show "ucast bound - 1 \<noteq> (- 1 :: u64)"
    by (auto simp: unsigned_minus_1_eq_mask mask_eq_exp_minus_1)
qed (use that in blast)

lemma after_delay:
  fixes t v :: u64
  assumes "unat t + unat v + 1 < 2 ^ 64"
  shows "t < t + (1 + v)" and "unat (t + (1 + v)) = unat t + unat v + 1"
proof -
  have "unat (1 + v) = 1 + unat v"
    using assms by (subst unat_add_lem [THEN iffD1]) simp_all
  then show *: "unat (t + (1 + v)) = unat t + unat v + 1"
    using assms by (subst unat_add_lem [THEN iffD1]) simp_all
  show "t < t + (1 + v)" unfolding word_less_nat_alt * by simp
qed

end
