(* ===== verification/Airport.thy ===== *)
theory Airport
  imports Models
begin

text \<open>
  The airport example (\<open>src/examples/airport_fujimoto.cpp\<close>), the program whose committed
  hash the README quotes: planes land, queue for a runway, are served and fly on. The
  airport and driver processes, the committed hash, the command line and the program for
  one rank.
\<close>

subsection \<open>Events and parameters\<close>

definition PlaneArrive :: u32 where "PlaneArrive = 9001"
definition ServiceDone :: u32 where "ServiceDone = 9002"
definition Commit_Departure :: u32 where "Commit_Departure = 9101"

text \<open>\<open>PlaneArriveArgs\<close> and \<open>ServiceDoneArgs\<close> have the same fields, those of \<open>Token\<close>.\<close>

record token =
  tk_plane :: u32
  tk_logicalKey :: u64

record commit_departure =
  cd_plane :: u32
  cd_fromAirport :: u32
  cd_toAirport :: u32
  cd_departTime :: u64
  cd_arriveTime :: u64
  cd_logicalKey :: u64

definition token_bytes :: "bytes \<Rightarrow> token \<Rightarrow> bytes" where
  "token_bytes pad t = le_bytes 4 (tk_plane t) @ pad @ le_bytes 8 (tk_logicalKey t)"

definition token_of_bytes :: "bytes \<Rightarrow> token" where
  "token_of_bytes bs = \<lparr>tk_plane = field_at 0 4 bs, tk_logicalKey = field_at 8 8 bs\<rparr>"

definition departure_bytes :: "bytes \<Rightarrow> commit_departure \<Rightarrow> bytes" where
  "departure_bytes pad d = le_bytes 4 (cd_plane d) @ le_bytes 4 (cd_fromAirport d)
     @ le_bytes 4 (cd_toAirport d) @ pad @ le_bytes 8 (cd_departTime d) @ le_bytes 8 (cd_arriveTime d)
     @ le_bytes 8 (cd_logicalKey d)"

definition departure_of_bytes :: "bytes \<Rightarrow> commit_departure" where
  "departure_of_bytes bs = \<lparr>cd_plane = field_at 0 4 bs, cd_fromAirport = field_at 4 4 bs,
     cd_toAirport = field_at 8 4 bs, cd_departTime = field_at 16 8 bs, cd_arriveTime = field_at 24 8 bs,
     cd_logicalKey = field_at 32 8 bs\<rparr>"

interpretation token_layout: trivial_layout token_bytes token_of_bytes 16 4
proof
  fix pad :: bytes and x :: token and rest
  assume "length pad = 4"
  then have "field_at 0 4 ([] @ le_bytes 4 (tk_plane x) @ (pad @ le_bytes 8 (tk_logicalKey x) @ rest)) = tk_plane x"
    "field_at 8 8 ((le_bytes 4 (tk_plane x) @ pad) @ le_bytes 8 (tk_logicalKey x) @ rest) = tk_logicalKey x"
    by (rule_tac [!] field_at_here) simp_all
  then show "token_of_bytes (token_bytes pad x @ rest) = x" by (simp add: token_of_bytes_def token_bytes_def)
qed (simp add: token_bytes_def)

interpretation departure_layout: trivial_layout departure_bytes departure_of_bytes 40 4
proof
  fix pad :: bytes and x :: commit_departure and rest
  assume pad: "length pad = 4"
  let ?p = "le_bytes 4 (cd_plane x)" and ?f = "le_bytes 4 (cd_fromAirport x)" and ?t = "le_bytes 4 (cd_toAirport x)"
  let ?d = "le_bytes 8 (cd_departTime x)" and ?a = "le_bytes 8 (cd_arriveTime x)" and ?k = "le_bytes 8 (cd_logicalKey x)"
  have "field_at 0 4 ([] @ ?p @ (?f @ ?t @ pad @ ?d @ ?a @ ?k @ rest)) = cd_plane x"
    "field_at 4 4 (?p @ ?f @ (?t @ pad @ ?d @ ?a @ ?k @ rest)) = cd_fromAirport x"
    "field_at 8 4 ((?p @ ?f) @ ?t @ (pad @ ?d @ ?a @ ?k @ rest)) = cd_toAirport x"
    "field_at 16 8 ((?p @ ?f @ ?t @ pad) @ ?d @ (?a @ ?k @ rest)) = cd_departTime x"
    "field_at 24 8 ((?p @ ?f @ ?t @ pad @ ?d) @ ?a @ (?k @ rest)) = cd_arriveTime x"
    "field_at 32 8 ((?p @ ?f @ ?t @ pad @ ?d @ ?a) @ ?k @ rest) = cd_logicalKey x"
    by (rule field_at_here; simp add: pad)+
  then show "departure_of_bytes (departure_bytes pad x @ rest) = x"
    by (simp add: departure_of_bytes_def departure_bytes_def)
qed (simp add: departure_bytes_def)

record airport_params =
  ap_airports :: u32
  ap_planes :: u32
  ap_endTime :: u64
  ap_serviceMax :: u32
  ap_flightMax :: u32
  ap_seed :: u64
  ap_emitPlaneMod :: u32
  ap_verify :: bool
  ap_expectedHash :: u64
  ap_hasExpected :: bool

definition airport_defaults :: airport_params where
  "airport_defaults = \<lparr>ap_airports = 64, ap_planes = 4096, ap_endTime = 20000, ap_serviceMax = 10,
     ap_flightMax = 40, ap_seed = 1, ap_emitPlaneMod = 32, ap_verify = False, ap_expectedHash = 0,
     ap_hasExpected = False\<rparr>"

subsection \<open>Sequence numbers and keys\<close>

definition airport_seq :: "u32 \<Rightarrow> u32 \<Rightarrow> u32 \<Rightarrow> exn + u64" where
  "airport_seq kindClass dst plane =
     (if plane \<ge> 0x40000000 then Inl (Runtime_Error ''airport: plane id too large for stable_seq'')
      else Inr (push_bit 62 (ucast (kindClass AND 3)) OR push_bit 30 (ucast dst) OR ucast (plane + 1)))"

definition airport_mix64 :: "u64 \<Rightarrow> u64 \<Rightarrow> u64" where
  "airport_mix64 a b = splitmix64 (a XOR splitmix64 b)"

definition airport_next_key :: "u64 \<Rightarrow> u32 \<Rightarrow> u32 \<Rightarrow> u32 \<Rightarrow> u64 \<Rightarrow> u64" where
  "airport_next_key seed plane from to prev =
     (let x = seed;
          x = airport_mix64 x (ucast plane);
          x = airport_mix64 x (ucast from);
          x = airport_mix64 x (ucast to);
          x = airport_mix64 x prev
      in splitmix64 x)"

subsection \<open>The airport process\<close>

record airport =
  as_runwayBusy :: bool
  as_q :: "token list"
  as_arrivals :: u64
  as_departures :: u64
  as_maxQ :: u64

definition empty_airport :: airport where
  "empty_airport = \<lparr>as_runwayBusy = False, as_q = [], as_arrivals = 0, as_departures = 0, as_maxQ = 0\<rparr>"

definition airport_state_entity :: u64 where
  "airport_state_entity = 0xA1F0F007"

definition airport_event :: "timestamp \<Rightarrow> u32 \<Rightarrow> u32 \<Rightarrow> u32 \<Rightarrow> bytes \<Rightarrow> event" where
  "airport_event ts src dst kind bs =
     empty_event\<lparr>ev_ts := ts, ev_src := src, ev_dst := dst, ev_payload := \<lparr>p_kind = kind, p_bytes = bs\<rparr>\<rparr>"

definition airport_decode :: "event \<Rightarrow> exn + token" where
  "airport_decode ev =
     (if length (p_bytes (ev_payload ev)) \<noteq> 16 then Inl (Runtime_Error ''airport: bad payload'')
      else Inr (token_of_bytes (p_bytes (ev_payload ev))))"

definition failed :: "exn \<Rightarrow> 'st ctx_call list" where
  "failed e = [Sink (Fail e)]"

text \<open>\<open>start_next_\<close>: service of the first queued plane.\<close>

definition start_next ::
  "bytes \<Rightarrow> airport_params \<Rightarrow> u32 \<Rightarrow> timestamp \<Rightarrow> airport \<Rightarrow> airport ctx_call list" where
  "start_next pad p i now st =
     (if as_runwayBusy st then []
      else case as_q st of
        [] \<Rightarrow> []
      | t # q \<Rightarrow>
          let st = st\<lparr>as_q := q, as_runwayBusy := True\<rparr> in
          Sink (Become st) #
          (case rng_u64_range (ap_seed p) i 1 (tk_logicalKey t) 1 (ucast (ap_serviceMax p)) 0 of
             Inl e \<Rightarrow> failed e
           | Inr r \<Rightarrow>
               let doneTime = ts_time now + (1 + r) in
               if doneTime > ap_endTime p then [Sink (Become (st\<lparr>as_runwayBusy := False\<rparr>))]
               else (case airport_seq 1 i (tk_plane t) of
                   Inl e \<Rightarrow> failed e
                 | Inr seq \<Rightarrow> [Sink (Send (airport_event (TimeStamp doneTime seq) i i ServiceDone
                     (token_bytes pad t)))])))"

definition airport_arrive ::
  "bytes \<Rightarrow> airport_params \<Rightarrow> u32 \<Rightarrow> event \<Rightarrow> token \<Rightarrow> airport \<Rightarrow> airport ctx_call list" where
  "airport_arrive pad p i ev a st =
     (let st = st\<lparr>as_arrivals := as_arrivals st + 1, as_q := as_q st @ [a]\<rparr>;
          st = (if word_of_nat (length (as_q st)) > as_maxQ st
                then st\<lparr>as_maxQ := word_of_nat (length (as_q st))\<rparr> else st)
      in Sink (Become st) # (if \<not> as_runwayBusy st then start_next pad p i (ev_ts ev) st else []))"

text \<open>The destination: any other airport, if there is one.\<close>

definition airport_destination :: "airport_params \<Rightarrow> u32 \<Rightarrow> u64 \<Rightarrow> exn + u32" where
  "airport_destination p i key =
     (if ap_airports p > 1
      then (case rng_u64_range (ap_seed p) i 2 key 0 (ucast (ap_airports p - 2)) 0 of
          Inl e \<Rightarrow> Inl e
        | Inr r \<Rightarrow> let candidate = ucast (1 + r) :: u32 in
            Inr (if candidate \<ge> i then candidate + 1 else candidate))
      else Inr i)"

definition departure_output ::
  "bytes \<Rightarrow> airport_params \<Rightarrow> u32 \<Rightarrow> event \<Rightarrow> token \<Rightarrow> u32 \<Rightarrow> u64 \<Rightarrow> airport ctx_call list" where
  "departure_output pad p i ev a to arriveTime =
     (if ap_emitPlaneMod p \<noteq> 0 \<and> tk_plane a mod ap_emitPlaneMod p = 0
      then [Emit_Committed (ev_ts ev) \<lparr>p_kind = Commit_Departure,
        p_bytes = departure_bytes pad \<lparr>cd_plane = tk_plane a, cd_fromAirport = i, cd_toAirport = to,
          cd_departTime = ts_time (ev_ts ev), cd_arriveTime = arriveTime, cd_logicalKey = tk_logicalKey a\<rparr>\<rparr>]
      else [])"

definition airport_done ::
  "bytes \<Rightarrow> airport_params \<Rightarrow> u32 \<Rightarrow> event \<Rightarrow> token \<Rightarrow> airport \<Rightarrow> airport ctx_call list" where
  "airport_done pad p i ev a st =
     (let st = st\<lparr>as_runwayBusy := False\<rparr>; key = tk_logicalKey a in
      Sink (Become st) #
      (case airport_destination p i key of
         Inl e \<Rightarrow> failed e
       | Inr to \<Rightarrow>
         (case rng_u64_range (ap_seed p) i 3 key 1 (ucast (ap_flightMax p)) 0 of
            Inl e \<Rightarrow> failed e
          | Inr r \<Rightarrow>
            let arriveTime = ts_time (ev_ts ev) + (1 + r);
                nextKey = airport_next_key (ap_seed p) (tk_plane a) i to key;
                st' = st\<lparr>as_departures := as_departures st + 1\<rparr>;
                finish = Sink (Become st') # (if as_q st' \<noteq> [] then start_next pad p i (ev_ts ev) st' else [])
            in departure_output pad p i ev a to arriveTime
               @ (if arriveTime \<le> ap_endTime p
                  then (case airport_seq 0 to (tk_plane a) of
                      Inl e \<Rightarrow> failed e
                    | Inr seq \<Rightarrow> Sink (Send (airport_event (TimeStamp arriveTime seq) i to PlaneArrive
                        (token_bytes pad \<lparr>tk_plane = tk_plane a, tk_logicalKey = nextKey\<rparr>))) # finish)
                  else finish))))"

definition airport_on_event ::
  "bytes \<Rightarrow> airport_params \<Rightarrow> u32 \<Rightarrow> event \<Rightarrow> airport \<Rightarrow> airport ctx_call list" where
  "airport_on_event pad p i ev st =
     Request_Write airport_state_entity #
     (if p_kind (ev_payload ev) = PlaneArrive then
        (case airport_decode ev of Inl e \<Rightarrow> failed e | Inr a \<Rightarrow> airport_arrive pad p i ev a st)
      else if p_kind (ev_payload ev) = ServiceDone then
        (case airport_decode ev of Inl e \<Rightarrow> failed e | Inr a \<Rightarrow> airport_done pad p i ev a st)
      else failed (Runtime_Error ''airport: unexpected event kind''))"

subsection \<open>Snapshots\<close>

definition save_token :: "token \<Rightarrow> bytes \<Rightarrow> bytes" where
  "save_token t w = write_u64 (tk_logicalKey t) (write_u32 (tk_plane t) w)"

definition airport_save_state :: "airport \<Rightarrow> exn + bytes" where
  "airport_save_state st =
     (let w = write_u8 (if as_runwayBusy st then 1 else 0) [];
          w = write_u64 (as_arrivals st) w;
          w = write_u64 (as_departures st) w;
          w = write_u64 (as_maxQ st) w;
          w = write_u32 (word_of_nat (length (as_q st))) w
      in Inr (fold save_token (as_q st) w))"

text \<open>The loop fills the resized queue from position \<open>i\<close> on.\<close>

fun load_tokens :: "nat \<Rightarrow> nat \<Rightarrow> reader \<Rightarrow> (airport, unit) eff" where
  "load_tokens 0 i r = ret ()"
| "load_tokens (Suc k) i r =
     bnd (reading read_u32 r) (\<lambda>(plane, r).
     thn (upd (\<lambda>st. st\<lparr>as_q := (as_q st)[i := (as_q st ! i)\<lparr>tk_plane := plane\<rparr>]\<rparr>))
     (bnd (reading read_u64 r) (\<lambda>(key, r).
      thn (upd (\<lambda>st. st\<lparr>as_q := (as_q st)[i := (as_q st ! i)\<lparr>tk_logicalKey := key\<rparr>]\<rparr>))
      (load_tokens k (Suc i) r))))"

definition airport_load_state :: "bytes \<Rightarrow> (airport, unit) eff" where
  "airport_load_state bs =
     bnd (reading read_u8 (open_reader bs)) (\<lambda>(busy, r).
     thn (upd (\<lambda>st. st\<lparr>as_runwayBusy := (busy \<noteq> 0)\<rparr>))
     (bnd (reading read_u64 r) (\<lambda>(arrivals, r).
     thn (upd (\<lambda>st. st\<lparr>as_arrivals := arrivals\<rparr>))
     (bnd (reading read_u64 r) (\<lambda>(departures, r).
     thn (upd (\<lambda>st. st\<lparr>as_departures := departures\<rparr>))
     (bnd (reading read_u64 r) (\<lambda>(maxQ, r).
     thn (upd (\<lambda>st. st\<lparr>as_maxQ := maxQ\<rparr>))
     (thn (upd (\<lambda>st. st\<lparr>as_q := []\<rparr>))
     (bnd (reading read_u32 r) (\<lambda>(n, r).
     thn (upd (\<lambda>st. st\<lparr>as_q := replicate (unat n) \<lparr>tk_plane = 0, tk_logicalKey = 0\<rparr>\<rparr>))
     (load_tokens (unat n) 0 r)))))))))))"

definition airport_lp :: "bytes \<Rightarrow> airport_params \<Rightarrow> u32 \<Rightarrow> airport lp" where
  "airport_lp pad p i = (default_lp i empty_airport)\<lparr>lp_on_event := airport_on_event pad p i,
     lp_save_state := airport_save_state, lp_load_state := airport_load_state\<rparr>"

subsection \<open>The driver process\<close>

definition seed_plane :: "bytes \<Rightarrow> airport_params \<Rightarrow> u32 \<Rightarrow> u32 \<Rightarrow> airport sink_call" where
  "seed_plane pad p i plane =
     (let airport = 1 + plane mod ap_airports p;
          key = airport_next_key (ap_seed p) plane 0 airport 0
      in case airport_seq 0 airport plane of
           Inl e \<Rightarrow> Fail e
         | Inr seq \<Rightarrow> Send (airport_event (TimeStamp 0 seq) i airport PlaneArrive
             (token_bytes pad \<lparr>tk_plane = plane, tk_logicalKey = key\<rparr>)))"

text \<open>The driver has no state; it shares the type of the airports' one.\<close>

definition driver_lp :: "bytes \<Rightarrow> airport_params \<Rightarrow> u32 \<Rightarrow> airport lp" where
  "driver_lp pad p i = (default_lp i empty_airport)\<lparr>lp_on_start :=
     (\<lambda>_. map (\<lambda>n. seed_plane pad p i (word_of_nat n)) [0..<unat (ap_planes p)])\<rparr>"

subsection \<open>The committed hash\<close>

definition departure_hash :: "commit_departure \<Rightarrow> u64" where
  "departure_hash d =
     (let x = 0;
          x = airport_mix64 x (ucast (cd_plane d));
          x = airport_mix64 x (ucast (cd_fromAirport d));
          x = airport_mix64 x (ucast (cd_toAirport d));
          x = airport_mix64 x (cd_departTime d);
          x = airport_mix64 x (cd_arriveTime d);
          x = airport_mix64 x (cd_logicalKey d)
      in splitmix64 x)"

definition airport_sink :: "u32 \<Rightarrow> u32 \<Rightarrow> timestamp \<Rightarrow> payload \<Rightarrow> (u64, unit) eff" where
  "airport_sink rank lp ts p =
     (if p_kind p \<noteq> Commit_Departure then ret ()
      else if length (p_bytes p) \<noteq> 40 then raise (Runtime_Error ''airport: bad committed payload'')
      else upd (\<lambda>hash. hash XOR departure_hash (departure_of_bytes (p_bytes p))))"

subsection \<open>Command line\<close>

text \<open>The options that take a value; \<open>None\<close> is \<open>usage_and_exit\<close>, which ends with status 2.\<close>

definition airport_option :: "string \<Rightarrow> (string \<Rightarrow> airport_params \<Rightarrow> airport_params option) option" where
  "airport_option a =
     (if a = ''--airports'' then Some (\<lambda>s p. map_option (\<lambda>v. p\<lparr>ap_airports := v\<rparr>) (parse_u32 s))
      else if a = ''--planes'' then Some (\<lambda>s p. map_option (\<lambda>v. p\<lparr>ap_planes := v\<rparr>) (parse_u32 s))
      else if a = ''--end'' then Some (\<lambda>s p. map_option (\<lambda>v. p\<lparr>ap_endTime := v\<rparr>) (parse_u64 s))
      else if a = ''--service-max'' then Some (\<lambda>s p. map_option (\<lambda>v. p\<lparr>ap_serviceMax := v\<rparr>) (parse_u32 s))
      else if a = ''--flight-max'' then Some (\<lambda>s p. map_option (\<lambda>v. p\<lparr>ap_flightMax := v\<rparr>) (parse_u32 s))
      else if a = ''--seed'' then Some (\<lambda>s p. map_option (\<lambda>v. p\<lparr>ap_seed := v\<rparr>) (parse_u64 s))
      else if a = ''--emit-plane-mod'' then Some (\<lambda>s p. map_option (\<lambda>v. p\<lparr>ap_emitPlaneMod := v\<rparr>) (parse_u32 s))
      else if a = ''--expected-hash''
      then Some (\<lambda>s p. map_option (\<lambda>v. p\<lparr>ap_hasExpected := True, ap_expectedHash := v\<rparr>) (parse_u64 s))
      else None)"

fun airport_args :: "string list \<Rightarrow> airport_params \<Rightarrow> airport_params option" where
  "airport_args [] p = Some p"
| "airport_args (a # rest) p =
     (case airport_option a of
        Some assign \<Rightarrow> (case rest of
            [] \<Rightarrow> None
          | s # rest' \<Rightarrow> (case assign s p of None \<Rightarrow> None | Some p' \<Rightarrow> airport_args rest' p'))
      | None \<Rightarrow> if a = ''--verify'' then airport_args rest (p\<lparr>ap_verify := True\<rparr>) else None)"

definition airport_parse_args :: "string list \<Rightarrow> airport_params option" where
  "airport_parse_args argv =
     (case airport_args argv airport_defaults of
        None \<Rightarrow> None
      | Some p \<Rightarrow>
          if ap_airports p = 0 \<or> ap_planes p = 0 \<or> ap_serviceMax p = 0 \<or> ap_flightMax p = 0
          then None else Some p)"

subsection \<open>The program\<close>

text \<open>The driver stays on rank 0, so that the planes are seeded once.\<close>

definition airport_owner :: "u32 \<Rightarrow> u32 \<Rightarrow> u32 \<Rightarrow> u32" where
  "airport_owner nranks driver lp = (if lp = driver then 0 else lp mod nranks)"

definition airport_config :: "airport_params \<Rightarrow> ('n, u64) example_world example_env \<Rightarrow> ('n, u64) example_world config" where
  "airport_config p env =
     distribute env (airport_owner (env_size env) (1 + ap_airports p))
       (default_config\<lparr>c_rank := env_rank env, c_seed := ap_seed p,
          c_committedSink := Some (\<lambda>rank lp ts out. on_sink (airport_sink rank lp ts out))\<rparr>)"

definition airport_ids :: "airport_params \<Rightarrow> 'w config \<Rightarrow> u32 list" where
  "airport_ids p cfg = filter (owns_lp cfg) (map (\<lambda>n. 1 + word_of_nat n) [0..<unat (ap_airports p)])"

definition airport_processes :: "bytes \<Rightarrow> airport_params \<Rightarrow> 'w config \<Rightarrow> airport lp list" where
  "airport_processes pad p cfg = map (airport_lp pad p) (airport_ids p cfg)
     @ (if owns_lp cfg (1 + ap_airports p) then [driver_lp pad p (1 + ap_airports p)] else [])"

definition airport_simulation ::
  "bytes \<Rightarrow> airport_params \<Rightarrow> ('n, u64) example_world config \<Rightarrow> nat \<Rightarrow> nat
    \<Rightarrow> ((airport, ('n, u64) example_world) sim, unit) eff" where
  "airport_simulation pad p cfg fuel pollFuel =
     thn (for_each (\<lambda>lp. add_lp (Some lp)) (airport_processes pad p cfg))
     (run fuel pollFuel)"

text \<open>The totals over this rank's airports (the driver is not among them).\<close>

definition airport_summary ::
  "airport_params \<Rightarrow> 'w config \<Rightarrow> (airport, ('n, u64) example_world) sim \<Rightarrow> u64 \<times> u64 \<times> u64 \<times> u64" where
  "airport_summary p cfg s =
     (let states = map (\<lambda>i. lp_state (cx_lp (the (map_of (m_lps s) i)))) (airport_ids p cfg)
      in (snd (m_world s),
          fold (\<lambda>st t. t + as_arrivals st) states 0,
          fold (\<lambda>st t. t + as_departures st) states 0,
          fold (\<lambda>st m. if as_maxQ st > m then as_maxQ st else m) states 0))"

definition airport_totals ::
  "'w example_env \<Rightarrow> u64 \<times> u64 \<times> u64 \<times> u64 \<Rightarrow> ('w, u64 \<times> u64 \<times> u64 \<times> u64) eff" where
  "airport_totals env = (\<lambda>(hash, arrivals, departures, maxQ).
     bnd (reduce_if env (env_bxor env) hash) (\<lambda>hash.
     bnd (reduce_if env (env_sum env) arrivals) (\<lambda>arrivals.
     bnd (reduce_if env (env_sum env) departures) (\<lambda>departures.
     bnd (reduce_if env (env_max env) maxQ) (\<lambda>maxQ.
     ret (hash, arrivals, departures, maxQ))))))"

definition airport_exit_code :: "airport_params \<Rightarrow> u64 \<Rightarrow> int" where
  "airport_exit_code p globalHash =
     (if ap_verify p
      then if \<not> ap_hasExpected p then 2 else if globalHash \<noteq> ap_expectedHash p then 3 else 0
      else 0)"

definition airport_report :: "airport_params \<Rightarrow> u64 \<times> u64 \<times> u64 \<times> u64 \<Rightarrow> string" where
  "airport_report p = (\<lambda>(hash, arrivals, departures, maxQ).
     ''airport_fujimoto hash='' @ decimal (unat hash) @ '' arrivals='' @ decimal (unat arrivals)
     @ '' departures='' @ decimal (unat departures) @ '' maxQ='' @ decimal (unat maxQ) @ [CHR 0x0A]
     @ (if ap_verify p \<and> airport_exit_code p hash = 0 then ''airport_fujimoto ok'' @ [CHR 0x0A] else []))"

text \<open>What the program prints to standard output on this rank, and its exit status.\<close>

definition airport_main ::
  "bytes \<Rightarrow> ('n, u64) example_world example_env \<Rightarrow> 'n \<Rightarrow> string list \<Rightarrow> nat \<Rightarrow> nat \<Rightarrow> exn + string \<times> int" where
  "airport_main pad env net argv fuel pollFuel =
     (case airport_parse_args argv of
        None \<Rightarrow> Inr ([], 2)
      | Some p \<Rightarrow>
          let cfg = airport_config p env in
          (case new_simulation cfg (Some (env_transport env)) (net, 0) of
            Inl e \<Rightarrow> Inl e
          | Inr s \<Rightarrow> (case airport_simulation pad p cfg fuel pollFuel s of
              (Inl e, _) \<Rightarrow> Inl e
            | (Inr _, t) \<Rightarrow> (case airport_totals env (airport_summary p cfg t) (m_world t) of
                (Inl e, _) \<Rightarrow> Inl e
              | (Inr totals, _) \<Rightarrow> Inr (if env_rank env = 0 then airport_report p totals else [],
                  airport_exit_code p (fst totals))))))"

subsection \<open>Correctness\<close>

lemma airport_writes_before_mutation: "write_before_mutation (airport_on_event pad p i ev st)"
  by (simp add: airport_on_event_def)

text \<open>The snapshot restores every field, whatever the process has become in between.\<close>

lemma save_tokens: "fold save_token ts w = w @ concat (map (\<lambda>t. save_token t []) ts)"
  by (induction ts arbitrary: w) (simp_all add: save_token_def write_u32_le write_u64_le)

lemma token_overwritten: "(x :: token)\<lparr>tk_plane := tk_plane t, tk_logicalKey := tk_logicalKey t\<rparr> = t"
  by (cases t; cases x) simp

lemma load_tokens_run:
  assumes "as_q st = done_part @ replicate (length ts) blank"
  shows "load_tokens (length ts) (length done_part)
      \<lparr>r_bytes = pre @ concat (map (\<lambda>t. save_token t []) ts), r_pos = length pre\<rparr> st
    = (Inr (), st\<lparr>as_q := done_part @ ts\<rparr>)"
  using assms
proof (induction ts arbitrary: st done_part pre)
  case (Cons t ts)
  let ?rest = "concat (map (\<lambda>t. save_token t []) ts)"
  let ?bs = "pre @ write_u32 (tk_plane t) [] @ write_u64 (tk_logicalKey t) [] @ ?rest"
  have bytes: "pre @ concat (map (\<lambda>t. save_token t []) (t # ts)) = ?bs"
    by (simp add: save_token_def write_u64_le)
  have r1: "reading read_u32 \<lparr>r_bytes = ?bs, r_pos = length pre\<rparr> u
      = (Inr (tk_plane t, \<lparr>r_bytes = ?bs, r_pos = length pre + 4\<rparr>), u)" for u :: airport
    using u32_codec.reading_put [where x = "tk_plane t" and pos = "length pre" and pre = pre and post = "write_u64 (tk_logicalKey t) [] @ ?rest"] by simp
  have r2: "reading read_u64 \<lparr>r_bytes = ?bs, r_pos = length pre + 4\<rparr> u
      = (Inr (tk_logicalKey t, \<lparr>r_bytes = ?bs, r_pos = length pre + 12\<rparr>), u)" for u :: airport
    using u64_codec.reading_put [where x = "tk_logicalKey t" and pos = "length pre + 4" and pre = "pre @ write_u32 (tk_plane t) []"
        and post = ?rest] by (simp add: add.commute)
  let ?st = "st\<lparr>as_q := (done_part @ [t]) @ replicate (length ts) blank\<rparr>"
  have "load_tokens (length ts) (length (done_part @ [t]))
      \<lparr>r_bytes = (pre @ write_u32 (tk_plane t) [] @ write_u64 (tk_logicalKey t) []) @ ?rest,
        r_pos = length (pre @ write_u32 (tk_plane t) [] @ write_u64 (tk_logicalKey t) [])\<rparr> ?st
    = (Inr (), ?st\<lparr>as_q := (done_part @ [t]) @ ts\<rparr>)"
    by (rule Cons.IH) simp
  then show ?case
    unfolding bytes using Cons.prems
    by (simp add: r1 r2 thn_def nth_append list_update_append token_overwritten)
qed simp

definition airport_saveable :: "airport \<Rightarrow> bool" where
  "airport_saveable st \<longleftrightarrow> length (as_q st) < 2 ^ 32"

interpretation airport_snapshots: snapshot_lp airport_save_state airport_load_state airport_saveable
proof
  fix st st' :: airport and bs
  assume ok: "airport_saveable st" and "airport_save_state st = Inr bs"
  obtain b :: u8 where b: "b = (if as_runwayBusy st then 1 else 0)" by blast
  let ?n = "word_of_nat (length (as_q st)) :: u32"
  let ?toks = "concat (map (\<lambda>t. save_token t []) (as_q st))"
  let ?B = "write_u8 b []" and ?A = "write_u64 (as_arrivals st) []" and ?D = "write_u64 (as_departures st) []"
  let ?M = "write_u64 (as_maxQ st) []" and ?N = "write_u32 ?n []"
  have bs: "bs = ?B @ ?A @ ?D @ ?M @ ?N @ ?toks"
    using \<open>airport_save_state st = Inr bs\<close>
    by (simp add: airport_save_state_def Let_def save_tokens codec_puts b)
  have n: "unat ?n = length (as_q st)" using ok by (simp add: airport_saveable_def unat_of_nat take_bit_nat_eq_self)
  have busy: "(b \<noteq> 0) = as_runwayBusy st" by (simp add: b)
  have r1: "reading read_u8 (open_reader bs) u = (Inr (b, \<lparr>r_bytes = bs, r_pos = Suc 0\<rparr>), u)" for u :: airport
    using u8_codec.reading_put [where x = b and pos = 0 and pre = "[]" and post = "?A @ ?D @ ?M @ ?N @ ?toks"] by (simp add: bs open_reader_def)
  have r2: "reading read_u64 \<lparr>r_bytes = bs, r_pos = Suc 0\<rparr> u = (Inr (as_arrivals st, \<lparr>r_bytes = bs, r_pos = 9\<rparr>), u)" for u :: airport
    using u64_codec.reading_put [where x = "as_arrivals st" and pos = "Suc 0" and pre = ?B and post = "?D @ ?M @ ?N @ ?toks"] by (simp add: bs)
  have r3: "reading read_u64 \<lparr>r_bytes = bs, r_pos = 9\<rparr> u = (Inr (as_departures st, \<lparr>r_bytes = bs, r_pos = 17\<rparr>), u)" for u :: airport
    using u64_codec.reading_put [where x = "as_departures st" and pos = 9 and pre = "?B @ ?A" and post = "?M @ ?N @ ?toks"] by (simp add: bs)
  have r4: "reading read_u64 \<lparr>r_bytes = bs, r_pos = 17\<rparr> u = (Inr (as_maxQ st, \<lparr>r_bytes = bs, r_pos = 25\<rparr>), u)" for u :: airport
    using u64_codec.reading_put [where x = "as_maxQ st" and pos = 17 and pre = "?B @ ?A @ ?D" and post = "?N @ ?toks"] by (simp add: bs)
  have r5: "reading read_u32 \<lparr>r_bytes = bs, r_pos = 25\<rparr> u = (Inr (?n, \<lparr>r_bytes = bs, r_pos = 29\<rparr>), u)" for u :: airport
    using u32_codec.reading_put [where x = ?n and pos = 25 and pre = "?B @ ?A @ ?D @ ?M" and post = ?toks] by (simp add: bs)
  have toks: "load_tokens (length (as_q st)) 0 \<lparr>r_bytes = bs, r_pos = 29\<rparr> u = (Inr (), u\<lparr>as_q := as_q st\<rparr>)"
    if "as_q u = replicate (length (as_q st)) \<lparr>tk_plane = 0, tk_logicalKey = 0\<rparr>" for u
    using load_tokens_run [where st = u and done_part = "[]" and ts = "as_q st"
        and blank = "\<lparr>tk_plane = 0, tk_logicalKey = 0\<rparr>" and pre = "?B @ ?A @ ?D @ ?M @ ?N"] that by (simp add: bs)
  show "airport_load_state bs st' = (Inr (), st)"
    by (simp add: airport_load_state_def thn_def r1 r2 r3 r4 r5 n toks busy)
qed (simp add: airport_save_state_def)

subsection \<open>What an event does\<close>

text \<open>Parameters the command line accepts, with room for every delay behind the end time.\<close>

definition airport_params_ok :: "airport_params \<Rightarrow> bool" where
  "airport_params_ok p \<longleftrightarrow> 0 < ap_airports p \<and> 0 < ap_serviceMax p \<and> 0 < ap_flightMax p
     \<and> unat (ap_endTime p) + unat (ap_serviceMax p) + 1 < 2 ^ 64
     \<and> unat (ap_endTime p) + unat (ap_flightMax p) + 1 < 2 ^ 64"

lemma airport_seq_ok: "plane < 0x40000000 \<Longrightarrow> \<exists>seq. airport_seq k dst plane = Inr seq"
  by (simp add: airport_seq_def not_le)

lemma start_next_empty: "as_q st = [] \<Longrightarrow> start_next pad p i now st = []"
  by (simp add: start_next_def)

lemma start_next_cases:
  assumes "airport_params_ok p" and "ts_time now \<le> ap_endTime p"
  obtains (idle) "start_next pad p i now st = []" "as_runwayBusy st \<or> as_q st = []"
  | (late) t q where "as_q st = t # q" "\<not> as_runwayBusy st"
      "start_next pad p i now st = [Sink (Become (st\<lparr>as_q := q, as_runwayBusy := True\<rparr>)),
         Sink (Become (st\<lparr>as_q := q, as_runwayBusy := False\<rparr>))]"
      "unat (ap_endTime p) < unat (ts_time now) + unat (ap_serviceMax p) + 1"
  | (too_large) t q e where "as_q st = t # q" "\<not> as_runwayBusy st" "\<not> tk_plane t < 0x40000000"
      "start_next pad p i now st = [Sink (Become (st\<lparr>as_q := q, as_runwayBusy := True\<rparr>)), Sink (Fail e)]"
  | (served) t q doneTime seq where "as_q st = t # q" "\<not> as_runwayBusy st"
      "ts_time now < doneTime" "doneTime \<le> ap_endTime p"
      "start_next pad p i now st = [Sink (Become (st\<lparr>as_q := q, as_runwayBusy := True\<rparr>)),
         Sink (Send (airport_event (TimeStamp doneTime seq) i i ServiceDone (token_bytes pad t)))]"
proof (cases "as_runwayBusy st \<or> as_q st = []")
  case True
  then show thesis by (intro idle) (auto simp: start_next_def)
next
  case False
  then obtain t q where q: "as_q st = t # q" and busy: "\<not> as_runwayBusy st" by (auto simp: neq_Nil_conv)
  obtain r where r: "range_of (rng_u64 (ap_seed p) i 1 (tk_logicalKey t) 0) 1 (ucast (ap_serviceMax p)) = Inr r"
    and le: "r \<le> ucast (ap_serviceMax p)"
    using assms(1) range_of_delay [of "ap_serviceMax p"] unfolding airport_params_ok_def by metis
  let ?d = "ts_time now + (1 + r)"
  have bound: "unat r \<le> unat (ap_serviceMax p)" using le by (simp add: word_le_nat_alt)
  have "unat (ts_time now) + unat r + 1 < 2 ^ 64"
    using bound assms unfolding airport_params_ok_def word_le_nat_alt by linarith
  note later = after_delay [OF this]
  note unfolded = start_next_def q busy rng_u64_range_def r Let_def failed_def
  show thesis
  proof (cases "?d > ap_endTime p")
    case True
    then have "unat (ap_endTime p) < unat (ts_time now) + unat (ap_serviceMax p) + 1"
      using bound later(2) unfolding word_less_nat_alt by linarith
    then show thesis using True by (intro late [OF q busy]) (simp_all add: unfolded)
  next
    case in_time: False
    show thesis
    proof (cases "airport_seq 1 i (tk_plane t)")
      case (Inl e)
      then have "\<not> tk_plane t < 0x40000000" using airport_seq_ok [of "tk_plane t" 1 i] by auto
      then show thesis using Inl in_time by (intro too_large [OF q busy]) (simp_all add: unfolded)
    next
      case (Inr seq)
      then show thesis using in_time later(1) by (intro served [OF q busy]) (simp_all add: unfolded)
    qed
  qed
qed

text \<open>The destination is another airport, if there is one.\<close>

lemma airport_destination_ok:
  assumes "0 < ap_airports p" and "1 \<le> i" and "i \<le> ap_airports p"
  obtains dst where "airport_destination p i key = Inr dst" "1 \<le> dst" "dst \<le> ap_airports p"
    "ap_airports p > 1 \<longrightarrow> dst \<noteq> i"
proof (cases "ap_airports p > 1")
  case False
  then show thesis using assms that [of i] by (simp add: airport_destination_def)
next
  case True
  let ?n = "ap_airports p"
  let ?hi = "ucast (?n - 2) :: u64"
  have n: "2 \<le> unat ?n" "unat ?n < 2 ^ 32"
    using True unsigned_less [of ?n, where ?'a = nat] by (simp_all add: word_less_nat_alt)
  have sub: "unat (?n - 2) = unat ?n - 2"
    using n(1) by (subst unat_sub) (simp_all add: word_le_nat_alt)
  have "?hi - 0 \<noteq> - 1"
  proof
    assume "?hi - 0 = - 1"
    then have "unat ?hi = unat (- 1 :: u64)" by simp
    then show False using sub n by (simp add: unsigned_minus_1_eq_mask mask_eq_exp_minus_1)
  qed
  then obtain r where r: "range_of (rng_u64 (ap_seed p) i 2 key 0) 0 ?hi = Inr r" "r \<le> ?hi"
    using range_of_draw [of 0 ?hi] by (metis word_zero_le)
  let ?c = "ucast (1 + r) :: u32"
  have ur: "unat r \<le> unat ?n - 2" using r(2) sub by (simp add: word_le_nat_alt)
  then have "unat (1 + r) = 1 + unat r" using n by (subst unat_add_lem [THEN iffD1]) simp_all
  then have c: "unat ?c = 1 + unat r"
    using ur n by (simp add: unsigned_ucast_eq take_bit_nat_eq_self)
  have i: "1 \<le> unat i" "unat i \<le> unat ?n" using assms by (simp_all add: word_le_nat_alt)
  have dst: "airport_destination p i key = Inr (if ?c \<ge> i then ?c + 1 else ?c)"
    using True r(1) by (simp add: airport_destination_def rng_u64_range_def Let_def)
  show thesis
  proof (cases "?c \<ge> i")
    case ge: True
    have "unat (?c + 1) = 2 + unat r" using c ur n by (subst unat_add_lem [THEN iffD1]) simp_all
    moreover from this have "?c + 1 \<noteq> i" using ge c unfolding word_le_nat_alt by auto
    ultimately show thesis using that [OF dst] ge ur n c i by (auto simp: word_le_nat_alt word_less_nat_alt)
  next
    case lt: False
    moreover from this have "?c \<noteq> i" by auto
    ultimately show thesis using that [OF dst] ur n c i by (auto simp: word_le_nat_alt word_less_nat_alt)
  qed
qed

text \<open>The steps of a completed service.\<close>

lemma airport_done_cases:
  assumes "airport_params_ok p" and "1 \<le> i" and "i \<le> ap_airports p" and "ts_time (ev_ts ev) \<le> ap_endTime p"
  obtains dst arriveTime st2 sent where
    "1 \<le> dst" "dst \<le> ap_airports p" "ap_airports p > 1 \<longrightarrow> dst \<noteq> i"
    "ts_time (ev_ts ev) < arriveTime"
    "unat arriveTime \<le> unat (ts_time (ev_ts ev)) + unat (ap_flightMax p) + 1"
    "st2 = st\<lparr>as_runwayBusy := False, as_departures := as_departures st + 1\<rparr>"
    "airport_done pad p i ev a st = Sink (Become (st\<lparr>as_runwayBusy := False\<rparr>))
       # departure_output pad p i ev a dst arriveTime @ sent"
    "arriveTime \<le> ap_endTime p \<Longrightarrow> \<not> tk_plane a < 0x40000000 \<Longrightarrow> \<exists>e. sent = [Sink (Fail e)]"
    "\<not> arriveTime \<le> ap_endTime p \<Longrightarrow> sent = Sink (Become st2) # start_next pad p i (ev_ts ev) st2"
    "arriveTime \<le> ap_endTime p \<Longrightarrow> tk_plane a < 0x40000000 \<Longrightarrow> \<exists>seq key.
       sent = Sink (Send (airport_event (TimeStamp arriveTime seq) i dst PlaneArrive
           (token_bytes pad \<lparr>tk_plane = tk_plane a, tk_logicalKey = key\<rparr>)))
         # Sink (Become st2) # start_next pad p i (ev_ts ev) st2"
proof -
  have pos: "0 < ap_airports p" "0 < ap_flightMax p" using assms(1) by (simp_all add: airport_params_ok_def)
  obtain dst where dst: "airport_destination p i (tk_logicalKey a) = Inr dst" "1 \<le> dst"
      "dst \<le> ap_airports p" "ap_airports p > 1 \<longrightarrow> dst \<noteq> i"
    using airport_destination_ok [OF pos(1) assms(2,3)] by metis
  obtain v where v: "range_of (rng_u64 (ap_seed p) i 3 (tk_logicalKey a) 0) 1 (ucast (ap_flightMax p)) = Inr v"
    and le: "v \<le> ucast (ap_flightMax p)"
    using range_of_delay [OF pos(2)] by metis
  let ?t = "ts_time (ev_ts ev) + (1 + v)"
  let ?st = "st\<lparr>as_runwayBusy := False\<rparr>"
  let ?st' = "st\<lparr>as_runwayBusy := False, as_departures := as_departures st + 1\<rparr>"
  have bound: "unat v \<le> unat (ap_flightMax p)" using le by (simp add: word_le_nat_alt)
  have "unat (ts_time (ev_ts ev)) + unat v + 1 < 2 ^ 64"
    using bound assms unfolding airport_params_ok_def word_le_nat_alt by linarith
  note later = after_delay [OF this]
  let ?key = "airport_next_key (ap_seed p) (tk_plane a) i dst (tk_logicalKey a)"
  let ?finish = "Sink (Become ?st') # start_next pad p i (ev_ts ev) ?st'"
  let ?sent = "if ?t \<le> ap_endTime p then (case airport_seq 0 dst (tk_plane a) of Inl e \<Rightarrow> failed e
    | Inr seq \<Rightarrow> Sink (Send (airport_event (TimeStamp ?t seq) i dst PlaneArrive
        (token_bytes pad \<lparr>tk_plane = tk_plane a, tk_logicalKey = ?key\<rparr>))) # ?finish) else ?finish"
  show thesis
  proof (rule that [OF dst(2-4) later(1), of ?st' "?sent"])
    show "unat ?t \<le> unat (ts_time (ev_ts ev)) + unat (ap_flightMax p) + 1" using later(2) bound by simp
    show "airport_done pad p i ev a st
        = Sink (Become ?st) # departure_output pad p i ev a dst ?t @ ?sent"
      by (simp add: airport_done_def dst(1) rng_u64_range_def v Let_def start_next_empty split: sum.split)
  next
    assume "?t \<le> ap_endTime p" "\<not> tk_plane a < 0x40000000"
    then show "\<exists>e. ?sent = [Sink (Fail e)]" by (simp add: airport_seq_def failed_def not_less)
  next
    assume "?t \<le> ap_endTime p" "tk_plane a < 0x40000000"
    then show "\<exists>seq key. ?sent = Sink (Send (airport_event (TimeStamp ?t seq) i dst PlaneArrive
        (token_bytes pad \<lparr>tk_plane = tk_plane a, tk_logicalKey = key\<rparr>))) # ?finish"
      using airport_seq_ok [of "tk_plane a" 0 dst] by fastforce
  qed simp_all
qed

lemma airport_event_fields [simp]:
  "ev_ts (airport_event ts src dst kind bs) = ts" "ev_src (airport_event ts src dst kind bs) = src"
  "ev_dst (airport_event ts src dst kind bs) = dst"
  "ev_payload (airport_event ts src dst kind bs) = \<lparr>p_kind = kind, p_bytes = bs\<rparr>"
  by (simp_all add: airport_event_def)

text \<open>The calls that send nothing.\<close>

lemma departure_output_facts [simp]:
  "Sink c \<notin> set (departure_output pad p i ev a dst t)"
  "sends_of (departure_output pad p i ev a dst t) = []"
  "final_state (departure_output pad p i ev a dst t @ cs) st = final_state cs st"
  by (simp_all add: departure_output_def)

lemma start_next_advances:
  assumes "airport_params_ok p" and "ts_time now \<le> ap_endTime p"
    and "Sink (Send e) \<in> set (start_next pad p i now st)"
  shows "ts_time now < ts_time (ev_ts e) \<and> ts_time (ev_ts e) \<le> ap_endTime p \<and> ev_src e = i
    \<and> p_kind (ev_payload e) = ServiceDone \<and> ev_dst e = i"
  using assms(3) by (rule_tac start_next_cases [OF assms(1,2), of pad i st]) auto

text \<open>
  What an airport sends lies in the future and within the horizon, and goes to itself, to
  end a service, or to another airport.
\<close>

lemma airport_advances:
  assumes "airport_params_ok p" and "1 \<le> i" and "i \<le> ap_airports p" and "ts_time (ev_ts ev) \<le> ap_endTime p"
    and "Sink (Send e) \<in> set (airport_on_event pad p i ev st)"
  shows "ts_time (ev_ts ev) < ts_time (ev_ts e) \<and> ts_time (ev_ts e) \<le> ap_endTime p \<and> ev_src e = i
    \<and> (p_kind (ev_payload e) = ServiceDone \<and> ev_dst e = i
       \<or> p_kind (ev_payload e) = PlaneArrive \<and> 1 \<le> ev_dst e \<and> ev_dst e \<le> ap_airports p
         \<and> (ap_airports p > 1 \<longrightarrow> ev_dst e \<noteq> i))"
proof -
  note start = start_next_advances [OF assms(1,4)]
  from assms(5) consider (arrive) a where "Sink (Send e) \<in> set (airport_arrive pad p i ev a st)"
    | (finish) a where "Sink (Send e) \<in> set (airport_done pad p i ev a st)"
    by (auto simp: airport_on_event_def failed_def split: if_splits sum.splits)
  then show ?thesis
  proof cases
    case arrive
    then show ?thesis by (auto simp: airport_arrive_def Let_def split: if_splits dest: start)
  next
    case finish
    then show ?thesis
    proof (rule_tac airport_done_cases [OF assms(1-4), where pad = pad and st = st and a = a], goal_cases)
      case (1 dst arriveTime st2 sent)
      from 1(1,8) have "Sink (Send e) \<in> set sent" by simp
      then have "Sink (Send e) \<in> set (start_next pad p i (ev_ts ev) st2)
          \<or> arriveTime \<le> ap_endTime p \<and> (\<exists>seq bs. e = airport_event (TimeStamp arriveTime seq) i dst PlaneArrive bs)"
        using 1(9-11) by (cases "arriveTime \<le> ap_endTime p"; cases "tk_plane a < 0x40000000") auto
      then show ?case
      proof (elim disjE conjE exE)
        assume "Sink (Send e) \<in> set (start_next pad p i (ev_ts ev) st2)"
        then show ?case using start by blast
      next
        fix seq bs
        assume "arriveTime \<le> ap_endTime p" "e = airport_event (TimeStamp arriveTime seq) i dst PlaneArrive bs"
        then show ?case using 1(2-5) by simp
      qed
    qed
  qed
qed

subsection \<open>Conservation\<close>

definition sent_plane :: "event \<Rightarrow> u32" where
  "sent_plane e = tk_plane (token_of_bytes (p_bytes (ev_payload e)))"

text \<open>Time enough for any service and any flight before the end.\<close>

definition within_horizon :: "airport_params \<Rightarrow> timestamp \<Rightarrow> bool" where
  "within_horizon p now \<longleftrightarrow> unat (ts_time now) + unat (ap_serviceMax p) + 1 \<le> unat (ap_endTime p)
     \<and> unat (ts_time now) + unat (ap_flightMax p) + 1 \<le> unat (ap_endTime p)"

text \<open>
  The planes of \<open>before\<close>, queued or just handled, are the queued and the sent ones after the
  calls; no call throws.
\<close>

definition planes_kept :: "u32 multiset \<Rightarrow> airport \<Rightarrow> airport ctx_call list \<Rightarrow> bool" where
  "planes_kept before st cs \<longleftrightarrow>
     image_mset tk_plane (mset (as_q (final_state cs st))) + image_mset sent_plane (mset (sends_of cs)) = before
     \<and> (\<forall>e. Sink (Fail e) \<notin> set cs)"

text \<open>
  The runway is busy exactly while one service is on its way: the process was serving and
  the event has not ended that, or the calls send a new \<open>ServiceDone\<close>.
\<close>

definition services :: "airport ctx_call list \<Rightarrow> nat" where
  "services cs = length (filter (\<lambda>e. p_kind (ev_payload e) = ServiceDone) (sends_of cs))"

lemma sent_plane_token [simp]:
  "length pad = 4 \<Longrightarrow> sent_plane (airport_event ts src dst kind (token_bytes pad t)) = tk_plane t"
  by (simp add: sent_plane_def token_layout.get_put_exact)

lemma start_next_in_time:
  assumes "airport_params_ok p" and "within_horizon p now" and "length pad = 4"
    and "\<not> as_runwayBusy st" and "\<forall>t \<in> set (as_q st). tk_plane t < 0x40000000"
    and cs: "cs = start_next pad p i now st" and st': "st' = final_state cs st"
  shows "planes_kept (image_mset tk_plane (mset (as_q st))) st cs
    \<and> services cs = of_bool (as_runwayBusy st')
    \<and> (as_q st' \<noteq> [] \<longrightarrow> as_runwayBusy st') \<and> length (as_q st') \<le> length (as_q st)
    \<and> as_arrivals st' = as_arrivals st \<and> as_departures st' = as_departures st \<and> as_maxQ st' = as_maxQ st"
proof -
  have "ts_time now \<le> ap_endTime p" using assms(2) by (simp add: within_horizon_def word_le_nat_alt)
  then show ?thesis
    using assms(2-5)
    by (rule_tac start_next_cases [OF assms(1), of now pad i st])
      (auto simp: cs st' planes_kept_def services_def within_horizon_def)
qed

text \<open>The effect of an arrival and of a completed service, before the next service starts.\<close>

lemma airport_arrive_in_time:
  assumes "airport_params_ok p" and "within_horizon p (ev_ts ev)" and "length pad = 4"
    and "\<forall>t \<in> set (a # as_q st). tk_plane t < 0x40000000"
    and cs: "cs = airport_arrive pad p i ev a st" and st': "st' = final_state cs st"
  shows "planes_kept (image_mset tk_plane (mset (as_q st)) + {#tk_plane a#}) st cs
    \<and> of_bool (as_runwayBusy st') = services cs + of_bool (as_runwayBusy st)
    \<and> (as_q st' \<noteq> [] \<longrightarrow> as_runwayBusy st')
    \<and> as_arrivals st' = as_arrivals st + 1 \<and> as_departures st' = as_departures st
    \<and> (length (as_q st) < 2 ^ 63 \<longrightarrow> length (as_q st) \<le> unat (as_maxQ st) \<longrightarrow> length (as_q st') \<le> unat (as_maxQ st'))"
proof -
  let ?st = "st\<lparr>as_arrivals := as_arrivals st + 1, as_q := as_q st @ [a],
    as_maxQ := (if word_of_nat (length (as_q st @ [a])) > as_maxQ st
      then word_of_nat (length (as_q st @ [a])) else as_maxQ st)\<rparr>"
  have cs': "cs = Sink (Become ?st) # (if as_runwayBusy st then [] else start_next pad p i (ev_ts ev) ?st)"
    by (simp add: cs airport_arrive_def Let_def)
  have maxQ: "length (as_q st) + 1 \<le> unat (as_maxQ ?st)" if "length (as_q st) < 2 ^ 63"
  proof -
    have "unat (word_of_nat (Suc (length (as_q st))) :: u64) = Suc (length (as_q st))"
      using that by (simp only: unat_of_nat) (simp add: take_bit_nat_eq_self)
    then show ?thesis by (auto simp: word_less_nat_alt not_less)
  qed
  show ?thesis
  proof (cases "as_runwayBusy st")
    case True
    then show ?thesis using maxQ by (simp add: cs' st' planes_kept_def services_def)
  next
    case False
    have "\<not> as_runwayBusy ?st" "\<forall>t \<in> set (as_q ?st). tk_plane t < 0x40000000" using False assms(4) by auto
    from start_next_in_time [OF assms(1-3) this refl refl, of i] show ?thesis
      using False maxQ by (auto simp: cs' st' planes_kept_def services_def)
  qed
qed

lemma airport_done_in_time:
  assumes "airport_params_ok p" and "1 \<le> i" and "i \<le> ap_airports p" and "within_horizon p (ev_ts ev)"
    and "length pad = 4" and "\<forall>t \<in> set (a # as_q st). tk_plane t < 0x40000000"
    and cs: "cs = airport_done pad p i ev a st" and st': "st' = final_state cs st"
  shows "planes_kept (image_mset tk_plane (mset (as_q st)) + {#tk_plane a#}) st cs
    \<and> of_bool (as_runwayBusy st') = services cs
    \<and> (as_q st' \<noteq> [] \<longrightarrow> as_runwayBusy st')
    \<and> as_arrivals st' = as_arrivals st \<and> as_departures st' = as_departures st + 1
    \<and> as_maxQ st' = as_maxQ st \<and> length (as_q st') \<le> length (as_q st)"
proof -
  have "ts_time (ev_ts ev) \<le> ap_endTime p" using assms(4) by (simp add: within_horizon_def word_le_nat_alt)
  then show ?thesis
  proof (rule_tac airport_done_cases [OF assms(1-3), where ev = ev and pad = pad and st = st and a = a], goal_cases)
    case (2 dst arriveTime st2 sent)
    have "arriveTime \<le> ap_endTime p" using 2(6) assms(4) by (simp add: within_horizon_def word_le_nat_alt)
    then obtain seq key where sent: "sent = Sink (Send (airport_event (TimeStamp arriveTime seq) i dst PlaneArrive
        (token_bytes pad \<lparr>tk_plane = tk_plane a, tk_logicalKey = key\<rparr>))) # Sink (Become st2)
        # start_next pad p i (ev_ts ev) st2"
      using 2(11) assms(6) by auto
    have "\<not> as_runwayBusy st2" "\<forall>t \<in> set (as_q st2). tk_plane t < 0x40000000"
      using 2(7) assms(6) by auto
    from start_next_in_time [OF assms(1,4,5) this refl refl, of i] show ?case
      using assms(5)
      by (auto simp: cs st' 2(7) 2(8) sent planes_kept_def services_def PlaneArrive_def ServiceDone_def)
  qed
qed

text \<open>
  An event before the horizon loses no plane and makes none; the runway is busy exactly
  while a service is under way, and never idle while planes wait; the counters count.
\<close>

lemma airport_conserves:
  assumes "airport_params_ok p" and "1 \<le> i" and "i \<le> ap_airports p" and "within_horizon p (ev_ts ev)"
    and "length pad = 4" and "airport_decode ev = Inr a" and "\<forall>t \<in> set (a # as_q st). tk_plane t < 0x40000000"
    and kind: "p_kind (ev_payload ev) = PlaneArrive \<or> p_kind (ev_payload ev) = ServiceDone"
    and cs: "cs = airport_on_event pad p i ev st" and st': "st' = final_state cs st"
  shows "planes_kept (image_mset tk_plane (mset (as_q st)) + {#tk_plane a#}) st cs
    \<and> of_bool (as_runwayBusy st') = services cs + of_bool (p_kind (ev_payload ev) = PlaneArrive \<and> as_runwayBusy st)
    \<and> (as_q st' \<noteq> [] \<longrightarrow> as_runwayBusy st')
    \<and> as_arrivals st' = as_arrivals st + of_bool (p_kind (ev_payload ev) = PlaneArrive)
    \<and> as_departures st' = as_departures st + of_bool (p_kind (ev_payload ev) = ServiceDone)
    \<and> (length (as_q st) < 2 ^ 63 \<longrightarrow> length (as_q st) \<le> unat (as_maxQ st) \<longrightarrow> length (as_q st') \<le> unat (as_maxQ st'))"
proof (cases "p_kind (ev_payload ev) = PlaneArrive")
  case True
  then have k: "p_kind (ev_payload ev) \<noteq> ServiceDone" by (simp add: PlaneArrive_def ServiceDone_def)
  have cs': "cs = Request_Write airport_state_entity # airport_arrive pad p i ev a st"
    using True assms(6) by (simp add: cs airport_on_event_def)
  from airport_arrive_in_time [OF assms(1,4,5,7) refl refl, of i]
  show ?thesis using True k by (auto simp: cs' st' planes_kept_def services_def)
next
  case False
  then have k: "p_kind (ev_payload ev) = ServiceDone" using kind by blast
  have cs': "cs = Request_Write airport_state_entity # airport_done pad p i ev a st"
    using False k assms(6) by (simp add: cs airport_on_event_def)
  from airport_done_in_time [OF assms(1-5,7) refl refl] show ?thesis
    using False k by (auto simp: cs' st' planes_kept_def services_def)
qed

subsection \<open>Sequence numbers\<close>

text \<open>
  The layout: two bits for the class, the destination from bit 30 on, the plane plus one in the
  low bits. It tells the three apart as long as the plane plus one fits in 30 bits.
\<close>

lemma airport_seq_bits:
  assumes "airport_seq k dst plane = Inr seq" and "plane < 0x3FFFFFFF"
  shows "take_bit 30 seq = ucast (plane + 1)" and "take_bit 32 (drop_bit 30 seq) = ucast dst"
    and "drop_bit 62 seq = ucast (k AND 3)"
proof -
  have seq: "seq = push_bit 62 (ucast (k AND 3)) OR push_bit 30 (ucast dst) OR ucast (plane + 1)"
    using assms(1) by (simp add: airport_seq_def split: if_splits)
  have "unat plane < 0x3FFFFFFF" using assms(2) by (simp add: word_less_nat_alt)
  moreover from this have "unat (plane + 1) = unat plane + 1"
    by (subst unat_add_lem [THEN iffD1]) simp_all
  ultimately have "unat (plane + 1) < 2 ^ 30" by simp
  then have "take_bit 30 (plane + 1) = plane + 1"
    by (intro word_unat_eq_iff [THEN iffD2]) (simp add: unsigned_take_bit_eq take_bit_nat_eq_self)
  then have low: "n < 30" if "bit (plane + 1) n" for n
    using that by (metis bit_take_bit_iff)
  have k: "n < 2" if "bit (k AND 3) n" for n
  proof -
    have "k AND 3 = take_bit 2 k" by (simp add: take_bit_eq_mask mask_eq_exp_minus_1)
    then show ?thesis using that by (simp add: bit_take_bit_iff)
  qed
  show "take_bit 30 seq = ucast (plane + 1)"
    using low by (intro bit_eqI) (auto simp: seq bit_simps)
  show "take_bit 32 (drop_bit 30 seq) = ucast dst"
    using low k by (intro bit_eqI) (auto simp: seq bit_simps dest: bit_imp_le_length)
  show "drop_bit 62 seq = ucast (k AND 3)"
    using low k by (intro bit_eqI) (auto simp: seq bit_simps dest: bit_imp_le_length)
qed

lemma airport_seq_inj:
  assumes "airport_seq k dst plane = Inr seq" and "airport_seq k' dst' plane' = Inr seq"
    and "plane < 0x3FFFFFFF" and "plane' < 0x3FFFFFFF"
  shows "k AND 3 = k' AND 3 \<and> dst = dst' \<and> plane = plane'"
  using airport_seq_bits [OF assms(1,3)] airport_seq_bits [OF assms(2,4)] by simp

subsection \<open>The committed hash\<close>

definition departure_contribution :: "payload \<Rightarrow> u64" where
  "departure_contribution p =
     (if p_kind p = Commit_Departure then departure_hash (departure_of_bytes (p_bytes p)) else 0)"

interpretation airport_hash: xor_sink airport_sink departure_contribution
    "\<lambda>p. p_kind p = Commit_Departure \<longrightarrow> length (p_bytes p) = 40"
  by unfold_locales (auto simp: airport_sink_def departure_contribution_def)

end
