(* ===== verification/Phold.thy ===== *)
theory Phold
  imports Models Aoi
begin

text \<open>
  The PHOLD benchmark (\<open>src/examples/phold_mpi.cpp\<close>): processes that pass pulses on to each
  other. Each pulse is handled by sending at most one later pulse. The doubles of its
  parameters are their representations, as in \<open>Aoi\<close>; the arithmetic, \<open>std::stod\<close> and the
  conversions are parameters.
\<close>

subsection \<open>Parameters\<close>

record phold_fp = fp +
  fp_neg :: "double \<Rightarrow> double"
  fp_log :: "double \<Rightarrow> double"
  fp_floor :: "double \<Rightarrow> double"
  fp_of_unit :: "rat \<Rightarrow> double"
  fp_to_u64 :: "double \<Rightarrow> u64 option"
  fp_stod :: "string \<Rightarrow> (double \<times> nat) option"

text \<open>
  \<open>fp_of_unit\<close> is the double of a number that has one exactly; \<open>fp_to_u64\<close> is the cast, \<open>None\<close>
  where it is undefined; \<open>fp_stod\<close> is \<open>std::stod\<close> with the number of characters it reads,
  \<open>None\<close> where it throws. The literals of the program:
\<close>

definition double_0 :: double where "double_0 = 0"
definition double_1 :: double where "double_1 = 0x3FF0000000000000"
definition double_min :: double where "double_min = 0x0010000000000000"

definition KindPulse :: u32 where "KindPulse = 8001"
definition KindCommittedPulse :: u32 where "KindCommittedPulse = 8101"

record phold_params =
  pp_lps :: u32
  pp_initEventsPerLp :: u32
  pp_endTime :: u64
  pp_remoteFraction :: double
  pp_meanLookahead :: double
  pp_seed :: u64
  pp_emitMod :: u32
  pp_verify :: bool
  pp_hasExpected :: bool
  pp_expectedHash :: u64

text \<open>The defaults; the doubles are 0.9 and 5.\<close>

definition phold_defaults :: phold_params where
  "phold_defaults = \<lparr>pp_lps = 1024, pp_initEventsPerLp = 1, pp_endTime = 10000,
     pp_remoteFraction = 0x3FECCCCCCCCCCCCD, pp_meanLookahead = 0x4014000000000000, pp_seed = 1,
     pp_emitMod = 0, pp_verify = False, pp_hasExpected = False, pp_expectedHash = 0\<rparr>"

definition parse_double :: "phold_fp \<Rightarrow> string \<Rightarrow> double option" where
  "parse_double fp s = (case fp_stod fp s of
     None \<Rightarrow> None | Some (v, idx) \<Rightarrow> if idx = length s then Some v else None)"

definition phold_option :: "phold_fp \<Rightarrow> string \<Rightarrow> (string \<Rightarrow> phold_params \<Rightarrow> phold_params option) option" where
  "phold_option fp a =
     (if a = ''--lps'' then Some (\<lambda>s p. map_option (\<lambda>v. p\<lparr>pp_lps := v\<rparr>) (parse_u32 s))
      else if a = ''--init'' then Some (\<lambda>s p. map_option (\<lambda>v. p\<lparr>pp_initEventsPerLp := v\<rparr>) (parse_u32 s))
      else if a = ''--end'' then Some (\<lambda>s p. map_option (\<lambda>v. p\<lparr>pp_endTime := v\<rparr>) (parse_u64 s))
      else if a = ''--remote'' then Some (\<lambda>s p. map_option (\<lambda>v. p\<lparr>pp_remoteFraction := v\<rparr>) (parse_double fp s))
      else if a = ''--lookahead'' then Some (\<lambda>s p. map_option (\<lambda>v. p\<lparr>pp_meanLookahead := v\<rparr>) (parse_double fp s))
      else if a = ''--seed'' then Some (\<lambda>s p. map_option (\<lambda>v. p\<lparr>pp_seed := v\<rparr>) (parse_u64 s))
      else if a = ''--emit-mod'' then Some (\<lambda>s p. map_option (\<lambda>v. p\<lparr>pp_emitMod := v\<rparr>) (parse_u32 s))
      else if a = ''--expected-hash''
      then Some (\<lambda>s p. map_option (\<lambda>v. p\<lparr>pp_hasExpected := True, pp_expectedHash := v\<rparr>) (parse_u64 s))
      else None)"

fun phold_args :: "phold_fp \<Rightarrow> string list \<Rightarrow> phold_params \<Rightarrow> phold_params option" where
  "phold_args fp [] p = Some p"
| "phold_args fp (a # rest) p =
     (case phold_option fp a of
        Some assign \<Rightarrow> (case rest of
            [] \<Rightarrow> None
          | s # rest' \<Rightarrow> (case assign s p of None \<Rightarrow> None | Some p' \<Rightarrow> phold_args fp rest' p'))
      | None \<Rightarrow> if a = ''--verify'' then phold_args fp rest (p\<lparr>pp_verify := True\<rparr>) else None)"

text \<open>\<open>None\<close> is \<open>usage_and_exit\<close>: the program ends with status 2, by \<open>MPI_Abort\<close> under MPI.\<close>

definition phold_parse_args :: "phold_fp \<Rightarrow> string list \<Rightarrow> phold_params option" where
  "phold_parse_args fp argv =
     (case phold_args fp argv phold_defaults of
        None \<Rightarrow> None
      | Some p \<Rightarrow>
          if pp_lps p = 0 \<or> fp_le fp (pp_meanLookahead p) double_0
            \<or> fp_less fp (pp_remoteFraction p) double_0 \<or> fp_less fp double_1 (pp_remoteFraction p)
          then None else Some p)"

subsection \<open>Keys and messages\<close>

definition phold_next_key :: "u64 \<Rightarrow> u32 \<Rightarrow> u32 \<Rightarrow> u64 \<Rightarrow> u64 \<Rightarrow> u64" where
  "phold_next_key seed src dst prev nextTime =
     (let x = seed;
          x = mix_u64 x (ucast src);
          x = mix_u64 x (ucast dst);
          x = mix_u64 x prev;
          x = mix_u64 x nextTime
      in splitmix64 x)"

definition phold_seq :: "u32 \<Rightarrow> u64 \<Rightarrow> u64" where
  "phold_seq dst logicalKey = splitmix64 (ucast dst XOR splitmix64 logicalKey) OR 1"

text \<open>\<open>PulseArgs\<close> is its logical key.\<close>

definition pulse_bytes :: "u64 \<Rightarrow> bytes" where
  "pulse_bytes key = le_bytes 8 key"

definition pulse_of_bytes :: "bytes \<Rightarrow> u64" where
  "pulse_of_bytes bs = field_at 0 8 bs"

interpretation pulse_layout: trivial_layout "\<lambda>_. pulse_bytes" pulse_of_bytes 8 0
  using field_at_here [where 'a = 64 and n = 8 and pre = "[]" and off = 0]
  by unfold_locales (simp_all add: pulse_bytes_def pulse_of_bytes_def)

record commit_pulse =
  cp_src :: u32
  cp_dst :: u32
  cp_t :: u64
  cp_logicalKey :: u64

definition commit_pulse_bytes :: "commit_pulse \<Rightarrow> bytes" where
  "commit_pulse_bytes c = le_bytes 4 (cp_src c) @ le_bytes 4 (cp_dst c) @ le_bytes 8 (cp_t c)
     @ le_bytes 8 (cp_logicalKey c)"

definition commit_pulse_of_bytes :: "bytes \<Rightarrow> commit_pulse" where
  "commit_pulse_of_bytes bs = \<lparr>cp_src = field_at 0 4 bs, cp_dst = field_at 4 4 bs, cp_t = field_at 8 8 bs,
     cp_logicalKey = field_at 16 8 bs\<rparr>"

interpretation commit_pulse_layout: trivial_layout "\<lambda>_. commit_pulse_bytes" commit_pulse_of_bytes 24 0
proof
  fix x :: commit_pulse and rest
  let ?s = "le_bytes 4 (cp_src x)" and ?d = "le_bytes 4 (cp_dst x)" and ?t = "le_bytes 8 (cp_t x)"
  let ?k = "le_bytes 8 (cp_logicalKey x)"
  have "field_at 0 4 ([] @ ?s @ (?d @ ?t @ ?k @ rest)) = cp_src x"
    "field_at 4 4 (?s @ ?d @ (?t @ ?k @ rest)) = cp_dst x"
    "field_at 8 8 ((?s @ ?d) @ ?t @ (?k @ rest)) = cp_t x"
    "field_at 16 8 ((?s @ ?d @ ?t) @ ?k @ rest) = cp_logicalKey x"
    by (rule field_at_here; simp)+
  then show "commit_pulse_of_bytes (commit_pulse_bytes x @ rest) = x"
    by (simp add: commit_pulse_of_bytes_def commit_pulse_bytes_def)
qed (simp add: commit_pulse_bytes_def)

subsection \<open>The process\<close>

definition pulse_event :: "timestamp \<Rightarrow> u32 \<Rightarrow> u32 \<Rightarrow> u64 \<Rightarrow> event" where
  "pulse_event ts src dst key =
     empty_event\<lparr>ev_ts := ts, ev_src := src, ev_dst := dst,
       ev_payload := \<lparr>p_kind = KindPulse, p_bytes = pulse_bytes key\<rparr>\<rparr>"

definition phold_on_start :: "phold_params \<Rightarrow> u32 \<Rightarrow> unit sink_call list" where
  "phold_on_start p i =
     map (\<lambda>k. let key = phold_next_key (pp_seed p) i i (word_of_nat k) 0
              in Send (pulse_event (TimeStamp 0 (phold_seq i key)) i i key))
       [0..<unat (pp_initEventsPerLp p)]"

definition phold_destination :: "phold_fp \<Rightarrow> phold_params \<Rightarrow> u32 \<Rightarrow> u64 \<Rightarrow> exn + u32" where
  "phold_destination fp p i key =
     (let uRemote = rng_unit_double (pp_seed p) i 1 key 0 in
      if fp_less fp (fp_of_unit fp uRemote) (pp_remoteFraction p)
      then (case rng_u64_range (pp_seed p) i 2 key 0 (ucast (pp_lps p - 1)) 0 of
          Inl e \<Rightarrow> Inl e
        | Inr r \<Rightarrow> let dst = ucast r in
            Inr (if pp_lps p > 1 \<and> dst = i then (dst + 1) mod pp_lps p else dst))
      else Inr i)"

definition phold_delta :: "phold_fp \<Rightarrow> phold_params \<Rightarrow> u32 \<Rightarrow> u64 \<Rightarrow> exn + u64" where
  "phold_delta fp p i key =
     (let u = fp_of_unit fp (rng_unit_double (pp_seed p) i 3 key 0);
          u = (if fp_less fp u double_min then double_min else u)
      in case fp_to_u64 fp (fp_floor fp (fp_mul fp (fp_neg fp (pp_meanLookahead p)) (fp_log fp u))) of
           None \<Rightarrow> Inl Undefined
         | Some v \<Rightarrow> Inr (1 + v))"

definition phold_output :: "phold_params \<Rightarrow> u32 \<Rightarrow> event \<Rightarrow> u32 \<Rightarrow> u64 \<Rightarrow> unit ctx_call list" where
  "phold_output p i ev dst key =
     (if pp_emitMod p = 0 \<or> key mod ucast (pp_emitMod p) = 0
      then [Emit_Committed (ev_ts ev) \<lparr>p_kind = KindCommittedPulse, p_bytes = commit_pulse_bytes
        \<lparr>cp_src = i, cp_dst = dst, cp_t = ts_time (ev_ts ev), cp_logicalKey = key\<rparr>\<rparr>]
      else [])"

definition phold_on_event :: "phold_fp \<Rightarrow> phold_params \<Rightarrow> u32 \<Rightarrow> event \<Rightarrow> unit \<Rightarrow> unit ctx_call list" where
  "phold_on_event fp p i ev st =
     (if p_kind (ev_payload ev) \<noteq> KindPulse \<or> length (p_bytes (ev_payload ev)) \<noteq> 8
      then [Sink (Fail (Runtime_Error ''phold: unexpected payload''))]
      else let key = pulse_of_bytes (p_bytes (ev_payload ev)) in
      if ts_time (ev_ts ev) \<ge> pp_endTime p then []
      else case phold_destination fp p i key of
        Inl e \<Rightarrow> [Sink (Fail e)]
      | Inr dst \<Rightarrow> (case phold_delta fp p i key of
          Inl e \<Rightarrow> [Sink (Fail e)]
        | Inr delta \<Rightarrow>
            let nextTime = ts_time (ev_ts ev) + delta in
            if nextTime > pp_endTime p then []
            else let nextKey = phold_next_key (pp_seed p) i dst key nextTime in
              phold_output p i ev dst key
              @ [Sink (Send (pulse_event (TimeStamp nextTime (phold_seq dst nextKey)) i dst nextKey))]))"

definition phold_lp :: "phold_fp \<Rightarrow> phold_params \<Rightarrow> u32 \<Rightarrow> unit lp" where
  "phold_lp fp p i = (default_lp i ())\<lparr>lp_on_start := (\<lambda>_. phold_on_start p i),
     lp_on_event := phold_on_event fp p i\<rparr>"

subsection \<open>The program\<close>

definition pulse_hash :: "commit_pulse \<Rightarrow> u64" where
  "pulse_hash c =
     (let x = 0;
          x = mix_u64 x (ucast (cp_src c));
          x = mix_u64 x (ucast (cp_dst c));
          x = mix_u64 x (cp_t c);
          x = mix_u64 x (cp_logicalKey c)
      in splitmix64 x)"

definition phold_sink :: "u32 \<Rightarrow> u32 \<Rightarrow> timestamp \<Rightarrow> payload \<Rightarrow> (u64, unit) eff" where
  "phold_sink rank lp ts p =
     (if p_kind p \<noteq> KindCommittedPulse then ret ()
      else if length (p_bytes p) \<noteq> 24 then raise (Runtime_Error ''phold: bad committed payload'')
      else upd (\<lambda>hash. hash XOR pulse_hash (commit_pulse_of_bytes (p_bytes p))))"

definition phold_config :: "phold_params \<Rightarrow> ('n, u64) example_world example_env \<Rightarrow> ('n, u64) example_world config" where
  "phold_config p env =
     distribute env (\<lambda>lp. lp mod env_size env)
       (default_config\<lparr>c_rank := env_rank env, c_seed := pp_seed p, c_collectivePeriodIters := 256,
          c_committedSink := Some (\<lambda>rank lp ts out. on_sink (phold_sink rank lp ts out))\<rparr>)"

definition phold_processes :: "phold_fp \<Rightarrow> phold_params \<Rightarrow> 'w config \<Rightarrow> unit lp list" where
  "phold_processes fp p cfg =
     map (phold_lp fp p) (filter (owns_lp cfg) (map word_of_nat [0..<unat (pp_lps p)]))"

definition phold_simulation ::
  "phold_fp \<Rightarrow> phold_params \<Rightarrow> ('n, u64) example_world config \<Rightarrow> nat \<Rightarrow> nat
    \<Rightarrow> ((unit, ('n, u64) example_world) sim, unit) eff" where
  "phold_simulation fp p cfg fuel pollFuel =
     thn (for_each (\<lambda>lp. add_lp (Some lp)) (phold_processes fp p cfg)) (run fuel pollFuel)"

definition phold_exit_code :: "phold_params \<Rightarrow> u64 \<Rightarrow> int" where
  "phold_exit_code p globalHash =
     (if pp_verify p
      then if \<not> pp_hasExpected p then 2 else if globalHash \<noteq> pp_expectedHash p then 3 else 0
      else 0)"

text \<open>What the program prints to standard output on this rank, and its exit status.\<close>

definition phold_main ::
  "phold_fp \<Rightarrow> ('n, u64) example_world example_env \<Rightarrow> 'n \<Rightarrow> string list \<Rightarrow> nat \<Rightarrow> nat \<Rightarrow> exn + string \<times> int" where
  "phold_main fp env net argv fuel pollFuel =
     (case phold_parse_args fp argv of
        None \<Rightarrow> Inr ([], 2)
      | Some p \<Rightarrow>
          let cfg = phold_config p env in
          (case new_simulation cfg (Some (env_transport env)) (net, 0) of
            Inl e \<Rightarrow> Inl e
          | Inr s \<Rightarrow> (case phold_simulation fp p cfg fuel pollFuel s of
              (Inl e, _) \<Rightarrow> Inl e
            | (Inr _, t) \<Rightarrow> (case reduce_if env (env_bxor env) (snd (m_world t)) (m_world t) of
                (Inl e, _) \<Rightarrow> Inl e
              | (Inr hash, _) \<Rightarrow>
                  Inr (if env_rank env = 0 then ''phold hash='' @ decimal (unat hash) @ [CHR 0x0A] else [],
                    phold_exit_code p hash)))))"

definition pulse_contribution :: "payload \<Rightarrow> u64" where
  "pulse_contribution p =
     (if p_kind p = KindCommittedPulse then pulse_hash (commit_pulse_of_bytes (p_bytes p)) else 0)"

interpretation phold_hash: xor_sink phold_sink pulse_contribution
    "\<lambda>p. p_kind p = KindCommittedPulse \<longrightarrow> length (p_bytes p) = 24"
  by unfold_locales (auto simp: phold_sink_def pulse_contribution_def)

subsection \<open>What a pulse does\<close>

text \<open>The delays the arithmetic gives leave room behind the end time.\<close>

definition delays_fit :: "phold_fp \<Rightarrow> phold_params \<Rightarrow> bool" where
  "delays_fit fp p \<longleftrightarrow> (\<forall>i key d. phold_delta fp p i key = Inr d \<longrightarrow>
     0 < d \<and> unat (pp_endTime p) + unat d < 2 ^ 64)"

lemma phold_output_sends [simp]: "sends_of (phold_output p i ev dst key) = []"
  by (simp add: phold_output_def)

lemma pulse_event_fields [simp]:
  "ev_ts (pulse_event ts src dst key) = ts" "ev_src (pulse_event ts src dst key) = src"
  "ev_dst (pulse_event ts src dst key) = dst"
  "ev_payload (pulse_event ts src dst key) = \<lparr>p_kind = KindPulse, p_bytes = pulse_bytes key\<rparr>"
  by (simp_all add: pulse_event_def)

lemma phold_seq_nonzero: "phold_seq dst key \<noteq> 0"
proof -
  have "bit (phold_seq dst key) 0" by (simp add: phold_seq_def bit_simps)
  then show ?thesis by auto
qed

lemma phold_destination_bounds:
  assumes "phold_destination fp p i key = Inr dst" and "0 < pp_lps p" and "i < pp_lps p"
  shows "dst < pp_lps p"
proof (cases "fp_less fp (fp_of_unit fp (rng_unit_double (pp_seed p) i 1 key 0)) (pp_remoteFraction p)")
  case False
  then show ?thesis using assms by (simp add: phold_destination_def)
next
  case True
  let ?n = "pp_lps p"
  obtain r where r: "rng_u64_range (pp_seed p) i 2 key 0 (ucast (?n - 1)) 0 = Inr r"
    and dst: "dst = (if ?n > 1 \<and> (ucast r :: u32) = i then (ucast r + 1) mod ?n else ucast r)"
    using assms(1) True by (auto simp: phold_destination_def Let_def split: sum.splits)
  have n: "0 < unat ?n" using assms(2) by (simp add: word_less_nat_alt)
  have "unat (?n - 1) = unat ?n - 1" using n by (subst unat_sub) (simp_all add: word_le_nat_alt)
  moreover have "r \<le> ucast (?n - 1)"
    using range_of_bounds [of 0 "ucast (?n - 1)" _ r] r by (simp add: rng_u64_range_def)
  ultimately have "unat r < unat ?n" using n by (simp add: word_le_nat_alt)
  moreover from this have "unat (ucast r :: u32) = unat r"
    using unsigned_less [of ?n, where ?'a = nat] by (simp add: unsigned_ucast_eq take_bit_nat_eq_self)
  ultimately have "(ucast r :: u32) < ?n" by (simp add: word_less_nat_alt)
  moreover have "(ucast r + 1 :: u32) mod ?n < ?n"
    using n by (simp add: word_less_nat_alt unat_mod)
  ultimately show ?thesis by (auto simp: dst)
qed

text \<open>A pulse has at most one successor, later and within the horizon, at a process that exists.\<close>

lemma phold_successor:
  assumes "delays_fit fp p" and "i < pp_lps p"
  shows "sends_of (phold_on_event fp p i ev st) = []
    \<or> (\<exists>e. sends_of (phold_on_event fp p i ev st) = [e] \<and> ts_time (ev_ts ev) < ts_time (ev_ts e)
        \<and> ts_time (ev_ts e) \<le> pp_endTime p \<and> ev_src e = i \<and> ev_dst e < pp_lps p
        \<and> ts_sequence (ev_ts e) \<noteq> 0)"
proof (cases "sends_of (phold_on_event fp p i ev st) = []")
  case False
  let ?key = "pulse_of_bytes (p_bytes (ev_payload ev))"
  obtain dst d where dst: "phold_destination fp p i ?key = Inr dst"
    and d: "phold_delta fp p i ?key = Inr d" and early: "ts_time (ev_ts ev) < pp_endTime p"
    and le: "ts_time (ev_ts ev) + d \<le> pp_endTime p"
    and sends: "sends_of (phold_on_event fp p i ev st) =
      (let t = ts_time (ev_ts ev) + d; k = phold_next_key (pp_seed p) i dst ?key t
       in [pulse_event (TimeStamp t (phold_seq dst k)) i dst k])"
    using False by (auto simp: phold_on_event_def Let_def split: if_splits sum.splits)
  have "0 < d" "unat (pp_endTime p) + unat d < 2 ^ 64" using assms(1) d by (auto simp: delays_fit_def)
  moreover from this have "unat (ts_time (ev_ts ev) + d) = unat (ts_time (ev_ts ev)) + unat d"
    using early unfolding word_less_nat_alt by (subst unat_add_lem [THEN iffD1]) simp_all
  ultimately have "ts_time (ev_ts ev) < ts_time (ev_ts ev) + d" by (simp add: word_less_nat_alt)
  moreover have "0 < pp_lps p" using assms(2) by (metis word_not_simps(1) word_neq_0_conv)
  ultimately show ?thesis
    using sends le phold_destination_bounds [OF dst _ assms(2)] by (simp add: Let_def phold_seq_nonzero)
qed simp

subsection \<open>Termination\<close>

text \<open>
  Pulses handled one at a time, in any order: the pulse leaves the pending ones, its
  successor joins them.
\<close>

inductive phold_step :: "phold_fp \<Rightarrow> phold_params \<Rightarrow> event multiset \<Rightarrow> event multiset \<Rightarrow> bool"
  for fp p where
  "ev \<in># pending \<Longrightarrow> phold_step fp p pending
     (pending - {#ev#} + mset (sends_of (phold_on_event fp p (ev_dst ev) ev ())))"

definition in_time :: "phold_params \<Rightarrow> event \<Rightarrow> bool" where
  "in_time p ev \<longleftrightarrow> ev_dst ev < pp_lps p \<and> ts_time (ev_ts ev) \<le> pp_endTime p"

definition time_left :: "phold_params \<Rightarrow> event \<Rightarrow> nat" where
  "time_left p ev = unat (pp_endTime p) + 1 - unat (ts_time (ev_ts ev))"

lemma phold_step_decreases:
  assumes "phold_step fp p M M'" and "delays_fit fp p" and "\<forall>ev \<in># M. in_time p ev"
  shows "(\<forall>ev \<in># M'. in_time p ev)
    \<and> sum_mset (image_mset (time_left p) M') < sum_mset (image_mset (time_left p) M)"
  using assms(1)
proof cases
  case (1 ev)
  let ?next = "sends_of (phold_on_event fp p (ev_dst ev) ev ())"
  obtain N where M: "M = add_mset ev N" using 1(2) by (metis multi_member_split)
  have ev: "in_time p ev" and N: "\<forall>ev \<in># N. in_time p ev" using assms(3) by (auto simp: M)
  then have left: "0 < time_left p ev" by (simp add: in_time_def time_left_def word_le_nat_alt)
  from phold_successor [OF assms(2), of "ev_dst ev" ev "()"] ev
  consider "?next = []" | e where "?next = [e]" "ts_time (ev_ts ev) < ts_time (ev_ts e)" "in_time p e"
    by (auto simp: in_time_def)
  then show ?thesis
  proof cases
    case 1
    then show ?thesis using \<open>M' = _\<close> N left by (simp add: M)
  next
    case 2
    then have "time_left p e < time_left p ev"
      using ev unfolding time_left_def in_time_def word_less_nat_alt word_le_nat_alt by linarith
    then show ?thesis using \<open>M' = _\<close> N 2 by (simp add: M)
  qed
qed

lemma phold_terminates:
  assumes "(phold_step fp p ^^ n) M M'" and "delays_fit fp p" and "\<forall>ev \<in># M. in_time p ev"
  shows "(\<forall>ev \<in># M'. in_time p ev) \<and> n \<le> size M * (unat (pp_endTime p) + 1)"
proof -
  have "(\<forall>ev \<in># M'. in_time p ev)
    \<and> n + sum_mset (image_mset (time_left p) M') \<le> sum_mset (image_mset (time_left p) M)"
    using assms(1)
  proof (induction n arbitrary: M')
    case 0
    then show ?case using assms(3) by simp
  next
    case (Suc n)
    then obtain N where N: "(phold_step fp p ^^ n) M N" "phold_step fp p N M'" by auto
    from Suc.IH [OF N(1)] phold_step_decreases [OF N(2) assms(2)] show ?case by auto
  qed
  moreover have "sum_mset (image_mset (time_left p) M) \<le> size M * (unat (pp_endTime p) + 1)"
    by (induction M) (simp_all add: time_left_def)
  ultimately show ?thesis by linarith
qed

lemma phold_start_in_time:
  assumes "e \<in> set (phold_on_start p i)" and "i < pp_lps p"
  obtains ev where "e = Send ev" "in_time p ev"
  using assms by (auto simp: phold_on_start_def Let_def in_time_def)

end
