(* ===== verification/Reversible.thy ===== *)
theory Reversible
  imports Kernel_Exec
begin

text \<open>
  When rolling back restores a model object. What a handler leaves in its record depends on
  the object alone (\<open>record_calls\<close>); it is reversible if loading the snapshots of that record
  gives the state before the event. For processes that save entities one by one, the locale
  \<open>entity_snapshots\<close> is what their save and load functions promise, and \<open>writes_covered\<close> the
  discipline of a handler: it changes only what it has requested to write.
\<close>

fun record_call :: "'st lp \<Rightarrow> 'st ctx_call \<Rightarrow> 'st \<Rightarrow> processed_record \<Rightarrow> exn + processed_record" where
  "record_call lp (Sink c) st rec = Inr rec"
| "record_call lp (Request_Write entity) st rec =
     (if map_of (pr_preEntityState rec) entity \<noteq> None then Inr rec
      else if lp_supports_entity_snapshots lp st
      then (case lp_save_entity lp entity st of
              Inl e \<Rightarrow> Inl e
            | Inr bs \<Rightarrow> Inr (rec\<lparr>pr_preEntityState := pr_preEntityState rec @ [(entity, bs)]\<rparr>))
      else if \<not> pr_hasLpSnapshot rec
      then (case lp_save_state lp st of
              Inl e \<Rightarrow> Inl e
            | Inr bs \<Rightarrow> Inr (rec\<lparr>pr_hasLpSnapshot := True, pr_preLpState := bs\<rparr>))
      else Inr rec)"
| "record_call lp (Emit_Committed ts p) st rec = Inr (rec\<lparr>pr_committed := pr_committed rec @ [(ts, p)]\<rparr>)"

fun record_calls :: "'st lp \<Rightarrow> 'st ctx_call list \<Rightarrow> 'st \<Rightarrow> processed_record \<Rightarrow> exn + processed_record" where
  "record_calls lp [] st rec = Inr rec"
| "record_calls lp (c # cs) st rec =
     (case record_call lp c st rec of
        Inl e \<Rightarrow> Inl e | Inr rec' \<Rightarrow> record_calls lp cs (final_state [c] st) rec')"

definition reversible :: "'st lp \<Rightarrow> 'st \<Rightarrow> 'st ctx_call list \<Rightarrow> bool" where
  "reversible lp st cs \<longleftrightarrow>
     (\<forall>rec rec'. pr_preEntityState rec = [] \<and> \<not> pr_hasLpSnapshot rec \<and> record_calls lp cs st rec = Inr rec' \<longrightarrow>
        restore_lp lp [rec'] (final_state cs st) = (Inr (), st))"

subsection \<open>The kernel keeps exactly that record\<close>

lemma record_call_state [simp]: "record_call (lp\<lparr>lp_state := st'\<rparr>) c st rec = record_call lp c st rec"
  by (cases c) (simp_all cong: sum.case_cong)

lemma record_calls_state [simp]: "record_calls (lp\<lparr>lp_state := st'\<rparr>) cs st rec = record_calls lp cs st rec"
  by (induction cs arbitrary: st rec) (simp_all cong: sum.case_cong)

lemma restore_lp_state [simp]: "restore_lp (lp\<lparr>lp_state := st'\<rparr>) undone = restore_lp lp undone"
  by (simp add: restore_lp_def cong: option.case_cong)

lemma run_handler_records:
  assumes "run_handler i cs rec s = (Inr rec', t)" and "map_of (m_lps s) i = Some cx"
  shows "\<exists>cx'. map_of (m_lps t) i = Some cx' \<and> cx_processed cx' = cx_processed cx
    \<and> cx_lp cx' = (cx_lp cx)\<lparr>lp_state := final_state cs (lp_state (cx_lp cx))\<rparr>
    \<and> record_calls (cx_lp cx) cs (lp_state (cx_lp cx)) rec = Inr rec'
    \<and> pr_ev rec' = pr_ev rec \<and> pr_preNextSeqNormal rec' = pr_preNextSeqNormal rec
    \<and> pr_preNextSeqControl rec' = pr_preNextSeqControl rec"
  using assms
proof (induction cs arbitrary: rec s cx)
  case Nil
  then show ?case by simp
next
  case (Cons c cs)
  from Cons.prems(1) obtain rec1 s1 where
    call: "run_ctx_call i c rec s = (Inr rec1, s1)" and rest: "run_handler i cs rec1 s1 = (Inr rec', t)"
    by (auto elim: bnd_cases)
  show ?case
  proof (cases c)
    case (Sink sc)
    with call obtain x where sc: "run_sink_call i sc s = (Inr x, s1)" and rec1: "rec1 = rec"
      by (auto elim!: thn_cases)
    from run_sink_call_lp [OF sc Cons.prems(2)] obtain cx1 where
      cx1: "map_of (m_lps s1) i = Some cx1" "cx_processed cx1 = cx_processed cx"
        "cx_lp cx1 = (cx_lp cx)\<lparr>lp_state := (case sc of Become st \<Rightarrow> st | _ \<Rightarrow> lp_state (cx_lp cx))\<rparr>"
      by blast
    from Cons.IH [OF rest cx1(1)] cx1(2,3) rec1 show ?thesis by (cases sc) (auto simp: Sink)
  next
    case (Request_Write entity)
    with call have req: "request_write i entity rec s = (Inr rec1, s1)" by simp
    then have "s1 = s" "record_call (cx_lp cx) c (lp_state (cx_lp cx)) rec = Inr rec1"
      using Cons.prems(2)
      by (auto simp: Request_Write request_write_def Let_def split: if_splits sum.splits)
    moreover have "pr_ev rec1 = pr_ev rec \<and> pr_preNextSeqNormal rec1 = pr_preNextSeqNormal rec
        \<and> pr_preNextSeqControl rec1 = pr_preNextSeqControl rec"
      using calculation(2) by (auto simp: Request_Write split: if_splits sum.splits)
    ultimately show ?thesis using Cons.IH [OF rest] Cons.prems(2) by (auto simp: Request_Write)
  next
    case (Emit_Committed ts p)
    with call have "s1 = s" "rec1 = rec\<lparr>pr_committed := pr_committed rec @ [(ts, p)]\<rparr>"
      by (auto simp: emit_committed_def split: if_splits)
    with Cons.IH [OF rest] Cons.prems(2) show ?thesis by (auto simp: Emit_Committed)
  qed
qed

text \<open>
  Rolling back right after the dispatch of an event whose handler was reversible gives the
  object back, whatever kind of snapshots it makes.
\<close>

lemma dispatch_then_rollback_reversible:
  assumes s: "sound s" and run: "dispatch ev s = (Inr (), t)" and pos: "\<not> ev_isAnti ev"
    and off: "buffering_off s" and cx: "map_of (m_lps s) (ev_dst ev) = Some cx"
    and later: "cx_vt cx < ev_ts ev"
    and rev: "reversible (cx_lp cx) (lp_state (cx_lp cx)) (lp_on_event (cx_lp cx) ev (lp_state (cx_lp cx)))"
    and history: "list_all record_ok (cx_processed cx)"
    and counters: "counters_ok t"
    and sent: "\<And>cx'. map_of (m_lps t) (ev_dst ev) = Some cx' \<Longrightarrow> list_all sent_ok (cx_sentLog cx')"
  shows "\<exists>u cx''. rollback (ev_dst ev) (ev_ts ev) t = (Inr (), u)
    \<and> map_of (m_lps u) (ev_dst ev) = Some cx''
    \<and> cx_lp cx'' = cx_lp cx \<and> cx_processed cx'' = cx_processed cx
    \<and> cx_nextSeqNormal cx'' = cx_nextSeqNormal cx \<and> cx_nextSeqControl cx'' = cx_nextSeqControl cx
    \<and> cx_vt cx'' = prev_stamp (ev_ts ev) \<and> ev \<in> set (m_pending u)"
proof -
  let ?st = "lp_state (cx_lp cx)" and ?calls = "lp_on_event (cx_lp cx) ev (lp_state (cx_lp cx))"
  let ?start = "\<lambda>c :: 'a lp_context. c\<lparr>cx_vt := ev_ts ev, cx_inEvent := True, cx_currentExecTs := ev_ts ev\<rparr>"
  have late: "\<not> ev_ts ev < cx_vt cx" using later by simp
  have "dispatch_event ev s = (Inr (), t)"
  proof (cases "validate_invariants s")
    case (Pair r u)
    then have "u = s" using validate_state [of s] by simp
    with Pair run pos show ?thesis by (cases r) (auto simp: dispatch_def)
  qed
  from handler_returns [OF this off cx late] obtain rec u where
    h: "run_handler (ev_dst ev) ?calls (new_record ev cx) (upd_ctx (ev_dst ev) ?start s) = (Inr rec, u)"
    and t: "t = (let u' = upd_ctx (ev_dst ev) (\<lambda>c. c\<lparr>cx_inEvent := False, cx_processed := cx_processed c @ [rec]\<rparr>) u
      in u'\<lparr>m_totalProcessed := m_totalProcessed u' + 1\<rparr>)" by blast
  have start: "map_of (m_lps (upd_ctx (ev_dst ev) ?start s)) (ev_dst ev) = Some (?start cx)"
    using cx by simp
  from run_handler_records [OF h start] obtain cx1 where
    cx1: "map_of (m_lps u) (ev_dst ev) = Some cx1" "cx_processed cx1 = cx_processed cx"
      "cx_lp cx1 = (cx_lp cx)\<lparr>lp_state := final_state ?calls ?st\<rparr>"
    and rec: "record_calls (cx_lp cx) ?calls ?st (new_record ev cx) = Inr rec" "pr_ev rec = ev"
      "pr_preNextSeqNormal rec = cx_nextSeqNormal cx" "pr_preNextSeqControl rec = cx_nextSeqControl cx"
    by (auto simp: new_record_def)
  let ?cx' = "cx1\<lparr>cx_inEvent := False, cx_processed := cx_processed cx1 @ [rec]\<rparr>"
  have cx': "map_of (m_lps t) (ev_dst ev) = Some ?cx'" using cx1(1) by (simp add: t Let_def)
  have "m_cfg t = m_cfg s" using run_handler_cfg [OF h] by (simp add: t Let_def)
  then have snd: "sound t"
    using s counters keeps_result [OF keeps_dispatch _ run] by (simp add: local_mode_def)
  have old: "pr_ts x < ev_ts ev" if "x \<in> set (cx_processed cx)" for x
    using that s cx later sim_wf_ctx by (fastforce simp: ctx_wf_def)
  then have cut: "dropWhile (\<lambda>x. pr_ts x < ev_ts ev) (cx_processed ?cx') = [rec]"
    "takeWhile (\<lambda>x. pr_ts x < ev_ts ev) (cx_processed ?cx') = cx_processed cx"
    using rec(2) cx1(2) by simp_all
  have sorted: "sorted (map pr_ts (cx_processed ?cx'))" using sim_wf_ctx [OF _ cx'] snd unfolding ctx_wf_def by blast
  have undone: "undone_of (ev_ts ev) ?cx' = [rec]"
    using undone_suffix [OF sorted, of "ev_ts ev"] unfolding cut(1) by simp
  have nz: "cx_nextSeqNormal cx \<noteq> 0" "cx_nextSeqControl cx \<noteq> 0"
    using s cx by (auto simp: counters_ok_def dest: all_ctx_map_of)
  have ok: "history_ok ?cx'"
    using history sent [OF cx'] nz rec(3,4) cx1(2) by (simp add: history_ok_def record_ok_def)
  have fresh: "pr_preEntityState (new_record ev cx) = [] \<and> \<not> pr_hasLpSnapshot (new_record ev cx)"
    by (simp add: new_record_def)
  have "restore_lp (cx_lp cx) [rec] (final_state ?calls ?st) = (Inr (), ?st)"
    using rev rec(1) fresh unfolding reversible_def by blast
  then have load: "restore_lp (cx_lp ?cx') (undone_of (ev_ts ev) ?cx') (lp_state (cx_lp ?cx')) = (Inr (), ?st)"
    unfolding undone by (simp add: cx1(3))
  let ?u = "rolled_back (ev_dst ev) (ev_ts ev) ?cx' ?st t"
  let ?cx'' = "rolled_back_ctx (ev_ts ev) ?st ?cx'"
  have "rollback (ev_dst ev) (ev_ts ev) t = (Inr (), ?u)" by (rule rollback_run(1) [OF snd cx' ok load])
  moreover have "map_of (m_lps ?u) (ev_dst ev) = Some ?cx''"
    using snd by (intro rolled_back_ctx_of [OF _ cx']) simp
  moreover have "ev \<in># mset (m_pending ?u)"
    unfolding rolled_back_pending undone using rec(2) by simp
  ultimately show ?thesis
    using rec(3,4) undone cut cx1(3)
    by (intro exI [of _ ?u] exI [of _ ?cx''])
      (simp add: rolled_back_ctx_def restored_ctx_def put_state_def)
qed

subsection \<open>Whole-state snapshots\<close>

lemma record_calls_keeps_snapshot:
  assumes "record_calls lp cs st rec = Inr rec'" and "lp_wide lp" and "pr_preEntityState rec = []"
  shows "pr_preEntityState rec' = []
    \<and> (pr_hasLpSnapshot rec \<longrightarrow> pr_hasLpSnapshot rec' \<and> pr_preLpState rec' = pr_preLpState rec)"
  using assms(1,3)
proof (induction cs arbitrary: st rec)
  case (Cons c cs)
  obtain rec1 where rec1: "record_call lp c st rec = Inr rec1"
    and rest: "record_calls lp cs (final_state [c] st) rec1 = Inr rec'"
    using Cons.prems(1) by (auto split: sum.splits)
  have "pr_preEntityState rec1 = []"
    "pr_hasLpSnapshot rec \<longrightarrow> pr_hasLpSnapshot rec1 \<and> pr_preLpState rec1 = pr_preLpState rec"
    using rec1 Cons.prems(2) assms(2) by (cases c; auto simp: lp_wide_def split: if_splits sum.splits)+
  with Cons.IH [OF rest] show ?case by auto
qed simp

text \<open>It is enough that loading restores the state the handler has left.\<close>

lemma reversible_by_snapshot:
  assumes "lp_wide lp" and "write_before_mutation cs"
    and load: "\<And>bs. lp_save_state lp st = Inr bs \<Longrightarrow> lp_load_state lp bs (final_state cs st) = (Inr (), st)"
  shows "reversible lp st cs"
  unfolding reversible_def
proof (intro allI impI, elim conjE)
  fix rec rec'
  assume fresh: "pr_preEntityState rec = []" "\<not> pr_hasLpSnapshot rec"
    and rec': "record_calls lp cs st rec = Inr rec'"
  have "if pr_hasLpSnapshot rec' then lp_save_state lp st = Inr (pr_preLpState rec') else final_state cs st = st"
    using rec' fresh assms(2)
  proof (induction cs arbitrary: rec)
    case (Cons c cs)
    show ?case
    proof (cases c)
      case (Sink sc)
      then show ?thesis using Cons by (cases sc) auto
    next
      case (Request_Write e)
      with Cons.prems assms(1) obtain bs where bs: "lp_save_state lp st = Inr bs"
        and rest: "record_calls lp cs st (rec\<lparr>pr_hasLpSnapshot := True, pr_preLpState := bs\<rparr>) = Inr rec'"
        by (auto simp: lp_wide_def split: sum.splits)
      show ?thesis using record_calls_keeps_snapshot [OF rest assms(1)] Cons.prems(2) bs by simp
    next
      case (Emit_Committed ts p)
      then show ?thesis using Cons by auto
    qed
  qed simp
  then show "restore_lp lp [rec'] (final_state cs st) = (Inr (), st)"
    using load assms(1)
    by (auto simp: restore_lp_def oldest_snapshot_def lp_wide_def when_eff_def bnd_def split: if_splits)
qed

context snapshot_lp
begin

lemma reversible_lp_wide:
  assumes "lp_wide lp" and "lp_save_state lp = save" and "lp_load_state lp = load"
    and "write_before_mutation cs" and "ok st"
  shows "reversible lp st cs"
  using assms load_save by (intro reversible_by_snapshot) auto

end

subsection \<open>What is not restored\<close>

text \<open>A handler that assigns without a write request.\<close>

definition blank_record :: "processed_record \<Rightarrow> processed_record" where
  "blank_record rec = rec\<lparr>pr_preEntityState := [], pr_hasLpSnapshot := False\<rparr>"

lemma not_reversible_unrequested:
  assumes "\<forall>e. Request_Write e \<notin> set cs" and "final_state cs st \<noteq> st"
  shows "\<not> reversible lp st cs"
proof
  assume r: "reversible lp st cs"
  have kept: "\<exists>rec'. record_calls lp cs s rec = Inr rec' \<and> pr_preEntityState rec' = pr_preEntityState rec
      \<and> pr_hasLpSnapshot rec' = pr_hasLpSnapshot rec" for s rec
    using assms(1)
  proof (induction cs arbitrary: s rec)
    case (Cons c cs)
    then show ?case by (cases c) force+
  qed simp
  let ?rec = "blank_record undefined"
  obtain rec' where rec': "record_calls lp cs st ?rec = Inr rec'" "pr_preEntityState rec' = []" "\<not> pr_hasLpSnapshot rec'"
    using kept [of st ?rec] by (auto simp: blank_record_def)
  have "restore_lp lp [rec'] (final_state cs st) = (Inr (), st)"
    using r rec'(1) unfolding reversible_def by (force simp: blank_record_def)
  then show False
    using rec'(2,3) assms(2) by (auto simp: restore_lp_def oldest_snapshot_def when_eff_def bnd_def split: if_splits)
qed

text \<open>A member that no loading of an entity touches.\<close>

lemma not_reversible_outside:
  assumes "lp_supports_entity_snapshots lp = (\<lambda>_. True)"
    and untouched: "\<And>e bs s. part (snd (lp_load_entity lp e bs s)) = part s"
    and recorded: "record_calls lp cs st (blank_record rec) = Inr rec'"
    and changed: "part (final_state cs st) \<noteq> part st"
  shows "\<not> reversible lp st cs"
proof
  assume r: "reversible lp st cs"
  have none: "\<not> pr_hasLpSnapshot r2" if "record_calls lp cs s r1 = Inr r2" "\<not> pr_hasLpSnapshot r1" for cs s r1 r2
    using that
  proof (induction cs arbitrary: s r1)
    case (Cons c cs)
    obtain r where r: "record_call lp c s r1 = Inr r" and rest: "record_calls lp cs (final_state [c] s) r = Inr r2"
      using Cons.prems(1) by (auto split: sum.splits)
    have "\<not> pr_hasLpSnapshot r"
      using r Cons.prems(2) assms(1) by (cases c) (auto split: sum.splits if_splits)
    with Cons.IH [OF rest] show ?case .
  qed simp
  have "\<not> pr_hasLpSnapshot rec'" using none [OF recorded] by (simp add: blank_record_def)
  have all: "part (snd (for_each (\<lambda>(e, bs). lp_load_entity lp e bs) xs s)) = part s" for xs s
    using untouched by (induction xs arbitrary: s) (auto simp: thn_def bnd_def split: prod.splits sum.splits; metis snd_conv)+
  have "restore_lp lp [rec'] (final_state cs st) = (Inr (), st)"
    using r recorded unfolding reversible_def by (force simp: blank_record_def)
  moreover have "part (snd (restore_lp lp [rec'] (final_state cs st))) = part (final_state cs st)"
    using \<open>\<not> pr_hasLpSnapshot rec'\<close> assms(1) all
    by (simp add: restore_lp_def oldest_snapshot_def when_eff_def bnd_def)
  ultimately show False using changed by simp
qed

text \<open>A member that loading the state of the process does not touch.\<close>

lemma record_calls_total:
  assumes "lp_wide lp" and "\<And>s. \<exists>bs. lp_save_state lp s = Inr bs"
  shows "\<exists>rec'. record_calls lp cs s rec = Inr rec'"
proof (induction cs arbitrary: s rec)
  case (Cons c cs)
  have "\<exists>r. record_call lp c s rec = Inr r"
    using assms(1) assms(2) [of s] by (cases c) (auto simp: lp_wide_def)
  then show ?case using Cons by auto
qed simp

lemma not_reversible_lp_wide:
  assumes lp: "lp_wide lp" and saves: "\<And>s. \<exists>bs. lp_save_state lp s = Inr bs"
    and untouched: "\<And>bs s. part (snd (lp_load_state lp bs s)) = part s"
    and changed: "part (final_state cs st) \<noteq> part st"
  shows "\<not> reversible lp st cs"
proof
  assume r: "reversible lp st cs"
  obtain rec' where rec': "record_calls lp cs st (blank_record undefined) = Inr rec'"
    using record_calls_total [OF lp saves] by blast
  have "restore_lp lp [rec'] (final_state cs st) = (Inr (), st)"
    using r rec' unfolding reversible_def by (force simp: blank_record_def)
  moreover have "part (snd (restore_lp lp [rec'] (final_state cs st))) = part (final_state cs st)"
    using lp untouched [of "pr_preLpState rec'" "final_state cs st"]
    by (auto simp: restore_lp_def oldest_snapshot_def when_eff_def bnd_def thn_def lp_wide_def split: prod.split sum.split)
  ultimately show False using changed by simp
qed

subsection \<open>Snapshots of entities\<close>

text \<open>
  \<open>differ E a b\<close>: the states are the same but for the entities in \<open>E\<close>. Saving an entity
  depends on that entity alone, and loading it makes it what it was.
\<close>

locale entity_snapshots =
  fixes save :: "u64 \<Rightarrow> 'st \<Rightarrow> exn + bytes" and load :: "u64 \<Rightarrow> bytes \<Rightarrow> ('st, unit) eff"
    and ok :: "'st \<Rightarrow> bool" and differ :: "u64 set \<Rightarrow> 'st \<Rightarrow> 'st \<Rightarrow> bool"
  assumes differ_refl: "differ {} a a" and differ_none: "differ {} a b \<Longrightarrow> a = b"
    and differ_more: "differ E a b \<Longrightarrow> E \<subseteq> F \<Longrightarrow> differ F a b"
    and save_same: "ok a \<Longrightarrow> differ E a b \<Longrightarrow> e \<notin> E \<Longrightarrow> save e b = save e a"
    and load_save: "ok a \<Longrightarrow> save e a = Inr bs \<Longrightarrow> differ E a b \<Longrightarrow>
      \<exists>b'. load e bs b = (Inr (), b') \<and> differ (E - {e}) a b'"
begin

text \<open>The handler, started in \<open>a\<close>, assigns only states that differ from it in what it has requested.\<close>

primrec writes_covered :: "u64 set \<Rightarrow> 'st \<Rightarrow> 'st ctx_call list \<Rightarrow> bool" where
  "writes_covered E a [] = True"
| "writes_covered E a (c # cs) = (case c of
     Request_Write e \<Rightarrow> writes_covered (insert e E) a cs
   | Sink (Become b) \<Rightarrow> differ E a b \<and> writes_covered E a cs
   | _ \<Rightarrow> writes_covered E a cs)"

lemma load_all:
  assumes "ok a" and "\<forall>(e, bs) \<in> set pre. save e a = Inr bs" and "differ E a b" and "E \<subseteq> fst ` set pre"
  shows "for_each (\<lambda>(e, bs). load e bs) pre b = (Inr (), a)"
  using assms(2-)
proof (induction pre arbitrary: E b)
  case Nil
  then show ?case using differ_none [of a b] by simp
next
  case (Cons p pre)
  obtain e bs where p: "p = (e, bs)" by (cases p)
  from load_save [OF assms(1) _ Cons.prems(2), of e bs] Cons.prems(1) obtain b' where
    "load e bs b = (Inr (), b')" "differ (E - {e}) a b'" by (auto simp: p)
  moreover from this have "for_each (\<lambda>(e, bs). load e bs) pre b' = (Inr (), a)"
    using Cons.prems(1,3) by (intro Cons.IH [of "E - {e}"]) (auto simp: p)
  ultimately show ?case by (simp add: p)
qed

lemma oldest_entity_states_distinct:
  "distinct (map fst pre) \<Longrightarrow> set restored \<inter> fst ` set pre = {} \<Longrightarrow> oldest_entity_states restored pre = pre"
  by (induction restored pre rule: oldest_entity_states.induct) auto

lemma reversible_entities:
  assumes "lp_supports_entity_snapshots lp = (\<lambda>_. True)" and "lp_save_entity lp = save"
    and "lp_load_entity lp = load" and ok: "ok st" and covered: "writes_covered {} st cs"
  shows "reversible lp st cs"
  unfolding reversible_def
proof (intro allI impI, elim conjE)
  fix rec rec'
  assume fresh: "pr_preEntityState rec = []" "\<not> pr_hasLpSnapshot rec"
    and rec': "record_calls lp cs st rec = Inr rec'"
  let ?I = "\<lambda>rec cur. distinct (map fst (pr_preEntityState rec)) \<and> \<not> pr_hasLpSnapshot rec
    \<and> (\<forall>(e, bs) \<in> set (pr_preEntityState rec). save e st = Inr bs)
    \<and> differ (fst ` set (pr_preEntityState rec)) st cur"
  have step: "?I rec' (final_state cs cur)"
    if "record_calls lp cs cur rec = Inr rec'" "?I rec cur"
      "writes_covered (fst ` set (pr_preEntityState rec)) st cs" for cs cur rec
    using that
  proof (induction cs arbitrary: cur rec)
    case (Cons c cs)
    show ?case
    proof (cases c)
      case (Sink sc)
      then show ?thesis using Cons.IH Cons.prems by (cases sc) auto
    next
      case (Emit_Committed ts p)
      then show ?thesis using Cons.IH Cons.prems by auto
    next
      case (Request_Write e)
      show ?thesis
      proof (cases "map_of (pr_preEntityState rec) e")
        case None
        then have new: "e \<notin> fst ` set (pr_preEntityState rec)" by (simp add: map_of_eq_None_iff)
        have same: "save e cur = save e st" using save_same [OF ok _ new] Cons.prems(2) by blast
        from Cons.prems(1) None assms(1,2) obtain bs where bs: "save e cur = Inr bs"
          and rest: "record_calls lp cs cur (rec\<lparr>pr_preEntityState := pr_preEntityState rec @ [(e, bs)]\<rparr>) = Inr rec'"
          by (auto simp: Request_Write split: sum.splits)
        from Cons.prems(2) differ_more have "differ (insert e (fst ` set (pr_preEntityState rec))) st cur" by blast
        then show ?thesis
          using Cons.IH [OF rest] Cons.prems(2,3) new same bs by (simp add: Request_Write)
      next
        case (Some bs)
        then have "insert e (fst ` set (pr_preEntityState rec)) = fst ` set (pr_preEntityState rec)"
          by (force dest: map_of_SomeD)
        then show ?thesis using Cons.IH Cons.prems Some by (simp add: Request_Write)
      qed
    qed
  qed simp
  from step [OF rec'] fresh covered differ_refl have I: "?I rec' (final_state cs st)" by simp
  have "for_each (\<lambda>(e, bs). load e bs) (pr_preEntityState rec') (final_state cs st) = (Inr (), st)"
    using I by (intro load_all [OF ok]) auto
  then show "restore_lp lp [rec'] (final_state cs st) = (Inr (), st)"
    using I assms(1,3)
    by (simp add: restore_lp_def oldest_snapshot_def when_eff_def bnd_def oldest_entity_states_distinct)
qed

end

end
