(* ===== verification/Composite.thy ===== *)
theory Composite
  imports Models World Dispatcher Reversible
begin

text \<open>
  Model objects made of parts. A program's processes are objects of different classes; in
  the model of the program their states are one type, a sum, into which each class is
  embedded. A class keeps a \<open>World\<close> among its members, and its handlers write entities of
  it. Also the throttled queue some programs use as their transport.
\<close>

subsection \<open>Embedding a class into the states of a program\<close>

definition in_part :: "('a \<Rightarrow> 'st) \<Rightarrow> ('st \<Rightarrow> 'a) \<Rightarrow> ('a, 'b) eff \<Rightarrow> ('st, 'b) eff" where
  "in_part up down m st = (case m (down st) of (r, a) \<Rightarrow> (r, up a))"

text \<open>An operation on a member.\<close>

definition on_part :: "('st \<Rightarrow> 'w) \<Rightarrow> ('w \<Rightarrow> 'st \<Rightarrow> 'st) \<Rightarrow> ('w, 'b) eff \<Rightarrow> ('st, 'b) eff" where
  "on_part get put m st = (case m (get st) of (r, w) \<Rightarrow> (r, put w st))"

definition embed_lp :: "('a \<Rightarrow> 'st) \<Rightarrow> ('st \<Rightarrow> 'a) \<Rightarrow> 'a lp \<Rightarrow> 'st lp" where
  "embed_lp up down lp = \<lparr>
     lp_id = lp_id lp,
     lp_on_start = (\<lambda>st. map (map_sink_call up) (lp_on_start lp (down st))),
     lp_on_event = (\<lambda>ev st. map (map_ctx_call up) (lp_on_event lp ev (down st))),
     lp_save_state = (\<lambda>st. lp_save_state lp (down st)),
     lp_load_state = (\<lambda>bs. in_part up down (lp_load_state lp bs)),
     lp_supports_entity_snapshots = (\<lambda>st. lp_supports_entity_snapshots lp (down st)),
     lp_save_entity = (\<lambda>eid st. lp_save_entity lp eid (down st)),
     lp_load_entity = (\<lambda>eid bs. in_part up down (lp_load_entity lp eid bs)),
     lp_on_migration = (\<lambda>eid bs. in_part up down (lp_on_migration lp eid bs)),
     lp_state = up (lp_state lp)\<rparr>"

text \<open>Adding a process whose constructor may throw.\<close>

definition add_built :: "('a lp \<Rightarrow> 'st lp) \<Rightarrow> exn + 'a lp \<Rightarrow> (('st, 'w) sim, unit) eff" where
  "add_built up r = (case r of Inl e \<Rightarrow> raise e | Inr lp \<Rightarrow> add_lp (Some (up lp)))"

subsection \<open>Handlers in several steps\<close>

text \<open>
  The rest of a handler, on the state the calls so far have left, unless they threw.
\<close>

definition throws :: "'st ctx_call list \<Rightarrow> bool" where
  "throws cs \<longleftrightarrow> list_ex (\<lambda>c. case c of Sink (Fail _) \<Rightarrow> True | _ \<Rightarrow> False) cs"

definition continue :: "'st ctx_call list \<Rightarrow> 'st \<Rightarrow> ('st \<Rightarrow> 'st ctx_call list) \<Rightarrow> 'st ctx_call list" where
  "continue cs st k = (if throws cs then cs else cs @ k (final_state cs st))"

text \<open>An operation on a part of the state, as calls: the state it leaves, and what it threw.\<close>

definition do_part :: "('w \<Rightarrow> 'st) \<Rightarrow> ('w, unit) eff \<Rightarrow> 'w \<Rightarrow> 'st sink_call list" where
  "do_part up m w = (case m w of (Inl e, w') \<Rightarrow> [Become (up w'), Fail e] | (Inr _, w') \<Rightarrow> [Become (up w')])"

text \<open>
  \<open>WorldTxn::write\<close> returns a reference, which the handler reads and assigns: after the
  write request, the handler goes on with the value.
\<close>

definition world_ref :: "u64 \<Rightarrow> u32 \<Rightarrow> 'v world \<Rightarrow> exn + 'v" where
  "world_ref eid type w = (case world_record eid w of Inl e \<Rightarrow> Inl e
     | Inr rec \<Rightarrow> if fst rec \<noteq> type then Inl (Runtime_Error ''World::write: type mismatch'') else Inr (snd rec))"

definition borrow :: "u64 \<Rightarrow> u32 \<Rightarrow> 'v world \<Rightarrow> ('v \<Rightarrow> 'st ctx_call list) \<Rightarrow> 'st ctx_call list" where
  "borrow eid type w k = Request_Write eid # (case world_ref eid type w of Inl e \<Rightarrow> [Sink (Fail e)] | Inr v \<Rightarrow> k v)"

text \<open>A read of an entity, with which the handler goes on.\<close>

definition look :: "u64 \<Rightarrow> u32 \<Rightarrow> 'v world \<Rightarrow> ('v \<Rightarrow> 'st ctx_call list) \<Rightarrow> 'st ctx_call list" where
  "look eid type w k = (case txn_read eid type w of Inl e \<Rightarrow> [Sink (Fail e)] | Inr v \<Rightarrow> k v)"

lemma txn_write_borrow: "txn_write eid type f w = borrow eid type w (\<lambda>v. [Sink (Become (set_entity eid (f v) w))])"
  by (simp add: txn_write_def borrow_def world_ref_def world_write_def split: sum.splits)

lemma continue_simps [simp]:
  "continue [] st k = k st"
  "continue (Request_Write e # cs) st k = Request_Write e # continue cs st k"
  "continue (Emit_Committed ts p # cs) st k = Emit_Committed ts p # continue cs st k"
  "continue (Sink (Send ev) # cs) st k = Sink (Send ev) # continue cs st k"
  "continue (Sink (Become st') # cs) st k = Sink (Become st') # continue cs st' k"
  "continue (Sink (Fail x) # cs) st k = Sink (Fail x) # cs"
  by (simp_all add: continue_def throws_def)

subsection \<open>Snapshots of the entities of a world\<close>

text \<open>The worlds are the same but for the values of the entities in \<open>E\<close>.\<close>

definition entity_differ :: "u64 set \<Rightarrow> u64 \<times> u32 \<times> 'v \<Rightarrow> u64 \<times> u32 \<times> 'v \<Rightarrow> bool" where
  "entity_differ E x y \<longleftrightarrow> fst y = fst x \<and> fst (snd y) = fst (snd x) \<and> (fst x \<notin> E \<longrightarrow> snd (snd y) = snd (snd x))"

definition world_differ :: "u64 set \<Rightarrow> 'v world \<Rightarrow> 'v world \<Rightarrow> bool" where
  "world_differ E w w' \<longleftrightarrow> w_registry w' = w_registry w
     \<and> list_all2 (entity_differ E) (w_entities w) (w_entities w')"

text \<open>Every entity is there once, and its type's operations restore its value.\<close>

definition restorable :: "'v registry \<Rightarrow> u32 \<Rightarrow> 'v \<Rightarrow> bool" where
  "restorable reg type v \<longleftrightarrow> (\<exists>ops f g. registry_get reg type = Inr ops \<and> ot_serialize ops = Some f
     \<and> ot_deserialize ops = Some g \<and> (\<forall>v'. g (f v) v' = (Inr (), v)))"

definition world_ok :: "'v world \<Rightarrow> bool" where
  "world_ok w \<longleftrightarrow> distinct (map fst (w_entities w))
     \<and> (\<forall>(e, t, v) \<in> set (w_entities w). restorable (w_registry w) t v)"

lemma world_differ_refl: "world_differ E w w"
  by (simp add: world_differ_def list.rel_refl entity_differ_def)

lemma world_differ_none: "world_differ {} w w' \<Longrightarrow> w' = w"
proof -
  assume d: "world_differ {} w w'"
  have "entity_differ {} = (=)" by (auto simp: entity_differ_def fun_eq_iff)
  then have "w_entities w' = w_entities w"
    using d unfolding world_differ_def by (metis list.rel_eq)
  then show "w' = w" using d by (cases w; cases w') (simp add: world_differ_def)
qed

lemma world_differ_more: "world_differ E w w' \<Longrightarrow> E \<subseteq> F \<Longrightarrow> world_differ F w w'"
  by (auto simp: world_differ_def entity_differ_def elim!: list_all2_mono)

lemma world_differ_record:
  assumes "world_differ E w w'"
  shows "map_of (w_entities w) e = None \<longleftrightarrow> map_of (w_entities w') e = None"
    and "map_of (w_entities w) e = Some (t, v) \<Longrightarrow> \<exists>v'. map_of (w_entities w') e = Some (t, v') \<and> (e \<notin> E \<longrightarrow> v' = v)"
proof -
  have "list_all2 (entity_differ E) (w_entities w) (w_entities w')"
    using assms by (simp add: world_differ_def)
  then show "map_of (w_entities w) e = None \<longleftrightarrow> map_of (w_entities w') e = None"
    and "map_of (w_entities w) e = Some (t, v) \<Longrightarrow> \<exists>v'. map_of (w_entities w') e = Some (t, v') \<and> (e \<notin> E \<longrightarrow> v' = v)"
    by (induction rule: list_all2_induct) (auto simp: entity_differ_def split: if_splits)
qed

lemma world_differ_set:
  assumes "world_differ E w w'" and rec: "map_of (w_entities w) e = Some (t, v)" and "distinct (map fst (w_entities w))"
  shows "world_differ (E - {e}) w (set_entity e v w')"
proof -
  have here: "snd x = (t, v)" if "x \<in> set (w_entities w)" "fst x = e" for x
    using that rec assms(3) by (metis map_of_eq_Some_iff option.inject prod.collapse)
  have "list_all2 (\<lambda>x y. entity_differ (E - {e}) x (fst y, if fst y = e then (fst (snd y), v) else snd y))
      (w_entities w) (w_entities w')"
    by (rule list.rel_mono_strong [where R = "entity_differ E"])
      (use assms(1) here in \<open>auto simp: world_differ_def entity_differ_def\<close>)
  then show ?thesis using assms(1)
    by (simp add: world_differ_def set_entity_def on_key_def list_all2_map2)
qed

lemma world_differ_write:
  assumes "world_differ E w w'" and "e \<in> E"
  shows "world_differ E w (set_entity e v w')"
proof -
  have "list_all2 (\<lambda>x y. entity_differ E x (fst y, if fst y = e then (fst (snd y), v) else snd y))
      (w_entities w) (w_entities w')"
    by (rule list_all2_mono [where P = "entity_differ E"])
      (use assms in \<open>auto simp: world_differ_def entity_differ_def\<close>)
  then show ?thesis using assms(1)
    by (simp add: world_differ_def set_entity_def on_key_def list_all2_map2)
qed

text \<open>A state with a world among its members, which its snapshots save and load.\<close>

locale world_part =
  fixes get :: "'st \<Rightarrow> 'v world" and put :: "'v world \<Rightarrow> 'st \<Rightarrow> 'st"
  assumes get_put: "get (put w st) = w" and put_get: "put (get st) st = st" and put_put: "put w (put w' st) = put w st"
begin

sublocale snapshots: entity_snapshots "\<lambda>e st. serialize_entity e (get st)"
  "\<lambda>e bs. on_part get put (deserialize_entity e bs)" "\<lambda>st. world_ok (get st)"
  "\<lambda>E a b. b = put (get b) a \<and> world_differ E (get a) (get b)"
proof
  fix a b :: 'st
  show "a = put (get a) a \<and> world_differ {} (get a) (get a)" by (simp add: put_get world_differ_refl)
  show "b = put (get b) a \<and> world_differ {} (get a) (get b) \<Longrightarrow> a = b"
    using world_differ_none [of "get a" "get b"] put_get [of a] by simp
next
  fix E F and a b :: 'st
  assume "b = put (get b) a \<and> world_differ E (get a) (get b)" "E \<subseteq> F"
  then show "b = put (get b) a \<and> world_differ F (get a) (get b)" using world_differ_more by blast
next
  fix E e and a b :: 'st
  assume ok: "world_ok (get a)" and d: "b = put (get b) a \<and> world_differ E (get a) (get b)" and "e \<notin> E"
  have reg: "w_registry (get b) = w_registry (get a)" using d by (simp add: world_differ_def)
  show "serialize_entity e (get b) = serialize_entity e (get a)"
  proof (cases "map_of (w_entities (get a)) e")
    case None
    moreover from this have "map_of (w_entities (get b)) e = None"
      using d world_differ_record(1) by blast
    ultimately show ?thesis by (simp add: serialize_entity_def world_record_def)
  next
    case (Some rec)
    obtain t v where rec: "rec = (t, v)" by (cases rec)
    then have "map_of (w_entities (get b)) e = Some (t, v)"
      using d Some world_differ_record(2) [of E "get a" "get b" e t v] \<open>e \<notin> E\<close> by auto
    then show ?thesis using Some rec reg by (simp add: serialize_entity_def world_record_def)
  qed
next
  fix E e bs and a b :: 'st
  assume ok: "world_ok (get a)" and bs: "serialize_entity e (get a) = Inr bs"
    and d: "b = put (get b) a \<and> world_differ E (get a) (get b)"
  obtain t v where rec: "map_of (w_entities (get a)) e = Some (t, v)"
    using bs by (auto simp: serialize_entity_def world_record_def split: option.splits)
  obtain v' where rec': "map_of (w_entities (get b)) e = Some (t, v')"
    using world_differ_record(2) [OF conjunct2 [OF d] rec] by blast
  have "restorable (w_registry (get a)) t v" using ok rec by (auto simp: world_ok_def dest: map_of_SomeD)
  then obtain ops f g where ops: "registry_get (w_registry (get a)) t = Inr ops" "ot_serialize ops = Some f"
    "ot_deserialize ops = Some g" "\<And>v'. g (f v) v' = (Inr (), v)"
    unfolding restorable_def by blast
  have "bs = f v" using bs rec ops by (simp add: serialize_entity_def world_record_def)
  then have "deserialize_entity e bs (get b) = (Inr (), set_entity e v (get b))"
    using rec' ops d by (simp add: deserialize_entity_def world_record_def world_differ_def)
  moreover have "world_differ (E - {e}) (get a) (set_entity e v (get b))"
    using ok d by (intro world_differ_set [OF conjunct2 [OF d] rec]) (simp add: world_ok_def)
  moreover have "put (set_entity e v (get b)) b = put (set_entity e v (get b)) a"
    using d put_put by metis
  ultimately show "\<exists>b'. on_part get put (deserialize_entity e bs) b = (Inr (), b')
      \<and> b' = put (get b') a \<and> world_differ (E - {e}) (get a) (get b')"
    by (simp add: on_part_def get_put)
qed

text \<open>A write of a borrowed entity is covered by its request.\<close>

lemma covered_borrow:
  assumes "\<And>v. world_ref eid type w = Inr v \<Longrightarrow> snapshots.writes_covered (insert eid E) a (k v)"
  shows "snapshots.writes_covered E a (borrow eid type w k)"
  using assms by (cases "world_ref eid type w") (simp_all add: borrow_def)

lemma covered_look:
  assumes "\<And>v. snapshots.writes_covered E a (k v)"
  shows "snapshots.writes_covered E a (look eid type w k)"
  using assms by (cases "txn_read eid type w") (simp_all add: look_def)

lemma covered_become:
  assumes "b = put (get b) a" and "world_differ E (get a) (get b)" and "eid \<in> E"
  shows "put (set_entity eid v (get b)) b = put (set_entity eid v (get b)) a
    \<and> world_differ E (get a) (set_entity eid v (get b))"
  using assms world_differ_write put_put by metis

end

subsection \<open>The throttled queue\<close>

text \<open>Every other call of \<open>poll\<close> returns nothing, so that messages arrive late.\<close>

record throttled =
  tq_queue :: "wire_message list"
  tq_throttle :: bool

definition throttled_send :: "wire_message \<Rightarrow> (throttled, unit) eff" where
  "throttled_send m = upd (\<lambda>q. q\<lparr>tq_queue := tq_queue q @ [m]\<rparr>)"

definition throttled_poll :: "(throttled, wire_message option) eff" where
  "throttled_poll q =
     (if tq_throttle q then (Inr None, q\<lparr>tq_throttle := False\<rparr>)
      else case tq_queue q of
        [] \<Rightarrow> (Inr None, q)
      | m # ms \<Rightarrow> (Inr (Some m), q\<lparr>tq_queue := ms, tq_throttle := True\<rparr>))"

definition throttled_has_pending :: "(throttled, bool) eff" where
  "throttled_has_pending = gets (\<lambda>q. tq_queue q \<noteq> [])"

definition throttled_transport :: "throttled transport" where
  "throttled_transport = \<lparr>t_send = throttled_send, t_poll = throttled_poll, t_has_pending = throttled_has_pending\<rparr>"

definition empty_throttled :: throttled where
  "empty_throttled = \<lparr>tq_queue = [], tq_throttle = False\<rparr>"

text \<open>
  What has been sent arrives, in order, the latest after one further call for every
  message.
\<close>

lemma throttled_twice:
  "throttled_poll q = (r, q') \<Longrightarrow> r = Inr None \<Longrightarrow> tq_queue q = m # ms \<Longrightarrow>
   throttled_poll q' = (Inr (Some m), q'\<lparr>tq_queue := ms, tq_throttle := True\<rparr>)"
  by (auto simp: throttled_poll_def split: if_splits list.splits)

end
