(* ===== verification/Market.thy ===== *)
theory Market
  imports Composite
begin

text \<open>
  The market demo (\<open>src/examples/market_demo.cpp\<close>): an exchange that keeps an order book and
  an audit log as entities, a process with two traders, and orders that arrive late. Signed
  64-bit integers are words read with \<open>sint\<close>; their overflow is undefined.
\<close>

subsection \<open>Kinds, messages and entities\<close>

definition Trader_Fill :: u32 where "Trader_Fill = 5001"
definition Exchange_PlaceOrder :: u32 where "Exchange_PlaceOrder = 5101"
definition Exchange_Match :: u32 where "Exchange_Match = 5102"
definition Side_Bid :: u32 where "Side_Bid = 0"
definition Side_Ask :: u32 where "Side_Ask = 1"
definition TraderType :: u32 where "TraderType = 6001"
definition BookType :: u32 where "BookType = 6002"
definition AuditType :: u32 where "AuditType = 6003"

record place_order_args =
  po_trader :: u64
  po_side :: u32
  po_qty :: u32
  po_price :: u64

record fill_args =
  fl_cashDelta :: u64
  fl_posDelta :: u64

record trader =
  td_cash :: u64
  td_position :: u64

record order =
  or_id :: u64
  or_trader :: u64
  or_side :: u32
  or_qty :: u32
  or_price :: u64

record order_book =
  ob_nextOrderId :: u64
  ob_lastTradePrice :: u64
  ob_bids :: "order list"
  ob_asks :: "order list"

record audit_entry =
  ae_t :: u64
  ae_msg :: bytes
  ae_a :: u64
  ae_b :: u64

datatype market_value = Trader_V trader | Book_V order_book | Audit_V "audit_entry list"

definition empty_book :: order_book where
  "empty_book = \<lparr>ob_nextOrderId = 1, ob_lastTradePrice = 0, ob_bids = [], ob_asks = []\<rparr>"

text \<open>The casts of the code, whose type ids have been checked before.\<close>

fun trader_of :: "market_value \<Rightarrow> trader" where
  "trader_of (Trader_V t) = t"
| "trader_of _ = \<lparr>td_cash = 0, td_position = 0\<rparr>"

fun book_of :: "market_value \<Rightarrow> order_book" where
  "book_of (Book_V b) = b"
| "book_of _ = empty_book"

fun audit_of :: "market_value \<Rightarrow> audit_entry list" where
  "audit_of (Audit_V a) = a"
| "audit_of _ = []"

definition market_id :: "u32 \<Rightarrow> u32 \<Rightarrow> u64" where
  "market_id owner local = push_bit 32 (ucast owner) OR ucast local"

subsection \<open>Serialization\<close>

definition place_order_bytes :: "place_order_args \<Rightarrow> bytes" where
  "place_order_bytes a = le_bytes 8 (po_trader a) @ le_bytes 4 (po_side a) @ le_bytes 4 (po_qty a)
     @ le_bytes 8 (po_price a)"

definition place_order_of_bytes :: "bytes \<Rightarrow> place_order_args" where
  "place_order_of_bytes bs = \<lparr>po_trader = field_at 0 8 bs, po_side = field_at 8 4 bs,
     po_qty = field_at 12 4 bs, po_price = field_at 16 8 bs\<rparr>"

definition fill_bytes :: "fill_args \<Rightarrow> bytes" where
  "fill_bytes a = le_bytes 8 (fl_cashDelta a) @ le_bytes 8 (fl_posDelta a)"

definition fill_of_bytes :: "bytes \<Rightarrow> fill_args" where
  "fill_of_bytes bs = \<lparr>fl_cashDelta = field_at 0 8 bs, fl_posDelta = field_at 8 8 bs\<rparr>"

definition trader_bytes :: "trader \<Rightarrow> bytes" where
  "trader_bytes t = le_bytes 8 (td_cash t) @ le_bytes 8 (td_position t)"

definition trader_of_bytes :: "bytes \<Rightarrow> trader" where
  "trader_of_bytes bs = \<lparr>td_cash = field_at 0 8 bs, td_position = field_at 8 8 bs\<rparr>"

definition order_bytes :: "order \<Rightarrow> bytes" where
  "order_bytes x = le_bytes 8 (or_id x) @ le_bytes 8 (or_trader x) @ le_bytes 4 (or_side x)
     @ le_bytes 4 (or_qty x) @ le_bytes 8 (or_price x)"

definition order_of_bytes :: "bytes \<Rightarrow> order" where
  "order_of_bytes bs = \<lparr>or_id = field_at 0 8 bs, or_trader = field_at 8 8 bs, or_side = field_at 16 4 bs,
     or_qty = field_at 20 4 bs, or_price = field_at 24 8 bs\<rparr>"

definition audit_entry_bytes :: "audit_entry \<Rightarrow> bytes" where
  "audit_entry_bytes e = le_bytes 8 (ae_t e) @ ae_msg e @ le_bytes 8 (ae_a e) @ le_bytes 8 (ae_b e)"

definition audit_entry_of_bytes :: "bytes \<Rightarrow> audit_entry" where
  "audit_entry_of_bytes bs = \<lparr>ae_t = field_at 0 8 bs, ae_msg = take 32 (drop 8 bs), ae_a = field_at 40 8 bs,
     ae_b = field_at 48 8 bs\<rparr>"

text \<open>\<open>append_vec\<close> and \<open>read_vec\<close>, for elements of \<open>sz\<close> bytes.\<close>

definition append_vec :: "('a \<Rightarrow> bytes) \<Rightarrow> 'a list \<Rightarrow> bytes" where
  "append_vec put v = le_bytes 4 (word_of_nat (length v) :: u32) @ concat (map put v)"

definition read_vec :: "nat \<Rightarrow> (bytes \<Rightarrow> 'a) \<Rightarrow> bytes \<Rightarrow> nat \<Rightarrow> ('s, 'a list \<times> nat) eff" where
  "read_vec sz get bs off =
     bnd (read_at ''deserialize: truncated'' 4 bs off) (\<lambda>(n :: u32, off).
     let total = unat n * sz in
     if off + total > length bs then raise (Runtime_Error ''deserialize: truncated vec'')
     else ret (map (\<lambda>k. get (take sz (drop (off + k * sz) bs))) [0..<unat n], off + total))"

definition book_bytes :: "order_book \<Rightarrow> bytes" where
  "book_bytes b = le_bytes 8 (ob_nextOrderId b) @ le_bytes 8 (ob_lastTradePrice b)
     @ append_vec order_bytes (ob_bids b) @ append_vec order_bytes (ob_asks b)"

definition upd_book :: "(order_book \<Rightarrow> order_book) \<Rightarrow> (market_value, unit) eff" where
  "upd_book f = upd (\<lambda>v. Book_V (f (book_of v)))"

definition load_book :: "bytes \<Rightarrow> (market_value, unit) eff" where
  "load_book bs =
     bnd (read_at ''deserialize: truncated'' 8 bs 0) (\<lambda>(nid, off).
     thn (upd_book (\<lambda>b. b\<lparr>ob_nextOrderId := nid\<rparr>))
     (bnd (read_at ''deserialize: truncated'' 8 bs off) (\<lambda>(price, off).
     thn (upd_book (\<lambda>b. b\<lparr>ob_lastTradePrice := price\<rparr>))
     (bnd (read_vec 32 order_of_bytes bs off) (\<lambda>(bids, off).
     thn (upd_book (\<lambda>b. b\<lparr>ob_bids := bids\<rparr>))
     (bnd (read_vec 32 order_of_bytes bs off) (\<lambda>(asks, off).
     upd_book (\<lambda>b. b\<lparr>ob_asks := asks\<rparr>))))))))"

definition book_ops :: "market_value type_ops" where
  "book_ops = \<lparr>ot_type = BookType, ot_create = Some (Book_V empty_book), ot_destroy = True,
     ot_serialize = Some (\<lambda>v. book_bytes (book_of v)), ot_deserialize = Some load_book\<rparr>"

definition audit_ops :: "market_value type_ops" where
  "audit_ops = \<lparr>ot_type = AuditType, ot_create = Some (Audit_V []), ot_destroy = True,
     ot_serialize = Some (\<lambda>v. append_vec audit_entry_bytes (audit_of v)),
     ot_deserialize = Some (\<lambda>bs. bnd (read_vec 56 audit_entry_of_bytes bs 0) (\<lambda>(es, _). upd (\<lambda>_. Audit_V es)))\<rparr>"

definition register_trader :: "(market_value registry, unit) eff" where
  "register_trader = register_trivial TraderType (Trader_V \<lparr>td_cash = 0, td_position = 0\<rparr>) 16
     (\<lambda>v. trader_bytes (trader_of v)) (\<lambda>bs. Trader_V (trader_of_bytes bs))"

subsection \<open>Matching\<close>

definition best_bid :: "order \<Rightarrow> order \<Rightarrow> bool" where
  "best_bid a b = (if or_price a \<noteq> or_price b then or_price a > or_price b else or_id a < or_id b)"

definition best_ask :: "order \<Rightarrow> order \<Rightarrow> bool" where
  "best_ask a b = (if or_price a \<noteq> or_price b then or_price a < or_price b else or_id a < or_id b)"

text \<open>
  \<open>std::max_element\<close> and \<open>std::min_element\<close> as they are used: the position of the first
  element no other is better than. The scan keeps the best one so far, \<open>x\<close> at position \<open>k\<close>.
\<close>

fun best_from :: "(order \<Rightarrow> order \<Rightarrow> bool) \<Rightarrow> order \<Rightarrow> nat \<Rightarrow> nat \<Rightarrow> order list \<Rightarrow> nat" where
  "best_from better x k i [] = k"
| "best_from better x k i (y # ys) =
     (if better y x then best_from better y i (Suc i) ys else best_from better x k (Suc i) ys)"

definition best_at :: "(order \<Rightarrow> order \<Rightarrow> bool) \<Rightarrow> order list \<Rightarrow> nat" where
  "best_at better xs = best_from better (hd xs) 0 1 (tl xs)"

definition signed_mul :: "u64 \<Rightarrow> u64 \<Rightarrow> exn + u64" where
  "signed_mul a b = (let v = sint a * sint b in
     if - (2 ^ 63) \<le> v \<and> v < 2 ^ 63 then Inr (word_of_int v) else Inl Undefined)"

definition signed_add :: "u64 \<Rightarrow> u64 \<Rightarrow> exn + u64" where
  "signed_add a b = (let v = sint a + sint b in
     if - (2 ^ 63) \<le> v \<and> v < 2 ^ 63 then Inr (word_of_int v) else Inl Undefined)"

text \<open>The order at \<open>k\<close> gives up \<open>q\<close>, and leaves when nothing is left of it.\<close>

definition take_from :: "nat \<Rightarrow> u32 \<Rightarrow> order list \<Rightarrow> order list" where
  "take_from k q os =
     (let x = (os ! k)\<lparr>or_qty := or_qty (os ! k) - q\<rparr> in
      if or_qty x = 0 then take k os @ drop (Suc k) os else os[k := x])"

subsection \<open>The exchange\<close>

record exchange =
  xc_world :: "market_value world"
  xc_bookId :: u64
  xc_auditId :: u64

definition message :: "string \<Rightarrow> bytes" where
  "message s = map of_char s @ replicate (32 - length s) 0"

definition fill_event :: "u32 \<Rightarrow> u32 \<Rightarrow> timestamp \<Rightarrow> u64 \<Rightarrow> u64 \<Rightarrow> u64 \<Rightarrow> event" where
  "fill_event i traderLp ts tr cashDelta posDelta =
     empty_event\<lparr>ev_ts := ts, ev_src := i, ev_dst := traderLp, ev_target := tr,
       ev_payload := make_trivial_payload Trader_Fill (fill_bytes \<lparr>fl_cashDelta = cashDelta, fl_posDelta = posDelta\<rparr>)\<rparr>"

text \<open>Appending to the audit log; the handler goes on with the state it leaves.\<close>

definition audit :: "audit_entry \<Rightarrow> exchange \<Rightarrow> (exchange \<Rightarrow> exchange ctx_call list) \<Rightarrow> exchange ctx_call list" where
  "audit e st k = borrow (xc_auditId st) AuditType (xc_world st) (\<lambda>a.
     let st' = st\<lparr>xc_world := set_entity (xc_auditId st) (Audit_V (audit_of a @ [e])) (xc_world st)\<rparr>
     in Sink (Become st') # k st')"

definition put_book :: "u64 \<Rightarrow> order_book \<Rightarrow> exchange \<Rightarrow> exchange" where
  "put_book target b st = st\<lparr>xc_world := set_entity target (Book_V b) (xc_world st)\<rparr>"

definition new_order :: "place_order_args \<Rightarrow> order_book \<Rightarrow> order" where
  "new_order args b = \<lparr>or_id = ob_nextOrderId b, or_trader = po_trader args, or_side = po_side args,
     or_qty = po_qty args, or_price = po_price args\<rparr>"

definition book_add :: "order \<Rightarrow> order_book \<Rightarrow> order_book" where
  "book_add x b =
     (let b = b\<lparr>ob_nextOrderId := ob_nextOrderId b + 1\<rparr> in
      if or_side x = Side_Bid then b\<lparr>ob_bids := ob_bids b @ [x]\<rparr> else b\<lparr>ob_asks := ob_asks b @ [x]\<rparr>)"

definition place_order :: "u64 \<Rightarrow> place_order_args \<Rightarrow> event \<Rightarrow> exchange \<Rightarrow> exchange ctx_call list" where
  "place_order target args ev st = borrow target BookType (xc_world st) (\<lambda>v.
     let x = new_order args (book_of v);
         st' = put_book target (book_add x (book_of v)) st
     in Sink (Become st') #
        audit \<lparr>ae_t = ts_time (ev_ts ev), ae_msg = message ''place'', ae_a = or_id x, ae_b = or_price x\<rparr> st' (\<lambda>_. []))"

text \<open>
  The loop of the match handler, with the book it holds a reference to; \<open>n\<close> is how many
  trades are left.
\<close>

fun match_loop :: "u32 \<Rightarrow> u32 \<Rightarrow> nat \<Rightarrow> u64 \<Rightarrow> event \<Rightarrow> order_book \<Rightarrow> exchange \<Rightarrow> exchange ctx_call list" where
  "match_loop i traderLp 0 target ev b st = []"
| "match_loop i traderLp (Suc n) target ev b st =
     (if ob_bids b = [] \<or> ob_asks b = [] then []
      else let kb = best_at best_bid (ob_bids b); ka = best_at best_ask (ob_asks b);
               bid = ob_bids b ! kb; ask = ob_asks b ! ka
        in if or_price bid < or_price ask then []
        else let qty = min (or_qty bid) (or_qty ask); price = or_price ask;
               b1 = b\<lparr>ob_lastTradePrice := price\<rparr>;
               b2 = b1\<lparr>ob_bids := take_from kb qty (ob_bids b1), ob_asks := take_from ka qty (ob_asks b1)\<rparr>;
               st1 = put_book target b1 st; st2 = put_book target b2 st1
        in Sink (Become st1) #
          (case signed_mul (- ucast qty) price of
             Inl e \<Rightarrow> [Sink (Fail e)]
           | Inr paid \<Rightarrow> Sink (Send (fill_event i traderLp (ev_ts ev) (or_trader bid) paid (ucast qty))) #
               (case signed_mul (ucast qty) price of
                  Inl e \<Rightarrow> [Sink (Fail e)]
                | Inr earned \<Rightarrow>
                    Sink (Send (fill_event i traderLp (ev_ts ev) (or_trader ask) earned (- ucast qty))) #
                    Sink (Become st2) #
                    audit \<lparr>ae_t = ts_time (ev_ts ev), ae_msg = message ''trade'', ae_a = price, ae_b = ucast qty\<rparr>
                      st2 (match_loop i traderLp n target ev b2))))"

definition match_orders :: "u32 \<Rightarrow> u32 \<Rightarrow> u64 \<Rightarrow> u32 \<Rightarrow> event \<Rightarrow> exchange \<Rightarrow> exchange ctx_call list" where
  "match_orders i traderLp target maxTrades ev st = borrow target BookType (xc_world st) (\<lambda>v.
     match_loop i traderLp (unat maxTrades) target ev (book_of v) st)"

definition exchange_registry :: "exn + market_value registry" where
  "exchange_registry = (case thn register_trader (thn (register_type book_ops) (register_type audit_ops)) [] of
     (Inl e, _) \<Rightarrow> Inl e | (Inr _, reg) \<Rightarrow> Inr reg)"

definition exchange_dispatcher :: "u32 \<Rightarrow> u32 \<Rightarrow> exchange dispatcher" where
  "exchange_dispatcher i traderLp = snd
     (thn (register_trivial_handler Exchange_PlaceOrder 24 place_order_of_bytes place_order)
       (register_trivial_handler Exchange_Match 4 (field_at 0 4) (match_orders i traderLp)) [])"

definition exchange_on_start :: "u32 \<Rightarrow> exchange \<Rightarrow> exchange sink_call list" where
  "exchange_on_start i st =
     (let st = st\<lparr>xc_bookId := market_id i 1, xc_auditId := market_id i 2\<rparr>
      in do_part (\<lambda>w. st\<lparr>xc_world := w\<rparr>)
           (thn (world_emplace (xc_bookId st) BookType (Book_V empty_book))
                (world_emplace (xc_auditId st) AuditType (Audit_V [])))
           (xc_world st))"

definition exchange_lp :: "u32 \<Rightarrow> u32 \<Rightarrow> exn + exchange lp" where
  "exchange_lp i traderLp = (case exchange_registry of
     Inl e \<Rightarrow> Inl e
   | Inr reg \<Rightarrow> Inr ((default_lp i \<lparr>xc_world = \<lparr>w_registry = reg, w_entities = []\<rparr>, xc_bookId = 0, xc_auditId = 0\<rparr>)
       \<lparr>lp_on_start := exchange_on_start i,
        lp_on_event := dispatch_to_handler (exchange_dispatcher i traderLp),
        lp_supports_entity_snapshots := (\<lambda>_. True),
        lp_save_entity := (\<lambda>eid st. serialize_entity eid (xc_world st)),
        lp_load_entity := (\<lambda>eid bs. on_part xc_world (\<lambda>w st. st\<lparr>xc_world := w\<rparr>) (deserialize_entity eid bs))\<rparr>))"

subsection \<open>The traders\<close>

record traders =
  tr_world :: "market_value world"
  tr_traderA :: u64
  tr_traderB :: u64
  tr_exchangeBook :: u64

definition put_trader :: "u64 \<Rightarrow> trader \<Rightarrow> traders \<Rightarrow> traders" where
  "put_trader target t st = st\<lparr>tr_world := set_entity target (Trader_V t) (tr_world st)\<rparr>"

definition apply_fill :: "u64 \<Rightarrow> fill_args \<Rightarrow> event \<Rightarrow> traders \<Rightarrow> traders ctx_call list" where
  "apply_fill target args ev st = borrow target TraderType (tr_world st) (\<lambda>v.
     case signed_add (td_cash (trader_of v)) (fl_cashDelta args) of
       Inl e \<Rightarrow> [Sink (Fail e)]
     | Inr cash \<Rightarrow>
         let t = (trader_of v)\<lparr>td_cash := cash\<rparr> in
         Sink (Become (put_trader target t st)) #
         (case signed_add (td_position t) (fl_posDelta args) of
            Inl e \<Rightarrow> [Sink (Fail e)]
          | Inr position \<Rightarrow> [Sink (Become (put_trader target (t\<lparr>td_position := position\<rparr>) st))]))"

definition order_event :: "u32 \<Rightarrow> u32 \<Rightarrow> u64 \<Rightarrow> u64 \<Rightarrow> place_order_args \<Rightarrow> event" where
  "order_event i xc book t args =
     empty_event\<lparr>ev_ts := TimeStamp t 0, ev_src := i, ev_dst := xc, ev_target := book,
       ev_payload := make_trivial_payload Exchange_PlaceOrder (place_order_bytes args)\<rparr>"

definition traders_on_start :: "u32 \<Rightarrow> u32 \<Rightarrow> traders \<Rightarrow> traders sink_call list" where
  "traders_on_start i xc st =
     (let st = st\<lparr>tr_traderA := market_id i 1, tr_traderB := market_id i 2\<rparr>;
          fresh = Trader_V \<lparr>td_cash = 10000, td_position = 0\<rparr>
      in case thn (world_emplace (tr_traderA st) TraderType fresh) (world_emplace (tr_traderB st) TraderType fresh)
           (tr_world st) of
        (Inl e, w) \<Rightarrow> [Become (st\<lparr>tr_world := w\<rparr>), Fail e]
      | (Inr _, w) \<Rightarrow>
          let st = st\<lparr>tr_world := w, tr_exchangeBook := market_id xc 1\<rparr>;
              place = (\<lambda>t side qty price tr. Send (order_event i xc (tr_exchangeBook st) t
                \<lparr>po_trader = tr, po_side = side, po_qty = qty, po_price = price\<rparr>))
          in [Become st,
              place 10 Side_Bid 10 100 (tr_traderA st),
              place 12 Side_Ask 10 99 (tr_traderB st),
              place 8 Side_Ask 10 100 (tr_traderB st),
              place 5 Side_Bid 10 101 (tr_traderA st),
              place 6 Side_Ask 10 100 (tr_traderB st),
              Send (empty_event\<lparr>ev_ts := TimeStamp 15 0, ev_src := i, ev_dst := xc,
                ev_target := tr_exchangeBook st,
                ev_payload := make_trivial_payload Exchange_Match (le_bytes 4 (16 :: u32))\<rparr>)])"

definition traders_dispatcher :: "traders dispatcher" where
  "traders_dispatcher = snd (register_trivial_handler Trader_Fill 16 fill_of_bytes apply_fill [])"

definition traders_lp :: "u32 \<Rightarrow> u32 \<Rightarrow> exn + traders lp" where
  "traders_lp i xc = (case register_trader [] of
     (Inl e, _) \<Rightarrow> Inl e
   | (Inr _, reg) \<Rightarrow> Inr ((default_lp i \<lparr>tr_world = \<lparr>w_registry = reg, w_entities = []\<rparr>,
         tr_traderA = 0, tr_traderB = 0, tr_exchangeBook = 0\<rparr>)
       \<lparr>lp_on_start := traders_on_start i xc,
        lp_on_event := dispatch_to_handler traders_dispatcher,
        lp_supports_entity_snapshots := (\<lambda>_. True),
        lp_save_entity := (\<lambda>eid st. serialize_entity eid (tr_world st)),
        lp_load_entity := (\<lambda>eid bs. on_part tr_world (\<lambda>w st. st\<lparr>tr_world := w\<rparr>) (deserialize_entity eid bs))\<rparr>))"

subsection \<open>The program\<close>

type_synonym market_state = "traders + exchange"

definition market_simulation :: "nat \<Rightarrow> nat \<Rightarrow> exn + (market_state, throttled) sim" where
  "market_simulation fuel pollFuel =
     (case (exchange_lp 2 1, traders_lp 1 2) of
        (Inr xc, Inr tr) \<Rightarrow>
          (case new_simulation (default_config\<lparr>c_rank := 0\<rparr>) (Some throttled_transport) empty_throttled of
             Inl e \<Rightarrow> Inl e
           | Inr s \<Rightarrow>
             (case thn (add_lp (Some (embed_lp Inl projl tr)))
                   (thn (add_lp (Some (embed_lp Inr projr xc))) (run fuel pollFuel)) s of
                (Inl e, _) \<Rightarrow> Inl e | (Inr _, t) \<Rightarrow> Inr t))
      | (Inl e, _) \<Rightarrow> Inl e
      | (_, Inl e) \<Rightarrow> Inl e)"

definition object_of :: "(market_state, 'w) sim \<Rightarrow> u32 \<Rightarrow> market_state" where
  "object_of s i = lp_state (cx_lp (the (map_of (m_lps s) i)))"

text \<open>What the program asks of the objects at the end; the errors are those of \<open>World::read\<close>.\<close>

record market_result =
  mr_cashA :: u64
  mr_posA :: u64
  mr_cashB :: u64
  mr_posB :: u64
  mr_lastPrice :: u64
  mr_audit :: nat
  mr_remaining :: nat

definition market_result :: "(market_state, 'w) sim \<Rightarrow> exn + market_result" where
  "market_result s =
     (let tr = projl (object_of s 1); xc = projr (object_of s 2) in
      case (world_read (tr_traderA tr) TraderType (tr_world tr), world_read (tr_traderB tr) TraderType (tr_world tr),
            world_read (xc_bookId xc) BookType (xc_world xc), world_read (xc_auditId xc) AuditType (xc_world xc)) of
        (Inr a, Inr b, Inr book, Inr entries) \<Rightarrow> Inr \<lparr>
          mr_cashA = td_cash (trader_of a), mr_posA = td_position (trader_of a),
          mr_cashB = td_cash (trader_of b), mr_posB = td_position (trader_of b),
          mr_lastPrice = ob_lastTradePrice (book_of book), mr_audit = length (audit_of entries),
          mr_remaining = length (ob_bids (book_of book)) + length (ob_asks (book_of book))\<rparr>
      | (Inl e, _) \<Rightarrow> Inl e | (_, Inl e, _) \<Rightarrow> Inl e | (_, _, Inl e, _) \<Rightarrow> Inl e | (_, _, _, Inl e) \<Rightarrow> Inl e)"

text \<open>The assertions of \<open>main\<close>.\<close>

definition market_asserts :: "market_result \<Rightarrow> bool" where
  "market_asserts r \<longleftrightarrow> mr_posA r = 20 \<and> mr_cashA r = 10000 - 1990 \<and> mr_posB r = - 20
     \<and> mr_cashB r = 10000 + 1990 \<and> mr_lastPrice r = 100 \<and> mr_audit r \<ge> 2"

text \<open>What is printed.\<close>

definition signed_decimal :: "u64 \<Rightarrow> string" where
  "signed_decimal x = (if sint x < 0 then ''-'' @ decimal (nat (- sint x)) else decimal (nat (sint x)))"

definition market_report :: "market_result \<Rightarrow> string" where
  "market_report r =
     ''market_demo ok'' @ [CHR 0x0A]
     @ ''A cash='' @ decimal (unat (mr_cashA r)) @ '' pos='' @ signed_decimal (mr_posA r) @ [CHR 0x0A]
     @ ''B cash='' @ decimal (unat (mr_cashB r)) @ '' pos='' @ signed_decimal (mr_posB r) @ [CHR 0x0A]
     @ ''exchange last_price='' @ decimal (unat (mr_lastPrice r)) @ '' audit='' @ decimal (mr_audit r)
     @ '' remaining_orders='' @ decimal (mr_remaining r) @ [CHR 0x0A]"

subsection \<open>Snapshots\<close>

interpretation order_layout: trivial_layout "\<lambda>_. order_bytes" order_of_bytes 32 0
proof
  fix x :: order and rest
  let ?i = "le_bytes 8 (or_id x)" and ?t = "le_bytes 8 (or_trader x)" and ?s = "le_bytes 4 (or_side x)"
  let ?q = "le_bytes 4 (or_qty x)" and ?p = "le_bytes 8 (or_price x)"
  have "field_at 0 8 ([] @ ?i @ (?t @ ?s @ ?q @ ?p @ rest)) = or_id x"
    "field_at 8 8 (?i @ ?t @ (?s @ ?q @ ?p @ rest)) = or_trader x"
    "field_at 16 4 ((?i @ ?t) @ ?s @ (?q @ ?p @ rest)) = or_side x"
    "field_at 20 4 ((?i @ ?t @ ?s) @ ?q @ (?p @ rest)) = or_qty x"
    "field_at 24 8 ((?i @ ?t @ ?s @ ?q) @ ?p @ rest) = or_price x"
    by (rule field_at_here; simp)+
  then show "order_of_bytes (order_bytes x @ rest) = x" by (simp add: order_of_bytes_def order_bytes_def)
qed (simp add: order_bytes_def)

interpretation trader_layout: trivial_layout "\<lambda>_. trader_bytes" trader_of_bytes 16 0
proof
  fix x :: trader and rest
  let ?c = "le_bytes 8 (td_cash x)" and ?p = "le_bytes 8 (td_position x)"
  have "field_at 0 8 ([] @ ?c @ (?p @ rest)) = td_cash x" "field_at 8 8 (?c @ ?p @ rest) = td_position x"
    by (rule field_at_here; simp)+
  then show "trader_of_bytes (trader_bytes x @ rest) = x" by (simp add: trader_of_bytes_def trader_bytes_def)
qed (simp add: trader_bytes_def)

text \<open>The message array has 32 bytes.\<close>

lemma audit_entry_round:
  "length (ae_msg e) = 32 \<Longrightarrow>
   length (audit_entry_bytes e) = 56 \<and> audit_entry_of_bytes (audit_entry_bytes e @ rest) = e"
proof -
  assume m: "length (ae_msg e) = 32"
  let ?t = "le_bytes 8 (ae_t e)" and ?a = "le_bytes 8 (ae_a e)" and ?b = "le_bytes 8 (ae_b e)"
  have "field_at 0 8 ([] @ ?t @ (ae_msg e @ ?a @ ?b @ rest)) = ae_t e"
    "field_at 40 8 ((?t @ ae_msg e) @ ?a @ (?b @ rest)) = ae_a e"
    "field_at 48 8 ((?t @ ae_msg e @ ?a) @ ?b @ rest) = ae_b e"
    by (rule field_at_here; simp add: m)+
  then show ?thesis by (simp add: audit_entry_of_bytes_def audit_entry_bytes_def m)
qed

lemma read_vec_append:
  assumes put: "\<And>x rest. x \<in> set v \<Longrightarrow> length (put x) = sz \<and> get (put x @ rest) = x"
    and fits: "length v < 2 ^ 32" and off: "off = length pre"
  shows "read_vec sz get (pre @ append_vec put v @ post) off s = (Inr (v, off + length (append_vec put v)), s)"
proof -
  let ?body = "concat (map put v)"
  let ?n = "word_of_nat (length v) :: u32"
  have n: "unat ?n = length v" using fits by (simp add: unat_of_nat take_bit_nat_eq_self)
  have len: "length ?body = length v * sz"
    using put by (induction v) (simp_all add: add.commute)
  have split: "concat (map put v) = concat (map put (take k v)) @ put (v ! k) @ concat (map put (drop (Suc k) v))"
    and pre_len: "length (concat (map put (take k v))) = k * sz" if "k < length v" for k
  proof -
    show "concat (map put v) = concat (map put (take k v)) @ put (v ! k) @ concat (map put (drop (Suc k) v))"
      by (subst id_take_nth_drop [OF that]) simp
    have "length (concat (map put xs)) = length xs * sz" if "set xs \<subseteq> set v" for xs
      using that put by (induction xs) (simp_all add: add.commute)
    from this [of "take k v"] show "length (concat (map put (take k v))) = k * sz"
      using that set_take_subset by fastforce
  qed
  have elem: "get (take sz (drop (off + 4 + k * sz) (pre @ le_bytes 4 ?n @ ?body @ post))) = v ! k"
    if "k < length v" for k
  proof -
    have "drop (off + 4 + k * sz) (pre @ le_bytes 4 ?n @ ?body @ post)
        = put (v ! k) @ concat (map put (drop (Suc k) v)) @ post"
      unfolding split [OF that] using pre_len [OF that] by (simp add: off)
    then show ?thesis using put [of "v ! k" "[]"] that by simp
  qed
  obtain bs where bs: "bs = pre @ le_bytes 4 ?n @ ?body @ post" by blast
  have head: "read_at ''deserialize: truncated'' 4 bs off s = (Inr (?n, off + 4), s)"
    using read_at_here [of 4 off pre "''deserialize: truncated''" ?n "?body @ post" s] off by (simp add: bs)
  have "map (\<lambda>k. get (take sz (drop (off + 4 + k * sz) bs))) [0..<length v] = map (\<lambda>k. v ! k) [0..<length v]"
    unfolding bs by (intro map_cong refl elem) simp
  then have elems: "map (\<lambda>k. get (take sz (drop (off + 4 + k * sz) bs))) [0..<length v] = v"
    by (simp add: map_nth)
  have "length bs = off + 4 + length v * sz + length post" by (simp add: bs off len)
  then have "read_vec sz get bs off s = (Inr (v, off + (4 + length v * sz)), s)"
    using head elems by (simp add: read_vec_def n)
  then show ?thesis by (simp add: append_vec_def len bs)
qed

definition book_fits :: "order_book \<Rightarrow> bool" where
  "book_fits b \<longleftrightarrow> length (ob_bids b) < 2 ^ 32 \<and> length (ob_asks b) < 2 ^ 32"

lemma load_book_bytes:
  assumes "book_fits b"
  shows "load_book (book_bytes b) v = (Inr (), Book_V b)"
proof -
  let ?i = "le_bytes 8 (ob_nextOrderId b)" and ?p = "le_bytes 8 (ob_lastTradePrice b)"
  let ?bids = "append_vec order_bytes (ob_bids b)" and ?asks = "append_vec order_bytes (ob_asks b)"
  note elem = order_layout.put_length [of "[]"] order_layout.get_put [of "[]"]
  have r1: "read_at ''deserialize: truncated'' 8 (book_bytes b) 0 s = (Inr (ob_nextOrderId b, 8), s)" for s :: market_value
    using read_at_here [of 8 0 "[]" "''deserialize: truncated''" "ob_nextOrderId b" "?p @ ?bids @ ?asks" s]
    by (simp add: book_bytes_def)
  have r2: "read_at ''deserialize: truncated'' 8 (book_bytes b) 8 s = (Inr (ob_lastTradePrice b, 16), s)" for s :: market_value
    using read_at_here [of 8 8 ?i "''deserialize: truncated''" "ob_lastTradePrice b" "?bids @ ?asks" s]
    by (simp add: book_bytes_def)
  have r3: "read_vec 32 order_of_bytes (book_bytes b) 16 s = (Inr (ob_bids b, 16 + length ?bids), s)" for s :: market_value
    using read_vec_append [of "ob_bids b" order_bytes 32 order_of_bytes 16 "?i @ ?p" ?asks s] elem assms
    by (simp add: book_bytes_def book_fits_def)
  have r4: "read_vec 32 order_of_bytes (book_bytes b) (16 + length ?bids) s
      = (Inr (ob_asks b, 16 + length ?bids + length ?asks), s)" for s :: market_value
    using read_vec_append [of "ob_asks b" order_bytes 32 order_of_bytes "16 + length ?bids" "?i @ ?p @ ?bids" "[]" s]
      elem assms by (simp add: book_bytes_def book_fits_def)
  show ?thesis by (simp add: load_book_def thn_def r1 r2 r3 r4 upd_book_def)
qed

subsection \<open>Rollback of the exchange and of the traders\<close>

interpretation exchange_part: world_part xc_world "\<lambda>w st. st\<lparr>xc_world := w\<rparr>"
  by unfold_locales simp_all

interpretation traders_part: world_part tr_world "\<lambda>w st. st\<lparr>tr_world := w\<rparr>"
  by unfold_locales simp_all

text \<open>The state a handler has reached, as far as it may have changed the one it began with.\<close>

abbreviation exchange_differ :: "u64 set \<Rightarrow> exchange \<Rightarrow> exchange \<Rightarrow> bool" where
  "exchange_differ E a b \<equiv> b = a\<lparr>xc_world := xc_world b\<rparr> \<and> world_differ E (xc_world a) (xc_world b)"

lemma differ_put_book: "exchange_differ E a b \<Longrightarrow> target \<in> E \<Longrightarrow> exchange_differ E a (put_book target x b)"
  using exchange_part.covered_become [of b a E target "Book_V x"] by (simp add: put_book_def)

lemma covered_audit:
  assumes "exchange_differ E a b"
    and "\<And>b'. exchange_differ (insert (xc_auditId b) E) a b'
      \<Longrightarrow> exchange_part.snapshots.writes_covered (insert (xc_auditId b) E) a (k b')"
  shows "exchange_part.snapshots.writes_covered E a (audit e b k)"
  unfolding audit_def
proof (rule exchange_part.covered_borrow)
  fix v
  let ?b' = "b\<lparr>xc_world := set_entity (xc_auditId b) (Audit_V (audit_of v @ [e])) (xc_world b)\<rparr>"
  have "exchange_differ (insert (xc_auditId b) E) a b"
    using assms(1) world_differ_more by blast
  from exchange_part.covered_become [OF conjunct1 [OF this] conjunct2 [OF this], of "xc_auditId b"]
  have d: "exchange_differ (insert (xc_auditId b) E) a ?b'" by simp
  from d assms(2) [OF d]
  show "exchange_part.snapshots.writes_covered (insert (xc_auditId b) E) a
      (let st' = ?b' in Sink (Become st') # k st')" by (simp add: Let_def)
qed

lemma covered_match:
  "exchange_differ E a st \<Longrightarrow> target \<in> E \<Longrightarrow>
   exchange_part.snapshots.writes_covered E a (match_loop i traderLp n target ev b st)"
proof (induction n arbitrary: b st E)
  case (Suc n)
  note d1 = differ_put_book [OF Suc.prems(1,2)]
  note d2 = differ_put_book [OF d1 Suc.prems(2)]
  have rest: "exchange_part.snapshots.writes_covered E a
      (audit e (put_book target b2 (put_book target b1 st)) (match_loop i traderLp n target ev b2))" for e b1 b2
    by (rule covered_audit [OF d2]) (use Suc.IH Suc.prems(2) in blast)
  show ?case using d1 d2 rest by (auto simp: Let_def split: sum.splits)
qed simp

lemma exchange_handlers [simp]:
  "dispatch_to_handler (exchange_dispatcher i traderLp) ev st =
    (if p_kind (ev_payload ev) = Exchange_Match
     then trivial_handler 4 (field_at 0 4) (match_orders i traderLp) ev st
     else if p_kind (ev_payload ev) = Exchange_PlaceOrder
     then trivial_handler 24 place_order_of_bytes place_order ev st
     else [Sink (Fail (Runtime_Error ''dispatch: unknown eventTypeId''))])"
  by (simp add: exchange_dispatcher_def register_trivial_handler_def register_handler_def
      dispatch_to_handler_def Exchange_Match_def Exchange_PlaceOrder_def)

lemma covered_place: "exchange_part.snapshots.writes_covered {} st (place_order target args ev st)"
  unfolding place_order_def
proof (rule exchange_part.covered_borrow)
  fix v
  have start: "exchange_differ {target} st st" by (simp add: world_differ_refl)
  note d = differ_put_book [OF start, of target]
  have "exchange_part.snapshots.writes_covered {target} st (audit e (put_book target x st) (\<lambda>_. []))" for e x
    by (rule covered_audit [OF d]) simp_all
  then show "exchange_part.snapshots.writes_covered (insert target {}) st
      (let x = new_order args (book_of v); st' = put_book target (book_add x (book_of v)) st
       in Sink (Become st') # audit \<lparr>ae_t = ts_time (ev_ts ev), ae_msg = message ''place'', ae_a = or_id x,
          ae_b = or_price x\<rparr> st' (\<lambda>_. []))"
    using d by (simp add: Let_def)
qed

lemma exchange_covered:
  "exchange_part.snapshots.writes_covered {} st (dispatch_to_handler (exchange_dispatcher i traderLp) ev st)"
proof -
  have "exchange_part.snapshots.writes_covered {} st (match_orders i traderLp target n ev st)" for target n
    unfolding match_orders_def
    by (rule exchange_part.covered_borrow, rule covered_match) (simp_all add: world_differ_refl)
  then show ?thesis using covered_place by (simp add: trivial_handler_def)
qed

lemma traders_covered:
  "traders_part.snapshots.writes_covered {} st (dispatch_to_handler traders_dispatcher ev st)"
proof -
  have "traders_part.snapshots.writes_covered {} st (apply_fill target args e st)" for target args e
    unfolding apply_fill_def
  proof (rule traders_part.covered_borrow)
    fix v
    have "world_differ {target} (tr_world st) (tr_world st)" by (rule world_differ_refl)
    from world_differ_write [OF this]
    have d: "world_differ {target} (tr_world st) (set_entity target x (tr_world st))" for x by simp
    then show "traders_part.snapshots.writes_covered (insert target {}) st
       (case signed_add (td_cash (trader_of v)) (fl_cashDelta args) of
          Inl e \<Rightarrow> [Sink (Fail e)]
        | Inr cash \<Rightarrow> let t = (trader_of v)\<lparr>td_cash := cash\<rparr>
            in Sink (Become (put_trader target t st)) #
               (case signed_add (td_position t) (fl_posDelta args) of
                  Inl e \<Rightarrow> [Sink (Fail e)]
                | Inr position \<Rightarrow> [Sink (Become (put_trader target (t\<lparr>td_position := position\<rparr>) st))]))"
      by (auto simp: put_trader_def Let_def split: sum.splits)
  qed
  then show ?thesis
    by (simp add: traders_dispatcher_def register_trivial_handler_def register_handler_def
        dispatch_to_handler_def trivial_handler_def)
qed

lemma market_reversible:
  assumes "exchange_lp i traderLp = Inr xc" and "traders_lp j exchangeLp = Inr tr"
    and "world_ok (xc_world st)" and "world_ok (tr_world u)"
  shows "reversible xc st (lp_on_event xc ev st)" and "reversible tr u (lp_on_event tr ev u)"
proof -
  show "reversible xc st (lp_on_event xc ev st)"
    using assms(1,3) exchange_covered [of st i traderLp ev]
    by (intro exchange_part.snapshots.reversible_entities)
      (auto simp: exchange_lp_def simp del: exchange_handlers split: sum.splits)
  show "reversible tr u (lp_on_event tr ev u)"
    using assms(2,4) traders_covered [of u ev]
    by (intro traders_part.snapshots.reversible_entities) (auto simp: traders_lp_def split: prod.splits sum.splits)
qed

end
