(* ===== verification/Matching.thy ===== *)
theory Matching
  imports Market "HOL-Library.Product_Lexorder"
begin

text \<open>
  The correctness of the market demo's matching. The handler scans unsorted lists for the best
  orders; the specification is price-time priority: it keeps each side sorted and matches the
  heads. The scan refines it, and the specification's properties carry over.
\<close>

subsection \<open>Price-time priority\<close>

definition bid_key :: "order \<Rightarrow> int \<times> int" where
  "bid_key x = (- uint (or_price x), uint (or_id x))"

definition ask_key :: "order \<Rightarrow> int \<times> int" where
  "ask_key x = (uint (or_price x), uint (or_id x))"

text \<open>A trade: the bid, the ask, the quantity and the price.\<close>

type_synonym trade = "order \<times> order \<times> u32 \<times> u64"

text \<open>What is left of an order at the head of its side.\<close>

definition reduced :: "u32 \<Rightarrow> order \<Rightarrow> order list" where
  "reduced q x = (if or_qty x = q then [] else [x\<lparr>or_qty := or_qty x - q\<rparr>])"

fun match_sorted :: "nat \<Rightarrow> order list \<Rightarrow> order list \<Rightarrow> trade list \<times> order list \<times> order list" where
  "match_sorted (Suc n) (x # xs) (y # ys) =
     (if or_price x < or_price y then ([], x # xs, y # ys)
      else let q = min (or_qty x) (or_qty y);
               (ts, xs', ys') = match_sorted n (reduced q x @ xs) (reduced q y @ ys)
           in ((x, y, q, or_price y) # ts, xs', ys'))"
| "match_sorted n xs ys = ([], xs, ys)"

subsection \<open>The loop on the book alone\<close>

fun match_book :: "nat \<Rightarrow> order_book \<Rightarrow> trade list \<times> order_book" where
  "match_book 0 b = ([], b)"
| "match_book (Suc n) b =
     (if ob_bids b = [] \<or> ob_asks b = [] then ([], b)
      else let kb = best_at best_bid (ob_bids b); ka = best_at best_ask (ob_asks b);
               bid = ob_bids b ! kb; ask = ob_asks b ! ka
        in if or_price bid < or_price ask then ([], b)
        else let qty = min (or_qty bid) (or_qty ask);
                 (ts, b') = match_book n (b\<lparr>ob_lastTradePrice := or_price ask,
                   ob_bids := take_from kb qty (ob_bids b), ob_asks := take_from ka qty (ob_asks b)\<rparr>)
        in ((bid, ask, qty, or_price ask) # ts, b'))"

subsection \<open>The scan finds the head of the sorted side\<close>

lemma best_bid_key: "best_bid a b \<longleftrightarrow> bid_key a < bid_key b"
  and best_ask_key: "best_ask a b \<longleftrightarrow> ask_key a < ask_key b"
  by (auto simp: best_bid_def best_ask_def bid_key_def ask_key_def word_less_def word_uint_eq_iff)

lemma best_from_min:
  fixes f :: "order \<Rightarrow> 'k::linorder"
  assumes "\<And>a b. better a b \<longleftrightarrow> f a < f b"
    and "drop i xs = ys" and "k < i" and "i \<le> length xs" and "x = xs ! k" and "\<forall>j < i. f x \<le> f (xs ! j)"
  shows "best_from better x k i ys < length xs \<and> (\<forall>z \<in> set xs. f (xs ! best_from better x k i ys) \<le> f z)"
  using assms(2-)
proof (induction ys arbitrary: x k i)
  case Nil
  then show ?case by (auto simp: in_set_conv_nth)
next
  case (Cons y ys)
  have i: "i < length xs" "xs ! i = y" "drop (Suc i) xs = ys"
    using Cons.prems(1) by (auto simp: drop_Suc nth_via_drop tl_drop [symmetric] not_le [symmetric])
  show ?case
  proof (cases "better y x")
    case True
    then have "\<forall>j < Suc i. f y \<le> f (xs ! j)"
      using Cons.prems(5) i(2) assms(1) by (fastforce simp: less_Suc_eq)
    then show ?thesis using True i Cons.IH [of "Suc i" i y] by simp
  next
    case False
    then have "\<forall>j < Suc i. f x \<le> f (xs ! j)"
      using Cons.prems(5) i(2) assms(1) by (auto simp: less_Suc_eq not_less)
    then show ?thesis using False i Cons.IH [of "Suc i" k x] Cons.prems(2,4) by simp
  qed
qed

lemma best_at_min:
  fixes f :: "order \<Rightarrow> 'k::linorder"
  assumes "\<And>a b. better a b \<longleftrightarrow> f a < f b" and "xs \<noteq> []"
  shows "best_at better xs < length xs" and "\<forall>z \<in> set xs. f (xs ! best_at better xs) \<le> f z"
proof -
  have "best_at better xs < length xs \<and> (\<forall>z \<in> set xs. f (xs ! best_at better xs) \<le> f z)"
    unfolding best_at_def
    by (rule best_from_min [where f = f, OF assms(1)]) (use assms(2) in \<open>simp_all add: hd_conv_nth drop_Suc Suc_le_eq\<close>)
  then show "best_at better xs < length xs" and "\<forall>z \<in> set xs. f (xs ! best_at better xs) \<le> f z" by auto
qed

lemma sort_key_head:
  assumes "k < length xs" and "\<forall>z \<in> set xs. f (xs ! k) \<le> f z" and "distinct (map f xs)"
  shows "sort_key f xs = xs ! k # sort_key f (take k xs @ drop (Suc k) xs)"
proof (rule sort_key_inj_key_eq)
  have "mset xs = mset (take k xs @ xs ! k # drop (Suc k) xs)"
    by (subst id_take_nth_drop [OF assms(1)]) simp
  then show "mset xs = mset (xs ! k # sort_key f (take k xs @ drop (Suc k) xs))" by simp
  have "set (take k xs @ drop (Suc k) xs) \<subseteq> set xs"
    using set_take_subset set_drop_subset by fastforce
  then show "sorted (map f (xs ! k # sort_key f (take k xs @ drop (Suc k) xs)))"
    using assms(2) by auto
qed (use assms(3) in \<open>simp add: distinct_map\<close>)

text \<open>Taking from the best order is taking from the head of the sorted side.\<close>

lemma sort_key_take_from:
  assumes k: "k < length xs" and least: "\<forall>z \<in> set xs. f (xs ! k) \<le> f z" and distinct: "distinct (map f xs)"
    and same: "\<And>x q. f (x\<lparr>or_qty := q\<rparr>) = f x"
  shows "sort_key f xs = xs ! k # sort_key f (take k xs @ drop (Suc k) xs)"
    and "sort_key f (take_from k q xs) = reduced q (xs ! k) @ sort_key f (take k xs @ drop (Suc k) xs)"
proof -
  show head: "sort_key f xs = xs ! k # sort_key f (take k xs @ drop (Suc k) xs)"
    by (rule sort_key_head [OF k least distinct])
  let ?x = "(xs ! k)\<lparr>or_qty := or_qty (xs ! k) - q\<rparr>"
  have rest: "set (take k xs @ drop (Suc k) xs) \<subseteq> set xs"
    using set_take_subset set_drop_subset by fastforce
  show "sort_key f (take_from k q xs) = reduced q (xs ! k) @ sort_key f (take k xs @ drop (Suc k) xs)"
  proof (cases "or_qty (xs ! k) = q")
    case True
    then show ?thesis by (simp add: take_from_def reduced_def)
  next
    case False
    have keys: "map f (xs[k := ?x]) = map f xs"
    proof -
      have "map f (xs[k := ?x]) = (map f xs)[k := f (xs ! k)]" by (simp add: map_update same)
      also have "\<dots> = map f xs" using list_update_id [of "map f xs" k] k by simp
      finally show ?thesis .
    qed
    have "f (xs[k := ?x] ! k) \<le> f z" if "z \<in> set (xs[k := ?x])" for z
    proof -
      have "f z \<in> set (map f xs)" using that unfolding keys [symmetric] by simp
      then show ?thesis using least k by (auto simp: same)
    qed
    then have "sort_key f (xs[k := ?x])
        = xs[k := ?x] ! k # sort_key f (take k (xs[k := ?x]) @ drop (Suc k) (xs[k := ?x]))"
      using k distinct by (intro sort_key_head) (simp_all only: keys length_list_update, blast)
    then have "sort_key f (xs[k := ?x]) = ?x # sort_key f (take k xs @ drop (Suc k) xs)"
      using k by simp
    then show ?thesis using False by (simp add: take_from_def reduced_def Let_def)
  qed
qed

lemma take_from_keys:
  assumes "k < length xs" and "distinct (map f xs)" and same: "\<And>x q. f (x\<lparr>or_qty := q\<rparr>) = f x"
  shows "distinct (map f (take_from k q xs))"
proof -
  let ?x = "(xs ! k)\<lparr>or_qty := or_qty (xs ! k) - q\<rparr>"
  have "map f (xs[k := ?x]) = (map f xs)[k := f (xs ! k)]" by (simp add: map_update same)
  also have "\<dots> = map f xs" using list_update_id [of "map f xs" k] assms(1) by simp
  finally have upd: "distinct (map f (xs[k := ?x]))" using assms(2) by simp
  have "distinct (map f (take k xs @ drop (Suc k) xs))"
    using assms(2) by (subst (asm) id_take_nth_drop [OF assms(1)]) simp
  then show ?thesis using upd by (simp add: take_from_def Let_def)
qed

lemma keys_of_quantity [simp]: "bid_key (x\<lparr>or_qty := q\<rparr>) = bid_key x" "ask_key (x\<lparr>or_qty := q\<rparr>) = ask_key x"
  by (simp_all add: bid_key_def ask_key_def)

definition book_keys_ok :: "order_book \<Rightarrow> bool" where
  "book_keys_ok b \<longleftrightarrow> distinct (map bid_key (ob_bids b)) \<and> distinct (map ask_key (ob_asks b))"

lemma match_refines:
  assumes "match_book n b = (ts, b')" and "book_keys_ok b"
  shows "match_sorted n (sort_key bid_key (ob_bids b)) (sort_key ask_key (ob_asks b))
      = (ts, sort_key bid_key (ob_bids b'), sort_key ask_key (ob_asks b'))"
  using assms
proof (induction n arbitrary: b ts b')
  case (Suc n)
  show ?case
  proof (cases "ob_bids b = [] \<or> ob_asks b = []")
    case True
    then show ?thesis using Suc.prems(1) by (auto simp: neq_Nil_conv)
  next
    case False
    let ?bids = "ob_bids b" and ?asks = "ob_asks b"
    let ?kb = "best_at best_bid ?bids" and ?ka = "best_at best_ask ?asks"
    let ?bid = "?bids ! ?kb" and ?ask = "?asks ! ?ka"
    let ?q = "min (or_qty ?bid) (or_qty ?ask)"
    let ?b = "b\<lparr>ob_lastTradePrice := or_price ?ask, ob_bids := take_from ?kb ?q ?bids, ob_asks := take_from ?ka ?q ?asks\<rparr>"
    have kb: "?kb < length ?bids" "\<forall>z \<in> set ?bids. bid_key (?bids ! ?kb) \<le> bid_key z"
      using best_at_min [of best_bid bid_key, OF best_bid_key] False by blast+
    have ka: "?ka < length ?asks" "\<forall>z \<in> set ?asks. ask_key (?asks ! ?ka) \<le> ask_key z"
      using best_at_min [of best_ask ask_key, OF best_ask_key] False by blast+
    have keys: "distinct (map bid_key ?bids)" "distinct (map ask_key ?asks)"
      using Suc.prems(2) by (simp_all add: book_keys_ok_def)
    note bid = sort_key_take_from [of ?kb ?bids bid_key, OF kb keys(1) keys_of_quantity(1)]
    note ask = sort_key_take_from [of ?ka ?asks ask_key, OF ka keys(2) keys_of_quantity(2)]
    have ok: "book_keys_ok ?b"
      using take_from_keys [OF kb(1) keys(1)] take_from_keys [OF ka(1) keys(2)] by (simp add: book_keys_ok_def)
    show ?thesis
    proof (cases "or_price ?bid < or_price ?ask")
      case True
      then have "ts = [] \<and> b' = b" using Suc.prems(1) False by (auto simp: Let_def)
      then show ?thesis using True by (simp only: bid(1) ask(1) match_sorted.simps if_True)
    next
      case trade: False
      obtain ts' where rest: "match_book n ?b = (ts', b')" and ts: "ts = (?bid, ?ask, ?q, or_price ?ask) # ts'"
        using Suc.prems(1) False trade by (auto simp: Let_def split: prod.splits)
      from Suc.IH [OF rest ok] show ?thesis
        using trade by (simp add: bid ask ts Let_def)
    qed
  qed
qed simp

subsection \<open>What price-time priority gives\<close>

abbreviation total_qty :: "order list \<Rightarrow> nat" where
  "total_qty xs \<equiv> sum_list (map (\<lambda>x. unat (or_qty x)) xs)"

abbreviation volume :: "trade list \<Rightarrow> nat" where
  "volume ts \<equiv> sum_list (map (\<lambda>(x, y, q, p). unat q) ts)"

lemma total_reduced:
  "q \<le> or_qty x \<Longrightarrow> total_qty (reduced q x @ xs) + unat q = unat (or_qty x) + total_qty xs"
  by (simp add: reduced_def unat_sub word_le_nat_alt)

lemma min_eq_disj: "min a b = a \<or> min a b = (b :: 'a::linorder)"
  by (simp add: min_def)

text \<open>Either the heads do not cross, or they trade and the rest goes on.\<close>

lemma match_sorted_step:
  assumes "match_sorted (Suc n) (x # xs) (y # ys) = (ts, xs', ys')"
  obtains "or_price x < or_price y" "ts = []" "xs' = x # xs" "ys' = y # ys"
  | q us where "or_price y \<le> or_price x" "q \<le> or_qty x" "q \<le> or_qty y" "q = or_qty x \<or> q = or_qty y"
      "match_sorted n (reduced q x @ xs) (reduced q y @ ys) = (us, xs', ys')" "ts = (x, y, q, or_price y) # us"
proof (cases "or_price x < or_price y")
  case True
  then show ?thesis using assms that(1) by simp
next
  case False
  obtain us a b where *: "match_sorted n (reduced (min (or_qty x) (or_qty y)) x @ xs)
      (reduced (min (or_qty x) (or_qty y)) y @ ys) = (us, a, b)"
    by (metis prod_cases3)
  then have eqs: "ts = (x, y, min (or_qty x) (or_qty y), or_price y) # us" "a = xs'" "b = ys'"
    using assms False by (simp_all add: Let_def)
  show ?thesis
    by (rule that(2) [OF _ _ _ min_eq_disj * [unfolded eqs(2,3)] eqs(1)]) (use False in simp_all)
qed

text \<open>An induction rule over the trades of a match.\<close>

lemma match_sorted_trades [consumes 1, case_names no_book apart trade]:
  assumes "match_sorted n xs ys = (ts, xs', ys')"
    and stop: "\<And>n xs ys. n = 0 \<or> xs = [] \<or> ys = [] \<Longrightarrow> P n xs ys [] xs ys"
    and apart: "\<And>n x xs y ys. or_price x < or_price y \<Longrightarrow> P (Suc n) (x # xs) (y # ys) [] (x # xs) (y # ys)"
    and trade: "\<And>n x xs y ys q us xs' ys'. or_price y \<le> or_price x \<Longrightarrow> q \<le> or_qty x \<Longrightarrow> q \<le> or_qty y
      \<Longrightarrow> q = or_qty x \<or> q = or_qty y \<Longrightarrow> P n (reduced q x @ xs) (reduced q y @ ys) us xs' ys'
      \<Longrightarrow> P (Suc n) (x # xs) (y # ys) ((x, y, q, or_price y) # us) xs' ys'"
  shows "P n xs ys ts xs' ys'"
  using assms(1)
proof (induction n arbitrary: xs ys ts xs' ys')
  case 0
  then show ?case using stop by simp
next
  case (Suc n)
  show ?case
  proof (cases "xs = [] \<or> ys = []")
    case True
    then show ?thesis using Suc.prems stop by auto
  next
    case False
    then obtain x xs1 y ys1 where xs: "xs = x # xs1" and ys: "ys = y # ys1" by (auto simp: neq_Nil_conv)
    show ?thesis
      using Suc.prems unfolding xs ys
      by (rule match_sorted_step) (auto intro: apart trade Suc.IH)
  qed
qed

lemma match_sorted_stops:
  "match_sorted n xs ys = (ts, xs', ys') \<Longrightarrow>
   length ts \<le> n \<and> (length ts = n \<or> xs' = [] \<or> ys' = [] \<or> or_price (hd xs') < or_price (hd ys'))"
  by (induction rule: match_sorted_trades) auto

lemma match_sorted_conserves:
  "match_sorted n xs ys = (ts, xs', ys') \<Longrightarrow>
   total_qty xs = total_qty xs' + volume ts \<and> total_qty ys = total_qty ys' + volume ts"
proof (induction rule: match_sorted_trades)
  case (trade n x xs y ys q us xs' ys')
  then show ?case using total_reduced [of q x xs] total_reduced [of q y ys] by simp
qed auto

text \<open>Trades are made at the ask's price, which the bid accepts.\<close>

lemma match_sorted_prices:
  "match_sorted n xs ys = (ts, xs', ys') \<Longrightarrow> list_all (\<lambda>(x, y, q, p). p = or_price y \<and> p \<le> or_price x) ts"
  by (induction rule: match_sorted_trades) auto

text \<open>With every quantity positive, the loop's length is bounded by the quantities.\<close>

lemma match_sorted_volume:
  "match_sorted n xs ys = (ts, xs', ys') \<Longrightarrow> list_all (\<lambda>x. 0 < or_qty x) (xs @ ys)
   \<Longrightarrow> length ts \<le> volume ts \<and> list_all (\<lambda>x. 0 < or_qty x) (xs' @ ys')"
proof (induction rule: match_sorted_trades)
  case (trade n x xs y ys q us xs' ys')
  have "list_all (\<lambda>x. 0 < or_qty x) (reduced q x @ reduced q y)"
    by (simp add: reduced_def word_neq_0_conv [symmetric])
  moreover have "0 < unat q" using trade.hyps trade.prems by (auto simp: word_less_nat_alt)
  ultimately show ?case using trade.IH trade.prems by auto
qed auto

subsection \<open>The handler\<close>

text \<open>What the handler sends and logs for the trades.\<close>

definition fills_of :: "u32 \<Rightarrow> u32 \<Rightarrow> timestamp \<Rightarrow> trade list \<Rightarrow> event list" where
  "fills_of i traderLp ts trades = concat (map (\<lambda>(bid, ask, q, p).
     [fill_event i traderLp ts (or_trader bid) (- (ucast q * p)) (ucast q),
      fill_event i traderLp ts (or_trader ask) (ucast q * p) (- ucast q)]) trades)"

definition trade_entries :: "timestamp \<Rightarrow> trade list \<Rightarrow> audit_entry list" where
  "trade_entries ts trades = map (\<lambda>(bid, ask, q, p).
     \<lparr>ae_t = ts_time ts, ae_msg = message ''trade'', ae_a = p, ae_b = ucast q\<rparr>) trades"

lemma signed_mul_fits:
  fixes q :: u32 and p :: u64
  assumes p: "p < 2 ^ 31"
  shows "signed_mul (ucast q) p = Inr (ucast q * p)" and "signed_mul (- ucast q) p = Inr (- (ucast q * p))"
proof -
  have p': "0 \<le> uint p" "uint p < 2 ^ 31" using p by (simp_all add: word_less_def)
  have q': "0 \<le> uint q" "uint q < 2 ^ 32" using uint_lt2p [of q] by simp_all
  have wide: "uint (ucast q :: u64) = uint q" by (rule uint_up_ucast) (simp add: is_up)
  have sp: "sint p = uint p" using p'(2) unfolding sint_uint
    by (intro signed_take_bit_int_eq_self) (simp_all, use p'(1) in linarith)
  have sq: "sint (ucast q :: u64) = uint q"
    using q'(2) unfolding sint_uint wide
    by (intro signed_take_bit_int_eq_self) (simp_all, use q'(1) in linarith)
  have sm: "sint (- (ucast q :: u64)) = - uint q"
  proof -
    have "- (ucast q :: u64) = word_of_int (- uint q)" by (simp flip: wide)
    then have "sint (- (ucast q :: u64)) = signed_take_bit 63 (- uint q)"
      by (simp only: signed_of_int) simp
    also have "\<dots> = - uint q" using q'(2) by (intro signed_take_bit_int_eq_self) (simp_all, use q'(1) in linarith)
    finally show ?thesis .
  qed
  have small: "uint q * uint p \<le> (2 ^ 32 - 1) * (2 ^ 31 - 1)" using p' q' by (intro mult_mono) auto
  then show "signed_mul (ucast q) p = Inr (ucast q * p)"
    by (simp add: signed_mul_def sp sq Let_def) (use mult_nonneg_nonneg [OF q'(1) p'(1)] in linarith)
  show "signed_mul (- ucast q) p = Inr (- (ucast q * p))"
    using small by (simp add: signed_mul_def sp sm Let_def) (use mult_nonneg_nonneg [OF q'(1) p'(1)] in linarith)
qed

text \<open>Taking from an order leaves no price that was not there.\<close>

lemma take_from_price:
  assumes "k < length xs" and "x \<in> set (take_from k q xs)"
  shows "\<exists>y \<in> set xs. or_price x = or_price y"
proof -
  have "set (take_from k q xs) \<subseteq> insert ((xs ! k)\<lparr>or_qty := or_qty (xs ! k) - q\<rparr>) (set xs)"
    using set_take_subset [of k xs] set_drop_subset [of "Suc k" xs] set_update_subset_insert [of xs k]
    by (auto simp: take_from_def Let_def split: if_splits)
  then have "x = (xs ! k)\<lparr>or_qty := or_qty (xs ! k) - q\<rparr> \<or> x \<in> set xs" using assms(2) by blast
  then show ?thesis using nth_mem [OF assms(1)] by (auto intro: bexI [of _ "xs ! k"])
qed

lemma world_ref_set:
  "world_ref eid type w = Inr v \<Longrightarrow> world_ref eid type (set_entity eid v' w) = Inr v'"
  "other \<noteq> eid \<Longrightarrow> world_ref other type (set_entity eid v' w) = world_ref other type w"
  by (auto simp: world_ref_def world_record_set world_record_set_other split: sum.splits if_splits)

text \<open>
  A match on a book whose prices stay below \<open>2 ^ 31\<close>: the handler makes the trades of
  \<open>match_book\<close>, sends their fills, logs them, and leaves the book in the world.
\<close>

definition exchange_holds :: "u64 \<Rightarrow> order_book \<Rightarrow> audit_entry list \<Rightarrow> exchange \<Rightarrow> bool" where
  "exchange_holds target b es st \<longleftrightarrow> world_ref target BookType (xc_world st) = Inr (Book_V b)
     \<and> world_ref (xc_auditId st) AuditType (xc_world st) = Inr (Audit_V es) \<and> target \<noteq> xc_auditId st"

lemma holds_put_book:
  "exchange_holds target b es st \<Longrightarrow> exchange_holds target b' es (put_book target b' st)"
  by (auto simp: exchange_holds_def put_book_def world_ref_set)

lemma audit_run:
  assumes "exchange_holds target b es st"
  obtains st' where "exchange_holds target b (es @ [e]) st'"
    and "\<And>k. audit e st k = Request_Write (xc_auditId st) # Sink (Become st') # k st'"
proof (rule that)
  let ?st = "st\<lparr>xc_world := set_entity (xc_auditId st) (Audit_V (es @ [e])) (xc_world st)\<rparr>"
  show "exchange_holds target b (es @ [e]) ?st"
    using assms by (auto simp: exchange_holds_def world_ref_set)
  show "audit e st k = Request_Write (xc_auditId st) # Sink (Become ?st) # k ?st" for k
    using assms by (simp add: audit_def borrow_def exchange_holds_def Let_def)
qed

lemma throws_simps [simp]:
  "throws [] = False" "throws (Request_Write e # cs) = throws cs"
  "throws (Sink (Send ev) # cs) = throws cs" "throws (Sink (Become st) # cs) = throws cs"
  by (simp_all add: throws_def)

lemma match_stops:
  assumes "ob_bids b = [] \<or> ob_asks b = []
    \<or> or_price (ob_bids b ! best_at best_bid (ob_bids b)) < or_price (ob_asks b ! best_at best_ask (ob_asks b))"
  shows "match_book (Suc n) b = ([], b)" and "match_loop i traderLp (Suc n) target ev b st = []"
  using assms by (auto simp: Let_def)

lemma match_loop_run:
  assumes "match_book n b = (ts, b')" and "exchange_holds target b es st"
    and "\<forall>x \<in> set (ob_asks b). or_price x < 2 ^ 31"
  shows "let cs = match_loop i traderLp n target ev b st in \<not> throws cs
    \<and> sends_of cs = fills_of i traderLp (ev_ts ev) ts
    \<and> exchange_holds target b' (es @ trade_entries (ev_ts ev) ts) (final_state cs st)"
  using assms
proof (induction n arbitrary: b ts b' es st)
  case 0
  then show ?case by (simp add: fills_of_def trade_entries_def)
next
  case (Suc n)
  let ?kb = "best_at best_bid (ob_bids b)" and ?ka = "best_at best_ask (ob_asks b)"
  let ?bid = "ob_bids b ! ?kb" and ?ask = "ob_asks b ! ?ka"
  show ?case
  proof (cases "ob_bids b = [] \<or> ob_asks b = [] \<or> or_price ?bid < or_price ?ask")
    case True
    then show ?thesis using match_stops [OF True] Suc.prems(1,2) by (simp del: match_book.simps match_loop.simps add: fills_of_def trade_entries_def)
  next
    case False
    let ?q = "min (or_qty ?bid) (or_qty ?ask)" and ?p = "or_price ?ask"
    let ?b1 = "b\<lparr>ob_lastTradePrice := ?p\<rparr>"
    let ?b2 = "?b1\<lparr>ob_bids := take_from ?kb ?q (ob_bids b), ob_asks := take_from ?ka ?q (ob_asks b)\<rparr>"
    let ?e = "\<lparr>ae_t = ts_time (ev_ts ev), ae_msg = message ''trade'', ae_a = ?p, ae_b = ucast ?q\<rparr>"
    let ?st2 = "put_book target ?b2 (put_book target ?b1 st)"
    obtain us where rest: "match_book n ?b2 = (us, b')" and ts: "ts = (?bid, ?ask, ?q, ?p) # us"
      using Suc.prems(1) False by (auto simp: Let_def split: prod.splits)
    have ka: "?ka < length (ob_asks b)"
      using best_at_min(1) [of best_ask ask_key, OF best_ask_key] False by blast
    have p: "?p < 2 ^ 31" using Suc.prems(3) nth_mem [OF ka] by blast
    have prices: "\<forall>x \<in> set (ob_asks ?b2). or_price x < 2 ^ 31"
      using Suc.prems(3) take_from_price [OF ka] by fastforce
    have holds: "exchange_holds target ?b2 es ?st2" by (rule holds_put_book, rule holds_put_book, rule Suc.prems(2))
    obtain st3 where st3: "exchange_holds target ?b2 (es @ [?e]) st3"
      and log: "\<And>k. audit ?e ?st2 k = Request_Write (xc_auditId ?st2) # Sink (Become st3) # k st3"
      using audit_run [OF holds, of ?e] by blast
    have loop: "match_loop i traderLp (Suc n) target ev b st =
      Sink (Become (put_book target ?b1 st)) #
      Sink (Send (fill_event i traderLp (ev_ts ev) (or_trader ?bid) (- (ucast ?q * ?p)) (ucast ?q))) #
      Sink (Send (fill_event i traderLp (ev_ts ev) (or_trader ?ask) (ucast ?q * ?p) (- ucast ?q))) #
      Sink (Become ?st2) # Request_Write (xc_auditId ?st2) # Sink (Become st3) #
      match_loop i traderLp n target ev ?b2 st3"
      using False log by (simp add: Let_def signed_mul_fits [OF p])
    show ?thesis
      using Suc.IH [OF rest st3 prices]
      by (simp only: loop Let_def) (simp add: ts fills_of_def trade_entries_def)
  qed
qed

text \<open>What the handler does with a book is what price-time priority does with its sorted sides.\<close>

theorem match_implements_priority:
  assumes "exchange_holds target b es st" and "book_keys_ok b" and "\<forall>x \<in> set (ob_asks b). or_price x < 2 ^ 31"
    and "match_sorted n (sort_key bid_key (ob_bids b)) (sort_key ask_key (ob_asks b)) = (ts, bids, asks)"
  shows "\<exists>b' cs. cs = match_loop i traderLp n target ev b st \<and> \<not> throws cs
    \<and> sends_of cs = fills_of i traderLp (ev_ts ev) ts
    \<and> exchange_holds target b' (es @ trade_entries (ev_ts ev) ts) (final_state cs st)
    \<and> sort_key bid_key (ob_bids b') = bids \<and> sort_key ask_key (ob_asks b') = asks"
proof -
  obtain us b' where book: "match_book n b = (us, b')" by fastforce
  with match_refines [OF book assms(2)] assms(4) have
    "us = ts" "sort_key bid_key (ob_bids b') = bids" "sort_key ask_key (ob_asks b') = asks" by simp_all
  with match_loop_run [OF book assms(1,3), of i traderLp ev] show ?thesis by (auto simp: Let_def)
qed

text \<open>The fills of the two sides cancel: no cash and no position is created.\<close>

abbreviation fill_of :: "event \<Rightarrow> fill_args" where
  "fill_of e \<equiv> fill_of_bytes (p_bytes (ev_payload e))"

lemma fill_of_event [simp]: "fill_of (fill_event i l ts tr c p) = \<lparr>fl_cashDelta = c, fl_posDelta = p\<rparr>"
proof -
  have "field_at 0 8 ([] @ le_bytes 8 c @ le_bytes 8 p) = c" "field_at 8 8 (le_bytes 8 c @ le_bytes 8 p @ []) = p"
    by (rule field_at_here; simp)+
  then show ?thesis by (simp add: fill_event_def make_trivial_payload_def fill_of_bytes_def fill_bytes_def)
qed

lemma fills_cancel:
  "sum_list (map (fl_cashDelta \<circ> fill_of) (fills_of i l ts trades)) = 0"
  "sum_list (map (fl_posDelta \<circ> fill_of) (fills_of i l ts trades)) = 0"
  by (induction trades) (auto simp: fills_of_def)

end
