(* ===== verification/Scenarios.thy ===== *)
theory Scenarios
  imports Sample Kernel_Progress Aoi Mpi Log Airport Phold Matching
begin

text \<open>
  Further concrete simulations and services on which the properties with hypotheses are
  applied.
\<close>

text \<open>
  A process whose state is an entity store without entities, and a rank that buffers events
  for missing entities.
\<close>

definition store_lp :: "u64 world lp" where
  "store_lp = (default_lp 1 \<lparr>w_registry = [], w_entities = []\<rparr>)\<lparr>
     lp_on_event := (\<lambda>ev w. txn_write (ev_target ev) 7 (\<lambda>n. n + 1) w),
     lp_save_state := (\<lambda>_. Inr [])\<rparr>"

definition store_sim :: "(u64 world, inproc) sim" where
  "store_sim = snd (add_lp (Some store_lp) (projr (new_simulation
     (default_config\<lparr>c_enableInstallBeforeUseBuffering := True, c_installEventKind := 3\<rparr>) (Some inproc_transport) [])))"

text \<open>An MPI library that loops messages back in order and completes every send at once.\<close>

definition loop_mpi :: "(bytes list, unit) mpi" where
  "loop_mpi = \<lparr>mpi_isend = (\<lambda>bs _ q. ((True, ()), q @ [bs])),
     mpi_iprobe = (\<lambda>q. ((True, q \<noteq> []), q)),
     mpi_get_count = (\<lambda>q. (True, int (length (hd q)))),
     mpi_recv = (\<lambda>n q. ((True, hd q), tl q)),
     mpi_test = (\<lambda>_ q. ((True, True), q)),
     mpi_allreduce_stamp = (\<lambda>t q. ((True, t), q)),
     mpi_allreduce_lor = (\<lambda>b q. ((True, b), q)),
     mpi_allreduce_sum = (\<lambda>v q. ((True, v), q))\<rparr>"

lemma loop_mpi_tests: "tests_by loop_mpi (\<lambda>_. True)"
  by (simp add: tests_by_def loop_mpi_def)

text \<open>A 64-bit counter as an entity and as the arguments of a handler.\<close>

interpretation counter_layout: trivial_layout "\<lambda>_. le_bytes 8" "field_at 0 8 :: bytes \<Rightarrow> u64" 8 0
proof
  fix x :: u64 and rest
  show "field_at 0 8 (le_bytes 8 x @ rest) = x" using field_at_here [of 8 "[]" 0 x rest] by simp
qed simp

text \<open>
  A directory with the default configuration and some history, and the fossil request that
  prunes it.
\<close>

definition dir_config :: directory_config where
  "dir_config = make_default_directory_config [0, 0, 0, 0] 100 1"

definition dir_service :: "owner_history lp" where
  "dir_service = projr (directory_lp [0, 0, 0, 0] (make_default_directory_config [0, 0, 0, 0] 100 1))"

definition dir_history :: owner_history where
  "dir_history = [(4, [(TimeStamp 1 0, 2), (TimeStamp 2 0, 3)])]"

definition dir_sim :: "(owner_history, inproc) sim" where
  "dir_sim = snd (add_lp (Some (dir_service\<lparr>lp_state := dir_history\<rparr>))
     (projr (new_simulation default_config (Some inproc_transport) [])))"

definition dir_event :: event where
  "dir_event = tally_event\<lparr>ev_dst := 100, ev_payload := make_fossil_collect_payload (TimeStamp 5 1)\<rparr>"

definition dir_done :: "(owner_history, inproc) sim" where
  "dir_done = snd (dispatch dir_event dir_sim)"

lemma dir_service_is: "directory_lp [0, 0, 0, 0] (make_default_directory_config [0, 0, 0, 0] 100 1) = Inr dir_service"
  by (simp add: dir_service_def directory_lp_def make_default_directory_config_def)

lemma dir_sim_facts:
  "idle_wf dir_sim"
  "m_lps dir_sim = [(100, \<lparr>cx_lp = dir_service\<lparr>lp_state := dir_history\<rparr>, cx_vt = zero_stamp, cx_inEvent = False,
    cx_currentExecTs = zero_stamp, cx_processed = [], cx_sentLog = [], cx_nextSeqNormal = 1,
    cx_nextSeqControl = 1, cx_nextUid = 1\<rparr>)]"
  "m_cfg dir_sim = default_config"
proof -
  show "idle_wf dir_sim"
    unfolding dir_sim_def
    by (rule keepsD [OF keeps_add_lp], rule new_simulation_wf [of default_config inproc_transport "[]"])
      (simp add: new_simulation_def)
  have "lp_id dir_service = 100"
    by (simp add: dir_service_def directory_lp_def make_default_directory_config_def default_lp_def)
  then show "m_lps dir_sim = [(100, \<lparr>cx_lp = dir_service\<lparr>lp_state := dir_history\<rparr>, cx_vt = zero_stamp, cx_inEvent = False,
    cx_currentExecTs = zero_stamp, cx_processed = [], cx_sentLog = [], cx_nextSeqNormal = 1,
    cx_nextSeqControl = 1, cx_nextUid = 1\<rparr>)]" "m_cfg dir_sim = default_config"
    by (simp_all add: dir_sim_def new_simulation_def add_lp_def Let_def)
qed

text \<open>Word arithmetic in the place of the floating-point one.\<close>

definition word_fp :: fp where
  "word_fp = \<lparr>fp_add = (+), fp_sub = (-), fp_mul = (*), fp_less = (<), fp_le = (\<le>), fp_eq = (=)\<rparr>"

text \<open>
  The tally after a notification of the directories, and whether undoing its event finds 0.
\<close>

definition noticed_sim :: "(u64, inproc) sim" where
  "noticed_sim = snd (notify_directories_gvt (TimeStamp 4 0)
     (tally_done\<lparr>m_cfg := default_config\<lparr>c_directoryForEntity := Some (\<lambda>_. 1), c_directoryFossilCollectKind := 5\<rparr>,
        m_directoryLps := [1]\<rparr>))"

definition undoes_to_zero :: "u64 lp_context \<Rightarrow> bool" where
  "undoes_to_zero cx \<longleftrightarrow> (case restore_lp (cx_lp cx) (undone_of (TimeStamp 5 1) cx) (lp_state (cx_lp cx)) of
     (Inr _, n) \<Rightarrow> n = 0 | (Inl _, _) \<Rightarrow> False)"

text \<open>A handler that changes its state before it finds an entity missing.\<close>

definition partial_lp :: "u64 lp" where
  "partial_lp = tally_lp\<lparr>lp_on_event := (\<lambda>ev n. [Request_Write 1, Sink (Become (n + 1)),
     Sink (Fail (Runtime_Error ''World: unknown EntityId=4''))])\<rparr>"

definition partial_sim :: "(u64, inproc) sim" where
  "partial_sim = snd (add_lp (Some partial_lp) (projr (new_simulation
     (default_config\<lparr>c_enableInstallBeforeUseBuffering := True, c_installEventKind := 3\<rparr>) (Some inproc_transport) [])))"

text \<open>A handler that sends with the sequence number left to the kernel.\<close>

definition echo_lp :: "u64 lp" where
  "echo_lp = tally_lp\<lparr>lp_on_event := (\<lambda>ev n. [Request_Write 1, Sink (Become (n + 1)),
     Sink (Send (empty_event\<lparr>ev_ts := TimeStamp 6 0, ev_src := 1, ev_dst := 1\<rparr>))])\<rparr>"

definition echo_sim :: "(u64, inproc) sim" where
  "echo_sim = snd (add_lp (Some echo_lp) (projr (new_simulation default_config (Some inproc_transport) [])))"

definition next_normal :: "(u64, inproc) sim \<Rightarrow> u64" where
  "next_normal s = cx_nextSeqNormal (tally_ctx s)"

text \<open>
  The counter after the event has been rolled back, and after its anti-message has been
  executed and rolled back.
\<close>

lemma echo_begins: "next_normal echo_sim = 1"
  by code_simp

lemma echo_undone: "next_normal (snd (rollback 1 (TimeStamp 5 1) (snd (dispatch tally_event echo_sim)))) = 1"
  by code_simp

lemma echo_anti_undone:
  "next_normal (snd (rollback 1 (TimeStamp 5 1)
     (snd (dispatch (tally_event\<lparr>ev_isAnti := True\<rparr>) (snd (dispatch tally_event echo_sim)))))) = 2"
  by code_simp

end
