(* ===== verification/Inflight.thy ===== *)
theory Inflight
  imports Kernel_Poll
begin

text \<open>
  The acknowledgement protocol seen from one rank, as a ledger: for every logical process the
  next identifier and the identifiers in its sent log, the in-flight map, and the messages in
  transit on the whole network. \<open>book\<close> is what makes the in-flight map a safe bound: every
  event message of the rank that is still in transit has its entry, because no two messages
  of the rank in transit, acknowledgements included, carry the same key. The abstract moves
  (a fresh send, a recall, a receipt, an acknowledgement, pruning, the moves of other ranks)
  keep it.
\<close>

subsection \<open>Messages in transit\<close>

definition message_key :: "wire_message \<Rightarrow> inflight_key option" where
  "message_key m = (case wm_kind m of
     Event_Message \<Rightarrow> (case decode_event (wm_bytes m) of Inl _ \<Rightarrow> None | Inr ev \<Rightarrow> Some (inflight_key_of ev))
   | Ack_Message \<Rightarrow> (case decode_ack (wm_bytes m) of Inl _ \<Rightarrow> None | Inr key \<Rightarrow> Some key)
   | Migration_Message \<Rightarrow> None
   | Other_Message _ \<Rightarrow> None)"

definition sent_by :: "u32 \<Rightarrow> wire_message \<Rightarrow> bool" where
  "sent_by r m \<longleftrightarrow> wm_kind m = Event_Message \<and> wm_srcRank m = r"

definition concerns :: "u32 \<Rightarrow> wire_message \<Rightarrow> bool" where
  "concerns r m \<longleftrightarrow> sent_by r m \<or> wm_kind m = Ack_Message \<and> wm_dstRank m = r"

definition flying :: "u32 \<Rightarrow> wire_message multiset \<Rightarrow> inflight_key option multiset" where
  "flying r W = image_mset message_key (filter_mset (concerns r) W)"

text \<open>What another rank may do to the messages that concern rank \<open>r\<close>.\<close>

definition leaves_alone :: "u32 \<Rightarrow> wire_message multiset \<Rightarrow> wire_message multiset \<Rightarrow> bool" where
  "leaves_alone r W W' \<longleftrightarrow> flying r W' \<subseteq># flying r W \<and> filter_mset (sent_by r) W' \<subseteq># filter_mset (sent_by r) W"

lemma leaves_alone_refl [simp]: "leaves_alone r W W"
  by (simp add: leaves_alone_def)

lemma leaves_alone_trans: "leaves_alone r W V \<Longrightarrow> leaves_alone r V U \<Longrightarrow> leaves_alone r W U"
  unfolding leaves_alone_def by (blast intro: subset_mset.order_trans)

lemma message_key_ack: "message_key (ack_of rank sender ev) = Some (inflight_key_of ev)"
  unfolding message_key_def ack_kind message_kind.case decode_ack_of by simp

lemma concerns_ack [simp]: "concerns r (ack_of rank sender ev) \<longleftrightarrow> sender = r"
  by (simp add: concerns_def sent_by_def ack_of_def)

lemma sent_by_ack [simp]: "\<not> sent_by r (ack_of rank sender ev)"
  by (simp add: sent_by_def)

lemma flying_add [simp]:
  "flying r (add_mset m W) = (if concerns r m then add_mset (message_key m) (flying r W) else flying r W)"
  by (simp add: flying_def)

lemma leaves_alone_send: "\<not> concerns r m \<Longrightarrow> leaves_alone r W (add_mset m W)"
  by (auto simp: leaves_alone_def concerns_def)

lemma leaves_alone_take: "leaves_alone r (add_mset m W) W"
  by (simp add: leaves_alone_def)

text \<open>A received event turns into its acknowledgement.\<close>

lemma leaves_alone_receive:
  assumes "wm_kind m = Event_Message" and "decode_event (wm_bytes m) = Inr ev"
  shows "leaves_alone r (add_mset m W) (add_mset (ack_of rank (wm_srcRank m) ev) W)"
proof -
  have key: "message_key m = Some (inflight_key_of ev)" using assms by (simp add: message_key_def)
  have "concerns r m = (wm_srcRank m = r)" "sent_by r m = (wm_srcRank m = r)"
    using assms(1) by (simp_all add: concerns_def sent_by_def)
  then show ?thesis by (simp add: leaves_alone_def message_key_ack key)
qed

subsection \<open>The ledger\<close>

type_synonym ledger = "u32 \<Rightarrow> (u64 \<times> u64 list) option"

text \<open>The keys a rank may have used already; a logged message has not been recalled.\<close>

definition used :: "ledger \<Rightarrow> inflight_key \<Rightarrow> bool" where
  "used U k = (case k of (src, uid, anti) \<Rightarrow> (case U src of
     None \<Rightarrow> False
   | Some (next_uid, log) \<Rightarrow> uid \<noteq> 0 \<and> (next_uid = 0 \<or> uid < next_uid) \<and> (anti \<longrightarrow> uid \<notin> set log)))"

definition logs_ok :: "ledger \<Rightarrow> bool" where
  "logs_ok U \<longleftrightarrow> (\<forall>i n log. U i = Some (n, log) \<longrightarrow>
     distinct log \<and> (\<forall>u \<in> set log. u \<noteq> 0 \<and> (n = 0 \<or> u < n)))"

definition book :: "u32 \<Rightarrow> ledger \<Rightarrow> (inflight_key \<times> timestamp) list \<Rightarrow> wire_message multiset \<Rightarrow> bool" where
  "book r U I W \<longleftrightarrow>
     (\<forall>k. count (flying r W) (Some k) \<le> 1)
     \<and> (\<forall>m. m \<in># W \<longrightarrow> sent_by r m \<longrightarrow>
          (\<exists>ev. decode_event (wm_bytes m) = Inr ev \<and> map_of I (inflight_key_of ev) = Some (ev_ts ev)))
     \<and> (\<forall>k. Some k \<in># flying r W \<longrightarrow> used U k)
     \<and> (\<forall>k \<in> fst ` set I. used U k)
     \<and> logs_ok U"

text \<open>Messages that do not concern a rank have keys of other ranks' processes.\<close>

definition foreign :: "u32 \<Rightarrow> u32 set \<Rightarrow> wire_message multiset \<Rightarrow> bool" where
  "foreign r D W \<longleftrightarrow> (\<forall>m k. m \<in># W \<longrightarrow> \<not> concerns r m \<longrightarrow> message_key m = Some k \<longrightarrow> fst k \<notin> D)"

lemma foreignD: "foreign r D W \<Longrightarrow> m \<in># W \<Longrightarrow> \<not> concerns r m \<Longrightarrow> message_key m = Some k \<Longrightarrow> fst k \<notin> D"
  unfolding foreign_def by blast

lemma foreign_add: "foreign r D (add_mset m W) \<longleftrightarrow>
    foreign r D W \<and> (concerns r m \<or> (\<forall>k. message_key m = Some k \<longrightarrow> fst k \<notin> D))"
  unfolding foreign_def set_mset_add_mset_insert insert_iff by blast

lemma used_dom: "used U k \<Longrightarrow> fst k \<in> dom U"
  by (auto simp: used_def split: option.splits prod.splits)

lemma bookD:
  assumes "book r U I W"
  shows "count (flying r W) (Some k) \<le> 1"
    and "m \<in># W \<Longrightarrow> sent_by r m \<Longrightarrow>
      \<exists>ev. decode_event (wm_bytes m) = Inr ev \<and> map_of I (inflight_key_of ev) = Some (ev_ts ev)"
    and "Some k \<in># flying r W \<Longrightarrow> used U k"
    and "map_of I k = Some ts \<Longrightarrow> used U k"
    and "logs_ok U"
proof -
  note b = assms [unfolded book_def]
  show "count (flying r W) (Some k) \<le> 1" using b by blast
  show "m \<in># W \<Longrightarrow> sent_by r m \<Longrightarrow>
      \<exists>ev. decode_event (wm_bytes m) = Inr ev \<and> map_of I (inflight_key_of ev) = Some (ev_ts ev)"
    using b by blast
  show "Some k \<in># flying r W \<Longrightarrow> used U k" using b by blast
  show "map_of I k = Some ts \<Longrightarrow> used U k"
    using b map_of_SomeD [of I k ts] by (metis fst_conv image_eqI)
  show "logs_ok U" using b by blast
qed

lemma logs_okD:
  assumes "logs_ok U" and "U i = Some (n, log)"
  shows "distinct log" and "u \<in> set log \<Longrightarrow> u \<noteq> 0 \<and> (n = 0 \<or> u < n)"
  using assms unfolding logs_ok_def by blast+

lemma bookI:
  assumes "\<And>k. count (flying r W) (Some k) \<le> 1"
    and "\<And>m. m \<in># W \<Longrightarrow> sent_by r m \<Longrightarrow>
      \<exists>ev. decode_event (wm_bytes m) = Inr ev \<and> map_of I (inflight_key_of ev) = Some (ev_ts ev)"
    and "\<And>k. Some k \<in># flying r W \<Longrightarrow> used U k"
    and "\<And>k. k \<in> fst ` set I \<Longrightarrow> used U k"
    and "logs_ok U"
  shows "book r U I W"
  unfolding book_def using assms by blast

text \<open>Events in transit at or after a floor.\<close>

definition wire_from :: "timestamp \<Rightarrow> wire_message multiset \<Rightarrow> bool" where
  "wire_from g W \<longleftrightarrow> (\<forall>m ev. m \<in># W \<longrightarrow> wm_kind m = Event_Message \<longrightarrow>
     decode_event (wm_bytes m) = Inr ev \<longrightarrow> g \<le> ev_ts ev)"

text \<open>The point of it: the in-flight entries bound what the rank has in transit.\<close>

lemma book_bounds:
  assumes "book r U I W" and "m \<in># W" and "sent_by r m" and "\<forall>e \<in> set I. g \<le> snd e"
  shows "\<exists>ev. decode_event (wm_bytes m) = Inr ev \<and> g \<le> ev_ts ev"
  using bookD(2) [OF assms(1,2,3)] assms(4) by (force dest: map_of_SomeD)

lemma event_key: "sent_by r m \<Longrightarrow> decode_event (wm_bytes m) = Inr ev \<Longrightarrow> message_key m = Some (inflight_key_of ev)"
  by (simp add: message_key_def sent_by_def)

lemma flying_mem: "m \<in># W \<Longrightarrow> concerns r m \<Longrightarrow> message_key m = Some k \<Longrightarrow> Some k \<in># flying r W"
  by (force simp: flying_def)

lemma sent_by_concerns: "sent_by r m \<Longrightarrow> concerns r m"
  by (simp add: concerns_def)

text \<open>The source of an event in transit is a process of the rank that sent it.\<close>

lemma book_source:
  assumes "book r U I W" and "m \<in># W" and "concerns r m" and "message_key m = Some k"
  shows "fst k \<in> dom U"
  using bookD(3) [OF assms(1)] flying_mem [OF assms(2-4)] used_dom by blast

lemma book_cong_used:
  assumes "book r U I W" and "\<And>k. used U k \<Longrightarrow> used V k" and "logs_ok V"
  shows "book r V I W"
  using assms unfolding book_def by blast

lemma book_others:
  assumes "book r U I W" and "leaves_alone r W W'"
  shows "book r U I W'"
proof (rule bookI)
  fix k show "count (flying r W') (Some k) \<le> 1"
    using assms bookD(1) [OF assms(1), of k] mset_subset_eq_count [of "flying r W'" "flying r W" "Some k"]
    by (simp add: leaves_alone_def)
next
  fix m assume "m \<in># W'" "sent_by r m"
  then have "m \<in># filter_mset (sent_by r) W'" by simp
  then have "m \<in># filter_mset (sent_by r) W"
    using assms(2) by (meson leaves_alone_def mset_subset_eqD)
  then show "\<exists>ev. decode_event (wm_bytes m) = Inr ev \<and> map_of I (inflight_key_of ev) = Some (ev_ts ev)"
    using bookD(2) [OF assms(1)] by simp
next
  fix k assume "Some k \<in># flying r W'"
  then show "used U k"
    using bookD(3) [OF assms(1)] assms(2) by (meson leaves_alone_def mset_subset_eqD)
qed (use assms(1) in \<open>auto simp: book_def\<close>)

subsection \<open>Sending\<close>

lemma used_fresh: "U src = Some (n, log) \<Longrightarrow> n \<noteq> 0 \<Longrightarrow> \<not> used U (src, n, anti)"
  by (simp add: used_def)

lemma next_word: "n + 1 = 0 \<or> n < n + (1 :: u64)"
  using inc_less_eq_self_iff_eq [of n] by (cases "n = - 1") (simp_all add: not_le [symmetric])

lemma less_next_word: "u < n \<Longrightarrow> n + 1 = 0 \<or> u < n + (1 :: u64)"
  using next_word [of n] less_trans by blast

lemma used_advance:
  assumes "U src = Some (n, log)" and "n \<noteq> 0" and "used U k"
  shows "used (U(src \<mapsto> (n + 1, log @ [n]))) k"
  using assms less_next_word [of "fst (snd k)" n]
  by (cases k) (auto simp: used_def split: option.splits if_splits prod.splits)

lemma used_just_sent:
  assumes "U src = Some (n, log)" and "n \<noteq> 0"
  shows "used (U(src \<mapsto> (n + 1, log @ [n]))) (src, n, False)"
  using assms next_word [of n] by (auto simp: used_def)

lemma logs_ok_advance:
  assumes "logs_ok U" and U: "U src = Some (n, log)" and "n \<noteq> 0"
  shows "logs_ok (U(src \<mapsto> (n + 1, log @ [n])))"
proof -
  have log: "distinct log" "\<forall>u \<in> set log. u \<noteq> 0 \<and> (n = 0 \<or> u < n)"
    using assms by (auto simp: logs_ok_def)
  then have "n \<notin> set log" using assms(3) by auto
  moreover have "\<forall>u \<in> set (log @ [n]). u \<noteq> 0 \<and> (n + 1 = 0 \<or> u < n + 1)"
    using log assms(3) less_next_word [of _ n] next_word [of n] by auto
  ultimately show ?thesis using assms(1) log by (auto simp: logs_ok_def)
qed

lemma book_advance:
  assumes "book r U I W" and "U src = Some (n, log)" and "n \<noteq> 0"
  shows "book r (U(src \<mapsto> (n + 1, log @ [n]))) I W"
  by (rule book_cong_used [OF assms(1)]) (rule used_advance [where U = U, OF assms(2,3)], assumption,
      rule logs_ok_advance [OF bookD(5) [OF assms(1)] assms(2,3)])

lemma used_recall:
  assumes "logs_ok U" and "U src = Some (n, log @ [u])" and "used U k"
  shows "used (U(src \<mapsto> (n, log))) k"
  using assms by (cases k) (auto simp: used_def split: option.splits if_splits prod.splits)

lemma used_recalled:
  assumes "logs_ok U" and "U src = Some (n, log @ [u])"
  shows "used (U(src \<mapsto> (n, log))) (src, u, True)" and "\<not> used U (src, u, True)"
  using logs_okD [OF assms] assms(2) by (auto simp: used_def)

lemma logs_ok_recall: "logs_ok U \<Longrightarrow> U src = Some (n, log @ [u]) \<Longrightarrow> logs_ok (U(src \<mapsto> (n, log)))"
proof -
  assume ok: "logs_ok U" and U: "U src = Some (n, log @ [u])"
  have "distinct log" "\<forall>u \<in> set log. u \<noteq> 0 \<and> (n = 0 \<or> u < n)"
    using logs_okD [OF ok U] by auto
  then show ?thesis using ok unfolding logs_ok_def fun_upd_apply by auto
qed

lemma book_recall:
  assumes "book r U I W" and "U src = Some (n, log @ [u])"
  shows "book r (U(src \<mapsto> (n, log))) I W"
  by (rule book_cong_used [OF assms(1)]) (rule used_recall [OF bookD(5) [OF assms(1)] assms(2)], assumption,
      rule logs_ok_recall [OF bookD(5) [OF assms(1)] assms(2)])

text \<open>A message with a key not used before is sent and tracked.\<close>

lemma book_send:
  assumes b: "book r U I W" and new: "\<not> used U k" and b': "book r V I W" and "used V k"
    and m: "sent_by r m" "decode_event (wm_bytes m) = Inr ev" "inflight_key_of ev = k"
  shows "book r V ((k, ev_ts ev) # I) (add_mset m W)" and "map_of I k = None"
proof -
  have key: "message_key m = Some k" "concerns r m"
    using event_key [OF m(1,2)] m(3) sent_by_concerns [OF m(1)] by simp_all
  have fresh: "Some k \<notin># flying r W" using bookD(3) [OF b] new by blast
  show I: "map_of I k = None"
    using bookD(4) [OF b, of k] new by (cases "map_of I k") auto
  show "book r V ((k, ev_ts ev) # I) (add_mset m W)"
  proof (rule bookI)
    fix j show "count (flying r (add_mset m W)) (Some j) \<le> 1"
      using bookD(1) [OF b', of j] fresh key by (auto simp: not_in_iff)
  next
    fix m' assume m': "m' \<in># add_mset m W" "sent_by r m'"
    show "\<exists>ev'. decode_event (wm_bytes m') = Inr ev' \<and>
        map_of ((k, ev_ts ev) # I) (inflight_key_of ev') = Some (ev_ts ev')"
    proof (cases "m' = m")
      case True
      then show ?thesis using m by simp
    next
      case False
      then obtain ev' where "decode_event (wm_bytes m') = Inr ev'"
        "map_of I (inflight_key_of ev') = Some (ev_ts ev')"
        using m' bookD(2) [OF b'] by auto
      then show ?thesis using I by auto
    qed
  next
    fix j assume "Some j \<in># flying r (add_mset m W)"
    then have "j = k \<or> Some j \<in># flying r W" using key by auto
    then show "used V j" using bookD(3) [OF b'] assms(4) by blast
  next
    fix j assume "j \<in> fst ` set ((k, ev_ts ev) # I)"
    then show "used V j" using b' assms(4) by (auto simp: book_def)
  qed (rule bookD(5) [OF b'])
qed

subsection \<open>Receiving\<close>

lemma book_take: "book r U I (add_mset m W) \<Longrightarrow> book r U I W"
  by (erule book_others) (rule leaves_alone_take)

text \<open>Clearing the key of a message that has been taken off the network.\<close>

lemma book_clear:
  assumes b: "book r U I (add_mset m W)" and k: "message_key m = Some k"
    and "concerns r m \<or> fst k \<notin> dom U"
  shows "book r U (AList.delete k I) W"
proof (rule bookI)
  have b': "book r U I W" using b by (rule book_take)
  fix m' assume m': "m' \<in># W" "sent_by r m'"
  then obtain ev where ev: "decode_event (wm_bytes m') = Inr ev"
    "map_of I (inflight_key_of ev) = Some (ev_ts ev)"
    using bookD(2) [OF b'] by blast
  have key: "Some (inflight_key_of ev) \<in># flying r W"
    using flying_mem [OF m'(1) sent_by_concerns] event_key m'(2) ev(1) by blast
  have "inflight_key_of ev \<noteq> k"
  proof
    assume eq: "inflight_key_of ev = k"
    show False
    proof (cases "concerns r m")
      case True
      then have "count (flying r (add_mset m W)) (Some k) \<ge> 2"
        using key k eq by (simp add: Suc_le_eq)
      then show False using bookD(1) [OF b, of k] by simp
    next
      case False
      then show False
        using assms(3) eq bookD(3) [OF b' key] used_dom by blast
    qed
  qed
  then show "\<exists>ev. decode_event (wm_bytes m') = Inr ev \<and>
      map_of (AList.delete k I) (inflight_key_of ev) = Some (ev_ts ev)"
    using ev by (auto simp: delete_conv')
next
  fix j assume "j \<in> fst ` set (AList.delete k I)"
  then show "used U j" using b by (auto simp: book_def AList.delete_eq)
qed (use book_take [OF b] in \<open>auto dest: bookD\<close>)

text \<open>The acknowledgement takes the place of the event.\<close>

lemma book_acknowledge:
  assumes b: "book r U I Net" and m: "leaves_alone r Net (add_mset a W)" and "\<not> sent_by r a"
    and b': "book r U I' W"
  shows "book r U I' (add_mset a W)"
proof (rule bookI)
  note all = book_others [OF b m]
  show "count (flying r (add_mset a W)) (Some k) \<le> 1" for k by (rule bookD(1) [OF all])
  show "used U k" if "Some k \<in># flying r (add_mset a W)" for k using bookD(3) [OF all] that by blast
  show "used U k" if "k \<in> fst ` set I'" for k using b' that by (auto simp: book_def)
  show "logs_ok U" by (rule bookD(5) [OF b'])
  show "\<exists>ev. decode_event (wm_bytes m) = Inr ev \<and> map_of I' (inflight_key_of ev) = Some (ev_ts ev)"
    if "m \<in># add_mset a W" "sent_by r m" for m
    using that bookD(2) [OF b'] assms(3) by auto
qed

subsection \<open>Pruning\<close>

lemma book_prune:
  assumes "book r U I W"
    and sub: "\<And>i n log. V i = Some (n, log) \<Longrightarrow> \<exists>log'. U i = Some (n, log') \<and> set log \<subseteq> set log' \<and> (distinct log' \<longrightarrow> distinct log)"
    and dom: "dom V = dom U"
  shows "book r V I W"
proof (rule book_cong_used [OF assms(1)])
  show "logs_ok V"
    using bookD(5) [OF assms(1)] sub unfolding logs_ok_def by (meson subsetD)
  fix k assume k: "used U k"
  then have "fst k \<in> dom V" using used_dom dom by blast
  then obtain n log where V: "V (fst k) = Some (n, log)" by auto
  from sub [OF V] k V show "used V k" by (cases k) (auto simp: used_def)
qed

end
