(* ===== verification/Network.thy ===== *)
theory Network
  imports Inflight
begin

text \<open>
  A rank on a network it shares with others, in the acknowledgement mode. The locale
  \<open>shared_network\<close> is what the rank relies on: a send puts the message in transit, a poll
  takes some message out of it, and nothing else changes. Inside it, every operation that
  returns keeps the books of the rank (\<open>netted\<close>), so the in-flight map covers what the rank
  has in transit, and leaves those of the others alone.
\<close>

subsection \<open>The contract of a shared network\<close>

locale shared_network =
  fixes tr :: "'w transport" and wire :: "'w \<Rightarrow> wire_message multiset"
  assumes sent: "t_send tr m w = (Inr (), w') \<Longrightarrow> wire w' = add_mset m (wire w)"
    and polled: "t_poll tr w = (Inr r, w') \<Longrightarrow>
      (case r of None \<Rightarrow> wire w' = wire w | Some m \<Rightarrow> wire w = add_mset m (wire w'))"

sublocale reliable_transport \<subseteq> shared: shared_network tr "\<lambda>w. mset (queued w)"
proof
  show "t_send tr m w = (Inr (), w') \<Longrightarrow> mset (queued w') = add_mset m (mset (queued w))" for m w w'
    using send_queued [of m w] by simp
  show "t_poll tr w = (Inr r, w') \<Longrightarrow> (case r of None \<Rightarrow> mset (queued w') = mset (queued w)
      | Some m \<Rightarrow> mset (queued w) = add_mset m (mset (queued w')))" for w w' r
    using poll_queued [of w r w'] by (cases r) simp_all
qed

subsection \<open>What the books depend on\<close>

definition face_ctx where
  "face_ctx (cx :: 'st lp_context) =
     (cx_nextUid cx, map sr_uid (cx_sentLog cx), lp_id (cx_lp cx), lp_on_event (cx_lp cx), lp_on_start (cx_lp cx))"

definition face where
  "face (s :: ('st, 'w) sim) = (m_cfg s, m_transport s, m_inflightByUid s, m_world s,
     \<lambda>i. map_option face_ctx (map_of (m_lps s) i))"

definition uids :: "('st, 'w) sim \<Rightarrow> ledger" where
  "uids s i = map_option (\<lambda>cx. (cx_nextUid cx, map sr_uid (cx_sentLog cx))) (map_of (m_lps s) i)"

text \<open>
  Handlers hand new events to the kernel and leave the identifiers to it, and what they send
  fits its wire format.
\<close>

definition plain_event :: "event \<Rightarrow> bool" where
  "plain_event e \<longleftrightarrow> ev_uid e = 0 \<and> \<not> ev_isAnti e \<and> event_fits e"

definition plain_handler :: "(event \<Rightarrow> 'st \<Rightarrow> 'st ctx_call list) \<Rightarrow> bool" where
  "plain_handler h \<longleftrightarrow> (\<forall>ev st e. Sink (Send e) \<in> set (h ev st) \<longrightarrow> plain_event e)"

definition plain_start :: "('st \<Rightarrow> 'st sink_call list) \<Rightarrow> bool" where
  "plain_start h \<longleftrightarrow> (\<forall>st e. Send e \<in> set (h st) \<longrightarrow> plain_event e)"

definition plain_lps :: "('st, 'w) sim \<Rightarrow> bool" where
  "plain_lps s \<longleftrightarrow> (\<forall>i cx. map_of (m_lps s) i = Some cx \<longrightarrow>
     lp_id (cx_lp cx) = i \<and> plain_handler (lp_on_event (cx_lp cx)) \<and> plain_start (lp_on_start (cx_lp cx)))"

lemma uids_face: "uids s i = map_option (\<lambda>(n, log, _). (n, log)) (snd (snd (snd (snd (face s)))) i)"
  by (simp add: uids_def face_def face_ctx_def option.map_comp comp_def)

lemma plain_lps_face:
  "plain_lps s \<longleftrightarrow> (\<forall>i q. snd (snd (snd (snd (face s)))) i = Some q \<longrightarrow>
     fst (snd (snd q)) = i \<and> plain_handler (fst (snd (snd (snd q)))) \<and> plain_start (snd (snd (snd (snd q)))))"
  by (fastforce simp: plain_lps_def face_def face_ctx_def)

lemma face_fields:
  assumes "face t = face s"
  shows "m_cfg t = m_cfg s" "m_transport t = m_transport s" "m_inflightByUid t = m_inflightByUid s"
    "m_world t = m_world s" "uids t = uids s" "plain_lps t = plain_lps s"
proof -
  show "uids t = uids s" by (rule ext) (simp only: uids_face assms)
  show "plain_lps t = plain_lps s" by (simp only: plain_lps_face assms)
qed (use assms in \<open>simp_all add: face_def\<close>)

lemma face_upd_ctx: "(\<And>cx. face_ctx (f cx) = face_ctx cx) \<Longrightarrow> face (upd_ctx i f s) = face s"
  by (auto simp: face_def map_of_on_key option.map_comp comp_def)

lemma face_upd:
  "m_cfg (f s) = m_cfg s \<Longrightarrow> m_transport (f s) = m_transport s \<Longrightarrow> m_inflightByUid (f s) = m_inflightByUid s \<Longrightarrow>
   m_world (f s) = m_world s \<Longrightarrow> m_lps (f s) = m_lps s \<Longrightarrow> face (f s) = face s"
  by (simp add: face_def)

lemma keeps_face_upd_ctx: "(\<And>cx. face_ctx (f cx) = face_ctx cx) \<Longrightarrow> keeps (\<lambda>s. face s = X) (upd (upd_ctx i f))"
  by (rule keeps_upd) (simp add: face_upd_ctx)

lemma keeps_face_upd:
  "(\<And>s. m_cfg (f s) = m_cfg s) \<Longrightarrow> (\<And>s. m_transport (f s) = m_transport s) \<Longrightarrow>
   (\<And>s. m_inflightByUid (f s) = m_inflightByUid s) \<Longrightarrow> (\<And>s. m_world (f s) = m_world s) \<Longrightarrow>
   (\<And>s. m_lps (f s) = m_lps s) \<Longrightarrow> keeps (\<lambda>s. face s = X) (upd f)"
  by (rule keeps_upd) (simp add: face_upd)

lemma keeps_face_in_lp: "keeps (\<lambda>s. face s = X) (in_lp i m)"
  by (rule keeps_in_lp) (simp add: face_upd_ctx face_ctx_def)

lemma keeps_face_enqueue: "keeps (\<lambda>s. face s = X) (enqueue ev)"
  unfolding enqueue_def by (rule keeps_face_upd) simp_all

lemma keeps_face_undo: "keeps (\<lambda>s. face s = X) (undo_processed i to rs)"
proof (rule keepsI)
  fix s :: "('a, 'b) sim" assume "face s = X"
  have one: "face (undo_one i r s) = face s" for r and s :: "('a, 'b) sim"
    unfolding undo_one_def Let_def
    by (rule trans [OF face_upd_ctx]) (auto simp: face_ctx_def restore_cancellation_def intro: face_upd)
  have "face (fold (undo_one i) rs s) = face s" for rs and s :: "('a, 'b) sim"
    by (induction rs arbitrary: s) (simp_all add: one)
  then show "face (snd (undo_processed i to rs s)) = X"
    using \<open>face s = X\<close> by (simp add: undo_processed_run)
qed

lemma keeps_face_restore: "keeps (\<lambda>s. face s = X) (restore_state i undone)"
  by (rule keeps_restore_state) (simp_all add: face_upd_ctx face_ctx_def)

lemma keeps_face_apply_ready: "keeps (\<lambda>s. face s = X) (apply_ready ms)"
proof (induction ms)
  case (Cons m ms)
  obtain ts mig where m: "m = (ts, mig)" by fastforce
  show ?case
    unfolding m apply_ready.simps
    by (intro keeps_intros keeps_face_in_lp keeps_face_upd Cons.IH) simp_all
qed simp

lemma keeps_face_migrations: "keeps (\<lambda>s. face s = X) apply_ready_migrations"
  unfolding apply_ready_migrations_def by (intro keeps_intros keeps_face_apply_ready)

lemma keeps_face_apply_migration: "keeps (\<lambda>s. face s = X) (apply_migration mig)"
  unfolding apply_migration_def by (intro keeps_intros keeps_face_migrations keeps_face_upd) simp_all

lemma keeps_face_pop: "keeps (\<lambda>s. face s = X) pop_next"
  by (rule keepsI) (auto simp: pop_next_def face_def split: list.split)

lemma keeps_face_compute_gvt: "keeps (\<lambda>s. face s = X) compute_gvt"
  by (rule keepsI) (simp add: compute_gvt_run face_def)

lemma keeps_face_note: "keeps (\<lambda>s. face s = X) (upd (note_cancelled anti))"
  by (rule keeps_upd) (auto simp: note_cancelled_def face_def split: option.split)

lemma keeps_face_assign_sequence: "keeps (\<lambda>s. face s = X) (assign_sequence ev)"
  unfolding assign_sequence_def Let_def
  by (intro keeps_intros keeps_face_upd_ctx) (simp_all add: face_ctx_def)

lemma keeps_face_route: "keeps (\<lambda>s. face s = X) (route_event ev)"
  unfolding route_event_def route_targeted_def Let_def
  by (intro keeps_intros keeps_face_upd) simp_all

lemma uids_upd_ctx:
  "uids (upd_ctx i f s) j = (if j = i
     then map_option (\<lambda>cx. (cx_nextUid (f cx), map sr_uid (cx_sentLog (f cx)))) (map_of (m_lps s) i)
     else uids s j)"
  by (simp add: uids_def map_of_on_key option.map_comp comp_def)

subsection \<open>Running to success\<close>

lemma bnd_Inr_iff: "bnd m f s = (Inr x, t) \<longleftrightarrow> (\<exists>y u. m s = (Inr y, u) \<and> f y u = (Inr x, t))"
  by (auto simp: bnd_def split: prod.splits sum.splits)

lemma thn_Inr_iff: "thn m k s = (Inr x, t) \<longleftrightarrow> (\<exists>y u. m s = (Inr y, u) \<and> k u = (Inr x, t))"
  by (simp add: thn_def bnd_Inr_iff)

lemma validate_Inr: "validate_invariants s = (Inr x, t) \<Longrightarrow> t = s"
  by (metis validate_state snd_conv)

lemma throw_if_Inr: "throw_if b msg s = (Inr x, t) \<longleftrightarrow> \<not> b \<and> t = s"
  by (auto simp: throw_if_def)

text \<open>
  The first steps of \<open>send\<close> give the event its identity and choose its destination; they
  change neither its source nor its kind.
\<close>

definition same_event :: "event \<Rightarrow> event \<Rightarrow> bool" where
  "same_event ev e \<longleftrightarrow> ev_src e = ev_src ev \<and> ev_uid e = ev_uid ev \<and> ev_isAnti e = ev_isAnti ev
     \<and> ev_payload e = ev_payload ev"

lemma yields_same_sequence: "yields (same_event ev) (assign_sequence ev)"
  unfolding assign_sequence_def Let_def
  by (intro yields_intros) (simp_all add: same_event_def set_ev_sequence_def)

lemma yields_same_route: "yields (same_event ev) (route_event ev)"
  unfolding route_event_def
proof (intro yields_if yields_bnd_with [where Q = "same_event ev"])
  show "yields (same_event ev) (route_targeted ev)"
    unfolding route_targeted_def Let_def
    by (intro yields_intros) (simp_all add: same_event_def split: option.split)
qed (auto intro!: yields_intros simp: same_event_def)

definition deliver :: "event \<Rightarrow> (('st, 'w) sim, unit) eff" where
  "deliver ev = bnd get_st (\<lambda>s.
     let dstRank = rank_of s (ev_dst ev) in
     if dstRank = c_rank (m_cfg s) then send_local ev else send_remote dstRank ev)"

lemma send_steps:
  assumes "send ev s = (Inr (), t)"
  shows "\<exists>ev1 s1 ev2 s2. assign_uid ev s = (Inr ev1, s1) \<and> same_event ev1 ev2 \<and> face s2 = face s1
    \<and> deliver ev2 s2 = (Inr (), t)"
proof -
  from assms obtain ev1 s1 ev2 s2 ev3 s3 where
    run: "assign_uid ev s = (Inr ev1, s1)" "assign_sequence ev1 s1 = (Inr ev2, s2)"
      "route_event ev2 s2 = (Inr ev3, s3)" "deliver ev3 s3 = (Inr (), t)"
    unfolding send_def deliver_def [symmetric] by (auto simp: bnd_Inr_iff thn_Inr_iff dest: validate_Inr)
  have "same_event ev1 ev2" "same_event ev2 ev3"
    using run yields_same_sequence [of ev1] yields_same_route [of ev2] by (auto dest: yieldsD)
  then have "same_event ev1 ev3" by (simp add: same_event_def)
  moreover have "face s2 = face s1"
    by (rule keeps_result [OF keeps_face_assign_sequence refl run(2)])
  moreover have "face s3 = face s2"
    by (rule keeps_result [OF keeps_face_route refl run(3)])
  ultimately show ?thesis using run(1,4) by auto
qed

text \<open>What a successful delivery does to the books.\<close>

definition logged :: "event \<Rightarrow> ledger \<Rightarrow> ledger" where
  "logged ev U = (if ev_isAnti ev then U
     else U(ev_src ev := map_option (\<lambda>(n, log). (n, log @ [ev_uid ev])) (U (ev_src ev))))"

lemma log_sent_ok:
  assumes "log_sent ev s = (Inr (), t)"
  shows "uids t = logged ev (uids s) \<and> m_inflightByUid t = m_inflightByUid s \<and> m_world t = m_world s"
proof (cases "ev_isAnti ev")
  case True
  then show ?thesis using assms by (simp add: log_sent_def when_eff_def logged_def)
next
  case False
  then obtain cx where cx: "map_of (m_lps s) (ev_src ev) = Some cx"
    and t: "t = upd_ctx (ev_src ev) (\<lambda>c. c\<lparr>cx_sentLog := cx_sentLog c @
        [\<lparr>sr_sendTime = (if cx_inEvent cx then cx_currentExecTs cx else zero_stamp),
           sr_msgTime = ev_ts ev, sr_dst = ev_dst ev, sr_uid = ev_uid ev\<rparr>]\<rparr>) s"
    using assms by (auto simp: log_sent_def when_eff_def bnd_Inr_iff ctx_of_Inr_iff Let_def)
  have "uids t j = logged ev (uids s) j" for j
    using False cx unfolding t uids_upd_ctx by (simp add: logged_def uids_def)
  then show ?thesis by (auto simp: t)
qed

lemma count_sent_run:
  "count_sent ev s = (Inr (), snd (count_sent ev s))" "face (snd (count_sent ev s)) = face s"
  by (simp_all add: count_sent_def face_def)

lemma track_send_run:
  "track_inflight_send ev s = (Inr (), snd (track_inflight_send ev s))"
  "m_cfg (snd (track_inflight_send ev s)) = m_cfg s"
  "m_transport (snd (track_inflight_send ev s)) = m_transport s"
  "m_world (snd (track_inflight_send ev s)) = m_world s"
  "uids (snd (track_inflight_send ev s)) = uids s"
  "m_inflightByUid (snd (track_inflight_send ev s)) =
     (if map_of (m_inflightByUid s) (inflight_key_of ev) = None
      then (inflight_key_of ev, ev_ts ev) # m_inflightByUid s else m_inflightByUid s)"
  by (simp_all add: track_inflight_send_def uids_def fun_eq_iff)

context shared_network
begin

lemma deliver_ok:
  assumes run: "deliver ev s = (Inr (), t)" and ack: "c_gvtMode (m_cfg s) = AckInflight"
    and tr: "m_transport s = tr"
  shows "uids t = logged ev (uids s)"
    and "m_inflightByUid t = m_inflightByUid s \<and> wire (m_world t) = wire (m_world s)
      \<or> (\<exists>m. sent_by (c_rank (m_cfg s)) m \<and> wm_bytes m = encode_event ev
          \<and> m_inflightByUid t = (if map_of (m_inflightByUid s) (inflight_key_of ev) = None
              then (inflight_key_of ev, ev_ts ev) # m_inflightByUid s else m_inflightByUid s)
          \<and> wire (m_world t) = add_mset m (wire (m_world s)))"
proof -
  have paint: "paint s ev = ev" using ack by (simp add: paint_def)
  consider (local) "send_local ev s = (Inr (), t)"
    | (remote) d where "send_remote d ev s = (Inr (), t)"
    using run by (auto simp: deliver_def Let_def split: if_splits)
  then have "uids t = logged ev (uids s) \<and> (m_inflightByUid t = m_inflightByUid s \<and> wire (m_world t) = wire (m_world s)
      \<or> (\<exists>m. sent_by (c_rank (m_cfg s)) m \<and> wm_bytes m = encode_event ev
          \<and> m_inflightByUid t = (if map_of (m_inflightByUid s) (inflight_key_of ev) = None
              then (inflight_key_of ev, ev_ts ev) # m_inflightByUid s else m_inflightByUid s)
          \<and> wire (m_world t) = add_mset m (wire (m_world s))))"
  proof cases
    case local
    then obtain s1 where s1: "enqueue ev (snd (count_sent ev s)) = (Inr (), s1)" "log_sent ev s1 = (Inr (), t)"
      using count_sent_run(1) [of ev s]
      by (auto simp: send_local_def paint bnd_Inr_iff thn_Inr_iff dest: validate_Inr)
    have "face s1 = face s"
      using keeps_result [OF keeps_face_enqueue refl s1(1)] count_sent_run(2) [of ev s] by simp
    from face_fields [OF this] log_sent_ok [OF s1(2)] show ?thesis by simp
  next
    case remote
    let ?m = "\<lparr>wm_kind = Event_Message, wm_srcRank = c_rank (m_cfg s), wm_dstRank = d, wm_bytes = encode_event ev\<rparr>"
    let ?s1 = "snd (track_inflight_send ev s)"
    from remote ack obtain s2 s3 where s2: "count_sent ev ?s1 = (Inr (), s2)"
      and s3: "in_world (t_send tr ?m) s2 = (Inr (), s3)" and t: "log_sent ev s3 = (Inr (), t)"
      using track_send_run(1) [of ev s]
      by (auto simp: send_remote_def tr bnd_Inr_iff thn_Inr_iff dest: validate_Inr)
    have "face s2 = face ?s1" using count_sent_run [of ev ?s1] s2 by simp
    note s2f = face_fields [OF this]
    have s3f: "wire (m_world s3) = add_mset ?m (wire (m_world s2))" "uids s3 = uids s2"
      "m_inflightByUid s3 = m_inflightByUid s2"
      using s3 sent [of ?m "m_world s2"] by (auto simp: in_world_def uids_def fun_eq_iff split: prod.splits)
    have "sent_by (c_rank (m_cfg s)) ?m" "wm_bytes ?m = encode_event ev" by (simp_all add: sent_by_def)
    then show ?thesis
      using log_sent_ok [OF t] s3f s2f track_send_run(4-6) [of ev s]
      by (intro conjI disjI2 exI [of _ ?m]) simp_all
  qed
  then show "uids t = logged ev (uids s)"
    and "m_inflightByUid t = m_inflightByUid s \<and> wire (m_world t) = wire (m_world s)
      \<or> (\<exists>m. sent_by (c_rank (m_cfg s)) m \<and> wm_bytes m = encode_event ev
          \<and> m_inflightByUid t = (if map_of (m_inflightByUid s) (inflight_key_of ev) = None
              then (inflight_key_of ev, ev_ts ev) # m_inflightByUid s else m_inflightByUid s)
          \<and> wire (m_world t) = add_mset m (wire (m_world s)))"
    by blast+
qed

end

lemma assign_uid_fresh:
  assumes "assign_uid ev s = (Inr ev', s')" and "ev_uid ev = 0"
  shows "\<exists>cx. map_of (m_lps s) (ev_src ev) = Some cx \<and> cx_nextUid cx \<noteq> 0 \<and> ev' = set_ev_uid (cx_nextUid cx) ev
    \<and> s' = upd_ctx (ev_src ev) (\<lambda>c. c\<lparr>cx_nextUid := cx_nextUid cx + 1\<rparr>) s"
  using assms by (auto simp: assign_uid_def bnd_Inr_iff thn_Inr_iff ctx_of_Inr_iff throw_if_Inr Let_def)

lemma assign_uid_given: "ev_uid ev \<noteq> 0 \<Longrightarrow> assign_uid ev s = (Inr ev, s)"
  by (simp add: assign_uid_def)

subsection \<open>The books of a rank\<close>

text \<open>
  Rank \<open>r\<close> of configuration \<open>C\<close>, with the processes \<open>D\<close>, has kept its books, and since the
  network was \<open>Net\<close> it has touched the messages of the other ranks only by receiving them.
\<close>

definition netted ::
  "'w transport \<Rightarrow> ('w \<Rightarrow> wire_message multiset) \<Rightarrow> 'w config \<Rightarrow> u32 \<Rightarrow> u32 set \<Rightarrow> wire_message multiset \<Rightarrow>
   ('st, 'w) sim \<Rightarrow> bool" where
  "netted tr wire C r D Net s \<longleftrightarrow> m_cfg s = C \<and> m_transport s = tr \<and> plain_lps s \<and> dom (uids s) = D
     \<and> book r (uids s) (m_inflightByUid s) (wire (m_world s))
     \<and> foreign r D (wire (m_world s))
     \<and> (\<forall>q. q \<noteq> r \<longrightarrow> leaves_alone q Net (wire (m_world s)))"

lemma netted_face: "face t = face s \<Longrightarrow> netted tr wire C r D Net t = netted tr wire C r D Net s"
  using face_fields [of t s] by (simp add: netted_def)

text \<open>A configuration for the acknowledgement mode whose sinks do not use the network.\<close>

definition networked :: "('w \<Rightarrow> wire_message multiset) \<Rightarrow> u32 \<Rightarrow> 'w config \<Rightarrow> bool" where
  "networked wire r C \<longleftrightarrow> c_rank C = r \<and> c_gvtMode C = AckInflight \<and> c_lpToRank C \<noteq> None
     \<and> c_gvtReduceMin C \<noteq> None \<and> \<not> c_enableInstallBeforeUseBuffering C
     \<and> (\<forall>sink a b ts p w. c_committedSink C = Some sink \<longrightarrow> wire (snd (sink a b ts p w)) = wire w)
     \<and> (\<forall>sink a b ev w. c_committedEventSink C = Some sink \<longrightarrow> wire (snd (sink a b ev w)) = wire w)"

lemma foreign_send: "foreign r D W \<Longrightarrow> sent_by r m \<Longrightarrow> foreign r D (add_mset m W)"
  by (auto simp: foreign_def concerns_def)

lemma plain_lps_send: "send ev s = (x, t) \<Longrightarrow> plain_lps t = plain_lps s"
proof -
  assume "send ev s = (x, t)"
  then have "cores t = cores s" using send_keeps_frame [of ev s x t] by (simp add: send_frame_def)
  then have "map_option ctx_core (map_of (m_lps t) i) = map_option ctx_core (map_of (m_lps s) i)" for i
    by (simp only: map_of_cores [symmetric])
  then have "map_option cx_lp (map_of (m_lps t) i) = map_option cx_lp (map_of (m_lps s) i)" for i
    by (metis (no_types, lifting) ctx_core_def fst_conv option.map_comp option.map_cong comp_apply)
  moreover have "plain_lps u \<longleftrightarrow> (\<forall>i. case map_option cx_lp (map_of (m_lps u) i) of None \<Rightarrow> True
      | Some lp \<Rightarrow> lp_id lp = i \<and> plain_handler (lp_on_event lp) \<and> plain_start (lp_on_start lp))" for u :: "('a, 'b) sim"
    by (auto simp: plain_lps_def split: option.split)
  ultimately show ?thesis by (simp only:)
qed

context shared_network
begin

abbreviation "books \<equiv> netted tr wire"

text \<open>The delivery of an event with a key not used before.\<close>

lemma deliver_books:
  assumes s: "books C r D Net s" and C: "networked wire r C" and run: "deliver ev u = (Inr (), t)"
    and u: "m_cfg u = C" "m_transport u = tr" "m_inflightByUid u = m_inflightByUid s" "m_world u = m_world s"
    and ev: "event_fits ev" "inflight_key_of ev = k" and new: "\<not> used (uids s) k"
    and V: "book r V (m_inflightByUid s) (wire (m_world s))" "used V k"
  shows "book r V (m_inflightByUid t) (wire (m_world t)) \<and> foreign r D (wire (m_world t))
    \<and> (\<forall>q. q \<noteq> r \<longrightarrow> leaves_alone q Net (wire (m_world t)))"
proof -
  have ack: "c_gvtMode (m_cfg u) = AckInflight" and rank: "c_rank (m_cfg u) = r"
    using C u by (simp_all add: networked_def)
  have b: "book r (uids s) (m_inflightByUid s) (wire (m_world s))" using s by (simp add: netted_def)
  show ?thesis
    using deliver_ok(2) [OF run ack u(2)]
  proof (elim disjE exE conjE)
    fix m assume m: "sent_by (c_rank (m_cfg u)) m" "wm_bytes m = encode_event ev"
      and I: "m_inflightByUid t = (if map_of (m_inflightByUid u) (inflight_key_of ev) = None
        then (inflight_key_of ev, ev_ts ev) # m_inflightByUid u else m_inflightByUid u)"
      and W: "wire (m_world t) = add_mset m (wire (m_world u))"
    have m': "sent_by r m" "decode_event (wm_bytes m) = Inr ev"
      using m rank decode_encode_event ev(1) by simp_all
    note book_send [OF b new V m' ev(2)]
    then have "book r V (m_inflightByUid t) (wire (m_world t))" unfolding I W ev(2) u by simp
    moreover have "leaves_alone q Net (wire (m_world t))" if "q \<noteq> r" for q
    proof -
      have "\<not> concerns q m" using m'(1) that by (auto simp: concerns_def sent_by_def)
      from leaves_alone_send [OF this] show ?thesis
        using s that unfolding W u by (auto simp: netted_def intro: leaves_alone_trans)
    qed
    ultimately show ?thesis
      using s foreign_send [OF _ m'(1)] unfolding W u by (auto simp: netted_def)
  qed (use s V u in \<open>auto simp: netted_def\<close>)
qed

text \<open>A new event of a handler, and a recall with the log entry it takes back.\<close>

lemma send_books:
  assumes s: "books C r D Net s" and C: "networked wire r C"
    and plain: "plain_event ev" and run: "send ev s = (Inr (), t)"
  shows "books C r D Net t"
proof -
  let ?U = "uids s" and ?src = "ev_src ev"
  have ev: "ev_uid ev = 0" "\<not> ev_isAnti ev" "event_fits ev" using plain by (simp_all add: plain_event_def)
  have b: "book r ?U (m_inflightByUid s) (wire (m_world s))" using s by (simp add: netted_def)
  obtain ev1 s1 ev2 s2 where steps: "assign_uid ev s = (Inr ev1, s1)" "same_event ev1 ev2"
    "face s2 = face s1" "deliver ev2 s2 = (Inr (), t)"
    using send_steps [OF run] by blast
  obtain cx where cx: "map_of (m_lps s) ?src = Some cx" "cx_nextUid cx \<noteq> 0"
    and ev1: "ev1 = set_ev_uid (cx_nextUid cx) ev"
    and s1: "s1 = upd_ctx ?src (\<lambda>c. c\<lparr>cx_nextUid := cx_nextUid cx + 1\<rparr>) s"
    using assign_uid_fresh [OF steps(1) ev(1)] by blast
  let ?n = "cx_nextUid cx" and ?log = "map sr_uid (cx_sentLog cx)"
  let ?V = "?U(?src \<mapsto> (?n + 1, ?log @ [?n]))"
  have U: "?U ?src = Some (?n, ?log)" using cx by (simp add: uids_def)
  have ev2: "ev_src ev2 = ?src" "ev_uid ev2 = ?n" "\<not> ev_isAnti ev2" "event_fits ev2"
    using steps(2) ev ev1 by (simp_all add: same_event_def set_ev_uid_def event_fits_def)
  note s2 = face_fields [OF steps(3)]
  have s2': "m_cfg s2 = C" "m_transport s2 = tr" "m_inflightByUid s2 = m_inflightByUid s"
    "m_world s2 = m_world s"
    using s s2 by (simp_all add: s1 netted_def)
  have ack: "c_gvtMode (m_cfg s2) = AckInflight" and rank: "c_rank (m_cfg s2) = r"
    using C s2' by (simp_all add: networked_def)
  have V: "uids t = ?V"
  proof
    fix j show "uids t j = ?V j"
      using deliver_ok(1) [OF steps(4) ack s2'(2)] ev2 cx s2(5)
      by (simp add: logged_def s1 uids_upd_ctx uids_def)
  qed
  have new: "\<not> used ?U (?src, ?n, False)" by (rule used_fresh [where U = ?U, OF U cx(2)])
  have key: "inflight_key_of ev2 = (?src, ?n, False)" using ev2 by (simp add: inflight_key_of_def)
  note adv = book_advance [where U = ?U, OF b U cx(2)]
  have parts: "book r ?V (m_inflightByUid t) (wire (m_world t)) \<and> foreign r D (wire (m_world t))
    \<and> (\<forall>q. q \<noteq> r \<longrightarrow> leaves_alone q Net (wire (m_world t)))"
    by (rule deliver_books [OF s C steps(4) s2' ev2(4) key new adv used_just_sent [where U = ?U, OF U cx(2)]])
  have "send_frame t = send_frame s" by (rule send_keeps_frame [OF run])
  then have frame: "m_cfg t = m_cfg s" "m_transport t = m_transport s" by (simp_all add: send_frame_def)
  have "dom ?V = dom ?U" using U by (auto simp: dom_def)
  then show ?thesis
    using s frame plain_lps_send [OF run] parts by (simp add: netted_def V)
qed

lemma recall_books:
  assumes s: "books C r D Net s" and C: "networked wire r C"
    and cx: "map_of (m_lps s) i = Some cx" and log: "map sr_uid (cx_sentLog cx) = log @ [sr_uid l]"
    and run: "send (anti_of cx l) s = (Inr (), t)"
  shows "books C r D Net (upd_ctx i (\<lambda>c. c\<lparr>cx_sentLog := butlast (cx_sentLog c)\<rparr>) t)"
    and "uids (upd_ctx i (\<lambda>c. c\<lparr>cx_sentLog := butlast (cx_sentLog c)\<rparr>) t) i = Some (cx_nextUid cx, log)"
proof -
  let ?U = "uids s" and ?u = "sr_uid l" and ?n = "cx_nextUid cx" and ?ev = "anti_of cx l"
  let ?t = "upd_ctx i (\<lambda>c. c\<lparr>cx_sentLog := butlast (cx_sentLog c)\<rparr>) t"
  let ?V = "?U(i \<mapsto> (?n, log))"
  have b: "book r ?U (m_inflightByUid s) (wire (m_world s))" using s by (simp add: netted_def)
  have U: "?U i = Some (?n, log @ [?u])" using cx log by (simp add: uids_def)
  note ok = bookD(5) [OF b]
  have "?u \<noteq> 0" using logs_okD(2) [where U = ?U, OF ok U, of ?u] by simp
  have id: "lp_id (cx_lp cx) = i" using s cx by (simp add: netted_def plain_lps_def)
  have ev: "ev_src ?ev = i" "ev_uid ?ev = ?u" "ev_isAnti ?ev" "event_fits ?ev"
    by (simp_all add: anti_of_def id empty_event_def empty_payload_def event_fits_def)
  obtain ev2 s2 where steps: "same_event ?ev ev2" "face s2 = face s" "deliver ev2 s2 = (Inr (), t)"
    using send_steps [OF run] assign_uid_given [of ?ev s] ev(2) \<open>?u \<noteq> 0\<close> by auto
  have ev2: "ev_src ev2 = i" "ev_uid ev2 = ?u" "ev_isAnti ev2" "event_fits ev2"
    using steps(1) ev by (simp_all add: same_event_def event_fits_def)
  have key: "inflight_key_of ev2 = (i, ?u, True)" using ev2 by (simp add: inflight_key_of_def)
  note s2 = face_fields [OF steps(2)]
  have s2': "m_cfg s2 = C" "m_transport s2 = tr" using s s2 by (simp_all add: netted_def)
  have ack: "c_gvtMode (m_cfg s2) = AckInflight" and rank: "c_rank (m_cfg s2) = r"
    using C s2' by (simp_all add: networked_def)
  have Ut: "uids t = ?U"
    using deliver_ok(1) [OF steps(3) ack s2'(2)] ev2(3) s2(5) by (simp add: logged_def)
  have ti: "map_option (\<lambda>cx. (cx_nextUid cx, map sr_uid (cx_sentLog cx))) (map_of (m_lps t) i) = Some (?n, log @ [?u])"
    using fun_cong [OF Ut, of i] U by (simp add: uids_def)
  then obtain cx' where cx': "map_of (m_lps t) i = Some cx'" "cx_nextUid cx' = ?n" "map sr_uid (cx_sentLog cx') = log @ [?u]"
    by auto
  have V: "uids ?t = ?V"
  proof
    fix j show "uids ?t j = ?V j"
      using cx' by (simp add: uids_upd_ctx Ut map_butlast)
  qed
  then show "uids ?t i = Some (?n, log)" by simp
  note rec = book_recall [where U = ?U, OF b U]
  have parts: "book r ?V (m_inflightByUid t) (wire (m_world t)) \<and> foreign r D (wire (m_world t))
    \<and> (\<forall>q. q \<noteq> r \<longrightarrow> leaves_alone q Net (wire (m_world t)))"
    by (rule deliver_books [OF s C steps(3) s2'(1,2) s2(3,4) ev2(4) key used_recalled(2) [where U = ?U, OF ok U] rec
          used_recalled(1) [where U = ?U, OF ok U]])
  have "send_frame t = send_frame s" by (rule send_keeps_frame [OF run])
  then have frame: "m_cfg t = m_cfg s" "m_transport t = m_transport s" by (simp_all add: send_frame_def)
  have "plain_lps t" using s plain_lps_send [OF run] by (simp add: netted_def)
  then have "plain_lps ?t" by (auto simp: plain_lps_def map_of_on_key split: if_splits)
  moreover have "dom ?V = dom ?U" using U by (auto simp: dom_def)
  ultimately show "books C r D Net ?t"
    using s frame parts unfolding netted_def V by simp
qed

end

end
