(* ===== verification/Network_Steps.thy ===== *)
theory Network_Steps
  imports Network
begin

text \<open>
  Every operation of a rank on a shared network keeps its books when it returns: rollback
  with its recalls, the execution of events, pruning, the notification of the directories,
  and the draining of the transport. An exception ends the program, so nothing but the
  configuration is claimed after one.
\<close>

subsection \<open>Composition\<close>

abbreviation safely :: "('s \<Rightarrow> bool) \<Rightarrow> ('s \<Rightarrow> bool) \<Rightarrow> ('s, 'a) eff \<Rightarrow> bool" where
  "safely I E m \<equiv> triple I m (\<lambda>_. I) E"

named_theorems safely_intros "composition of operations that keep a property when they return"

lemma safely_bnd [safely_intros]: "safely I E m \<Longrightarrow> (\<And>x. safely I E (f x)) \<Longrightarrow> safely I E (bnd m f)"
  by (rule triple_bnd)

lemma safely_thn [safely_intros]: "safely I E m \<Longrightarrow> safely I E k \<Longrightarrow> safely I E (thn m k)"
  by (rule triple_thn)

lemma safely_if [safely_intros]: "safely I E m \<Longrightarrow> safely I E k \<Longrightarrow> safely I E (if b then m else k)"
  by simp

lemma safely_when [safely_intros]: "safely I E m \<Longrightarrow> safely I E (when_eff b m)"
  by (simp add: when_eff_def triple_def)

lemma safely_case_option [safely_intros]:
  "safely I E m \<Longrightarrow> (\<And>x. safely I E (f x)) \<Longrightarrow> safely I E (case z of None \<Rightarrow> m | Some x \<Rightarrow> f x)"
  by (cases z) simp_all

lemma safely_for_each [safely_intros]:
  "(\<And>x. x \<in> set xs \<Longrightarrow> safely I E (f x)) \<Longrightarrow> safely I E (for_each f xs)"
  by (induction xs) (auto intro: safely_thn triple_ret)

lemma safely_pure [safely_intros]:
  "safely I E (ret x)" "safely I E (gets g)" "safely I E get_st"
  by (simp_all add: triple_def)

context shared_network
begin

abbreviation "configured C \<equiv> (\<lambda>s. m_cfg s = C)"

lemma books_cfg: "books C r D Net s \<Longrightarrow> m_cfg s = C"
  by (simp add: netted_def)

lemma safely_raise [safely_intros]: "safely (books C r D Net) (configured C) (raise e)"
  by (rule triple_raise) (rule books_cfg)

lemma safely_face:
  fixes m :: "(('a, 'w) sim, 'b) eff"
  assumes "\<And>X. keeps (\<lambda>s. face s = X) m"
  shows "safely (books C r D Net) (configured C) m"
  unfolding triple_def
proof (intro allI impI)
  fix s :: "('a, 'w) sim" assume s: "books C r D Net s"
  obtain x t where run: "m s = (x, t)" by fastforce
  have "face t = face s" by (rule keeps_result [OF assms refl run])
  then show "case m s of (Inl e, t) \<Rightarrow> m_cfg t = C | (Inr x, t) \<Rightarrow> books C r D Net t"
    using s run netted_face [of t s] face_fields(1) [of t s] books_cfg [OF s] by (auto split: sum.split)
qed

lemma safely_validate [safely_intros]: "safely (books C r D Net) (configured C) validate_invariants"
  by (intro safely_face keeps_validate)

lemmas safely_upd_ctx = safely_face [OF keeps_face_upd_ctx]
lemmas safely_upd = safely_face [OF keeps_face_upd]

lemma safely_send:
  assumes "networked wire r C" and "plain_event ev"
  shows "safely (books C r D Net) (configured C) (send ev)"
  unfolding triple_def
proof (intro allI impI)
  fix s assume s: "books C r D Net s"
  obtain x t where run: "send ev s = (x, t)" by fastforce
  have "m_cfg t = m_cfg s" using send_keeps_frame [OF run] by (simp add: send_frame_def)
  then show "case send ev s of (Inl e, t) \<Rightarrow> m_cfg t = C | (Inr x, t) \<Rightarrow> books C r D Net t"
    using run books_cfg [OF s] send_books [OF s assms] by (auto split: sum.split)
qed

lemma triple_ctx_of:
  "triple (books C r D Net) (ctx_of i) (\<lambda>cx s. map_of (m_lps s) i = Some cx \<and> books C r D Net s) (configured C)"
  by (auto simp: triple_def ctx_of_def books_cfg split: option.split)

subsection \<open>Rollback\<close>

lemma triple_recall:
  assumes C: "networked wire r C"
  shows "triple (\<lambda>s. map_of (m_lps s) i = Some cx \<and> books C r D Net s \<and> (\<exists>n. uids s i = Some (n, log @ [sr_uid l])))
    (thn (send (anti_of cx l)) (upd (upd_ctx i (\<lambda>c. c\<lparr>cx_sentLog := butlast (cx_sentLog c)\<rparr>))))
    (\<lambda>_ s. books C r D Net s \<and> (\<exists>n. uids s i = Some (n, log))) (configured C)"
  unfolding triple_def
proof (intro allI impI)
  fix s assume s: "map_of (m_lps s) i = Some cx \<and> books C r D Net s \<and> (\<exists>n. uids s i = Some (n, log @ [sr_uid l]))"
  obtain x t where run: "send (anti_of cx l) s = (x, t)" by fastforce
  have "m_cfg s = C" using s books_cfg by blast
  then have cfg: "m_cfg t = C" using send_keeps_frame [OF run] by (simp add: send_frame_def)
  have log: "map sr_uid (cx_sentLog cx) = log @ [sr_uid l]" using s by (auto simp: uids_def)
  show "case thn (send (anti_of cx l)) (upd (upd_ctx i (\<lambda>c. c\<lparr>cx_sentLog := butlast (cx_sentLog c)\<rparr>))) s of
      (Inl e, t) \<Rightarrow> m_cfg t = C | (Inr x, t) \<Rightarrow> books C r D Net t \<and> (\<exists>n. uids t i = Some (n, log))"
  proof (cases x)
    case (Inl e)
    then show ?thesis using run cfg by simp
  next
    case (Inr u)
    then show ?thesis using run recall_books [OF _ C _ log, of D Net s i t] s by auto
  qed
qed

lemma triple_send_antis:
  assumes C: "networked wire r C"
  shows "triple (\<lambda>s :: ('a, 'w) sim. books C r D Net s \<and> (\<exists>n. uids s i = Some (n, map sr_uid (rev rs))))
    (send_antis i to rs) (\<lambda>_. books C r D Net) (configured C)"
proof (induction rs)
  case Nil
  show ?case by (simp add: triple_def)
next
  case (Cons l rs)
  let ?P = "\<lambda>s :: ('a, 'w) sim. books C r D Net s \<and> (\<exists>n. uids s i = Some (n, map sr_uid (rev (l # rs))))"
  have ctx: "triple ?P (ctx_of i) (\<lambda>cx s. map_of (m_lps s) i = Some cx \<and> ?P s) (configured C)"
    by (auto simp: triple_def ctx_of_def books_cfg split: option.split)
  have step: "triple (\<lambda>s. map_of (m_lps s) i = Some cx \<and> ?P s)
      (thn (thn (send (anti_of cx l)) (upd (upd_ctx i (\<lambda>c. c\<lparr>cx_sentLog := butlast (cx_sentLog c)\<rparr>))))
        (send_antis i to rs)) (\<lambda>_. books C r D Net) (configured C)" for cx :: "'a lp_context"
    by (rule triple_weaken [OF triple_thn [OF triple_recall [where C = C and r = r and D = D and Net = Net
            and i = i and cx = cx and l = l and log = "map sr_uid (rev rs)", OF C] Cons.IH]]) auto
  show ?case
    unfolding send_antis.simps
    by (rule triple_if) (use triple_bnd [OF ctx step] in \<open>auto simp: thn_assoc triple_def\<close>)
qed

lemma safely_rollback:
  assumes C: "networked wire r C"
  shows "safely (books C r D Net) (configured C) (rollback i to)"
proof -
  have antis: "triple (\<lambda>s. map_of (m_lps s) i = Some cx \<and> books C r D Net s)
      (thn (send_antis i to (rev (cx_sentLog cx))) validate_invariants) (\<lambda>_. books C r D Net) (configured C)" for cx
    by (rule triple_thn [OF _ safely_validate], rule triple_weaken [OF triple_send_antis [OF C]])
      (auto simp: uids_def)
  show ?thesis
    unfolding rollback_def
    apply (intro safely_thn triple_bnd [OF triple_ctx_of antis] safely_bnd safely_pure safely_validate
        safely_face [OF keeps_face_undo] safely_face [OF keeps_face_restore] safely_face [OF keeps_ctx_of])
       apply (intro safely_upd_ctx safely_upd; simp add: face_ctx_def)+
    done
qed

subsection \<open>Dispatch\<close>

lemma safely_straggler:
  assumes "networked wire r C"
  shows "safely (books C r D Net) (configured C) (straggler ev)"
  unfolding straggler_def
  by (intro safely_intros safely_rollback assms safely_face [OF keeps_face_enqueue] safely_upd) simp_all

lemma safely_cancel:
  assumes "networked wire r C"
  shows "safely (books C r D Net) (configured C) (cancel anti)"
  unfolding cancel_def
  by (intro safely_intros safely_rollback assms safely_face [OF keeps_face_note] safely_face [OF keeps_ctx_of]
      safely_upd) simp_all

lemma safely_dispatch_anti:
  assumes "networked wire r C"
  shows "safely (books C r D Net) (configured C) (dispatch_anti ev)"
  unfolding dispatch_anti_def
  by (intro safely_intros safely_straggler safely_cancel assms safely_face [OF keeps_ctx_of] safely_upd_ctx)
    (simp add: face_ctx_def)

lemma safely_handler:
  assumes "networked wire r C" and "\<And>e. Sink (Send e) \<in> set cs \<Longrightarrow> plain_event e"
  shows "safely (books C r D Net) (configured C) (run_handler i cs rec)"
  using assms(2)
proof (induction cs arbitrary: rec)
  case Nil
  show ?case by (simp add: triple_def)
next
  case (Cons c cs)
  have call: "safely (books C r D Net) (configured C) (run_ctx_call i c rec)"
  proof (cases c)
    case (Sink k)
    have "safely (books C r D Net) (configured C) (run_sink_call i k)"
      using Cons.prems Sink
      by (cases k) (auto simp: set_lp_state_def face_ctx_def
          intro!: safely_send [OF assms(1)] safely_raise safely_upd_ctx)
    then show ?thesis unfolding Sink run_ctx_call.simps by (intro safely_intros)
  next
    case (Request_Write entity)
    then show ?thesis by (simp add: safely_face keeps_request_write)
  next
    case (Emit_Committed ts p)
    then show ?thesis by (simp add: emit_committed_def) (intro impI conjI safely_intros)
  qed
  show ?case
    unfolding run_handler.simps by (intro safely_bnd call Cons.IH) (use Cons.prems in auto)
qed

lemma safely_execute:
  assumes C: "networked wire r C" and cx: "plain_handler (lp_on_event (cx_lp cx))"
  shows "safely (books C r D Net) (configured C) (execute ev cx)"
proof -
  have config: "triple (books C r D Net) (gets m_cfg) (\<lambda>cfg s. cfg = C \<and> books C r D Net s) (configured C)"
    by (rule triple_gets) (simp add: books_cfg)
  have off: "\<not> c_enableInstallBeforeUseBuffering C" using C by (simp add: networked_def)
  show ?thesis
    unfolding execute_def
    apply (intro safely_thn triple_bnd [OF config] safely_bnd triple_pure safely_upd_ctx
        safely_handler [OF C])
       apply (simp_all add: face_ctx_def off when_eff_def triple_def)
    using cx unfolding plain_handler_def apply blast
    done
qed

lemma triple_abort:
  assumes C: "networked wire r C"
  shows "triple (configured C) (on_handler_exception ev V e) (\<lambda>_. books C r D Net) (configured C)"
  using C by (simp add: on_handler_exception_def triple_def networked_def)

lemma safely_dispatch_event:
  assumes C: "networked wire r C"
  shows "safely (books C r D Net) (configured C) (dispatch_event ev)"
proof -
  have ctx: "triple (books C r D Net) (ctx_of (ev_dst ev))
      (\<lambda>cx s. plain_handler (lp_on_event (cx_lp cx)) \<and> books C r D Net s) (configured C)"
    by (rule triple_weaken [OF triple_ctx_of [where C = C and r = r and D = D and Net = Net]])
      (auto simp: netted_def plain_lps_def)
  show ?thesis
    unfolding dispatch_event_def
    apply (rule triple_bnd [OF ctx], rule triple_pure)
    apply (intro safely_intros safely_straggler C triple_catching [OF safely_execute [OF C] triple_abort [OF C]]
        safely_upd)
         apply simp_all
    done
qed

lemma safely_dispatch_next:
  assumes C: "networked wire r C"
  shows "safely (books C r D Net) (configured C) dispatch_next"
  unfolding dispatch_next_def dispatch_def
  by (intro safely_intros safely_face [OF keeps_face_pop] safely_dispatch_anti safely_dispatch_event C)


subsection \<open>GVT\<close>

lemma keeps_wire:
  assumes "networked wire r C"
  shows "keeps (\<lambda>w. wire w = X) (flush_calls C safe)"
proof -
  have "c_committedSink C = Some sink \<Longrightarrow> keeps (\<lambda>w. wire w = X) (sink a b ts p)" for sink a b ts p
    using assms by (simp add: networked_def keeps_def)
  moreover have "c_committedEventSink C = Some sink \<Longrightarrow> keeps (\<lambda>w. wire w = X) (sink a b ev)" for sink a b ev
    using assms by (simp add: networked_def keeps_def)
  ultimately show ?thesis
    unfolding flush_calls_def
    by (cases "c_committedSink C"; cases "c_committedEventSink C") (auto intro!: keeps_intros)
qed

lemma dropWhile_log:
  "set (map f (dropWhile P xs)) \<subseteq> set (map f xs) \<and> (distinct (map f xs) \<longrightarrow> distinct (map f (dropWhile P xs)))"
  by (induction xs) auto

lemma books_prune:
  assumes s: "books C r D Net s" and w: "wire w = wire (m_world s)"
  shows "books C r D Net ((prune_state g s)\<lparr>m_world := w\<rparr>)"
proof -
  let ?t = "(prune_state g s)\<lparr>m_world := w\<rparr>"
  have lps: "map_of (m_lps ?t) i = map_option (prune_ctx g) (map_of (m_lps s) i)" for i
    by (simp add: prune_state_def map_of_map)
  have U: "uids ?t i = Some (n, log) \<Longrightarrow>
      \<exists>log'. uids s i = Some (n, log') \<and> set log \<subseteq> set log' \<and> (distinct log' \<longrightarrow> distinct log)" for i n log
  proof -
    assume "uids ?t i = Some (n, log)"
    then obtain cx where cx: "map_of (m_lps s) i = Some cx" "n = cx_nextUid cx"
      "log = map sr_uid (dropWhile (\<lambda>l. sr_sendTime l < g) (cx_sentLog cx))"
      unfolding uids_def lps by (auto simp: prune_ctx_def)
    then have "uids s i = Some (n, map sr_uid (cx_sentLog cx))" by (simp add: uids_def)
    with dropWhile_log [of sr_uid "\<lambda>l. sr_sendTime l < g" "cx_sentLog cx"] show ?thesis
      unfolding cx(3) by blast
  qed
  have dom: "dom (uids ?t) = dom (uids s)" unfolding uids_def lps by (auto simp: dom_def)
  have "plain_lps ?t" using s unfolding netted_def plain_lps_def lps by (auto simp: prune_ctx_def)
  moreover have "book r (uids ?t) (m_inflightByUid s) (wire (m_world s))"
    using s by (intro book_prune [where V = "uids ?t" and U = "uids s"] U dom) (auto simp: netted_def)
  ultimately show ?thesis using s w dom by (simp add: netted_def prune_state_def)
qed

lemma safely_prune:
  assumes C: "networked wire r C"
  shows "safely (books C r D Net) (configured C) (prune_to_gvt g)"
  unfolding triple_def
proof (intro allI impI)
  fix s :: "('a, 'w) sim" assume s: "books C r D Net s"
  obtain x w where run: "flush_calls C (safe_of g s) (m_world s) = (x, w)" by fastforce
  have "wire w = wire (m_world s)" by (rule keeps_result [OF keeps_wire [OF C] refl run])
  then show "case prune_to_gvt g s of (Inl e, t) \<Rightarrow> m_cfg t = C | (Inr x, t) \<Rightarrow> books C r D Net t"
    using run books_cfg [OF s] books_prune [OF s]
    by (auto simp: prune_to_gvt_run prune_state_def split: sum.split)
qed

lemma plain_gc: "plain_event (gc_event cfg src g dir)"
  by (simp add: plain_event_def gc_event_def empty_event_def event_fits_def stamp_bytes_def)

lemma safely_notify:
  assumes "networked wire r C"
  shows "safely (books C r D Net) (configured C) (notify_directories_gvt g)"
  unfolding notify_directories_gvt_def
  by (intro safely_intros safely_send assms plain_gc safely_upd) simp_all

lemmas safely_gvt = safely_prune safely_notify safely_face [OF keeps_face_migrations]
  safely_face [OF keeps_face_compute_gvt]

end

end
