(* ===== verification/Rank_Safety.thy ===== *)
theory Rank_Safety
  imports Network_Steps
begin

text \<open>
  One rank of a cluster: the steps it takes between reductions of GVT, the part of
  \<open>fossil_collect_\<close> before the reduction (\<open>gvt_enter\<close>) and the part after it (\<open>gvt_leave\<close>).
  Each keeps the rank safe (nothing pending, in flight or undoable below its GVT) and its
  books; and what a rank contributes to the reduction bounds everything it has pending or in
  transit.
\<close>

subsection \<open>Receiving\<close>

lemma delete_absent: "map_of m k = None \<Longrightarrow> AList.delete k m = m"
  by (auto simp: AList.delete_eq map_of_eq_None_iff filter_id_conv image_iff case_prod_beta)

lemma clear_key_fields:
  "m_inflightByUid (snd (clear_inflight_key k s)) = AList.delete k (m_inflightByUid s)"
  "m_cfg (snd (clear_inflight_key k s)) = m_cfg s" "m_transport (snd (clear_inflight_key k s)) = m_transport s"
  "m_world (snd (clear_inflight_key k s)) = m_world s" "m_lps (snd (clear_inflight_key k s)) = m_lps s"
  by (simp_all add: clear_inflight_key_def delete_absent split: option.split)

lemma lps_fields: "m_lps t = m_lps s \<Longrightarrow> uids t = uids s \<and> plain_lps t = plain_lps s"
  by (simp add: uids_def fun_eq_iff plain_lps_def)

lemma keeps_receive_from: "G \<le> ev_ts ev \<Longrightarrow> keeps (from_gvt C G) (receive_event sender ev)"
proof -
  assume G: "G \<le> ev_ts ev"
  have "keeps (from_gvt C G) (clear_inflight_key k)" for k
    by (rule keepsI) (auto simp: clear_inflight_key_def from_defs AList.delete_eq split: option.split)
  moreover have "keeps (from_gvt C G) (count_received ev)" "keeps (from_gvt C G) (count_color_received ev)"
    by (auto simp: count_received_def count_color_received_def Let_def intro: keeps_upd_from)
  ultimately show ?thesis
    using G unfolding receive_event_def track_inflight_recv_clear
    by (intro keeps_intros keeps_in_world_from keeps_enqueue_from)
qed

lemma keeps_handle_from:
  assumes "\<And>ev. wm_kind m = Event_Message \<Longrightarrow> decode_event (wm_bytes m) = Inr ev \<Longrightarrow> G \<le> ev_ts ev"
  shows "keeps (from_gvt C G) (handle_message m)"
proof -
  have clear: "keeps (from_gvt C G) (clear_inflight_key k)" for k
    by (rule keepsI) (auto simp: clear_inflight_key_def from_defs AList.delete_eq split: option.split)
  have mig: "keeps (from_gvt C G) (apply_migration mig)" for mig
    unfolding apply_migration_def apply_ready_migrations_def
    by (intro keeps_intros keeps_apply_ready_from keeps_upd_from) simp_all
  show ?thesis
  proof (cases "wm_kind m")
    case Event_Message
    then show ?thesis
      using assms keeps_receive_from by (auto simp: handle_message_def split: sum.split)
  next
    case Migration_Message
    then show ?thesis using mig by (auto simp: handle_message_def split: sum.split)
  next
    case Ack_Message
    then show ?thesis
      unfolding handle_message_def by (simp only: message_kind.case) (intro keeps_intros clear)
  qed (simp add: handle_message_def)
qed

context shared_network
begin

lemma receive_ok:
  assumes run: "receive_event sender ev s = (Inr (), t)" and tr: "m_transport s = tr"
    and ack: "c_gvtMode (m_cfg s) = AckInflight"
  shows "m_cfg t = m_cfg s" "m_transport t = tr" "uids t = uids s" "plain_lps t = plain_lps s"
    "m_inflightByUid t = AList.delete (inflight_key_of ev) (m_inflightByUid s)"
    "wire (m_world t) = add_mset (ack_of (c_rank (m_cfg s)) sender ev) (wire (m_world s))"
proof -
  let ?ack = "ack_of (c_rank (m_cfg s)) sender ev"
  obtain s1 s2 where s1: "count_received ev s = (Inr (), s1)"
    and s2: "in_world (t_send (m_transport s1) (ack_of (c_rank (m_cfg s1)) sender ev)) s1 = (Inr (), s2)"
    and t: "enqueue ev (snd (clear_inflight_key (inflight_key_of ev) s2)) = (Inr (), t)"
  proof -
    have s1: "count_received ev s = (Inr (), snd (count_received ev s))"
      "m_cfg (snd (count_received ev s)) = m_cfg s"
      by (simp_all add: count_received_def)
    show ?thesis
      using run s1 ack that
      by (auto simp: receive_event_def track_inflight_recv_clear when_eff_def thn_Inr_iff bnd_Inr_iff)
  qed
  have f1: "face s1 = face s" using s1 by (auto simp: count_received_def face_def)
  note f1 = face_fields [OF f1]
  have f2: "m_cfg s2 = m_cfg s" "m_transport s2 = tr" "m_lps s2 = m_lps s1"
    "m_inflightByUid s2 = m_inflightByUid s" "wire (m_world s2) = add_mset ?ack (wire (m_world s))"
    using s2 tr f1 sent [of ?ack "m_world s"] by (auto simp: in_world_def split: prod.splits)
  have ft: "face t = face (snd (clear_inflight_key (inflight_key_of ev) s2))"
    by (rule keeps_result [OF keeps_face_enqueue refl t])
  note ft = face_fields [OF ft]
  show "m_cfg t = m_cfg s" "m_transport t = tr"
    "m_inflightByUid t = AList.delete (inflight_key_of ev) (m_inflightByUid s)"
    "wire (m_world t) = add_mset ?ack (wire (m_world s))"
    using ft f2 by (simp_all add: clear_key_fields)
  show "uids t = uids s" "plain_lps t = plain_lps s"
    using ft f1 lps_fields [OF clear_key_fields(5) [of "inflight_key_of ev" s2]] lps_fields [OF f2(3)] by simp_all
qed

text \<open>Handling a message that a poll has just taken off the network.\<close>

lemma handle_books:
  assumes s: "books C r D Net s" and C: "networked wire r C"
    and w: "wire (m_world s) = add_mset m (wire w)"
    and run: "handle_message m (s\<lparr>m_world := w\<rparr>) = (Inr (), t)"
  shows "books C r D Net t"
    and "\<And>m'. m' \<in># wire (m_world t) \<Longrightarrow> wm_kind m' = Event_Message \<Longrightarrow> m' \<in># wire (m_world s)"
proof -
  let ?s = "s\<lparr>m_world := w\<rparr>" and ?U = "uids s" and ?I = "m_inflightByUid s" and ?W = "wire w"
  have sU: "uids ?s = ?U" "plain_lps ?s = plain_lps s" using lps_fields [of ?s s] by simp_all
  have b: "book r ?U ?I (add_mset m ?W)" and f: "foreign r D (add_mset m ?W)" and dom: "dom ?U = D"
    and alone: "\<And>q. q \<noteq> r \<Longrightarrow> leaves_alone q Net (add_mset m ?W)"
    using s w by (simp_all add: netted_def)
  have "foreign r D ?W" using f by (simp add: foreign_add)
  then have taken: "books C r D Net ?s"
    using s sU book_take [OF b] leaves_alone_trans [OF alone leaves_alone_take]
    by (simp add: netted_def)
  have ack: "c_gvtMode C = AckInflight" and rank: "c_rank C = r" using C by (simp_all add: networked_def)
  have cfg: "m_cfg s = C" "m_transport s = tr" "plain_lps s" using s by (simp_all add: netted_def)
  have "books C r D Net t \<and> (\<forall>m'. m' \<in># wire (m_world t) \<longrightarrow> wm_kind m' = Event_Message \<longrightarrow> m' \<in># wire (m_world s))"
  proof (cases "wm_kind m")
    case Event_Message
    then obtain ev where ev: "decode_event (wm_bytes m) = Inr ev"
      and rcv: "receive_event (wm_srcRank m) ev ?s = (Inr (), t)"
      using run by (auto simp: handle_message_def split: sum.splits)
    let ?k = "inflight_key_of ev" and ?a = "ack_of r (wm_srcRank m) ev"
    note t = receive_ok [OF rcv, unfolded sU]
    have key: "message_key m = Some ?k" using Event_Message ev by (simp add: message_key_def)
    have src: "concerns r m \<or> fst ?k \<notin> D" using f key by (simp add: foreign_add)
    have recv: "leaves_alone q (add_mset m ?W) (add_mset ?a ?W)" for q
      by (rule leaves_alone_receive [OF Event_Message ev])
    have "book r ?U (AList.delete ?k ?I) (add_mset ?a ?W)"
      by (rule book_acknowledge [OF b recv sent_by_ack book_clear [OF b key]]) (use src dom in auto)
    moreover have "foreign r D (add_mset ?a ?W)"
    proof -
      have "fst ?k \<notin> D" if "wm_srcRank m \<noteq> r"
        using that src Event_Message by (simp add: concerns_def sent_by_def)
      then show ?thesis using f message_key_ack [of r "wm_srcRank m" ev] by (auto simp: foreign_add)
    qed
    moreover have "leaves_alone q Net (add_mset ?a ?W)" if "q \<noteq> r" for q
      by (rule leaves_alone_trans [OF alone [OF that] recv])
    ultimately have "books C r D Net t"
      using t cfg ack rank dom by (simp add: netted_def)
    moreover have "m' \<in># wire (m_world s)" if "m' \<in># wire (m_world t)" "wm_kind m' = Event_Message" for m'
      using that t(6) cfg ack rank w by auto
    ultimately show ?thesis by blast
  next
    case Migration_Message
    then obtain mig where "apply_migration mig ?s = (Inr (), t)"
      using run by (auto simp: handle_message_def split: sum.splits)
    then have "face t = face ?s" by (rule keeps_result [OF keeps_face_apply_migration refl])
    then show ?thesis
      using taken netted_face [of t ?s tr wire C r D Net] face_fields(4) [of t ?s] w by auto
  next
    case Ack_Message
    then obtain k where k: "decode_ack (wm_bytes m) = Inr k" and t: "t = snd (clear_inflight_key k ?s)"
      using run cfg ack by (auto simp: handle_message_def bnd_Inr_iff split: sum.splits if_splits)
    have key: "message_key m = Some k" using Ack_Message k by (simp add: message_key_def)
    have "book r ?U (AList.delete k ?I) ?W"
      by (rule book_clear [OF b key]) (use f key dom in \<open>simp add: foreign_add\<close>)
    then have "books C r D Net t"
      using taken sU lps_fields [OF clear_key_fields(5) [of k ?s]]
      by (simp add: netted_def t clear_key_fields)
    then show ?thesis using w by (simp add: t clear_key_fields)
  next
    case (Other_Message x)
    then show ?thesis using run taken w by (auto simp: handle_message_def)
  qed
  then show "books C r D Net t"
    and "\<And>m'. m' \<in># wire (m_world t) \<Longrightarrow> wm_kind m' = Event_Message \<Longrightarrow> m' \<in># wire (m_world s)"
    by blast+
qed

lemma wire_from_sub:
  "wire_from G W \<Longrightarrow> (\<And>m. m \<in># V \<Longrightarrow> wm_kind m = Event_Message \<Longrightarrow> m \<in># W) \<Longrightarrow> wire_from G V"
  unfolding wire_from_def by blast

text \<open>A rank that is safe at \<open>G\<close> and keeps its books, with nothing in transit below \<open>G\<close>.\<close>

abbreviation "polling C r D Net G s \<equiv> books C r D Net s \<and> safe_state C G s \<and> wire_from G (wire (m_world s))"

lemma world_simps [simp]:
  "sim_wf (s\<lparr>m_world := w\<rparr>) = sim_wf s" "idle (s\<lparr>m_world := w\<rparr>) = idle s"
  "from_gvt C G (s\<lparr>m_world := w\<rparr>) = from_gvt C G s"
  "pending_from G (s\<lparr>m_world := w\<rparr>) = pending_from G s"
  "inflight_from G (s\<lparr>m_world := w\<rparr>) = inflight_from G s"
  by (simp_all add: wf_defs from_defs)

lemma poll_safe:
  assumes "poll_transport_count fuel n s = (Inr x, t)" and "polling C r D Net G s" and C: "networked wire r C"
  shows "polling C r D Net G t"
  using assms(1,2)
proof (induction fuel arbitrary: n s)
  case (Suc fuel)
  have s: "books C r D Net s" "safe_state C G s" "wire_from G (wire (m_world s))" using Suc.prems(2) by simp_all
  have "m_transport s = tr" using s by (simp add: netted_def)
  then obtain z w where poll: "t_poll tr (m_world s) = (Inr z, w)"
    and rest: "(case z of None \<Rightarrow> ret n | Some m \<Rightarrow> thn (handle_message m) (poll_transport_count fuel (Suc n))) (s\<lparr>m_world := w\<rparr>) = (Inr x, t)"
    using Suc.prems(1) by (auto simp: poll_message_def in_world_def bnd_Inr_iff split: prod.splits)
  show ?case
  proof (cases z)
    case None
    have "wire w = wire (m_world s)" using polled [OF poll] None by simp
    then show ?thesis
      using rest None s lps_fields [of "s\<lparr>m_world := w\<rparr>" s] by (auto simp: netted_def)
  next
    case (Some m)
    have w: "wire (m_world s) = add_mset m (wire w)" using polled [OF poll] Some by simp
    obtain y u where u: "handle_message m (s\<lparr>m_world := w\<rparr>) = (Inr y, u)"
      and more: "poll_transport_count fuel (Suc n) u = (Inr x, t)"
      using rest Some by (auto simp: thn_Inr_iff)
    have u: "handle_message m (s\<lparr>m_world := w\<rparr>) = (Inr (), u)" using u by simp
    note h = handle_books [OF s(1) C w u]
    have "keeps (safe_state C G :: ('a, 'w) sim \<Rightarrow> bool) (handle_message m)"
      using s(3) w by (intro keeps_conj keeps_handle_message keeps_handle_from) (auto simp: wire_from_def)
    from keeps_result [OF this _ u] s(2) have "safe_state C G u" by simp
    then show ?thesis
      using Suc.IH [OF more] h(1) wire_from_sub [OF s(3) h(2)] by blast
  qed
qed simp

subsection \<open>Starting\<close>

lemma safely_start:
  assumes C: "networked wire r C"
  shows "safely (books C r D Net) (configured C) start_if_needed"
proof -
  have lp: "safely (books C r D Net) (configured C) (start_lp i)" for i
  proof -
    have ctx: "triple (books C r D Net) (ctx_of i)
        (\<lambda>cx s. plain_start (lp_on_start (cx_lp cx)) \<and> books C r D Net s) (configured C)"
      by (rule triple_weaken [OF triple_ctx_of [where C = C and r = r and D = D and Net = Net]])
        (auto simp: netted_def plain_lps_def)
    have call: "safely (books C r D Net) (configured C) (run_sink_call i k)"
      if "\<And>e. k = Send e \<Longrightarrow> plain_event e" for k
      using that by (cases k) (auto simp: set_lp_state_def face_ctx_def
          intro!: safely_send [OF C] safely_raise safely_upd_ctx)
    show ?thesis
      unfolding start_lp_def
      by (rule triple_bnd [OF ctx], rule triple_pure, rule safely_for_each, rule call)
        (auto simp: plain_start_def)
  qed
  show ?thesis
    unfolding start_if_needed_def
    by (intro safely_intros lp safely_upd) simp_all
qed

end

text \<open>Nothing is below the initial GVT, so the start is safe.\<close>

lemma keeps_start_safe: "keeps (safe_state C zero_stamp) start_if_needed"
proof (rule keeps_conj_triple [OF keeps_start])
  let ?H = "\<lambda>s :: ('a, 'b) sim. from_gvt C zero_stamp s \<and> clock_le zero_stamp s"
  have "keeps ?H (send e)" for e
    by (rule send_from.keeps_send) (simp add: ok_at_def)
  moreover have "keeps ?H (set_lp_state i st)" for i st
    unfolding set_lp_state_def by (rule keeps_upd) (auto intro!: from_gvt_upd_ctx clock_le_upd_ctx)
  ultimately have "keeps ?H (run_sink_call i k)" for i k
    by (cases k) simp_all
  moreover have "keeps ?H (upd (\<lambda>s. s\<lparr>m_started := True\<rparr>))"
    by (rule keeps_upd) (simp add: from_defs)
  ultimately have "keeps ?H start_if_needed"
    unfolding start_if_needed_def start_lp_def by (intro keeps_intros)
  then show "triple (safe_state C zero_stamp :: ('a, 'b) sim \<Rightarrow> bool) start_if_needed
      (\<lambda>_. from_gvt C zero_stamp) (from_gvt C zero_stamp)"
    unfolding keeps_triple by (rule triple_weaken) (auto intro: clock_le_idle)
qed

subsection \<open>The two parts of fossil collection\<close>

definition gvt_enter :: "(('st, 'w) sim, timestamp) eff" where
  "gvt_enter =
     thn validate_invariants
     (bnd (gets m_lastGvt) (\<lambda>gvt.
      thn (prune_to_gvt gvt)
      (thn apply_ready_migrations
      compute_gvt)))"

definition gvt_leave :: "timestamp \<Rightarrow> (('st, 'w) sim, unit) eff" where
  "gvt_leave gvt =
     bnd (gets m_lastGvt) (\<lambda>last.
     if gvt < last then validate_invariants
     else thn (upd (\<lambda>s. s\<lparr>m_lastGvt := gvt\<rparr>))
       (thn (prune_to_gvt gvt)
       (thn apply_ready_migrations
       (thn (notify_directories_gvt gvt)
       validate_invariants))))"

lemma bnd_cong_run:
  "(\<And>x t. m s = (Inr x, t) \<Longrightarrow> f x t = g x t) \<Longrightarrow> bnd m f s = bnd m g s"
  by (auto simp: bnd_def split: prod.split sum.split)

lemma keeps_cfg_prune: "keeps (\<lambda>s. m_cfg s = C) (prune_to_gvt g)"
  by (rule keepsI) (simp add: prune_to_gvt_run prune_state_def split: prod.split)

lemma keeps_cfg_face: "(\<And>X. keeps (\<lambda>s. face s = X) m) \<Longrightarrow> keeps (\<lambda>s. m_cfg s = C) m"
  unfolding keeps_def by (metis face_fields(1))

text \<open>\<open>fossil_collect_\<close> with a reduction is the one part, the reduction and the other part.\<close>

lemma fossil_collect_phases:
  assumes "c_lpToRank (m_cfg s) \<noteq> None" and red: "c_gvtReduceMin (m_cfg s) = Some red"
    and "c_gvtMode (m_cfg s) = AckInflight"
  shows "fossil_collect True s = bnd gvt_enter (\<lambda>g. bnd (in_world (red g)) gvt_leave) s"
proof -
  have enter: "keeps (\<lambda>s. m_cfg s = C) gvt_enter" for C
    unfolding gvt_enter_def
    by (intro keeps_intros keeps_cfg_prune keeps_cfg_face [OF keeps_face_migrations]
        keeps_cfg_face [OF keeps_face_compute_gvt])
  have "fossil_collect True s = bnd gvt_enter (\<lambda>gvt. bnd get_st (\<lambda>s.
      bnd (case c_gvtReduceMin (m_cfg s) of None \<Rightarrow> ret gvt | Some red \<Rightarrow> in_world (red gvt)) gvt_leave)) s"
    unfolding fossil_collect_def gvt_enter_def thn_def bnd_assoc
  proof (rule bnd_cong_run)
    fix x t assume "validate_invariants s = (Inr x, t)"
    then have "t = s" by (rule validate_Inr)
    then show "bnd (gets m_cfg) (\<lambda>cfg. if c_lpToRank cfg \<noteq> None \<and> c_gvtReduceMin cfg = None then ret ()
        else bnd (gets m_lastGvt) (\<lambda>gvt. bnd (prune_to_gvt gvt) (\<lambda>_. bnd apply_ready_migrations (\<lambda>_.
          if c_lpToRank cfg \<noteq> None \<and> \<not> True then validate_invariants
          else if c_gvtMode cfg = ColoredCounters
          then bnd advance_gvt_colored (\<lambda>_. bnd apply_ready_migrations (\<lambda>_. bnd (gets m_lastGvt) (\<lambda>gvt.
            bnd (notify_directories_gvt gvt) (\<lambda>_. validate_invariants))))
          else advance_gvt_ack)))) t
      = bnd (gets m_lastGvt) (\<lambda>gvt. bnd (prune_to_gvt gvt) (\<lambda>_. bnd apply_ready_migrations (\<lambda>_.
          bnd compute_gvt (\<lambda>gvt. bnd get_st (\<lambda>s.
            bnd (case c_gvtReduceMin (m_cfg s) of None \<Rightarrow> ret gvt | Some red \<Rightarrow> in_world (red gvt)) gvt_leave))))) t"
      using assms by (simp add: advance_gvt_ack_def gvt_leave_def [abs_def] thn_def)
  qed
  also have "\<dots> = bnd gvt_enter (\<lambda>g. bnd (in_world (red g)) gvt_leave) s"
  proof (rule bnd_cong_run)
    fix x t assume "gvt_enter s = (Inr x, t)"
    then have "m_cfg t = m_cfg s" by (rule keeps_result [OF enter refl])
    then show "bnd get_st (\<lambda>s. bnd (case c_gvtReduceMin (m_cfg s) of None \<Rightarrow> ret x
        | Some red \<Rightarrow> in_world (red x)) gvt_leave) t = bnd (in_world (red x)) gvt_leave t"
      using red by (simp add: bnd_def)
  qed
  finally show ?thesis .
qed

subsection \<open>What the two parts do to a safe rank\<close>

lemma keeps_enter_safe: "keeps (safe_state C G) gvt_enter"
proof -
  have compute: "keeps (safe_state C G :: ('a, 'b) sim \<Rightarrow> bool) compute_gvt"
  proof (rule keeps_conj [OF keeps_compute_gvt], rule keepsI)
    fix s :: "('a, 'b) sim" assume "from_gvt C G s"
    then show "from_gvt C G (snd (compute_gvt s))"
      using set_dropWhileD [of _ "cancelled s" "m_pending s"] by (auto simp: compute_gvt_run from_defs)
  qed
  show ?thesis
    unfolding gvt_enter_def by (intro keeps_intros keeps_prune_safe keeps_apply_ready_migrations_safe compute)
qed

text \<open>The contribution bounds what the rank has pending and what it has in transit.\<close>

lemma enter_contribution:
  assumes run: "gvt_enter s = (Inr v, t)" and s: "safe_state C G s" and ack: "c_gvtMode C = AckInflight"
  shows "pending_from v t \<and> inflight_from v t"
proof -
  obtain u where u: "compute_gvt u = (Inr v, t)" "safe_state C G u"
  proof -
    have "keeps (safe_state C G :: ('a, 'b) sim \<Rightarrow> bool)
        (thn validate_invariants (bnd (gets m_lastGvt) (\<lambda>g. thn (prune_to_gvt g) apply_ready_migrations)))"
      by (intro keeps_intros keeps_prune_safe keeps_apply_ready_migrations_safe)
    moreover obtain y u where "(thn validate_invariants (bnd (gets m_lastGvt) (\<lambda>g. thn (prune_to_gvt g) apply_ready_migrations))) s
        = (Inr y, u)" "compute_gvt u = (Inr v, t)"
      using run by (auto simp: gvt_enter_def thn_Inr_iff bnd_Inr_iff)
    ultimately show ?thesis using that s by (blast dest: keeps_result)
  qed
  then have "sim_wf u" "m_cfg u = C" by (simp_all add: from_gvt_def)
  from compute_gvt_floor [OF this(1) u(1)] this(2) ack show ?thesis by (simp add: pending_from_def)
qed

lemma leave_safe:
  assumes s: "safe_state C G s" "pending_from g s" "inflight_from g s" and run: "gvt_leave g s = (x, t)"
  shows "safe_state C (max G g) t"
proof (cases "g < G")
  case True
  have "m_lastGvt s = G" using s by (simp add: from_gvt_def)
  then have "t = snd (validate_invariants s)" using run True by (simp add: gvt_leave_def)
  then show ?thesis using s True by (simp add: max_def not_le [symmetric])
next
  case False
  have last: "m_lastGvt s = G" using s by (simp add: from_gvt_def)
  let ?rest = "thn (prune_to_gvt g) (thn apply_ready_migrations (thn (notify_directories_gvt g) validate_invariants))"
  have "raised C g (s\<lparr>m_lastGvt := g\<rparr>)"
    using s by (simp add: raised_def pending_from_def inflight_from_def from_gvt_def)
      (simp add: wf_defs forward_def)
  moreover have "triple (raised C g) ?rest (\<lambda>_. safe_state C g) (safe_state C g)"
    by (intro triple_thn [OF triple_prune_raised]) (unfold keeps_triple [symmetric],
        intro keeps_intros keeps_apply_ready_migrations_safe keeps_notify_safe)
  moreover have "?rest (s\<lparr>m_lastGvt := g\<rparr>) = (x, t)"
    using run False last by (simp add: gvt_leave_def)
  ultimately have "safe_state C g t"
    by (cases x) (auto dest: triple_Inl triple_Inr)
  moreover have "max G g = g" using False by simp
  ultimately show ?thesis by simp
qed

context shared_network
begin

lemma safely_enter: "networked wire r C \<Longrightarrow> safely (books C r D Net) (configured C) gvt_enter"
  unfolding gvt_enter_def by (intro safely_intros safely_gvt)

lemma safely_leave: "networked wire r C \<Longrightarrow> safely (books C r D Net) (configured C) (gvt_leave g)"
  unfolding gvt_leave_def by (intro safely_intros safely_gvt safely_upd) simp_all

lemma safely_collect_local:
  assumes C: "networked wire r C"
  shows "safely (books C r D Net) (configured C) (fossil_collect False)"
proof -
  have config: "triple (books C r D Net) (gets m_cfg) (\<lambda>cfg s. cfg = C \<and> books C r D Net s) (configured C)"
    by (rule triple_gets) (simp add: books_cfg)
  have remote: "c_lpToRank C \<noteq> None" using C by (simp add: networked_def)
  show ?thesis
    unfolding fossil_collect_def
    apply (rule safely_thn [OF safely_validate])
    apply (rule triple_bnd [OF config], rule triple_pure)
    apply (simp only: remote not_False_eq_True simp_thms if_True)
    apply (intro safely_intros safely_gvt C)
    done
qed

end

lemma keeps_collect_local_safe:
  assumes remote: "c_lpToRank C \<noteq> None"
  shows "keeps (safe_state C G) (fossil_collect False)"
proof -
  have config: "triple (safe_state C G) (gets m_cfg) (\<lambda>cfg s. cfg = C \<and> safe_state C G s) (safe_state C G)"
    by (rule triple_gets) (simp add: from_gvt_def)
  show ?thesis
    unfolding fossil_collect_def keeps_triple
    apply (rule triple_thn [OF keeps_validate [unfolded keeps_triple]])
    apply (rule triple_bnd [OF config], rule triple_pure)
    apply (unfold keeps_triple [symmetric])
    apply (simp only: remote not_False_eq_True simp_thms if_True)
    apply (intro keeps_intros keeps_prune_safe keeps_apply_ready_migrations_safe)
    done
qed

end
