(* ===== verification/Cluster.thy ===== *)
theory Cluster
  imports Rank_Safety Kernel_Progress Mpi
begin

text \<open>
  Several ranks that run the kernel on a shared network, in the acknowledgement mode, with
  their reductions of GVT: every rank takes its steps in any interleaving until it enters the
  reduction, where it waits; when all of them wait, the contributions are combined; then the
  ranks leave the reduction one after the other, and the first may go on while the others
  have not left yet. Nothing that is pending, in transit or undoable anywhere is ever below
  the GVT of any rank.
\<close>

subsection \<open>The cluster\<close>

record ('st, 'w) cluster =
  cl_world :: 'w
  cl_ranks :: "u32 \<Rightarrow> ('st, 'w) sim"
  cl_values :: "u32 \<Rightarrow> timestamp option"
  cl_result :: "timestamp option"

text \<open>
  \<open>cl_values\<close> is what the waiting ranks have contributed, \<open>cl_result\<close> the combined value while
  it is handed out. The ranks act on one world.
\<close>

definition at_rank :: "u32 \<Rightarrow> ('st, 'w) cluster \<Rightarrow> ('st, 'w) sim" where
  "at_rank r cl = (cl_ranks cl r)\<lparr>m_world := cl_world cl\<rparr>"

definition put_rank :: "u32 \<Rightarrow> ('st, 'w) sim \<Rightarrow> ('st, 'w) cluster \<Rightarrow> ('st, 'w) cluster" where
  "put_rank r t cl = cl\<lparr>cl_world := m_world t, cl_ranks := (cl_ranks cl)(r := t)\<rparr>"

text \<open>The steps a rank takes on its own.\<close>

inductive work :: "('st, 'w) sim \<Rightarrow> ('st, 'w) sim \<Rightarrow> bool" where
  work_start: "start_if_needed s = (Inr (), t) \<Longrightarrow> m_lastGvt s = zero_stamp \<Longrightarrow> work s t"
| work_schedule: "schedule ev s = (Inr (), t) \<Longrightarrow> m_lastGvt s \<le> ev_ts ev \<Longrightarrow> work s t"
| work_poll: "poll_transport_count fuel 0 s = (Inr n, t) \<Longrightarrow> work s t"
| work_dispatch: "dispatch_next s = (Inr b, t) \<Longrightarrow> work s t"
| work_collect: "fossil_collect False s = (Inr (), t) \<Longrightarrow> work s t"

inductive cluster_step :: "u32 set \<Rightarrow> ('st, 'w) cluster \<Rightarrow> ('st, 'w) cluster \<Rightarrow> bool" for R where
  step_work: "r \<in> R \<Longrightarrow> cl_values cl r = None \<Longrightarrow> work (at_rank r cl) t \<Longrightarrow>
    cluster_step R cl (put_rank r t cl)"
| step_enter: "r \<in> R \<Longrightarrow> cl_values cl r = None \<Longrightarrow> cl_result cl = None \<Longrightarrow>
    gvt_enter (at_rank r cl) = (Inr v, t) \<Longrightarrow>
    cluster_step R cl ((put_rank r t cl)\<lparr>cl_values := (cl_values cl)(r \<mapsto> v)\<rparr>)"
| step_reduce: "cl_result cl = None \<Longrightarrow> Some ` set (contributions tree) = cl_values cl ` R \<Longrightarrow>
    reduce_min tree = [g] \<Longrightarrow> cluster_step R cl (cl\<lparr>cl_result := Some g\<rparr>)"
| step_leave: "r \<in> R \<Longrightarrow> cl_values cl r \<noteq> None \<Longrightarrow> cl_result cl = Some g \<Longrightarrow>
    gvt_leave g (at_rank r cl) = (Inr (), t) \<Longrightarrow>
    cluster_step R cl ((put_rank r t cl)\<lparr>cl_values := (cl_values cl)(r := None),
      cl_result := (if \<forall>q \<in> R - {r}. cl_values cl q = None then None else Some g)\<rparr>)"

inductive cluster_steps :: "u32 set \<Rightarrow> ('st, 'w) cluster \<Rightarrow> ('st, 'w) cluster \<Rightarrow> bool" for R where
  cluster_refl: "cluster_steps R cl cl"
| cluster_more: "cluster_steps R cl cl' \<Longrightarrow> cluster_step R cl' cl'' \<Longrightarrow> cluster_steps R cl cl''"

lemma cluster_steps_trans: "cluster_steps R cl cl' \<Longrightarrow> cluster_steps R cl' cl'' \<Longrightarrow> cluster_steps R cl cl''"
  by (rotate_tac 1, induction rule: cluster_steps.induct) (auto intro: cluster_more)

text \<open>A cluster that has just been set up: distinct processes, nothing executed or sent.\<close>

definition cluster_start :: "('w \<Rightarrow> wire_message multiset) \<Rightarrow> u32 set \<Rightarrow> ('st, 'w) cluster \<Rightarrow> bool" where
  "cluster_start wire R cl \<longleftrightarrow> wire (cl_world cl) = {#} \<and> cl_values cl = (\<lambda>_. None) \<and> cl_result cl = None
     \<and> (\<forall>r \<in> R. let s = cl_ranks cl r in
          shared_network (m_transport s) wire \<and> networked wire r (m_cfg s) \<and> idle_wf s
          \<and> m_lastGvt s = zero_stamp \<and> m_inflightByUid s = []
          \<and> plain_lps s \<and> all_ctx (\<lambda>_ cx. cx_processed cx = [] \<and> cx_sentLog cx = [] \<and> causal (cx_lp cx)) s
          \<and> (\<forall>q \<in> R. q \<noteq> r \<longrightarrow> dom (uids s) \<inter> dom (uids (cl_ranks cl q)) = {}))"

subsection \<open>The invariant\<close>

text \<open>Where a rank is with respect to the reduction, at the global floor \<open>F\<close>.\<close>

definition stage :: "timestamp \<Rightarrow> timestamp option \<Rightarrow> timestamp option \<Rightarrow> ('st, 'w) sim \<Rightarrow> bool" where
  "stage F value res s \<longleftrightarrow> (case value of
     None \<Rightarrow> m_lastGvt s = F
   | Some v \<Rightarrow> (case res of
       None \<Rightarrow> m_lastGvt s = F \<and> pending_from v s \<and> inflight_from v s
     | Some g \<Rightarrow> F = max (m_lastGvt s) g))"

definition rank_safe ::
  "('w \<Rightarrow> wire_message multiset) \<Rightarrow> u32 set \<Rightarrow> timestamp \<Rightarrow> u32 \<Rightarrow> wire_message multiset \<Rightarrow> ('st, 'w) sim \<Rightarrow> bool" where
  "rank_safe wire D F r Net s \<longleftrightarrow> shared_network (m_transport s) wire \<and> networked wire r (m_cfg s)
     \<and> netted (m_transport s) wire (m_cfg s) r D Net s
     \<and> safe_state (m_cfg s) (m_lastGvt s) s \<and> pending_from F s \<and> inflight_from F s"

definition cluster_safe ::
  "('w \<Rightarrow> wire_message multiset) \<Rightarrow> (u32 \<Rightarrow> u32 set) \<Rightarrow> u32 set \<Rightarrow> timestamp \<Rightarrow> ('st, 'w) cluster \<Rightarrow> bool" where
  "cluster_safe wire D R F cl \<longleftrightarrow>
     (\<forall>r \<in> R. rank_safe wire (D r) F r (wire (cl_world cl)) (at_rank r cl)
        \<and> stage F (cl_values cl r) (cl_result cl) (at_rank r cl))
     \<and> wire_from F (wire (cl_world cl))
     \<and> (\<forall>m. m \<in># wire (cl_world cl) \<longrightarrow> wm_kind m = Event_Message \<longrightarrow> wm_srcRank m \<in> R)"

lemma at_put [simp]: "at_rank r (put_rank r t cl) = t"
  "q \<noteq> r \<Longrightarrow> at_rank q (put_rank r t cl) = (at_rank q cl)\<lparr>m_world := m_world t\<rparr>"
  "cl_world (put_rank r t cl) = m_world t" "cl_values (put_rank r t cl) = cl_values cl"
  "cl_result (put_rank r t cl) = cl_result cl"
  by (simp_all add: at_rank_def put_rank_def)

lemma at_rank_more [simp]:
  "at_rank q (cl\<lparr>cl_values := V\<rparr>) = at_rank q cl" "at_rank q (cl\<lparr>cl_result := g\<rparr>) = at_rank q cl"
  by (simp_all add: at_rank_def)

lemma stage_world [simp]: "stage F v res (s\<lparr>m_world := w\<rparr>) = stage F v res s"
  by (simp add: stage_def split: option.split)

text \<open>A rank that waits is not below the result, and one that has left is at it.\<close>

lemma stage_floor: "stage F v res s \<Longrightarrow> m_lastGvt s \<le> F"
  by (auto simp: stage_def split: option.splits)

subsection \<open>The other ranks\<close>

definition carrier :: "wire_message \<Rightarrow> u32" where
  "carrier m = (if wm_kind m = Event_Message then wm_srcRank m else wm_dstRank m)"

lemma concerns_carrier: "message_key m = Some k \<Longrightarrow> concerns r m \<longleftrightarrow> carrier m = r"
  by (cases "wm_kind m") (auto simp: message_key_def concerns_def sent_by_def carrier_def)

lemma flying_back:
  assumes "leaves_alone q Net W" and "m \<in># W" and "concerns q m" and "message_key m = Some k"
  shows "\<exists>m'. m' \<in># Net \<and> concerns q m' \<and> message_key m' = Some k"
proof -
  have "Some k \<in># flying q Net"
    using flying_mem [OF assms(2-4)] assms(1) by (meson leaves_alone_def mset_subset_eqD)
  then show ?thesis by (auto simp: flying_def)
qed

lemma event_back:
  assumes "leaves_alone q Net W" and "m \<in># W" and "sent_by q m"
  shows "m \<in># Net"
proof -
  have "m \<in># filter_mset (sent_by q) W" using assms(2,3) by simp
  then have "m \<in># filter_mset (sent_by q) Net"
    using assms(1) by (meson leaves_alone_def mset_subset_eqD)
  then show ?thesis by simp
qed

text \<open>A step of rank \<open>r\<close> keeps the books of rank \<open>q\<close>.\<close>

lemma netted_other:
  assumes q: "netted tr wire C q D Net s" "Net = wire (m_world s)" and r: "netted tr' wire C' r D' Net t"
    and "q \<noteq> r" and "D \<inter> D' = {}"
  shows "netted tr wire C q D (wire (m_world t)) (s\<lparr>m_world := m_world t\<rparr>)"
proof -
  let ?W = "wire (m_world t)"
  have b: "book q (uids s) (m_inflightByUid s) Net" and f: "foreign q D Net" using q by (simp_all add: netted_def)
  have b': "book r (uids t) (m_inflightByUid t) ?W" and dom: "dom (uids t) = D'"
    and alone: "\<And>x. x \<noteq> r \<Longrightarrow> leaves_alone x Net ?W"
    using r by (simp_all add: netted_def)
  have "foreign q D ?W"
    unfolding foreign_def
  proof (intro allI impI)
    fix m k assume m: "m \<in># ?W" "\<not> concerns q m" "message_key m = Some k"
    have x: "concerns (carrier m) m" "carrier m \<noteq> q" using m(2) concerns_carrier [OF m(3)] by auto
    show "fst k \<notin> D"
    proof (cases "carrier m = r")
      case True
      then have "fst k \<in> D'" using book_source [OF b' m(1) _ m(3)] x(1) dom by simp
      then show ?thesis using assms(5) by blast
    next
      case False
      from flying_back [OF alone [OF False] m(1) x(1) m(3)] obtain m' where
        m': "m' \<in># Net" "concerns (carrier m) m'" "message_key m' = Some k" by blast
      then have "\<not> concerns q m'" using concerns_carrier [OF m'(3)] x(2) by simp
      with m' f show ?thesis by (blast dest: foreignD)
    qed
  qed
  moreover have "book q (uids s) (m_inflightByUid s) ?W" by (rule book_others [OF b alone [OF \<open>q \<noteq> r\<close>]])
  ultimately show ?thesis
    using q lps_fields [of "s\<lparr>m_world := m_world t\<rparr>" s] by (simp add: netted_def)
qed

lemma netted_self: "netted tr wire C r D Net s \<Longrightarrow> netted tr wire C r D (wire (m_world s)) s"
  by (simp add: netted_def)

text \<open>What a safe rank \<open>r\<close> has left in transit stays above the floor.\<close>

lemma wire_after:
  assumes r: "netted tr wire C r D Net t" "inflight_from F t" and "wire_from F Net"
    and "\<forall>m. m \<in># Net \<longrightarrow> wm_kind m = Event_Message \<longrightarrow> wm_srcRank m \<in> R" and "r \<in> R"
  shows "wire_from F (wire (m_world t))"
    and "\<forall>m. m \<in># wire (m_world t) \<longrightarrow> wm_kind m = Event_Message \<longrightarrow> wm_srcRank m \<in> R"
proof -
  let ?W = "wire (m_world t)"
  have b: "book r (uids t) (m_inflightByUid t) ?W" and alone: "\<And>x. x \<noteq> r \<Longrightarrow> leaves_alone x Net ?W"
    using r by (simp_all add: netted_def)
  have earlier: "m \<in># Net" if "m \<in># ?W" "wm_kind m = Event_Message" "wm_srcRank m \<noteq> r" for m
    using event_back [OF alone [OF that(3)] that(1)] that(2) by (simp add: sent_by_def)
  show "wire_from F ?W"
    unfolding wire_from_def
  proof (intro allI impI)
    fix m ev assume m: "m \<in># ?W" "wm_kind m = Event_Message" "decode_event (wm_bytes m) = Inr ev"
    show "F \<le> ev_ts ev"
    proof (cases "wm_srcRank m = r")
      case True
      then have "sent_by r m" using m(2) by (simp add: sent_by_def)
      from book_bounds [OF b m(1) this] r(2) m(3) show ?thesis by (auto simp: inflight_from_def)
    next
      case False
      then show ?thesis using earlier [OF m(1,2) False] m assms(3) by (auto simp: wire_from_def)
    qed
  qed
  show "\<forall>m. m \<in># ?W \<longrightarrow> wm_kind m = Event_Message \<longrightarrow> wm_srcRank m \<in> R"
    using earlier assms(4,5) by blast
qed

subsection \<open>One step\<close>

lemma cluster_safe_put:
  assumes cl: "cluster_safe wire D R F cl" and "r \<in> R" and disj: "\<forall>q \<in> R. q \<noteq> r \<longrightarrow> D q \<inter> D r = {}"
    and t: "rank_safe wire (D r) F r (wire (cl_world cl)) t"
    and V: "cl' = (put_rank r t cl)\<lparr>cl_values := V, cl_result := g\<rparr>"
    and stage_r: "stage F (V r) g t"
    and others: "\<And>q. q \<in> R \<Longrightarrow> q \<noteq> r \<Longrightarrow> V q = cl_values cl q \<and> (g = cl_result cl \<or> V q = None)"
  shows "cluster_safe wire D R F cl'"
proof -
  let ?W = "wire (m_world t)"
  have net: "netted (m_transport t) wire (m_cfg t) r (D r) (wire (cl_world cl)) t" and inf: "inflight_from F t"
    using t by (simp_all add: rank_safe_def)
  have rank: "rank_safe wire (D q) F q ?W (at_rank q cl') \<and> stage F (V q) g (at_rank q cl')" if "q \<in> R" for q
  proof (cases "q = r")
    case True
    then show ?thesis using t stage_r netted_self [OF net] by (simp add: V rank_safe_def)
  next
    case False
    let ?s = "at_rank q cl"
    have s: "rank_safe wire (D q) F q (wire (cl_world cl)) ?s"
      "stage F (cl_values cl q) (cl_result cl) ?s" using cl that by (simp_all add: cluster_safe_def)
    have w: "wire (cl_world cl) = wire (m_world ?s)" by (simp add: at_rank_def)
    have "netted (m_transport ?s) wire (m_cfg ?s) q (D q) ?W (?s\<lparr>m_world := m_world t\<rparr>)"
      using netted_other [OF _ w net False] s(1) disj that False by (auto simp: rank_safe_def)
    moreover have "stage F (V q) g ?s"
      using others [OF that False] s(2) by (auto simp: stage_def)
    ultimately show ?thesis using s(1) False by (simp add: V rank_safe_def)
  qed
  have "wire_from F (wire (cl_world cl))"
    "\<forall>m. m \<in># wire (cl_world cl) \<longrightarrow> wm_kind m = Event_Message \<longrightarrow> wm_srcRank m \<in> R"
    using cl by (simp_all add: cluster_safe_def)
  note wire_after [OF net inf this \<open>r \<in> R\<close>]
  with rank show ?thesis by (simp add: cluster_safe_def V)
qed

text \<open>An operation of a rank that is at the floor.\<close>

lemma rank_safe_result:
  assumes s: "rank_safe wire D F r Net s" "m_lastGvt s = F"
    and books: "safely (netted (m_transport s) wire (m_cfg s) r D Net) (\<lambda>u. m_cfg u = m_cfg s) m"
    and safe: "keeps (safe_state (m_cfg s) F) m" and run: "m s = (Inr x, t)"
  shows "rank_safe wire D F r Net t \<and> m_lastGvt t = F"
proof -
  have "netted (m_transport s) wire (m_cfg s) r D Net t"
    using triple_Inr [OF books _ run] s(1) by (simp add: rank_safe_def)
  moreover have "safe_state (m_cfg s) F t"
    using keeps_result [OF safe _ run] s by (simp add: rank_safe_def)
  moreover have "m_cfg t = m_cfg s" "m_transport t = m_transport s"
    using calculation by (simp_all add: netted_def)
  ultimately show ?thesis
    using s(1) by (auto simp: rank_safe_def from_gvt_def)
qed

lemma work_safe:
  assumes "work s t" and s: "rank_safe wire D F r Net s" "m_lastGvt s = F" and floor: "wire_from F (wire (m_world s))"
  shows "rank_safe wire D F r Net t \<and> m_lastGvt t = F"
proof -
  let ?C = "m_cfg s"
  have net: "shared_network (m_transport s) wire" and C: "networked wire r ?C"
    using s by (simp_all add: rank_safe_def)
  have off: "\<not> c_enableInstallBeforeUseBuffering ?C" and remote: "c_lpToRank ?C \<noteq> None"
    using C by (simp_all add: networked_def)
  from assms(1) show ?thesis
  proof cases
    case work_start
    have "keeps (safe_state ?C F) start_if_needed" using work_start(2) s(2) keeps_start_safe by simp
    from rank_safe_result [OF s shared_network.safely_start [OF net C] this work_start(1)] show ?thesis .
  next
    case (work_schedule ev)
    have "keeps (safe_state ?C F) (enqueue ev)"
      using work_schedule(2) s(2) by (intro keeps_conj keeps_enqueue_idle_wf keeps_enqueue_from) simp
    from rank_safe_result [OF s shared_network.safely_face [OF net keeps_face_enqueue] this]
      work_schedule(1) show ?thesis by (simp add: schedule_def)
  next
    case (work_poll fuel n)
    have "netted (m_transport s) wire ?C r D Net t \<and> safe_state ?C F t \<and> wire_from F (wire (m_world t))"
      by (rule shared_network.poll_safe [OF net work_poll(1) _ C])
        (use s floor in \<open>simp add: rank_safe_def\<close>)
    moreover from this have "m_cfg t = ?C" "m_transport t = m_transport s" by (simp_all add: netted_def)
    ultimately show ?thesis using s(1) by (auto simp: rank_safe_def from_gvt_def)
  next
    case (work_dispatch b)
    from rank_safe_result [OF s shared_network.safely_dispatch_next [OF net C] keeps_dispatch_next_safe [OF off]
        work_dispatch] show ?thesis .
  next
    case work_collect
    from rank_safe_result [OF s shared_network.safely_collect_local [OF net C] keeps_collect_local_safe [OF remote]
        work_collect] show ?thesis .
  qed
qed

text \<open>The reduction raises the floor, to a value that bounds what is pending and in transit.\<close>

lemma cluster_safe_reduce:
  assumes cl: "cluster_safe wire D R F cl" and "cl_result cl = None"
    and all: "Some ` set (contributions tree) = cl_values cl ` R" and g: "reduce_min tree = [g]"
  shows "cluster_safe wire D R (max F g) (cl\<lparr>cl_result := Some g\<rparr>)"
proof -
  have low: "g \<le> v" if "r \<in> R" "cl_values cl r = Some v" for r v
  proof -
    have "Some v \<in> Some ` set (contributions tree)" using all that by force
    then have "v \<in> set (contributions tree)" by auto
    then show ?thesis using g Min_le [of "set (contributions tree)" v] by (simp add: reduce_min_Min)
  qed
  have rank: "rank_safe wire (D r) (max F g) r (wire (cl_world cl)) (at_rank r cl)
    \<and> stage (max F g) (cl_values cl r) (Some g) (at_rank r cl)" if r: "r \<in> R" for r
  proof -
    let ?s = "at_rank r cl"
    have s: "rank_safe wire (D r) F r (wire (cl_world cl)) ?s" "stage F (cl_values cl r) None ?s"
      using cl r assms(2) by (auto simp: cluster_safe_def)
    have "cl_values cl r \<in> Some ` set (contributions tree)" using all r by blast
    then obtain v where v: "cl_values cl r = Some v" by auto
    have at: "m_lastGvt ?s = F" "pending_from v ?s" "inflight_from v ?s"
      using s(2) v by (simp_all add: stage_def)
    have "pending_from (max F g) ?s" "inflight_from (max F g) ?s"
      using s(1) at low [OF r v] unfolding rank_safe_def pending_from_def inflight_from_def
      by (meson max.boundedI order_trans)+
    then show ?thesis using s(1) at v by (simp add: rank_safe_def stage_def)
  qed
  have "wire_from (max F g) (wire (cl_world cl))"
    unfolding wire_from_def
  proof (intro allI impI)
    fix m ev assume m: "m \<in># wire (cl_world cl)" "wm_kind m = Event_Message" "decode_event (wm_bytes m) = Inr ev"
    let ?r = "wm_srcRank m" let ?s = "at_rank ?r cl"
    have "?r \<in> R" using cl m by (simp add: cluster_safe_def)
    from rank [OF this] have b: "book ?r (uids ?s) (m_inflightByUid ?s) (wire (cl_world cl))"
      and inf: "inflight_from (max F g) ?s"
      by (simp_all add: rank_safe_def netted_def at_rank_def)
    have "sent_by ?r m" using m(2) by (simp add: sent_by_def)
    from book_bounds [OF b m(1) this inf [unfolded inflight_from_def]] m(3)
    show "max F g \<le> ev_ts ev" by auto
  qed
  with rank cl show ?thesis by (simp add: cluster_safe_def)
qed

lemma cluster_step_safe:
  assumes "cluster_step R cl cl'" and cl: "cluster_safe wire D R F cl"
    and disj: "\<forall>r \<in> R. \<forall>q \<in> R. q \<noteq> r \<longrightarrow> D q \<inter> D r = {}"
  shows "\<exists>F'. F \<le> F' \<and> cluster_safe wire D R F' cl'"
  using assms(1)
proof cases
  case (step_work r t)
  let ?s = "at_rank r cl"
  have s: "rank_safe wire (D r) F r (wire (cl_world cl)) ?s" "m_lastGvt ?s = F"
    using cl step_work by (auto simp: cluster_safe_def stage_def)
  have "wire_from F (wire (m_world ?s))" using cl by (simp add: cluster_safe_def at_rank_def)
  from work_safe [OF step_work(4) s this] have t: "rank_safe wire (D r) F r (wire (cl_world cl)) t" "m_lastGvt t = F"
    by simp_all
  have "cluster_safe wire D R F cl'"
    by (rule cluster_safe_put [OF cl step_work(2) _ t(1), where V = "cl_values cl" and g = "cl_result cl"])
      (use disj step_work t in \<open>auto simp: stage_def put_rank_def\<close>)
  then show ?thesis by blast
next
  case (step_enter r v t)
  let ?s = "at_rank r cl"
  have s: "rank_safe wire (D r) F r (wire (cl_world cl)) ?s" "m_lastGvt ?s = F"
    using cl step_enter by (auto simp: cluster_safe_def stage_def)
  then have net: "shared_network (m_transport ?s) wire" and C: "networked wire r (m_cfg ?s)"
    and safe: "safe_state (m_cfg ?s) F ?s" by (simp_all add: rank_safe_def)
  from rank_safe_result [OF s shared_network.safely_enter [OF net C] keeps_enter_safe step_enter(5)]
  have t: "rank_safe wire (D r) F r (wire (cl_world cl)) t" "m_lastGvt t = F" by simp_all
  have "c_gvtMode (m_cfg ?s) = AckInflight" using C by (simp add: networked_def)
  from enter_contribution [OF step_enter(5) safe this]
  have "stage F (Some v) (cl_result cl) t" using step_enter(4) t(2) by (simp add: stage_def)
  then have "cluster_safe wire D R F cl'"
    by (intro cluster_safe_put [OF cl step_enter(2) _ t(1), where V = "(cl_values cl)(r \<mapsto> v)" and g = "cl_result cl"])
      (use disj step_enter in \<open>auto simp: put_rank_def\<close>)
  then show ?thesis by blast
next
  case (step_reduce tree g)
  then show ?thesis
    using cluster_safe_reduce [OF cl step_reduce(2-4)] by (intro exI [of _ "max F g"]) simp
next
  case (step_leave r g t)
  let ?s = "at_rank r cl"
  obtain v where v: "cl_values cl r = Some v" using step_leave by auto
  have s: "rank_safe wire (D r) F r (wire (cl_world cl)) ?s" "F = max (m_lastGvt ?s) g"
    using cl step_leave v by (auto simp: cluster_safe_def stage_def)
  let ?C = "m_cfg ?s"
  have net: "shared_network (m_transport ?s) wire" and C: "networked wire r ?C"
    and safe: "safe_state ?C (m_lastGvt ?s) ?s" and low: "pending_from F ?s" "inflight_from F ?s"
    using s(1) by (simp_all add: rank_safe_def)
  have "pending_from g ?s" "inflight_from g ?s"
    using low s(2) unfolding pending_from_def inflight_from_def by auto
  from leave_safe [OF safe this step_leave(5)] have t: "safe_state ?C F t" using s(2) by simp
  have "netted (m_transport ?s) wire ?C r (D r) (wire (cl_world cl)) t"
    using triple_Inr [OF shared_network.safely_leave [OF net C] _ step_leave(5)] s(1) by (simp add: rank_safe_def)
  then have "rank_safe wire (D r) F r (wire (cl_world cl)) t" and "m_lastGvt t = F"
    using t net C by (auto simp: rank_safe_def from_gvt_def netted_def)
  then have "cluster_safe wire D R F cl'"
    by (intro cluster_safe_put [OF cl step_leave(2), where V = "(cl_values cl)(r := None)"
          and g = "if \<forall>q \<in> R - {r}. cl_values cl q = None then None else Some g"])
      (use disj step_leave in \<open>auto simp: stage_def put_rank_def\<close>)
  then show ?thesis by blast
qed

subsection \<open>Runs of a cluster\<close>

lemma cluster_steps_safe:
  assumes "cluster_steps R cl cl'" and "cluster_safe wire D R F cl"
    and "\<forall>r \<in> R. \<forall>q \<in> R. q \<noteq> r \<longrightarrow> D q \<inter> D r = {}"
  shows "\<exists>F'. F \<le> F' \<and> cluster_safe wire D R F' cl'"
  using assms(1,2)
proof induction
  case (cluster_refl cl)
  then show ?case by blast
next
  case (cluster_more cl cl' cl'')
  then obtain F' where F': "F \<le> F'" "cluster_safe wire D R F' cl'" by blast
  from cluster_step_safe [OF cluster_more(2) F'(2) assms(3)] F'(1) show ?case by (meson order_trans)
qed

lemma cluster_start_safe:
  assumes "cluster_start wire R cl"
  shows "cluster_safe wire (\<lambda>r. dom (uids (cl_ranks cl r))) R zero_stamp cl"
proof -
  have rank: "rank_safe wire (dom (uids (cl_ranks cl r))) zero_stamp r (wire (cl_world cl)) (at_rank r cl)
    \<and> stage zero_stamp (cl_values cl r) (cl_result cl) (at_rank r cl)" if "r \<in> R" for r
  proof -
    let ?s = "cl_ranks cl r" let ?t = "at_rank r cl"
    have W: "wire (cl_world cl) = {#}" using assms by (simp add: cluster_start_def)
    have s: "shared_network (m_transport ?s) wire" "networked wire r (m_cfg ?s)" "idle_wf ?s"
      "m_lastGvt ?s = zero_stamp" "m_inflightByUid ?s = []" "plain_lps ?s"
      and cx: "all_ctx (\<lambda>_ cx. cx_processed cx = [] \<and> cx_sentLog cx = [] \<and> causal (cx_lp cx)) ?s"
      using assms that by (simp_all add: cluster_start_def Let_def)
    have logs: "uids ?s i = Some (n, log) \<Longrightarrow> log = []" for i n log
      using cx by (auto simp: uids_def dest: all_ctx_map_of)
    have "book r (uids ?s) [] {#}"
      by (rule bookI) (auto simp: flying_def logs_ok_def dest: logs)
    then have "netted (m_transport ?t) wire (m_cfg ?t) r (dom (uids ?s)) {#} ?t"
      using s W lps_fields [of ?t ?s] by (simp add: netted_def at_rank_def foreign_def)
    moreover have "from_gvt (m_cfg ?s) zero_stamp ?s"
      using s cx unfolding from_gvt_def pending_from_def inflight_from_def history_from_def forward_def
      by (auto elim!: all_ctx_imp)
    ultimately show ?thesis
      using s W assms by (simp add: rank_safe_def at_rank_def stage_def cluster_start_def pending_from_def inflight_from_def)
  qed
  then show ?thesis using assms by (simp add: cluster_safe_def cluster_start_def wire_from_def)
qed

lemma cluster_runs:
  assumes "cluster_start wire R c0" and "cluster_steps R c0 cl" and "cluster_steps R cl cl'"
  shows "\<exists>F F'. F \<le> F' \<and> cluster_safe wire (\<lambda>r. dom (uids (cl_ranks c0 r))) R F cl
    \<and> cluster_safe wire (\<lambda>r. dom (uids (cl_ranks c0 r))) R F' cl'"
proof -
  have "\<forall>r \<in> R. \<forall>q \<in> R. q \<noteq> r \<longrightarrow> dom (uids (cl_ranks c0 q)) \<inter> dom (uids (cl_ranks c0 r)) = {}"
    using assms(1) by (auto simp: cluster_start_def Let_def)
  note steps = cluster_steps_safe [OF _ _ this]
  from steps [OF assms(2) cluster_start_safe [OF assms(1)]] steps [OF assms(3)] show ?thesis by blast
qed

subsection \<open>GVT of a rank never decreases\<close>

lemma keeps_enter_gvt: "keeps (gvt_from G) gvt_enter"
  unfolding gvt_enter_def by (intro gvt_steps keeps_intros)

lemma keeps_leave_gvt: "keeps (gvt_from G) (gvt_leave g)"
  unfolding gvt_leave_def by (intro keeps_raise_gvt gvt_steps keeps_intros)

lemma gvt_from_result: "(\<And>G. keeps (gvt_from G) m) \<Longrightarrow> m s = (x, t) \<Longrightarrow> m_lastGvt s \<le> m_lastGvt t"
  using keeps_result [of "gvt_from (m_lastGvt s)" m s x t] by (simp add: gvt_from_def)

lemma work_gvt: "work s t \<Longrightarrow> m_lastGvt s \<le> m_lastGvt t"
  by (induction rule: work.induct)
    (auto simp: schedule_def intro: gvt_from_result keeps_start_gvt keeps_enqueue_gvt keeps_poll_gvt
      keeps_dispatch_next_gvt keeps_fossil_gvt)

lemma put_rank_gvt:
  assumes "m_lastGvt (at_rank r cl) \<le> m_lastGvt t"
  shows "m_lastGvt (cl_ranks cl q) \<le> m_lastGvt (cl_ranks (put_rank r t cl) q)"
  using assms by (simp add: put_rank_def at_rank_def)

lemma cluster_step_gvt:
  assumes "cluster_step R cl cl'"
  shows "m_lastGvt (cl_ranks cl q) \<le> m_lastGvt (cl_ranks cl' q)"
  using assms
proof cases
  case (step_work r t)
  then show ?thesis using put_rank_gvt [OF work_gvt] by blast
next
  case (step_enter r v t)
  then show ?thesis using put_rank_gvt [OF gvt_from_result [OF keeps_enter_gvt step_enter(5)]] by simp
next
  case (step_leave r g t)
  then show ?thesis using put_rank_gvt [OF gvt_from_result [OF keeps_leave_gvt step_leave(5)]] by simp
qed simp

lemma cluster_steps_gvt: "cluster_steps R cl cl' \<Longrightarrow> m_lastGvt (cl_ranks cl q) \<le> m_lastGvt (cl_ranks cl' q)"
  by (induction rule: cluster_steps.induct) (auto intro: order_trans cluster_step_gvt)

subsection \<open>What a safe cluster promises\<close>

text \<open>No rank is ahead of anything that is still to happen, or can still be undone, anywhere.\<close>

lemma cluster_safe_floor:
  assumes cl: "cluster_safe wire D R F cl" and "r \<in> R"
  shows "m_lastGvt (cl_ranks cl r) \<le> F"
    and "ev \<in> set (m_pending (cl_ranks cl r)) \<Longrightarrow> F \<le> ev_ts ev"
    and "all_ctx (\<lambda>_ cx. \<forall>x \<in> set (cx_processed cx). m_lastGvt (cl_ranks cl r) \<le> pr_ts x) (cl_ranks cl r)"
    and "wire_from F (wire (cl_world cl))"
    and "cl_result cl = None \<Longrightarrow> m_lastGvt (cl_ranks cl r) = F"
proof -
  have r: "rank_safe wire (D r) F r (wire (cl_world cl)) (at_rank r cl)"
    "stage F (cl_values cl r) (cl_result cl) (at_rank r cl)"
    using assms by (simp_all add: cluster_safe_def)
  show "m_lastGvt (cl_ranks cl r) \<le> F" using stage_floor [OF r(2)] by (simp add: at_rank_def)
  show "ev \<in> set (m_pending (cl_ranks cl r)) \<Longrightarrow> F \<le> ev_ts ev"
    using r(1) by (simp add: rank_safe_def pending_from_def at_rank_def)
  show "all_ctx (\<lambda>_ cx. \<forall>x \<in> set (cx_processed cx). m_lastGvt (cl_ranks cl r) \<le> pr_ts x) (cl_ranks cl r)"
    using r(1) by (simp add: rank_safe_def from_gvt_def history_from_def at_rank_def all_ctx_def)
  show "wire_from F (wire (cl_world cl))" using cl by (simp add: cluster_safe_def)
  show "cl_result cl = None \<Longrightarrow> m_lastGvt (cl_ranks cl r) = F"
    using r(2) by (auto simp: stage_def at_rank_def split: option.splits)
qed

text \<open>What a rank has in transit is in its in-flight containers, under its own time.\<close>

lemma cluster_safe_transit:
  assumes cl: "cluster_safe wire D R F cl" and "r \<in> R" and m: "m \<in># wire (cl_world cl)" "sent_by r m"
  shows "\<exists>ev. decode_event (wm_bytes m) = Inr ev
    \<and> map_of (m_inflightByUid (cl_ranks cl r)) (inflight_key_of ev) = Some (ev_ts ev)
    \<and> ev_ts ev \<in> set (m_inflightTs (cl_ranks cl r))"
proof -
  let ?s = "at_rank r cl"
  have "rank_safe wire (D r) F r (wire (cl_world cl)) ?s" using assms by (simp add: cluster_safe_def)
  then have b: "book r (uids ?s) (m_inflightByUid ?s) (wire (cl_world cl))" and "idle_wf ?s"
    by (simp_all add: rank_safe_def netted_def at_rank_def)
  then have ts: "m_inflightTs ?s = sort (map snd (m_inflightByUid ?s))"
    by (simp add: sim_wf_def queues_wf_def inflight_wf_def)
  from bookD(2) [OF b m] obtain ev where ev: "decode_event (wm_bytes m) = Inr ev"
    "map_of (m_inflightByUid ?s) (inflight_key_of ev) = Some (ev_ts ev)" by blast
  then have "ev_ts ev \<in> set (m_inflightTs ?s)" unfolding ts by (force dest: map_of_SomeD)
  with ev show ?thesis by (simp add: at_rank_def)
qed

end
