(* ===== verification/Cluster_Sample.thy ===== *)
theory Cluster_Sample
  imports Cluster Sample
begin

text \<open>
  A concrete cluster: two ranks with one process each, which sends an event to the process of
  the other rank, and a run through one reduction of GVT with both messages in transit.
\<close>

definition relay_lp :: "u32 \<Rightarrow> u32 \<Rightarrow> unit lp" where
  "relay_lp i j = (default_lp i ())\<lparr>lp_on_event := (\<lambda>ev _. if ts_time (ev_ts ev) < 100
     then [Sink (Send (empty_event\<lparr>ev_ts := TimeStamp 200 0, ev_src := i, ev_dst := j\<rparr>))] else [])\<rparr>"

definition relay_config :: "u32 \<Rightarrow> inproc config" where
  "relay_config r = default_config\<lparr>c_rank := r, c_lpToRank := Some (\<lambda>i. i - 1), c_gvtReduceMin := Some ret\<rparr>"

definition relay_sim :: "u32 \<Rightarrow> u32 \<Rightarrow> u32 \<Rightarrow> (unit, inproc) sim" where
  "relay_sim r i j = snd (add_lp (Some (relay_lp i j))
     (projr (new_simulation (relay_config r) (Some inproc_transport) [])))"

definition relay_event :: "u32 \<Rightarrow> u64 \<Rightarrow> event" where
  "relay_event i t = empty_event\<lparr>ev_ts := TimeStamp t 1, ev_src := i, ev_dst := i, ev_uid := 900\<rparr>"

definition relay_start :: "(unit, inproc) cluster" where
  "relay_start = \<lparr>cl_world = [], cl_ranks = (\<lambda>r. if r = 0 then relay_sim 0 1 2 else relay_sim 1 2 1),
     cl_values = (\<lambda>_. None), cl_result = None\<rparr>"

definition run_at :: "u32 \<Rightarrow> ((unit, inproc) sim, 'a) eff \<Rightarrow> (unit, inproc) cluster \<Rightarrow> (unit, inproc) cluster" where
  "run_at r m cl = put_rank r (snd (m (at_rank r cl))) cl"

text \<open>Both ranks execute an event, and contribute the time they have reached.\<close>

definition relay_ready :: "(unit, inproc) cluster" where
  "relay_ready = run_at 1 dispatch_next (run_at 1 (schedule (relay_event 2 7))
     (run_at 0 dispatch_next (run_at 0 (schedule (relay_event 1 5)) relay_start)))"

lemma relay_sim_fields:
  "m_lps (relay_sim r i j) = [(i, \<lparr>cx_lp = relay_lp i j, cx_vt = zero_stamp, cx_inEvent = False,
    cx_currentExecTs = zero_stamp, cx_processed = [], cx_sentLog = [], cx_nextSeqNormal = 1,
    cx_nextSeqControl = 1, cx_nextUid = 1\<rparr>)]"
  "m_cfg (relay_sim r i j) = relay_config r" "m_transport (relay_sim r i j) = inproc_transport"
  "m_lastGvt (relay_sim r i j) = zero_stamp" "m_inflightByUid (relay_sim r i j) = []"
  by (simp_all add: relay_sim_def new_simulation_def add_lp_def Let_def relay_lp_def default_lp_def)

lemma relay_sim_wf: "idle_wf (relay_sim r i j)"
  unfolding relay_sim_def
  by (rule keepsD [OF keeps_add_lp], rule new_simulation_wf [of "relay_config r" inproc_transport "[]"])
    (simp add: new_simulation_def)

lemma relay_plain: "lp_id (relay_lp i j) = i" "plain_handler (lp_on_event (relay_lp i j))"
    "plain_start (lp_on_start (relay_lp i j))" "causal (relay_lp i j)"
proof -
  have "t < 100 \<Longrightarrow> t < (200 :: u64)" for t by (simp add: word_less_nat_alt)
  then have "ts_time t < 100 \<Longrightarrow> t \<le> TimeStamp 200 0" for t by (cases t) simp
  then show "causal (relay_lp i j)" by (auto simp: causal_def relay_lp_def split: if_splits)
qed (auto simp: relay_lp_def default_lp_def plain_handler_def plain_start_def plain_event_def
    empty_event_def empty_payload_def event_fits_def split: if_splits)

lemma relay_cluster_start: "cluster_start mset {0, 1} relay_start"
proof -
  have one: "shared_network inproc_transport mset" by (rule inproc.shared.shared_network_axioms)
  have cfg: "networked mset r (relay_config r)" for r
    by (simp add: networked_def relay_config_def default_config_def)
  have dom: "dom (uids (relay_sim r i j)) = {i}" for r i j
    by (auto simp: uids_def relay_sim_fields split: if_splits)
  show ?thesis
    using relay_sim_wf [of 0 1 2] relay_sim_wf [of 1 2 1]
    by (simp add: cluster_start_def relay_start_def Let_def relay_sim_fields one cfg dom
        plain_lps_def relay_plain all_ctx_def)
qed

lemma work_run_at:
  assumes "work (at_rank r cl) (snd (m (at_rank r cl)))" and "r \<in> R" and "cl_values cl r = None"
  shows "cluster_step R cl (run_at r m cl)"
  unfolding run_at_def by (rule step_work [OF assms(2,3,1)])

lemma relay_schedule:
  "m_lastGvt (at_rank r cl) \<le> ev_ts ev \<Longrightarrow> r \<in> R \<Longrightarrow> cl_values cl r = None \<Longrightarrow>
   cluster_step R cl (run_at r (schedule ev) cl)"
  by (rule work_run_at, rule work_schedule [where ev = ev]) (simp_all add: schedule_def enqueue_def)

lemma relay_dispatch:
  "case fst (dispatch_next (at_rank r cl)) of Inl _ \<Rightarrow> False | Inr _ \<Rightarrow> True \<Longrightarrow> r \<in> R \<Longrightarrow>
   cl_values cl r = None \<Longrightarrow> cluster_step R cl (run_at r dispatch_next cl)"
  by (rule work_run_at, cases "fst (dispatch_next (at_rank r cl))")
    (auto intro!: work_dispatch simp: prod_eq_iff)

lemma relay_runs:
  "case fst (dispatch_next (at_rank 0 (run_at 0 (schedule (relay_event 1 5)) relay_start))) of Inl _ \<Rightarrow> False | Inr _ \<Rightarrow> True"
  "case fst (dispatch_next (at_rank 1 (run_at 1 (schedule (relay_event 2 7))
     (run_at 0 dispatch_next (run_at 0 (schedule (relay_event 1 5)) relay_start))))) of Inl _ \<Rightarrow> False | Inr _ \<Rightarrow> True"
  by code_simp+

lemma relay_idle: "cl_values (run_at r m cl) = cl_values cl" "cl_result (run_at r m cl) = cl_result cl"
  "cl_values relay_start = (\<lambda>_. None)" "cl_result relay_start = None"
  "q \<noteq> r \<Longrightarrow> m_lastGvt (at_rank q (run_at r m cl)) = m_lastGvt (at_rank q cl)"
  "m_lastGvt (at_rank 0 relay_start) = zero_stamp" "m_lastGvt (at_rank 1 relay_start) = zero_stamp"
  by (simp_all add: run_at_def put_rank_def at_rank_def relay_start_def relay_sim_fields)

lemma relay_ready_steps: "cluster_steps {0, 1} relay_start relay_ready"
proof -
  let ?c1 = "run_at 0 (schedule (relay_event 1 5)) relay_start"
  let ?c2 = "run_at 0 dispatch_next ?c1"
  let ?c3 = "run_at 1 (schedule (relay_event 2 7)) ?c2"
  have s1: "cluster_step {0, 1} relay_start ?c1" by (rule relay_schedule) (simp_all add: relay_idle)
  have s2: "cluster_step {0, 1} ?c1 ?c2" by (rule relay_dispatch [OF relay_runs(1)]) (simp_all add: relay_idle)
  have s3: "cluster_step {0, 1} ?c2 ?c3" by (rule relay_schedule) (simp_all add: relay_idle)
  have s4: "cluster_step {0, 1} ?c3 relay_ready"
    unfolding relay_ready_def by (rule relay_dispatch [OF relay_runs(2)]) (simp_all add: relay_idle)
  show ?thesis
    by (rule cluster_more [OF cluster_more [OF cluster_more [OF cluster_more [OF cluster_refl s1] s2] s3] s4])
qed

text \<open>The reduction: both contribute, the smaller value is handed out, both leave with it.\<close>

definition enter_at :: "u32 \<Rightarrow> timestamp \<Rightarrow> (unit, inproc) cluster \<Rightarrow> (unit, inproc) cluster" where
  "enter_at r v cl = (run_at r gvt_enter cl)\<lparr>cl_values := (cl_values cl)(r \<mapsto> v)\<rparr>"

definition relay_waiting :: "(unit, inproc) cluster" where
  "relay_waiting = enter_at 1 (TimeStamp 7 1) (enter_at 0 (TimeStamp 5 1) relay_ready)"

definition relay_reduced :: "(unit, inproc) cluster" where
  "relay_reduced = relay_waiting\<lparr>cl_result := Some (TimeStamp 5 1)\<rparr>"

definition relay_left :: "(unit, inproc) cluster" where
  "relay_left = (run_at 0 (gvt_leave (TimeStamp 5 1)) relay_reduced)\<lparr>
     cl_values := (cl_values relay_reduced)(0 := None), cl_result := Some (TimeStamp 5 1)\<rparr>"

lemma relay_reduction_runs:
  "fst (gvt_enter (at_rank 0 relay_ready)) = Inr (TimeStamp 5 1)"
  "fst (gvt_enter (at_rank 1 (enter_at 0 (TimeStamp 5 1) relay_ready))) = Inr (TimeStamp 7 1)"
  "fst (gvt_leave (TimeStamp 5 1) (at_rank 0 relay_reduced)) = Inr ()"
  by code_simp+

lemma relay_left_state:
  "m_lastGvt (cl_ranks relay_left 0) = TimeStamp 5 1 \<and> length (cl_world relay_left) = 2"
  by code_simp

lemma relay_left_steps: "cluster_steps {0, 1} relay_ready relay_left"
proof -
  let ?c1 = "enter_at 0 (TimeStamp 5 1) relay_ready"
  have free: "cl_values relay_ready = (\<lambda>_. None)" "cl_result relay_ready = None"
    by (simp_all add: relay_ready_def relay_idle)
  have enter: "gvt_enter (at_rank r cl) = (Inr v, snd (gvt_enter (at_rank r cl)))"
    if "fst (gvt_enter (at_rank r cl)) = Inr v" for r v and cl :: "(unit, inproc) cluster"
    using that by (metis prod.collapse)
  have s1: "cluster_step {0, 1} relay_ready ?c1"
    unfolding enter_at_def run_at_def
    by (rule step_enter [OF _ _ _ enter [OF relay_reduction_runs(1)]]) (simp_all add: free)
  have s2: "cluster_step {0, 1} ?c1 relay_waiting"
    unfolding relay_waiting_def enter_at_def [of 1] run_at_def
    by (rule step_enter [OF _ _ _ enter [OF relay_reduction_runs(2)]])
      (simp_all add: enter_at_def relay_idle free)
  have s3: "cluster_step {0, 1} relay_waiting relay_reduced"
    unfolding relay_reduced_def
    by (rule step_reduce [where tree = "Combine (Rank (TimeStamp 5 1)) (Rank (TimeStamp 7 1))"])
      (simp_all add: relay_waiting_def enter_at_def relay_idle free reduce_min_Min min_def)
  have s4: "cluster_step {0, 1} relay_reduced relay_left"
  proof -
    have leave: "gvt_leave (TimeStamp 5 1) (at_rank 0 relay_reduced)
        = (Inr (), snd (gvt_leave (TimeStamp 5 1) (at_rank 0 relay_reduced)))"
      using relay_reduction_runs(3) by (metis prod.collapse)
    have vals: "cl_values relay_reduced = [0 \<mapsto> TimeStamp 5 1, 1 \<mapsto> TimeStamp 7 1]"
      by (simp add: relay_reduced_def relay_waiting_def enter_at_def relay_idle free)
    have "cluster_step {0, 1} relay_reduced
        ((put_rank 0 (snd (gvt_leave (TimeStamp 5 1) (at_rank 0 relay_reduced))) relay_reduced)\<lparr>
          cl_values := (cl_values relay_reduced)(0 := None),
          cl_result := (if \<forall>q \<in> {0, 1} - {0}. cl_values relay_reduced q = None then None else Some (TimeStamp 5 1))\<rparr>)"
      by (rule step_leave [OF _ _ _ leave]) (simp_all add: vals, simp add: relay_reduced_def)
    then show ?thesis by (simp add: relay_left_def run_at_def vals)
  qed
  show ?thesis
    by (rule cluster_more [OF cluster_more [OF cluster_more [OF cluster_more [OF cluster_refl s1] s2] s3] s4])
qed

lemma relay_left_sent: "sent_by 0 (hd (cl_world relay_left))"
proof -
  have "wm_kind (hd (cl_world relay_left)) = Event_Message \<and> wm_srcRank (hd (cl_world relay_left)) = 0"
    by code_simp
  then show ?thesis by (simp add: sent_by_def)
qed

end
