(* ===== verification/Cars.thy ===== *)
theory Cars
  imports Composite Migration
begin

text \<open>
  The car demo (\<open>src/examples/demo.cpp\<close>): two processes with a car, its engine and its
  wheels as entities, messages that act on any of them, and a directory.
\<close>

subsection \<open>Kinds, messages and entities\<close>

definition Car_SetThrottle :: u32 where "Car_SetThrottle = 1001"
definition Car_Accelerate :: u32 where "Car_Accelerate = 1002"
definition Car_Brake :: u32 where "Car_Brake = 1003"
definition Wheel_Puncture :: u32 where "Wheel_Puncture = 1101"
definition Wheel_Inflate :: u32 where "Wheel_Inflate = 1102"
definition CarType :: u32 where "CarType = 2001"
definition EngineType :: u32 where "EngineType = 2002"
definition WheelType :: u32 where "WheelType = 2003"

lemmas car_kinds = Car_SetThrottle_def Car_Accelerate_def Car_Brake_def Wheel_Puncture_def Wheel_Inflate_def
lemmas car_types = CarType_def EngineType_def WheelType_def

record car =
  car_speed :: u64
  car_engine :: u64
  car_wheels :: "u64 list"

record engine =
  en_throttle :: u32
  en_temperature :: u32

record wheel =
  wh_pressure :: u32
  wh_health :: u32

datatype car_value = Car_V car | Engine_V engine | Wheel_V wheel

definition new_car :: car where "new_car = \<lparr>car_speed = 0, car_engine = 0, car_wheels = replicate 4 0\<rparr>"
definition new_engine :: engine where "new_engine = \<lparr>en_throttle = 0, en_temperature = 70\<rparr>"
definition new_wheel :: wheel where "new_wheel = \<lparr>wh_pressure = 32, wh_health = 100\<rparr>"

text \<open>The casts of the code, whose type ids have been checked before.\<close>

fun car_of :: "car_value \<Rightarrow> car" where
  "car_of (Car_V c) = c"
| "car_of _ = new_car"

fun engine_of :: "car_value \<Rightarrow> engine" where
  "engine_of (Engine_V e) = e"
| "engine_of _ = new_engine"

fun wheel_of :: "car_value \<Rightarrow> wheel" where
  "wheel_of (Wheel_V w) = w"
| "wheel_of _ = new_wheel"

definition car_bytes :: "car \<Rightarrow> bytes" where
  "car_bytes c = le_bytes 8 (car_speed c) @ le_bytes 8 (car_engine c) @ concat (map (le_bytes 8) (car_wheels c))"

definition car_of_bytes :: "bytes \<Rightarrow> car" where
  "car_of_bytes bs = \<lparr>car_speed = field_at 0 8 bs, car_engine = field_at 8 8 bs,
     car_wheels = map (\<lambda>k. field_at (16 + 8 * k) 8 bs) [0..<4]\<rparr>"

definition engine_bytes :: "engine \<Rightarrow> bytes" where
  "engine_bytes e = le_bytes 4 (en_throttle e) @ le_bytes 4 (en_temperature e)"

definition engine_of_bytes :: "bytes \<Rightarrow> engine" where
  "engine_of_bytes bs = \<lparr>en_throttle = field_at 0 4 bs, en_temperature = field_at 4 4 bs\<rparr>"

definition wheel_bytes :: "wheel \<Rightarrow> bytes" where
  "wheel_bytes w = le_bytes 4 (wh_pressure w) @ le_bytes 4 (wh_health w)"

definition wheel_of_bytes :: "bytes \<Rightarrow> wheel" where
  "wheel_of_bytes bs = \<lparr>wh_pressure = field_at 0 4 bs, wh_health = field_at 4 4 bs\<rparr>"

definition car_registry :: "exn + car_value registry" where
  "car_registry =
     (case thn (register_trivial CarType (Car_V new_car) 48 (\<lambda>v. car_bytes (car_of v)) (\<lambda>bs. Car_V (car_of_bytes bs)))
          (thn (register_trivial EngineType (Engine_V new_engine) 8 (\<lambda>v. engine_bytes (engine_of v))
                 (\<lambda>bs. Engine_V (engine_of_bytes bs)))
               (register_trivial WheelType (Wheel_V new_wheel) 8 (\<lambda>v. wheel_bytes (wheel_of v))
                 (\<lambda>bs. Wheel_V (wheel_of_bytes bs)))) [] of
        (Inl e, _) \<Rightarrow> Inl e | (Inr _, reg) \<Rightarrow> Inr reg)"

subsection \<open>Handlers\<close>

type_synonym car_world = "car_value world"

record car_process =
  cp_id :: u32
  cp_peer :: u32
  cp_world :: car_world

definition put_part :: "u64 \<Rightarrow> car_value \<Rightarrow> car_process \<Rightarrow> car_process" where
  "put_part eid v st = st\<lparr>cp_world := set_entity eid v (cp_world st)\<rparr>"

definition set_throttle :: "u64 \<Rightarrow> u32 \<Rightarrow> event \<Rightarrow> car_process \<Rightarrow> car_process ctx_call list" where
  "set_throttle target throttle ev st = look target CarType (cp_world st) (\<lambda>c.
     let eid = car_engine (car_of c) in
     borrow eid EngineType (cp_world st) (\<lambda>e.
       [Sink (Become (put_part eid (Engine_V ((engine_of e)
          \<lparr>en_throttle := if throttle > 100 then 100 else throttle\<rparr>)) st))]))"

definition accelerate :: "u64 \<Rightarrow> u64 \<Rightarrow> event \<Rightarrow> car_process \<Rightarrow> car_process ctx_call list" where
  "accelerate target deltaSpeed ev st = look target CarType (cp_world st) (\<lambda>carRO.
     look (car_engine (car_of carRO)) EngineType (cp_world st) (\<lambda>engineRO.
       let scaled = (deltaSpeed * ucast (en_throttle (engine_of engineRO))) div 100 in
       borrow target CarType (cp_world st) (\<lambda>c.
         let c' = (car_of c)\<lparr>car_speed := car_speed (car_of c) + scaled\<rparr>;
             st' = put_part target (Car_V c') st
         in Sink (Become st') #
            borrow (car_engine c') EngineType (cp_world st') (\<lambda>e.
              [Sink (Become (put_part (car_engine c') (Engine_V ((engine_of e)
                 \<lparr>en_temperature := en_temperature (engine_of e) + ucast (scaled div 10)\<rparr>)) st'))]))))"

definition brake :: "u64 \<Rightarrow> u64 \<Rightarrow> event \<Rightarrow> car_process \<Rightarrow> car_process ctx_call list" where
  "brake target deltaSpeed ev st = borrow target CarType (cp_world st) (\<lambda>c.
     let speed = car_speed (car_of c) in
     [Sink (Become (put_part target
        (Car_V ((car_of c)\<lparr>car_speed := if speed > deltaSpeed then speed - deltaSpeed else 0\<rparr>)) st))])"

definition puncture :: "u64 \<Rightarrow> u32 \<Rightarrow> event \<Rightarrow> car_process \<Rightarrow> car_process ctx_call list" where
  "puncture target unused ev st = borrow target WheelType (cp_world st) (\<lambda>v.
     let health = wh_health (wheel_of v) in
     [Sink (Become (put_part target (Wheel_V ((wheel_of v)
        \<lparr>wh_pressure := 0, wh_health := if health > 10 then health - 10 else 0\<rparr>)) st))])"

definition inflate :: "u64 \<Rightarrow> u32 \<Rightarrow> event \<Rightarrow> car_process \<Rightarrow> car_process ctx_call list" where
  "inflate target pressure ev st = borrow target WheelType (cp_world st) (\<lambda>v.
     if wh_health (wheel_of v) = 0 then []
     else [Sink (Become (put_part target (Wheel_V ((wheel_of v)\<lparr>wh_pressure := pressure\<rparr>)) st))])"

definition car_dispatcher :: "car_process dispatcher" where
  "car_dispatcher = snd
     (thn (register_trivial_handler Car_SetThrottle 4 (field_at 0 4) set_throttle)
     (thn (register_trivial_handler Car_Accelerate 8 (field_at 0 8) accelerate)
     (thn (register_trivial_handler Car_Brake 8 (field_at 0 8) brake)
     (thn (register_trivial_handler Wheel_Puncture 4 (field_at 0 4) puncture)
       (register_trivial_handler Wheel_Inflate 4 (field_at 0 4) inflate)))) [])"

subsection \<open>The process\<close>

definition car_id :: "u32 \<Rightarrow> u32 \<Rightarrow> u64" where
  "car_id owner local = push_bit 32 (ucast owner) OR ucast local"

definition car_setup :: "u32 \<Rightarrow> (car_world, unit) eff" where
  "car_setup i =
     thn (world_emplace (car_id i 2) EngineType (Engine_V new_engine))
     (thn (world_emplace (car_id i 10) WheelType (Wheel_V new_wheel))
     (thn (world_emplace (car_id i 11) WheelType (Wheel_V new_wheel))
     (thn (world_emplace (car_id i 12) WheelType (Wheel_V new_wheel))
     (thn (world_emplace (car_id i 13) WheelType (Wheel_V new_wheel))
       (world_emplace (car_id i 1) CarType (Car_V \<lparr>car_speed = 0, car_engine = car_id i 2,
          car_wheels = [car_id i 10, car_id i 11, car_id i 12, car_id i 13]\<rparr>))))))"

definition car_event :: "u32 \<Rightarrow> u32 \<Rightarrow> u64 \<Rightarrow> u64 \<Rightarrow> payload \<Rightarrow> event" where
  "car_event i peer t target p =
     empty_event\<lparr>ev_ts := TimeStamp t 0, ev_src := i, ev_dst := peer, ev_target := target, ev_payload := p\<rparr>"

definition car_sends :: "u32 \<Rightarrow> u32 \<Rightarrow> event list" where
  "car_sends i peer =
     (let remoteCarId = car_id peer 1; remoteWheel0 = car_id peer 10 in
      [car_event i peer 10 remoteCarId (make_trivial_payload Car_Accelerate (le_bytes 8 (111 :: u64))),
       car_event i peer 12 remoteCarId (make_trivial_payload Car_Brake (le_bytes 8 (50 :: u64))),
       car_event i peer 8 remoteWheel0 (make_trivial_payload Wheel_Puncture (le_bytes 4 (0 :: u32))),
       car_event i peer 5 remoteCarId (make_trivial_payload Car_SetThrottle (le_bytes 4 (100 :: u32))),
       car_event i peer 6 remoteWheel0 (make_trivial_payload Wheel_Inflate (le_bytes 4 (28 :: u32)))])"

definition car_on_start :: "car_process \<Rightarrow> car_process sink_call list" where
  "car_on_start st = (case car_setup (cp_id st) (cp_world st) of
     (Inl e, w) \<Rightarrow> [Become (st\<lparr>cp_world := w\<rparr>), Fail e]
   | (Inr _, w) \<Rightarrow>
       Become (st\<lparr>cp_world := w\<rparr>) # (if cp_id st = 1 then map Send (car_sends (cp_id st) (cp_peer st)) else []))"

definition car_save_state :: "car_process \<Rightarrow> exn + bytes" where
  "car_save_state st = (case world_read (car_id (cp_id st) 1) CarType (cp_world st) of
     Inl e \<Rightarrow> Inl e | Inr v \<Rightarrow> Inr (car_bytes (car_of v)))"

definition car_lp :: "u32 \<Rightarrow> u32 \<Rightarrow> exn + car_process lp" where
  "car_lp i peer = (case car_registry of
     Inl e \<Rightarrow> Inl e
   | Inr reg \<Rightarrow> Inr ((default_lp i \<lparr>cp_id = i, cp_peer = peer, cp_world = \<lparr>w_registry = reg, w_entities = []\<rparr>\<rparr>)
       \<lparr>lp_on_start := car_on_start,
        lp_on_event := dispatch_to_handler car_dispatcher,
        lp_save_state := car_save_state,
        lp_load_state := (\<lambda>_. ret ()),
        lp_supports_entity_snapshots := (\<lambda>_. True),
        lp_save_entity := (\<lambda>eid st. serialize_entity eid (cp_world st)),
        lp_load_entity := (\<lambda>eid bs. on_part cp_world (\<lambda>w st. st\<lparr>cp_world := w\<rparr>) (deserialize_entity eid bs))\<rparr>))"

text \<open>What is asked of the car after the run.\<close>

definition read_speed :: "u32 \<Rightarrow> car_world \<Rightarrow> exn + u64" where
  "read_speed i w = (case world_read (car_id i 1) CarType w of Inl e \<Rightarrow> Inl e | Inr c \<Rightarrow> Inr (car_speed (car_of c)))"

definition read_engine :: "u32 \<Rightarrow> car_world \<Rightarrow> exn + engine" where
  "read_engine i w = (case world_read (car_id i 1) CarType w of
     Inl e \<Rightarrow> Inl e
   | Inr c \<Rightarrow> (case world_read (car_engine (car_of c)) EngineType w of
       Inl e \<Rightarrow> Inl e | Inr v \<Rightarrow> Inr (engine_of v)))"

definition read_pressure :: "u32 \<Rightarrow> car_world \<Rightarrow> exn + u32" where
  "read_pressure i w = (case world_read (car_id i 1) CarType w of
     Inl e \<Rightarrow> Inl e
   | Inr c \<Rightarrow> (case world_read (car_wheels (car_of c) ! 0) WheelType w of
       Inl e \<Rightarrow> Inl e | Inr v \<Rightarrow> Inr (wh_pressure (wheel_of v))))"

subsection \<open>The program\<close>

type_synonym cars_state = "owner_history + car_process"

definition cars_directory :: directory_config where
  "cars_directory = \<lparr>dc_id = 3, dc_stateEntityId = 0xD1EC7000, dc_updateOwnerKind = 0, dc_decodeUpdate = None,
     dc_migrationLogKind = 0, dc_fossilCollectKind = DefaultFossilCollectKind,
     dc_decodeFossilCollect = Some decode_fossil_collect_payload,
     dc_defaultOwner = Some (\<lambda>e _. ucast (drop_bit 32 e))\<rparr>"

definition cars_config :: "throttled config" where
  "cars_config = default_config\<lparr>c_rank := 0, c_directoryForEntity := Some (\<lambda>_. 3),
     c_directoryFossilCollectKind := DefaultFossilCollectKind\<rparr>"

definition cars_simulation :: "bytes \<Rightarrow> nat \<Rightarrow> nat \<Rightarrow> exn + (cars_state, throttled) sim" where
  "cars_simulation pad fuel pollFuel =
     (case (directory_lp pad cars_directory, car_lp 1 2, car_lp 2 1) of
        (Inr dir, Inr lp1, Inr lp2) \<Rightarrow>
          (case new_simulation cars_config (Some throttled_transport) empty_throttled of
             Inl e \<Rightarrow> Inl e
           | Inr s \<Rightarrow>
             (case thn (add_lp (Some (embed_lp Inl projl dir)))
                  (thn (add_lp (Some (embed_lp Inr projr lp1)))
                  (thn (add_lp (Some (embed_lp Inr projr lp2))) (run fuel pollFuel))) s of
                (Inl e, _) \<Rightarrow> Inl e | (Inr _, t) \<Rightarrow> Inr t))
      | (Inl e, _) \<Rightarrow> Inl e
      | (_, Inl e, _) \<Rightarrow> Inl e
      | (_, _, Inl e) \<Rightarrow> Inl e)"

definition cars_report :: "car_world \<Rightarrow> exn + string" where
  "cars_report w = (case (read_speed 2 w, read_engine 2 w, read_pressure 2 w) of
     (Inr speed, Inr e, Inr pressure) \<Rightarrow> Inr (
       ''LP2 car speed='' @ decimal (unat speed) @ [CHR 0x0A]
       @ ''LP2 engine throttle='' @ decimal (unat (en_throttle e)) @ [CHR 0x0A]
       @ ''LP2 engine temperature='' @ decimal (unat (en_temperature e)) @ [CHR 0x0A]
       @ ''LP2 wheel0 pressure='' @ decimal (unat pressure) @ [CHR 0x0A])
   | (Inl e, _) \<Rightarrow> Inl e | (_, Inl e, _) \<Rightarrow> Inl e | (_, _, Inl e) \<Rightarrow> Inl e)"

subsection \<open>Rollback of the cars\<close>

interpretation engine_layout: trivial_layout "\<lambda>_. engine_bytes" engine_of_bytes 8 0
proof
  fix x :: engine and rest
  let ?t = "le_bytes 4 (en_throttle x)" and ?h = "le_bytes 4 (en_temperature x)"
  have "field_at 0 4 ([] @ ?t @ (?h @ rest)) = en_throttle x" "field_at 4 4 (?t @ ?h @ rest) = en_temperature x"
    by (rule field_at_here; simp)+
  then show "engine_of_bytes (engine_bytes x @ rest) = x" by (simp add: engine_of_bytes_def engine_bytes_def)
qed (simp add: engine_bytes_def)

interpretation wheel_layout: trivial_layout "\<lambda>_. wheel_bytes" wheel_of_bytes 8 0
proof
  fix x :: wheel and rest
  let ?p = "le_bytes 4 (wh_pressure x)" and ?h = "le_bytes 4 (wh_health x)"
  have "field_at 0 4 ([] @ ?p @ (?h @ rest)) = wh_pressure x" "field_at 4 4 (?p @ ?h @ rest) = wh_health x"
    by (rule field_at_here; simp)+
  then show "wheel_of_bytes (wheel_bytes x @ rest) = x" by (simp add: wheel_of_bytes_def wheel_bytes_def)
qed (simp add: wheel_bytes_def)

text \<open>A car has four wheels, an array in the code.\<close>

lemma car_round:
  assumes "length (car_wheels c) = 4"
  shows "length (car_bytes c) = 48" and "car_of_bytes (car_bytes c) = c"
proof -
  obtain w0 w1 w2 w3 where w: "car_wheels c = [w0, w1, w2, w3]"
    using assms by (auto simp: length_Suc_conv numeral_eq_Suc)
  let ?s = "le_bytes 8 (car_speed c)" and ?e = "le_bytes 8 (car_engine c)"
  let ?a = "le_bytes 8 w0" and ?b = "le_bytes 8 w1" and ?c = "le_bytes 8 w2" and ?d = "le_bytes 8 w3"
  show "length (car_bytes c) = 48" by (simp add: car_bytes_def w)
  have "field_at 0 8 ([] @ ?s @ (?e @ ?a @ ?b @ ?c @ ?d)) = car_speed c"
    "field_at 8 8 (?s @ ?e @ (?a @ ?b @ ?c @ ?d)) = car_engine c"
    "field_at 16 8 ((?s @ ?e) @ ?a @ (?b @ ?c @ ?d)) = w0" "field_at 24 8 ((?s @ ?e @ ?a) @ ?b @ (?c @ ?d)) = w1"
    "field_at 32 8 ((?s @ ?e @ ?a @ ?b) @ ?c @ ?d) = w2" "field_at 40 8 ((?s @ ?e @ ?a @ ?b @ ?c) @ ?d @ []) = w3"
    by (rule field_at_here; simp)+
  then show "car_of_bytes (car_bytes c) = c" by (simp add: car_of_bytes_def car_bytes_def w upt_rec)
qed

text \<open>
  What holds of every entity: it is of its type, the throttle is a percentage, a wheel that
  is worn out is flat.
\<close>

definition part_sound :: "u32 \<Rightarrow> car_value \<Rightarrow> bool" where
  "part_sound t v \<longleftrightarrow> (case v of
     Car_V c \<Rightarrow> t = CarType \<and> length (car_wheels c) = 4
   | Engine_V e \<Rightarrow> t = EngineType \<and> en_throttle e \<le> 100
   | Wheel_V x \<Rightarrow> t = WheelType \<and> (wh_health x = 0 \<longrightarrow> wh_pressure x = 0))"

definition cars_sound :: "car_world \<Rightarrow> bool" where
  "cars_sound w \<longleftrightarrow> Inr (w_registry w) = car_registry \<and> distinct (map fst (w_entities w))
     \<and> list_all (\<lambda>(eid, t, v). part_sound t v) (w_entities w)"

interpretation cars_part: world_part cp_world "\<lambda>w st. st\<lparr>cp_world := w\<rparr>"
  by unfold_locales simp_all

lemma parts_restorable:
  assumes "cars_sound w" and "part_sound t v"
  shows "restorable (w_registry w) t v"
proof -
  have reg: "registry_get (w_registry w) CarType
      = Inr (trivial_ops CarType (Car_V new_car) 48 (\<lambda>v. car_bytes (car_of v)) (\<lambda>bs. Car_V (car_of_bytes bs)))"
    "registry_get (w_registry w) EngineType
      = Inr (trivial_ops EngineType (Engine_V new_engine) 8 (\<lambda>v. engine_bytes (engine_of v)) (\<lambda>bs. Engine_V (engine_of_bytes bs)))"
    "registry_get (w_registry w) WheelType
      = Inr (trivial_ops WheelType (Wheel_V new_wheel) 8 (\<lambda>v. wheel_bytes (wheel_of v)) (\<lambda>bs. Wheel_V (wheel_of_bytes bs)))"
    using assms(1) by (simp_all add: cars_sound_def car_registry_def register_trivial_def register_type_def
        trivial_ops_def registry_get_def car_types throw_if_def)
  note round = engine_layout.get_put_exact [of "[]"] wheel_layout.get_put_exact [of "[]"]
    engine_layout.put_length [of "[]"] wheel_layout.put_length [of "[]"] car_round
  show ?thesis
    using assms(2) reg round by (cases v) (simp_all add: part_sound_def restorable_def trivial_ops_def)
qed

lemma cars_sound_ok: "cars_sound w \<Longrightarrow> world_ok w"
  using parts_restorable [of w] by (auto simp: world_ok_def cars_sound_def list_all_iff)

text \<open>The state differs from \<open>st\<close> in the entities \<open>E\<close> only.\<close>

abbreviation cars_differ :: "u64 set \<Rightarrow> car_process \<Rightarrow> car_process \<Rightarrow> bool" where
  "cars_differ E a b \<equiv> b = a\<lparr>cp_world := cp_world b\<rparr> \<and> world_differ E (cp_world a) (cp_world b)"

lemma differ_put_part: "cars_differ E a b \<Longrightarrow> cars_differ (insert eid E) a (put_part eid v b)"
proof -
  assume d: "cars_differ E a b"
  then have "world_differ (insert eid E) (cp_world a) (cp_world b)" using world_differ_more by blast
  from cars_part.covered_become [OF conjunct1 [OF d] this] show ?thesis by (simp add: put_part_def)
qed

lemma covered_put:
  "cars_differ E a b \<Longrightarrow> cars_part.snapshots.writes_covered E a cs
   \<Longrightarrow> cars_part.snapshots.writes_covered E a (Sink (Become b) # cs)"
  by simp

lemma cars_covered: "cars_part.snapshots.writes_covered {} st (dispatch_to_handler car_dispatcher ev st)"
proof -
  have start: "cars_differ {} st st" by (simp add: world_differ_refl)
  note once = differ_put_part [OF start]
  note twice = differ_put_part [OF once]
  note covered = cars_part.covered_look cars_part.covered_borrow covered_put once twice
  have nil: "cars_part.snapshots.writes_covered E a []" for E a by simp
  have "cars_part.snapshots.writes_covered {} st (set_throttle target a ev st)"
    "cars_part.snapshots.writes_covered {} st (accelerate target d ev st)"
    "cars_part.snapshots.writes_covered {} st (brake target d ev st)"
    "cars_part.snapshots.writes_covered {} st (puncture target a ev st)" for target a d
    unfolding set_throttle_def accelerate_def brake_def puncture_def Let_def
    by (intro covered nil)+
  moreover have "cars_part.snapshots.writes_covered {} st (inflate target a ev st)" for target a
    unfolding inflate_def by (rule cars_part.covered_borrow) (use once in simp)
  ultimately show ?thesis
    by (simp add: car_dispatcher_def register_trivial_handler_def register_handler_def dispatch_to_handler_def
        trivial_handler_def car_kinds)
qed

lemma cars_reversible:
  assumes "car_lp i peer = Inr lp" and "cars_sound (cp_world st)"
  shows "reversible lp st (lp_on_event lp ev st)"
  using assms cars_covered [of st ev] cars_sound_ok
  by (intro cars_part.snapshots.reversible_entities) (auto simp: car_lp_def split: sum.splits)

subsection \<open>The invariant\<close>

lemma part_of_record:
  assumes "cars_sound w" and "world_record eid w = Inr (t, v)"
  shows "part_sound t v"
  using assms by (auto simp: cars_sound_def world_record_def list_all_iff split: option.splits dest: map_of_SomeD)

lemma cars_sound_set:
  assumes w: "cars_sound w" and rec: "world_record eid w = Inr (t, v)" and v': "part_sound t v'"
  shows "cars_sound (set_entity eid v' w)"
proof -
  have "part_sound (fst (snd x)) v'" if "x \<in> set (w_entities w)" "fst x = eid" for x
  proof -
    have "map_of (w_entities w) eid = Some (snd x)"
      using that w by (intro map_of_is_SomeI) (auto simp: cars_sound_def)
    then show ?thesis using rec v' by (simp add: world_record_def)
  qed
  then show ?thesis
    using w by (auto simp: cars_sound_def set_entity_def on_key_def list_all_iff comp_def case_prod_unfold)
qed

lemma borrow_keeps_sound:
  assumes "\<And>v. world_record eid (cp_world st) = Inr (t, v) \<Longrightarrow> part_sound t v
      \<Longrightarrow> cars_sound (cp_world (final_state (k v) st))"
    and "cars_sound (cp_world st)"
  shows "cars_sound (cp_world (final_state (borrow eid t (cp_world st) k) st))"
  using assms part_of_record [OF assms(2)]
  by (auto simp: borrow_def world_ref_def split: sum.splits if_splits)

lemma put_part_sound:
  "cars_sound (cp_world st) \<Longrightarrow> world_record eid (cp_world st) = Inr (t, v) \<Longrightarrow> part_sound t v'
   \<Longrightarrow> cars_sound (cp_world (put_part eid v' st))"
  by (simp add: put_part_def cars_sound_set)

lemma part_sound_simps [simp]:
  "part_sound t (Car_V c) \<longleftrightarrow> t = CarType \<and> length (car_wheels c) = 4"
  "part_sound t (Engine_V e) \<longleftrightarrow> t = EngineType \<and> en_throttle e \<le> 100"
  "part_sound t (Wheel_V x) \<longleftrightarrow> t = WheelType \<and> (wh_health x = 0 \<longrightarrow> wh_pressure x = 0)"
  by (simp_all add: part_sound_def)

lemma part_sound_of:
  "part_sound CarType v \<Longrightarrow> length (car_wheels (car_of v)) = 4"
  "part_sound EngineType v \<Longrightarrow> en_throttle (engine_of v) \<le> 100"
  "part_sound WheelType v \<Longrightarrow> wh_health (wheel_of v) = 0 \<longrightarrow> wh_pressure (wheel_of v) = 0"
  by (cases v; simp add: car_types)+

text \<open>Every handler keeps the invariant, whether it returns or throws.\<close>

lemma accelerate_keeps_sound:
  assumes st: "cars_sound (cp_world st)"
  shows "cars_sound (cp_world (final_state (accelerate target d ev st) st))"
proof -
  have "cars_sound (cp_world (final_state (borrow target CarType (cp_world st) (\<lambda>c.
         let c' = (car_of c)\<lparr>car_speed := car_speed (car_of c) + scaled\<rparr>; st' = put_part target (Car_V c') st
         in Sink (Become st') # borrow (car_engine c') EngineType (cp_world st') (\<lambda>e.
              [Sink (Become (put_part (car_engine c') (Engine_V ((engine_of e)
                 \<lparr>en_temperature := en_temperature (engine_of e) + ucast (scaled div 10)\<rparr>)) st'))]))) st))" for scaled
  proof (rule borrow_keeps_sound [OF _ st])
    fix v
    assume v: "world_record target (cp_world st) = Inr (CarType, v)" "part_sound CarType v"
    let ?c = "(car_of v)\<lparr>car_speed := car_speed (car_of v) + scaled\<rparr>"
    have st': "cars_sound (cp_world (put_part target (Car_V ?c) st))"
      by (rule put_part_sound [OF st v(1)]) (use part_sound_of v(2) in simp)
    have "cars_sound (cp_world (final_state (borrow (car_engine ?c) EngineType (cp_world (put_part target (Car_V ?c) st))
        (\<lambda>e. [Sink (Become (put_part (car_engine ?c) (Engine_V ((engine_of e)
          \<lparr>en_temperature := en_temperature (engine_of e) + ucast (scaled div 10)\<rparr>)) (put_part target (Car_V ?c) st)))]))
        (put_part target (Car_V ?c) st)))"
      by (rule borrow_keeps_sound [OF _ st']) (auto intro!: put_part_sound [OF st'] dest: part_sound_of)
    then show "cars_sound (cp_world (final_state (let c' = ?c; st' = put_part target (Car_V c') st
         in Sink (Become st') # borrow (car_engine c') EngineType (cp_world st') (\<lambda>e.
              [Sink (Become (put_part (car_engine c') (Engine_V ((engine_of e)
                 \<lparr>en_temperature := en_temperature (engine_of e) + ucast (scaled div 10)\<rparr>)) st'))])) st))"
      by (simp add: Let_def)
  qed
  then show ?thesis using st by (simp add: accelerate_def look_def Let_def split: sum.split)
qed

lemma cars_keep_sound:
  assumes st: "cars_sound (cp_world st)"
  shows "cars_sound (cp_world (final_state (dispatch_to_handler car_dispatcher ev st) st))"
proof -
  note put = put_part_sound [OF st]
  have "cars_sound (cp_world (final_state (set_throttle target a ev st) st))" for target a
    using st unfolding set_throttle_def look_def
    by (auto simp: Let_def split: sum.split intro!: borrow_keeps_sound put dest: part_sound_of)
  moreover have "cars_sound (cp_world (final_state (brake target d ev st) st))" for target d
    unfolding brake_def Let_def
    by (rule borrow_keeps_sound [OF _ st]) (auto intro!: put dest: part_sound_of)
  moreover have "cars_sound (cp_world (final_state (puncture target a ev st) st))" for target a
    unfolding puncture_def Let_def by (rule borrow_keeps_sound [OF _ st]) (auto intro!: put)
  moreover have "cars_sound (cp_world (final_state (inflate target a ev st) st))" for target a
    unfolding inflate_def by (rule borrow_keeps_sound [OF _ st]) (auto intro!: put simp: st)
  ultimately show ?thesis
    using st accelerate_keeps_sound [OF st]
    by (simp add: car_dispatcher_def register_trivial_handler_def register_handler_def dispatch_to_handler_def
        trivial_handler_def car_kinds)
qed

end
