(* ===== verification/Entity_Worker.thy ===== *)
theory Entity_Worker
  imports Composite Migration
begin

text \<open>
  The entity migration demo (\<open>src/examples/entity_migration_demo.cpp\<close>): two workers and a
  directory, one entity that moves from the first worker to the second, and targeted events
  that follow it.
\<close>

definition KindTick :: u32 where "KindTick = 51001"
definition KindCommittedLog :: u32 where "KindCommittedLog = 51002"
definition ThingType :: u32 where "ThingType = 9001"
definition DirectoryId :: u32 where "DirectoryId = 100"
definition ThingId :: u64 where "ThingId = 0xC0FFEE"

lemmas worker_kinds = KindTick_def KindCommittedLog_def DefaultInstallKind_def

text \<open>The entity, a counter of its ticks.\<close>

type_synonym thing = u64

abbreviation thing_bytes :: "thing \<Rightarrow> bytes" where
  "thing_bytes \<equiv> le_bytes 8"

abbreviation thing_of_bytes :: "bytes \<Rightarrow> thing" where
  "thing_of_bytes \<equiv> field_at 0 8"

record committed_log =
  cl_entity :: u64
  cl_lp :: u32
  cl_ticks :: u64

definition committed_log_bytes :: "bytes \<Rightarrow> committed_log \<Rightarrow> bytes" where
  "committed_log_bytes pad l = le_bytes 8 (cl_entity l) @ le_bytes 4 (cl_lp l) @ pad @ le_bytes 8 (cl_ticks l)"

definition committed_log_of_bytes :: "bytes \<Rightarrow> committed_log" where
  "committed_log_of_bytes bs = \<lparr>cl_entity = field_at 0 8 bs, cl_lp = field_at 8 4 bs, cl_ticks = field_at 16 8 bs\<rparr>"

interpretation committed_log_layout: trivial_layout committed_log_bytes committed_log_of_bytes 24 4
proof
  fix pad :: bytes and x :: committed_log and rest
  assume pad: "length pad = 4"
  let ?e = "le_bytes 8 (cl_entity x)" and ?l = "le_bytes 4 (cl_lp x)" and ?t = "le_bytes 8 (cl_ticks x)"
  have "field_at 0 8 ([] @ ?e @ (?l @ pad @ ?t @ rest)) = cl_entity x"
    "field_at 8 4 (?e @ ?l @ (pad @ ?t @ rest)) = cl_lp x"
    "field_at 16 8 ((?e @ ?l @ pad) @ ?t @ rest) = cl_ticks x"
    by (rule field_at_here; simp add: pad)+
  then show "committed_log_of_bytes (committed_log_bytes pad x @ rest) = x"
    by (simp add: committed_log_of_bytes_def committed_log_bytes_def)
qed (simp add: committed_log_bytes_def)

subsection \<open>The worker\<close>

record worker =
  wk_id :: u32
  wk_entity :: u64
  wk_world :: "thing world"

text \<open>The error of \<open>type_of\<close> is caught.\<close>

definition world_has_entity :: "'v world \<Rightarrow> u64 \<Rightarrow> bool" where
  "world_has_entity w eid = (case world_type_of eid w of Inl _ \<Rightarrow> False | Inr _ \<Rightarrow> True)"

definition worker_install :: "worker \<Rightarrow> u64 \<Rightarrow> bytes \<Rightarrow> worker sink_call list" where
  "worker_install st entity state = do_part (\<lambda>w. st\<lparr>wk_world := w\<rparr>)
     (thn (if world_has_entity (wk_world st) entity then ret () else world_emplace entity ThingType 0)
       (deserialize_entity entity state)) (wk_world st)"

definition worker_policy :: "migration_inputs \<Rightarrow> u32 option" where
  "worker_policy i = (if mi_currentOwner i = 1 \<and> mi_localWork i = 2 then Some 2 else None)"

definition worker_tick :: "bytes \<Rightarrow> event \<Rightarrow> worker \<Rightarrow> worker ctx_call list" where
  "worker_tick pad ev st = borrow (wk_entity st) ThingType (wk_world st) (\<lambda>thing.
     let ticks = thing + 1;
         st' = st\<lparr>wk_world := set_entity (wk_entity st) ticks (wk_world st)\<rparr>;
         now = ts_time (ev_ts ev);
         inputs = \<lparr>mi_entity = wk_entity st, mi_currentOwner = wk_id st, mi_self = wk_id st, mi_now = ev_ts ev,
           mi_localWork = ticks, mi_remoteWork = 0\<rparr>;
         effectiveTs = TimeStamp (now + 2) 0
     in [Sink (Become st'),
         emit_committed_value (ev_ts ev) KindCommittedLog
           (committed_log_bytes pad \<lparr>cl_entity = wk_entity st, cl_lp = wk_id st, cl_ticks = ticks\<rparr>)]
        @ (case serialize_entity (wk_entity st) (wk_world st') of
             Inl e \<Rightarrow> [Sink (Fail e)]
           | Inr bs \<Rightarrow>
               continue (map Sink (snd (maybe_migrate effectiveTs (wk_id st) DirectoryId DefaultUpdateOwnerKind bs
                   inputs (Some worker_policy) 0))) st' (\<lambda>_.
               if now < 8
               then [Sink (send_targeted (TimeStamp (now + 1) 0) (wk_id st) (wk_entity st) KindTick
                       (le_bytes 4 (0 :: u32)) 0)]
               else [])))"

definition worker_on_event :: "bytes \<Rightarrow> event \<Rightarrow> worker \<Rightarrow> worker ctx_call list" where
  "worker_on_event pad ev st =
     (if p_kind (ev_payload ev) = DefaultInstallKind then
        (case decode_install ev of
           Inl e \<Rightarrow> [Sink (Fail e)]
         | Inr (entity, state) \<Rightarrow> if entity \<noteq> wk_entity st then [] else map Sink (worker_install st entity state))
      else if p_kind (ev_payload ev) \<noteq> KindTick
      then [Sink (Fail (Runtime_Error ''EntityWorkerLP: unexpected event kind''))]
      else (case require_payload 4 (field_at 0 4 :: bytes \<Rightarrow> u32) ev KindTick ''tick'' of
          Inl e \<Rightarrow> [Sink (Fail e)]
        | Inr _ \<Rightarrow> worker_tick pad ev st))"

definition worker_on_start :: "worker \<Rightarrow> worker sink_call list" where
  "worker_on_start st =
     (if wk_id st = 1
      then (case world_emplace (wk_entity st) ThingType 0 (wk_world st) of
          (Inl e, w) \<Rightarrow> [Become (st\<lparr>wk_world := w\<rparr>), Fail e]
        | (Inr _, w) \<Rightarrow> [Become (st\<lparr>wk_world := w\<rparr>),
            send_targeted (TimeStamp 1 0) (wk_id st) (wk_entity st) KindTick (le_bytes 4 (0 :: u32)) 0])
      else [])"

definition worker_save_state :: "worker \<Rightarrow> exn + bytes" where
  "worker_save_state st =
     (if \<not> world_has_entity (wk_world st) (wk_entity st) then Inr []
      else (case world_read (wk_entity st) ThingType (wk_world st) of
          Inl e \<Rightarrow> Inl e | Inr thing \<Rightarrow> Inr (thing_bytes thing)))"

definition worker_load_state :: "bytes \<Rightarrow> (worker, unit) eff" where
  "worker_load_state bs =
     (if bs = [] then ret ()
      else let t = (if length bs = 8 then thing_of_bytes bs else 0) in
        bnd get_st (\<lambda>st.
        on_part wk_world (\<lambda>w st. st\<lparr>wk_world := w\<rparr>)
          (if \<not> world_has_entity (wk_world st) (wk_entity st) then world_emplace (wk_entity st) ThingType t
           else deserialize_entity (wk_entity st) (thing_bytes t))))"

definition worker_registry :: "exn + thing registry" where
  "worker_registry = (case register_trivial ThingType 0 8 thing_bytes thing_of_bytes [] of
     (Inl e, _) \<Rightarrow> Inl e | (Inr _, reg) \<Rightarrow> Inr reg)"

definition worker_lp :: "bytes \<Rightarrow> u32 \<Rightarrow> u64 \<Rightarrow> exn + worker lp" where
  "worker_lp pad i entity = (case worker_registry of
     Inl e \<Rightarrow> Inl e
   | Inr reg \<Rightarrow> Inr ((default_lp i \<lparr>wk_id = i, wk_entity = entity, wk_world = \<lparr>w_registry = reg, w_entities = []\<rparr>\<rparr>)
       \<lparr>lp_on_start := worker_on_start, lp_on_event := worker_on_event pad,
        lp_save_state := worker_save_state, lp_load_state := worker_load_state\<rparr>))"

subsection \<open>The program\<close>

text \<open>What is printed.\<close>

definition worker_sink :: "u32 \<Rightarrow> u32 \<Rightarrow> timestamp \<Rightarrow> payload \<Rightarrow> (string, unit) eff" where
  "worker_sink rank lp ts p =
     (if p_kind p = KindCommittedLog \<and> length (p_bytes p) = 24 then
        let l = committed_log_of_bytes (p_bytes p) in
        upd (\<lambda>out. out @ ''t='' @ decimal (unat (ts_time ts)) @ '' entity='' @ decimal (unat (cl_entity l))
          @ '' lp='' @ decimal (unat (cl_lp l)) @ '' ticks='' @ decimal (unat (cl_ticks l)) @ [CHR 0x0A])
      else if p_kind p = DefaultMigrationLogKind then
        bnd (lift_result (decode_migration_log_payload p)) (\<lambda>r.
        upd (\<lambda>out. out @ ''t='' @ decimal (unat (ts_time ts)) @ '' MIGRATE entity='' @ decimal (unat (dm_entity r))
          @ '' '' @ decimal (unat (dm_oldOwner r)) @ ''->'' @ decimal (unat (dm_newOwner r))
          @ (if dm_sentInstall r \<noteq> 0 then '' (install)'' else []) @ [CHR 0x0A]))
      else ret ())"

type_synonym worker_world = "(inproc, string) example_world"

definition worker_config :: "worker_world config" where
  "worker_config = default_config\<lparr>c_rank := 0, c_directoryForEntity := Some (\<lambda>_. DirectoryId),
     c_committedSink := Some (\<lambda>rank lp ts p. on_sink (worker_sink rank lp ts p))\<rparr>"

definition worker_directory :: "bytes \<Rightarrow> directory_config" where
  "worker_directory pad =
     (make_default_directory_config pad DirectoryId 0xD1EC7001)\<lparr>dc_defaultOwner := Some (\<lambda>_ _. 1)\<rparr>"

definition worker_simulation ::
  "bytes \<Rightarrow> bytes \<Rightarrow> nat \<Rightarrow> nat \<Rightarrow> exn + (owner_history + worker, worker_world) sim" where
  "worker_simulation dpad pad fuel pollFuel =
     (case (directory_lp dpad (worker_directory dpad), worker_lp pad 1 ThingId, worker_lp pad 2 ThingId) of
        (Inr dir, Inr w1, Inr w2) \<Rightarrow>
          (case new_simulation worker_config (Some (wire_transport inproc_transport)) ([], []) of
             Inl e \<Rightarrow> Inl e
           | Inr s \<Rightarrow>
             (case thn (add_lp (Some (embed_lp Inl projl dir)))
                  (thn (add_lp (Some (embed_lp Inr projr w1)))
                  (thn (add_lp (Some (embed_lp Inr projr w2))) (run fuel pollFuel))) s of
                (Inl e, _) \<Rightarrow> Inl e | (Inr _, t) \<Rightarrow> Inr t))
      | (Inl e, _) \<Rightarrow> Inl e
      | (_, Inl e, _) \<Rightarrow> Inl e
      | (_, _, Inl e) \<Rightarrow> Inl e)"

subsection \<open>Rollback\<close>

text \<open>A world with the entity alone, as the workers' worlds are once it has been there.\<close>

definition holds_thing :: "thing \<Rightarrow> worker \<Rightarrow> bool" where
  "holds_thing t st \<longleftrightarrow> Inr (w_registry (wk_world st)) = worker_registry
     \<and> w_entities (wk_world st) = [(wk_entity st, ThingType, t)]"

lemma holds_registry:
  "holds_thing t st \<Longrightarrow> registry_get (w_registry (wk_world st)) ThingType
     = Inr (trivial_ops ThingType 0 8 thing_bytes thing_of_bytes)"
  by (simp add: holds_thing_def worker_registry_def register_trivial_def register_type_def trivial_ops_def
      registry_get_def throw_if_def ThingType_def)

lemma holds_set:
  assumes "holds_thing t st"
  shows "holds_thing t' (st\<lparr>wk_world := set_entity (wk_entity st) t' (wk_world st)\<rparr>)"
  using assms by (simp add: holds_thing_def set_entity_def on_key_def)

lemma worker_save: "holds_thing t st \<Longrightarrow> worker_save_state st = Inr (thing_bytes t)"
  by (simp add: worker_save_state_def world_has_entity_def world_type_of_def world_read_def world_record_def
      holds_thing_def)

lemma thing_round: "thing_of_bytes (thing_bytes t) = t"
proof -
  have "field_at 0 8 ([] @ thing_bytes t @ []) = t" by (rule field_at_here; simp)
  then show ?thesis by simp
qed

lemma thing_bytes_nonempty: "thing_bytes t \<noteq> []"
proof
  assume "thing_bytes t = []"
  then have "length (thing_bytes t) = 0" by (simp only: list.size)
  then show False by simp
qed

lemma worker_load:
  assumes "holds_thing t' st"
  shows "worker_load_state (thing_bytes t) st
    = (Inr (), st\<lparr>wk_world := set_entity (wk_entity st) t (wk_world st)\<rparr>)"
  using assms thing_round holds_registry [OF assms] thing_bytes_nonempty [of t]
  by (simp add: worker_load_state_def world_has_entity_def world_type_of_def world_record_def holds_thing_def
      on_part_def deserialize_entity_def trivial_ops_def)

lemma worker_tick_calls:
  assumes "holds_thing t st"
  shows "write_before_mutation (worker_tick pad ev st)"
    and "final_state (worker_tick pad ev st) st = st\<lparr>wk_world := set_entity (wk_entity st) (t + 1) (wk_world st)\<rparr>"
    and "sends_of (worker_tick pad ev st) =
      (if wk_id st = 1 \<and> t + 1 = 2
       then [make_event_payload (TimeStamp (ts_time (ev_ts ev) + 2) 0) 1 DirectoryId
         \<lparr>p_kind = DefaultUpdateOwnerKind, p_bytes = update_owner_bytes \<lparr>uo_entity = wk_entity st, uo_newOwner = 2,
           uo_stateBytes = 8\<rparr> @ thing_bytes (t + 1)\<rparr> (wk_entity st) 0] else [])
      @ (if ts_time (ev_ts ev) < 8
         then [make_targeted_event (TimeStamp (ts_time (ev_ts ev) + 1) 0) (wk_id st) (wk_entity st) KindTick
           (le_bytes 4 (0 :: u32)) 0] else [])"
proof -
  let ?st = "st\<lparr>wk_world := set_entity (wk_entity st) (t + 1) (wk_world st)\<rparr>"
  have ref: "world_ref (wk_entity st) ThingType (wk_world st) = Inr t"
    using assms by (simp add: world_ref_def world_record_def holds_thing_def)
  have bs: "serialize_entity (wk_entity st) (wk_world ?st) = Inr (thing_bytes (t + 1))"
    using holds_set [OF assms, of "t + 1"] holds_registry [OF holds_set [OF assms]]
    by (simp add: serialize_entity_def world_record_def holds_thing_def trivial_ops_def)
  have max: "unat (- 1 :: u32) = 2 ^ 32 - 1" by (simp add: unsigned_minus_1_eq_mask mask_eq_exp_minus_1)
  note unfold = worker_tick_def borrow_def ref bs Let_def maybe_migrate_def worker_policy_def send_update_owner_def
    make_update_owner_payload_def make_default_update_owner_payload_def max emit_committed_value_def
    send_targeted_def make_event_payload_def
  show "write_before_mutation (worker_tick pad ev st)" "final_state (worker_tick pad ev st) st = ?st"
    using bs by (simp_all add: unfold)
  show "sends_of (worker_tick pad ev st) =
      (if wk_id st = 1 \<and> t + 1 = 2
       then [make_event_payload (TimeStamp (ts_time (ev_ts ev) + 2) 0) 1 DirectoryId
         \<lparr>p_kind = DefaultUpdateOwnerKind, p_bytes = update_owner_bytes \<lparr>uo_entity = wk_entity st, uo_newOwner = 2,
           uo_stateBytes = 8\<rparr> @ thing_bytes (t + 1)\<rparr> (wk_entity st) 0] else [])
      @ (if ts_time (ev_ts ev) < 8
         then [make_targeted_event (TimeStamp (ts_time (ev_ts ev) + 1) 0) (wk_id st) (wk_entity st) KindTick
           (le_bytes 4 (0 :: u32)) 0] else [])"
    using bs by (simp add: unfold)
qed

text \<open>A tick is undone by a rollback.\<close>

lemma worker_tick_reversible:
  assumes lp: "worker_lp pad i entity = Inr lp" and st: "holds_thing t st" and "p_kind (ev_payload ev) = KindTick"
  shows "reversible lp st (lp_on_event lp ev st)"
proof (rule reversible_by_snapshot)
  have lp': "lp_on_event lp = worker_on_event pad" "lp_save_state lp = worker_save_state"
    "lp_load_state lp = worker_load_state" "lp_wide lp"
    using lp by (auto simp: worker_lp_def lp_wide_def default_lp_def split: sum.splits)
  show "lp_wide lp" by (rule lp')
  show "write_before_mutation (lp_on_event lp ev st)"
    using assms(3) worker_tick_calls(1) [OF st]
    by (simp add: lp' worker_on_event_def worker_kinds split: sum.split)
  fix bs
  assume "lp_save_state lp st = Inr bs"
  then have bs: "bs = thing_bytes t" using worker_save [OF st] by (simp add: lp')
  have restored: "st\<lparr>wk_world := set_entity (wk_entity st) t (set_entity (wk_entity st) t' (wk_world st))\<rparr> = st" for t'
    using st by (cases st) (simp add: holds_thing_def set_entity_def on_key_def)
  have "set_entity (wk_entity st) t (wk_world st) = wk_world st"
    using st by (simp add: holds_thing_def set_entity_def on_key_def)
  with worker_load [OF st] worker_load [OF holds_set [OF st]] assms(3) restored
  show "lp_load_state lp bs (final_state (lp_on_event lp ev st) st) = (Inr (), st)"
    by (simp add: lp' bs worker_on_event_def worker_tick_calls(2) [OF st] worker_kinds split: sum.split)
qed

text \<open>The installation of the entity is not: the handler does not request the write.\<close>

lemma worker_install_not_reversible:
  assumes lp: "worker_lp pad i entity = Inr lp" and st: "holds_thing t st" and "t' \<noteq> t"
    and ev: "decode_install ev = Inr (wk_entity st, thing_bytes t')"
  shows "\<not> reversible lp st (lp_on_event lp ev st)"
proof -
  have kind: "p_kind (ev_payload ev) = DefaultInstallKind"
    using ev by (cases "p_kind (ev_payload ev) = DefaultInstallKind") (simp_all add: decode_install_def Let_def)
  have lp': "lp_on_event lp = worker_on_event pad"
    using lp by (auto simp: worker_lp_def default_lp_def split: sum.splits)
  let ?st = "st\<lparr>wk_world := set_entity (wk_entity st) t' (wk_world st)\<rparr>"
  have "worker_install st (wk_entity st) (thing_bytes t') = [Become ?st]"
    using st holds_registry [OF st] thing_round
    by (simp add: worker_install_def do_part_def world_has_entity_def world_type_of_def world_record_def
        holds_thing_def deserialize_entity_def trivial_ops_def)
  then have calls: "lp_on_event lp ev st = [Sink (Become ?st)]"
    using ev kind by (simp add: lp' worker_on_event_def)
  have "?st \<noteq> st"
    using st assms(3) by (cases st) (auto simp: holds_thing_def set_entity_def on_key_def dest: arg_cong [of _ _ w_entities])
  then show ?thesis unfolding calls by (intro not_reversible_unrequested) auto
qed

end
