(* ===== verification/Radar.thy ===== *)
theory Radar
  imports Composite Aoi
begin

text \<open>
  The radar demo (\<open>src/examples/radar_explosion_demo.cpp\<close>): two aircraft that publish their
  positions to an area-of-interest service, and a driver that asks it who is seen by the
  radar and who is hit by the explosion. Doubles are as in \<open>Aoi\<close>; literals are written as
  their representations.
\<close>

definition Aoi_Update :: u32 where "Aoi_Update = 7001"
definition Aoi_Query :: u32 where "Aoi_Query = 7002"
definition Aoi_Result :: u32 where "Aoi_Result = 7003"
definition Driver_Tick :: u32 where "Driver_Tick = 7101"
definition Aircraft_Move :: u32 where "Aircraft_Move = 7201"
definition Radar_Ping :: u32 where "Radar_Ping = 7301"
definition Explosion_Detonate :: u32 where "Explosion_Detonate = 7401"
definition Radar_Contacts :: u32 where "Radar_Contacts = 7501"
definition Explosion_Affect :: u32 where "Explosion_Affect = 7601"

lemmas radar_kinds = Aoi_Update_def Aoi_Query_def Aoi_Result_def Driver_Tick_def Aircraft_Move_def Radar_Ping_def
  Explosion_Detonate_def Radar_Contacts_def Explosion_Affect_def

text \<open>The move arguments are three doubles, as a \<open>vec3\<close>. The others end in padding.\<close>

record request_count =
  rc_requestId :: u64
  rc_count :: u32

definition request_count_bytes :: "bytes \<Rightarrow> request_count \<Rightarrow> bytes" where
  "request_count_bytes pad a = le_bytes 8 (rc_requestId a) @ le_bytes 4 (rc_count a) @ pad"

definition radar_id :: "u32 \<Rightarrow> u32 \<Rightarrow> u64" where
  "radar_id owner local = push_bit 32 (ucast owner) OR ucast local"

definition radar_client :: "u32 \<Rightarrow> aoi_client" where
  "radar_client aoi = \<lparr>cl_aoiLp = aoi, cl_updateKind = Aoi_Update, cl_queryKind = Aoi_Query\<rparr>"

text \<open>Beyond what the service uses: the conversion of a unit number, and the cosine of the program.\<close>

record radar_fp = fp +
  rf_of_unit :: "rat \<Rightarrow> double"
  rf_cos60 :: double

subsection \<open>The aircraft\<close>

record aircraft =
  ai_pos :: vec3
  ai_radarContactCount :: u64
  ai_explosionAffectedCount :: u64

definition aircraft_bytes :: "aircraft \<Rightarrow> bytes" where
  "aircraft_bytes a = vec3_bytes (ai_pos a) @ le_bytes 8 (ai_radarContactCount a)
     @ le_bytes 8 (ai_explosionAffectedCount a)"

definition aircraft_of_bytes :: "bytes \<Rightarrow> aircraft" where
  "aircraft_of_bytes bs = \<lparr>ai_pos = vec3_at 0 bs, ai_radarContactCount = field_at 24 8 bs,
     ai_explosionAffectedCount = field_at 32 8 bs\<rparr>"

definition aircraft_entity :: "u32 \<Rightarrow> u64" where
  "aircraft_entity i = radar_id i 1"

definition kStateEntity :: u64 where "kStateEntity = 0xACACAC01"

definition aircraft_move :: "radar_fp \<Rightarrow> u32 \<Rightarrow> u32 \<Rightarrow> u64 \<Rightarrow> vec3 \<Rightarrow> event \<Rightarrow> aircraft \<Rightarrow> aircraft ctx_call list" where
  "aircraft_move fp i aoi target d ev ac =
     (let pos = \<lparr>v_x = fp_add fp (v_x (ai_pos ac)) (v_x d), v_y = fp_add fp (v_y (ai_pos ac)) (v_y d),
          v_z = fp_add fp (v_z (ai_pos ac)) (v_z d)\<rparr>
      in [Request_Write kStateEntity, Sink (Become (ac\<lparr>ai_pos := pos\<rparr>)),
          Sink (client_send_update (radar_client aoi) (ev_ts ev) i (aircraft_entity i) pos)])"

definition radar_contact :: "event \<Rightarrow> aircraft \<Rightarrow> aircraft ctx_call list" where
  "radar_contact ev ac = [Request_Write kStateEntity,
     Sink (Become (ac\<lparr>ai_radarContactCount := ai_radarContactCount ac + 1\<rparr>))]"

definition explosion_affect :: "event \<Rightarrow> aircraft \<Rightarrow> aircraft ctx_call list" where
  "explosion_affect ev ac = [Request_Write kStateEntity,
     Sink (Become (ac\<lparr>ai_explosionAffectedCount := ai_explosionAffectedCount ac + 1\<rparr>))]"

definition aircraft_dispatcher :: "radar_fp \<Rightarrow> u32 \<Rightarrow> u32 \<Rightarrow> aircraft dispatcher" where
  "aircraft_dispatcher fp i aoi = snd
     (thn (register_trivial_handler Aircraft_Move 24 (vec3_at 0) (aircraft_move fp i aoi))
     (thn (register_handler Radar_Contacts (Some radar_contact))
     (thn (register_handler Explosion_Affect (Some explosion_affect))
       (register_handler Driver_Tick (Some (\<lambda>_ _. []))))) [])"

definition aircraft_load_state :: "bytes \<Rightarrow> (aircraft, unit) eff" where
  "aircraft_load_state bs =
     (if length bs \<noteq> 40 then raise (Runtime_Error ''AircraftLP: bad state'') else upd (\<lambda>_. aircraft_of_bytes bs))"

definition aircraft_lp :: "radar_fp \<Rightarrow> u32 \<Rightarrow> u32 \<Rightarrow> aircraft lp" where
  "aircraft_lp fp i aoi =
     (default_lp i \<lparr>ai_pos = (if i = 1 then \<lparr>v_x = 0, v_y = 0, v_z = 0\<rparr> else \<lparr>v_x = 0x4092C00000000000, v_y = 0, v_z = 0\<rparr>),
        ai_radarContactCount = 0, ai_explosionAffectedCount = 0\<rparr>)
     \<lparr>lp_on_event := dispatch_to_handler (aircraft_dispatcher fp i aoi),
      lp_save_state := (\<lambda>ac. Inr (aircraft_bytes ac)),
      lp_load_state := aircraft_load_state\<rparr>"

subsection \<open>The driver\<close>

record driver_config =
  dr_id :: u32
  dr_aoi :: u32
  dr_shooterLp :: u32
  dr_targetLp :: u32
  dr_seed :: u64

definition driver_event :: "u32 \<Rightarrow> u32 \<Rightarrow> timestamp \<Rightarrow> u32 \<Rightarrow> bytes \<Rightarrow> event" where
  "driver_event src dst ts kind bs =
     empty_event\<lparr>ev_ts := ts, ev_src := src, ev_dst := dst, ev_payload := \<lparr>p_kind = kind, p_bytes = bs\<rparr>\<rparr>"

definition send_move :: "driver_config \<Rightarrow> u64 \<Rightarrow> double \<Rightarrow> unit sink_call" where
  "send_move c t dx = Send (driver_event (dr_id c) (dr_targetLp c) (TimeStamp t 0) Aircraft_Move
     (vec3_bytes \<lparr>v_x = dx, v_y = 0, v_z = 0\<rparr>))"

definition driver_on_start :: "driver_config \<Rightarrow> unit \<Rightarrow> unit sink_call list" where
  "driver_on_start c st =
     map (\<lambda>t. Send (driver_event (dr_id c) (dr_id c) (TimeStamp (word_of_nat t) 0) Driver_Tick [])) [1..<21]
     @ [send_move c 5 0xC079000000000000, send_move c 10 0xC069000000000000, send_move c 12 0xC069000000000000,
        Send (driver_event (dr_id c) (dr_id c) (TimeStamp 11 0) Radar_Ping []),
        Send (driver_event (dr_id c) (dr_id c) (TimeStamp 13 0) Explosion_Detonate [])]"

text \<open>Bits 62 and 63 of a request say what asked, the others are the event's uid.\<close>

definition request_id :: "u64 \<Rightarrow> event \<Rightarrow> u64" where
  "request_id tag ev = push_bit 62 tag OR (ev_uid ev AND (push_bit 62 1 - 1))"

definition blank_query :: query_args where
  "blank_query = \<lparr>qa_requestId = 0, qa_self = 0, qa_shape = 1, qa_origin = \<lparr>v_x = 0, v_y = 0, v_z = 0\<rparr>,
     qa_radius = 0, qa_direction = \<lparr>v_x = 0, v_y = 0, v_z = 0\<rparr>, qa_range = 0, qa_cosHalfAngle = 0x3FF0000000000000\<rparr>"

definition radar_query :: "radar_fp \<Rightarrow> driver_config \<Rightarrow> event \<Rightarrow> query_args" where
  "radar_query fp c ev = blank_query\<lparr>qa_requestId := request_id 1 ev, qa_self := radar_id (dr_shooterLp c) 1,
     qa_shape := 2, qa_origin := \<lparr>v_x = 0, v_y = 0, v_z = 0\<rparr>,
     qa_direction := \<lparr>v_x = 0x3FF0000000000000, v_y = 0, v_z = 0\<rparr>, qa_range := 0x4097700000000000,
     qa_cosHalfAngle := rf_cos60 fp\<rparr>"

definition explosion_query :: "radar_fp \<Rightarrow> driver_config \<Rightarrow> event \<Rightarrow> query_args" where
  "explosion_query fp c ev =
     (let u = rf_of_unit fp (rng_unit_double_src (dr_seed c) (dr_id c) 1 (ev_src ev) (ev_uid ev) 0);
          jitter = fp_mul fp (fp_sub fp (fp_mul fp u 0x4000000000000000) 0x3FF0000000000000) 0x4024000000000000
      in blank_query\<lparr>qa_requestId := request_id 2 ev, qa_self := 0, qa_shape := 1,
        qa_origin := \<lparr>v_x = fp_add fp 0x4069000000000000 jitter, v_y = 0, v_z = 0\<rparr>,
        qa_radius := 0x4082C00000000000\<rparr>)"

definition driver_result :: "bytes \<Rightarrow> driver_config \<Rightarrow> event \<Rightarrow> aoi_result \<Rightarrow> unit ctx_call list" where
  "driver_result pad c ev res =
     (let tag = drop_bit 62 (ar_requestId res);
          args = request_count_bytes pad \<lparr>rc_requestId = ar_requestId res, rc_count = 1\<rparr>
      in if tag = 1
         then map (\<lambda>e. Sink (Send (driver_event (dr_id c) (dr_shooterLp c) (ev_ts ev) Radar_Contacts args))) (ar_entities res)
         else if tag = 2
         then map (\<lambda>e. Sink (Send (driver_event (dr_id c) (ucast (drop_bit 32 e)) (ev_ts ev) Explosion_Affect args)))
           (ar_entities res)
         else [])"

definition driver_on_event :: "radar_fp \<Rightarrow> bytes \<Rightarrow> bytes \<Rightarrow> driver_config \<Rightarrow> event \<Rightarrow> unit \<Rightarrow> unit ctx_call list" where
  "driver_on_event fp qpad pad c ev st =
     (let kind = p_kind (ev_payload ev) in
      if kind = Driver_Tick then []
      else if kind = Radar_Ping
      then [Sink (client_send_query qpad (radar_client (dr_aoi c)) (ev_ts ev) (dr_id c) (radar_query fp c ev))]
      else if kind = Explosion_Detonate
      then [Sink (client_send_query qpad (radar_client (dr_aoi c)) (ev_ts ev) (dr_id c) (explosion_query fp c ev))]
      else if kind = Aoi_Result
      then (case client_decode_result (ev_payload ev) of
          Inl e \<Rightarrow> [Sink (Fail e)] | Inr res \<Rightarrow> driver_result pad c ev res)
      else [])"

definition driver_lp :: "radar_fp \<Rightarrow> bytes \<Rightarrow> bytes \<Rightarrow> driver_config \<Rightarrow> unit lp" where
  "driver_lp fp qpad pad c = (default_lp (dr_id c) ())
     \<lparr>lp_on_start := driver_on_start c, lp_on_event := driver_on_event fp qpad pad c,
      lp_save_state := (\<lambda>_. Inr []), lp_load_state := (\<lambda>_. ret ())\<rparr>"

subsection \<open>The program\<close>

type_synonym radar_state = "positions + aircraft + unit"

definition radar_aoi :: aoi_config where
  "radar_aoi = \<lparr>ac_id = 10, ac_stateEntityId = 0xA01A01, ac_updateKind = Aoi_Update, ac_queryKind = Aoi_Query,
     ac_resultKind = Aoi_Result, ac_excludeSelf = True\<rparr>"

definition radar_driver :: driver_config where
  "radar_driver = \<lparr>dr_id = 3, dr_aoi = 10, dr_shooterLp = 1, dr_targetLp = 2, dr_seed = 1\<rparr>"

definition aircraft_member :: "radar_fp \<Rightarrow> u32 \<Rightarrow> radar_state lp" where
  "aircraft_member fp i = embed_lp (Inr \<circ> Inl) (projl \<circ> projr) (aircraft_lp fp i 10)"

definition first_position :: "radar_fp \<Rightarrow> u32 \<Rightarrow> ((radar_state, inproc) sim, unit) eff" where
  "first_position fp i = (case client_send_update (radar_client 10) (TimeStamp 0 0) i (aircraft_entity i)
       (ai_pos (lp_state (aircraft_lp fp i 10))) :: unit sink_call of
     Send e \<Rightarrow> send e | _ \<Rightarrow> ret ())"

definition radar_simulation ::
  "radar_fp \<Rightarrow> bytes \<Rightarrow> bytes \<Rightarrow> bytes \<Rightarrow> nat \<Rightarrow> nat \<Rightarrow> exn + (radar_state, inproc) sim" where
  "radar_simulation fp rpad qpad pad fuel pollFuel =
     (case aoi_lp (fp.truncate fp) rpad radar_aoi of
        Inl e \<Rightarrow> Inl e
      | Inr aoi \<Rightarrow>
          (case new_simulation (default_config\<lparr>c_rank := 0, c_seed := 1\<rparr>) (Some inproc_transport) [] of
             Inl e \<Rightarrow> Inl e
           | Inr s \<Rightarrow>
             (case thn (add_lp (Some (embed_lp Inl projl aoi)))
                  (thn (add_lp (Some (aircraft_member fp 1)))
                  (thn (add_lp (Some (aircraft_member fp 2)))
                  (thn (add_lp (Some (embed_lp (Inr \<circ> Inr) (projr \<circ> projr) (driver_lp fp qpad pad radar_driver))))
                  (thn (first_position fp 1) (thn (first_position fp 2) (run fuel pollFuel)))))) s of
                (Inl e, _) \<Rightarrow> Inl e | (Inr _, t) \<Rightarrow> Inr t)))"

definition aircraft_at :: "(radar_state, 'w) sim \<Rightarrow> u32 \<Rightarrow> aircraft" where
  "aircraft_at s i = projl (projr (lp_state (cx_lp (the (map_of (m_lps s) i)))))"

text \<open>The assertions of \<open>main\<close> and what it prints.\<close>

definition radar_asserts :: "aircraft \<Rightarrow> aircraft \<Rightarrow> bool" where
  "radar_asserts shooter target \<longleftrightarrow> ai_radarContactCount shooter \<ge> 1
     \<and> ai_explosionAffectedCount shooter + ai_explosionAffectedCount target \<ge> 1"

definition radar_report :: "aircraft \<Rightarrow> aircraft \<Rightarrow> string" where
  "radar_report shooter target =
     ''radar_explosion_demo ok'' @ [CHR 0x0A]
     @ ''shooter contacts='' @ decimal (unat (ai_radarContactCount shooter))
     @ '' explosionHits='' @ decimal (unat (ai_explosionAffectedCount shooter)) @ [CHR 0x0A]
     @ ''target explosionHits='' @ decimal (unat (ai_explosionAffectedCount target)) @ [CHR 0x0A]"

subsection \<open>Snapshots of the aircraft\<close>

interpretation aircraft_layout: trivial_layout "\<lambda>_. aircraft_bytes" aircraft_of_bytes 40 0
proof
  fix x :: aircraft and rest
  let ?p = "vec3_bytes (ai_pos x)" and ?r = "le_bytes 8 (ai_radarContactCount x)"
  let ?e = "le_bytes 8 (ai_explosionAffectedCount x)"
  have "vec3_at 0 ([] @ ?p @ (?r @ ?e @ rest)) = ai_pos x" by (rule vec3_at_here) simp
  moreover have "field_at 24 8 (?p @ ?r @ (?e @ rest)) = ai_radarContactCount x"
    "field_at 32 8 ((?p @ ?r) @ ?e @ rest) = ai_explosionAffectedCount x"
    by (rule field_at_here; simp)+
  ultimately show "aircraft_of_bytes (aircraft_bytes x @ rest) = x"
    by (simp add: aircraft_of_bytes_def aircraft_bytes_def)
qed (simp add: aircraft_bytes_def)

interpretation aircraft_snapshots: snapshot_lp "\<lambda>ac. Inr (aircraft_bytes ac)" aircraft_load_state "\<lambda>_. True"
  using aircraft_layout.put_length [of "[]"] aircraft_layout.get_put_exact [of "[]"]
  by unfold_locales (auto simp: aircraft_load_state_def)

lemma aircraft_handlers [simp]:
  "dispatch_to_handler (aircraft_dispatcher fp i aoi) ev ac =
    (let kind = p_kind (ev_payload ev) in
     if kind = Aircraft_Move then trivial_handler 24 (vec3_at 0) (aircraft_move fp i aoi) ev ac
     else if kind = Radar_Contacts then radar_contact ev ac
     else if kind = Explosion_Affect then explosion_affect ev ac
     else if kind = Driver_Tick then []
     else [Sink (Fail (Runtime_Error ''dispatch: unknown eventTypeId''))])"
  by (simp add: aircraft_dispatcher_def register_trivial_handler_def register_handler_def dispatch_to_handler_def
      radar_kinds)

lemma aircraft_reversible: "reversible (aircraft_lp fp i aoi) ac (lp_on_event (aircraft_lp fp i aoi) ev ac)"
  by (rule aircraft_snapshots.reversible_lp_wide)
    (auto simp: aircraft_lp_def lp_wide_def default_lp_def Let_def trivial_handler_def aircraft_move_def radar_contact_def
      explosion_affect_def)

subsection \<open>Asking and being told\<close>

lemma request_tag:
  "drop_bit 62 (request_id 1 ev) = 1" "drop_bit 62 (request_id 2 ev) = 2"
proof -
  have low: "drop_bit 62 (x AND (push_bit 62 1 - 1)) = 0" for x :: u64
    by (rule bit_word_eqI) (auto simp: bit_simps push_bit_eq_mult mask_eq_exp_minus_1 [symmetric])
  show "drop_bit 62 (request_id 1 ev) = 1" "drop_bit 62 (request_id 2 ev) = 2"
    using low [of "ev_uid ev"] by (simp_all add: request_id_def drop_bit_or)
qed

text \<open>
  A ping reports to the shooter once for every aircraft but itself in the cone; a detonation
  tells every process that owns an entity in the sphere.
\<close>

lemma driver_told:
  assumes pads: "length rpad = 4" "length qpad = 4" and m: "ordered_keys m" "length m < 2 ^ 32"
    and ev: "p_kind (ev_payload ev) = kind" and k: "kind = Radar_Ping \<or> kind = Explosion_Detonate"
  shows "\<exists>q reply es. driver_on_event fp qpad pad c ev () = [Sink (Send q)] \<and> ev_ts q = ev_ts ev
    \<and> aoi_on_event (fp.truncate fp) rpad radar_aoi q m = [Sink (Send reply)] \<and> ev_ts reply = ev_ts ev
    \<and> ev_dst reply = dr_id c \<and> distinct es
    \<and> (if kind = Radar_Ping
        then (\<forall>e. e \<in> set es \<longleftrightarrow> (\<exists>pos. map_of m e = Some pos \<and> \<not> is_self radar_aoi (radar_query fp c ev) e
            \<and> in_cone (fp.truncate fp) (radar_query fp c ev) pos))
          \<and> map ev_dst (sends_of (driver_on_event fp qpad pad c reply ())) = replicate (length es) (dr_shooterLp c)
        else (\<forall>e. e \<in> set es \<longleftrightarrow> (\<exists>pos. map_of m e = Some pos \<and> in_sphere (fp.truncate fp) (explosion_query fp c ev) pos))
          \<and> map ev_dst (sends_of (driver_on_event fp qpad pad c reply ())) = map (\<lambda>e. ucast (drop_bit 32 e)) es)"
proof -
  have sends: "sends_of (map (\<lambda>e. Sink (Send (f e))) xs :: unit ctx_call list) = map f xs" for f and xs :: "u64 list"
    by (induction xs) simp_all
  let ?q = "if kind = Radar_Ping then radar_query fp c ev else explosion_query fp c ev"
  let ?in = "if kind = Radar_Ping then in_cone (fp.truncate fp) ?q else in_sphere (fp.truncate fp) ?q"
  obtain q where q: "client_send_query qpad (radar_client (dr_aoi c)) (ev_ts ev) (dr_id c) ?q = (Send q :: unit sink_call)"
    by (simp add: client_send_query_def)
  have shape: "aoi_query (fp.truncate fp) radar_aoi ?q m = Inr (aoi_hits radar_aoi ?q ?in m)"
    by (simp add: aoi_query_def radar_query_def explosion_query_def Let_def)
  obtain reply es where answer: "aoi_on_event (fp.truncate fp) rpad radar_aoi q m = [Sink (Send reply)]"
    "ev_dst reply = dr_id c" "ev_ts reply = ev_ts ev" "p_kind (ev_payload reply) = Aoi_Result"
    "client_decode_result (ev_payload reply) = Inr \<lparr>ar_requestId = qa_requestId ?q, ar_entities = es\<rparr>" "distinct es"
    "\<forall>e. e \<in> set es \<longleftrightarrow> (\<exists>pos. map_of m e = Some pos \<and> \<not> is_self radar_aoi ?q e \<and> ?in pos)"
    using query_answered_by [OF q pads(2,1) _ _ m shape] by (auto simp: radar_client_def radar_aoi_def radar_kinds)
  have asked: "driver_on_event fp qpad pad c ev () = [Sink (Send q)]" and "ev_ts q = ev_ts ev"
    using q ev k by (auto simp: driver_on_event_def radar_kinds client_send_query_def client_event_def)
  moreover have "drop_bit 62 (qa_requestId ?q) = (if kind = Radar_Ping then 1 else 2)"
    using request_tag by (simp add: radar_query_def explosion_query_def Let_def)
  then have told: "driver_on_event fp qpad pad c reply () =
      (if kind = Radar_Ping
       then map (\<lambda>e. Sink (Send (driver_event (dr_id c) (dr_shooterLp c) (ev_ts reply) Radar_Contacts
         (request_count_bytes pad \<lparr>rc_requestId = qa_requestId ?q, rc_count = 1\<rparr>)))) es
       else map (\<lambda>e. Sink (Send (driver_event (dr_id c) (ucast (drop_bit 32 e)) (ev_ts reply) Explosion_Affect
         (request_count_bytes pad \<lparr>rc_requestId = qa_requestId ?q, rc_count = 1\<rparr>)))) es)"
    using answer(4,5) by (simp add: driver_on_event_def driver_result_def radar_kinds Let_def)
  have none: "\<not> is_self radar_aoi (explosion_query fp c ev) e" for e
    by (simp add: is_self_def explosion_query_def Let_def)
  show ?thesis
    by (rule exI [of _ q], rule exI [of _ reply], rule exI [of _ es])
      (use asked \<open>ev_ts q = ev_ts ev\<close> answer none in
        \<open>simp add: told sends comp_def driver_event_def\<close>, simp add: map_replicate_const)
qed

end
