(* ===== verification/Missiles.thy ===== *)
theory Missiles
  imports Composite Aoi
begin

text \<open>
  The missile demo (\<open>src/examples/airplanes_missile_aoi_demo.cpp\<close>): regions with planes that
  fly, publish their positions to an area-of-interest service, ask it for targets and shoot
  at planes of other regions, on one rank or several. Doubles are as in \<open>Aoi\<close>; literals are
  written as their representations.
\<close>

definition Aoi_Update :: u32 where "Aoi_Update = 72001"
definition Aoi_Query :: u32 where "Aoi_Query = 72002"
definition Aoi_Result :: u32 where "Aoi_Result = 72003"
definition Region_Tick :: u32 where "Region_Tick = 72101"
definition Missile_Hit :: u32 where "Missile_Hit = 72201"
definition Commit_Hit :: u32 where "Commit_Hit = 72301"
definition kPlaneType :: u32 where "kPlaneType = 1"
definition kReqTagRadar :: u8 where "kReqTagRadar = 1"

lemmas missile_kinds = Aoi_Update_def Aoi_Query_def Aoi_Result_def Region_Tick_def Missile_Hit_def Commit_Hit_def

text \<open>What the program uses of the platform's arithmetic beyond the service.\<close>

record missile_fp = fp +
  mf_neg :: "double \<Rightarrow> double"
  mf_cos :: "double \<Rightarrow> double"
  mf_sin :: "double \<Rightarrow> double"
  mf_of_unit :: "rat \<Rightarrow> double"
  mf_of_u32 :: "u32 \<Rightarrow> double"
  mf_stod :: "string \<Rightarrow> (double \<times> nat) option"

subsection \<open>Parameters\<close>

record missile_params =
  mp_regions :: u32
  mp_planesPerRegion :: u32
  mp_endTime :: u64
  mp_regionSize :: double
  mp_speed :: double
  mp_detectRadius :: double
  mp_queryEvery :: u32
  mp_damage :: u32
  mp_seed :: u64
  mp_verify :: bool
  mp_hasExpected :: bool
  mp_expectedHash :: u64

definition missile_defaults :: missile_params where
  "missile_defaults = \<lparr>mp_regions = 8, mp_planesPerRegion = 64, mp_endTime = 400,
     mp_regionSize = 0x408F400000000000, mp_speed = 0x4028000000000000, mp_detectRadius = 0x4084500000000000,
     mp_queryEvery = 5, mp_damage = 1, mp_seed = 1, mp_verify = False, mp_hasExpected = False, mp_expectedHash = 0\<rparr>"

definition missile_double :: "missile_fp \<Rightarrow> string \<Rightarrow> double option" where
  "missile_double fp s = (case mf_stod fp s of
     None \<Rightarrow> None | Some (v, idx) \<Rightarrow> if idx = length s then Some v else None)"

definition missile_option :: "missile_fp \<Rightarrow> string \<Rightarrow> (string \<Rightarrow> missile_params \<Rightarrow> missile_params option) option" where
  "missile_option fp a =
     (if a = ''--regions'' then Some (\<lambda>s p. map_option (\<lambda>v. p\<lparr>mp_regions := v\<rparr>) (parse_u32 s))
      else if a = ''--planes-per-region''
      then Some (\<lambda>s p. map_option (\<lambda>v. p\<lparr>mp_planesPerRegion := v\<rparr>) (parse_u32 s))
      else if a = ''--end'' then Some (\<lambda>s p. map_option (\<lambda>v. p\<lparr>mp_endTime := v\<rparr>) (parse_u64 s))
      else if a = ''--seed'' then Some (\<lambda>s p. map_option (\<lambda>v. p\<lparr>mp_seed := v\<rparr>) (parse_u64 s))
      else if a = ''--region-size'' then Some (\<lambda>s p. map_option (\<lambda>v. p\<lparr>mp_regionSize := v\<rparr>) (missile_double fp s))
      else if a = ''--speed'' then Some (\<lambda>s p. map_option (\<lambda>v. p\<lparr>mp_speed := v\<rparr>) (missile_double fp s))
      else if a = ''--detect-radius''
      then Some (\<lambda>s p. map_option (\<lambda>v. p\<lparr>mp_detectRadius := v\<rparr>) (missile_double fp s))
      else if a = ''--query-every'' then Some (\<lambda>s p. map_option (\<lambda>v. p\<lparr>mp_queryEvery := v\<rparr>) (parse_u32 s))
      else if a = ''--damage'' then Some (\<lambda>s p. map_option (\<lambda>v. p\<lparr>mp_damage := v\<rparr>) (parse_u32 s))
      else if a = ''--expected-hash''
      then Some (\<lambda>s p. map_option (\<lambda>v. p\<lparr>mp_hasExpected := True, mp_expectedHash := v\<rparr>) (parse_u64 s))
      else None)"

fun missile_args :: "missile_fp \<Rightarrow> string list \<Rightarrow> missile_params \<Rightarrow> missile_params option" where
  "missile_args fp [] p = Some p"
| "missile_args fp (a # rest) p =
     (case missile_option fp a of
        Some assign \<Rightarrow> (case rest of
            [] \<Rightarrow> None
          | s # rest' \<Rightarrow> (case assign s p of None \<Rightarrow> None | Some p' \<Rightarrow> missile_args fp rest' p'))
      | None \<Rightarrow> if a = ''--verify'' then missile_args fp rest (p\<lparr>mp_verify := True\<rparr>) else None)"

text \<open>\<open>None\<close> is \<open>usage_and_exit\<close>: the program ends with status 2.\<close>

definition missile_parse_args :: "missile_fp \<Rightarrow> string list \<Rightarrow> missile_params option" where
  "missile_parse_args fp argv = (case missile_args fp argv missile_defaults of
     None \<Rightarrow> None
   | Some p \<Rightarrow> if mp_regions p < 2 \<or> mp_planesPerRegion p < 2 \<or> mp_queryEvery p = 0 then None else Some p)"

subsection \<open>Planes and messages\<close>

definition make_plane_id :: "u32 \<Rightarrow> u32 \<Rightarrow> u64" where
  "make_plane_id owner local = push_bit 32 (ucast owner) OR ucast local"

definition plane_owner :: "u64 \<Rightarrow> u32" where
  "plane_owner eid = ucast (drop_bit 32 eid)"

record plane =
  pl_pos :: vec3
  pl_vel :: vec3
  pl_hp :: u32
  pl_lastFireTime :: u64
  pl_shotsFired :: u64
  pl_hitsTaken :: u64
  pl_kills :: u64
  pl_alive :: u8

definition new_plane :: plane where
  "new_plane = \<lparr>pl_pos = \<lparr>v_x = 0, v_y = 0, v_z = 0\<rparr>, pl_vel = \<lparr>v_x = 0, v_y = 0, v_z = 0\<rparr>, pl_hp = 3,
     pl_lastFireTime = 0, pl_shotsFired = 0, pl_hitsTaken = 0, pl_kills = 0, pl_alive = 1\<rparr>"

definition write_vec3 :: "vec3 \<Rightarrow> bytes \<Rightarrow> bytes" where
  "write_vec3 v w = write_u64 (v_z v) (write_u64 (v_y v) (write_u64 (v_x v) w))"

definition read_vec3 :: "(reader, vec3) eff" where
  "read_vec3 = bnd read_u64 (\<lambda>x. bnd read_u64 (\<lambda>y. bnd read_u64 (\<lambda>z. ret \<lparr>v_x = x, v_y = y, v_z = z\<rparr>)))"

definition encode_plane :: "plane \<Rightarrow> bytes" where
  "encode_plane p =
     (let w = []; w = write_vec3 (pl_pos p) w; w = write_vec3 (pl_vel p) w; w = write_u32 (pl_hp p) w;
          w = write_u64 (pl_lastFireTime p) w; w = write_u64 (pl_shotsFired p) w;
          w = write_u64 (pl_hitsTaken p) w; w = write_u64 (pl_kills p) w
      in write_u8 (pl_alive p) w)"

definition read_plane :: "(reader, plane) eff" where
  "read_plane =
     bnd read_vec3 (\<lambda>pos. bnd read_vec3 (\<lambda>vel. bnd read_u32 (\<lambda>hp. bnd read_u64 (\<lambda>lastFire.
     bnd read_u64 (\<lambda>shots. bnd read_u64 (\<lambda>hits. bnd read_u64 (\<lambda>kills. bnd read_u8 (\<lambda>alive.
     ret \<lparr>pl_pos = pos, pl_vel = vel, pl_hp = hp, pl_lastFireTime = lastFire, pl_shotsFired = shots,
       pl_hitsTaken = hits, pl_kills = kills, pl_alive = alive\<rparr>))))))))"

definition decode_plane :: "bytes \<Rightarrow> exn + plane" where
  "decode_plane bs = fst (read_plane (open_reader bs))"

definition encode_hit_args :: "u64 \<Rightarrow> u64 \<Rightarrow> u32 \<Rightarrow> bytes" where
  "encode_hit_args shooter target damage = write_u32 damage (write_u64 target (write_u64 shooter []))"

definition decode_hit_args :: "bytes \<Rightarrow> exn + u64 \<times> u64 \<times> u32" where
  "decode_hit_args bs = fst (bnd read_u64 (\<lambda>shooter. bnd read_u64 (\<lambda>target. bnd read_u32 (\<lambda>damage.
     ret (shooter, target, damage)))) (open_reader bs))"

definition encode_hit_commit :: "u64 \<Rightarrow> u64 \<Rightarrow> u64 \<Rightarrow> bool \<Rightarrow> bytes" where
  "encode_hit_commit shooter target t killed =
     write_u8 (if killed then 1 else 0) (write_u64 t (write_u64 target (write_u64 shooter [])))"

definition decode_hit_commit :: "bytes \<Rightarrow> exn + u64 \<times> u64 \<times> u64 \<times> u8" where
  "decode_hit_commit bs = fst (bnd read_u64 (\<lambda>shooter. bnd read_u64 (\<lambda>target. bnd read_u64 (\<lambda>t. bnd read_u8 (\<lambda>killed.
     ret (shooter, target, t, killed))))) (open_reader bs))"

subsection \<open>A region\<close>

record air_region =
  rg_waitingReqId :: u64
  rg_world :: "plane world"
  rg_planeIds :: "u64 list"

text \<open>The operations registered for planes; a deserialization that throws assigns nothing.\<close>

definition plane_ops :: "plane type_ops" where
  "plane_ops = \<lparr>ot_type = kPlaneType, ot_create = Some new_plane, ot_destroy = True,
     ot_serialize = Some encode_plane,
     ot_deserialize = Some (\<lambda>bs. bnd (lift_result (decode_plane bs)) (\<lambda>p. upd (\<lambda>_. p)))\<rparr>"

definition base_x :: "missile_fp \<Rightarrow> missile_params \<Rightarrow> u32 \<Rightarrow> double" where
  "base_x fp p i = fp_mul fp (fp_sub fp (mf_of_u32 fp i) 0x3FF0000000000000) (mp_regionSize p)"

definition first_plane :: "missile_fp \<Rightarrow> missile_params \<Rightarrow> u32 \<Rightarrow> u32 \<Rightarrow> plane" where
  "first_plane fp p i k =
     (let baseX = base_x fp p i; size = mp_regionSize p; half = fp_mul fp 0x3FE0000000000000 size;
          draw = (\<lambda>stream. mf_of_unit fp (rng_unit_double_src (mp_seed p) i stream i (ucast k) 0))
      in if k = 1
         then new_plane\<lparr>pl_pos := \<lparr>v_x = fp_sub fp (fp_add fp baseX size) 0x4024000000000000, v_y = half, v_z = 0\<rparr>,
           pl_vel := \<lparr>v_x = mp_speed p, v_y = 0, v_z = 0\<rparr>\<rparr>
         else if k = 2
         then new_plane\<lparr>pl_pos := \<lparr>v_x = fp_add fp baseX 0x4024000000000000, v_y = half, v_z = 0\<rparr>,
           pl_vel := \<lparr>v_x = mf_neg fp (mp_speed p), v_y = 0, v_z = 0\<rparr>\<rparr>
         else let ang = fp_mul fp (fp_mul fp (draw 3) 0x4000000000000000) 0x400921FB54442D18 in
           new_plane\<lparr>pl_pos := \<lparr>v_x = fp_add fp baseX (fp_mul fp (draw 1) size), v_y = fp_mul fp (draw 2) size, v_z = 0\<rparr>,
             pl_vel := \<lparr>v_x = fp_mul fp (mf_cos fp ang) (mp_speed p), v_y = fp_mul fp (mf_sin fp ang) (mp_speed p),
               v_z = 0\<rparr>\<rparr>)"

text \<open>
  The constructor's loop from 1 to \<open>planesPerRegion\<close>; at \<open>2 ^ 32 - 1\<close> the code's counter wraps
  and it does not end, which is left out.
\<close>

definition plane_numbers :: "missile_params \<Rightarrow> u32 list" where
  "plane_numbers p = map word_of_nat [1..<Suc (unat (mp_planesPerRegion p))]"

definition add_planes :: "missile_fp \<Rightarrow> missile_params \<Rightarrow> u32 \<Rightarrow> (air_region, unit) eff" where
  "add_planes fp p i = for_each (\<lambda>k.
     thn (on_part rg_world (\<lambda>w st. st\<lparr>rg_world := w\<rparr>)
           (world_emplace (make_plane_id i k) kPlaneType (first_plane fp p i k)))
         (upd (\<lambda>st. st\<lparr>rg_planeIds := rg_planeIds st @ [make_plane_id i k]\<rparr>))) (plane_numbers p)"

definition new_air_region :: "missile_fp \<Rightarrow> missile_params \<Rightarrow> u32 \<Rightarrow> exn + air_region" where
  "new_air_region fp p i = (case register_type plane_ops [] of
     (Inl e, _) \<Rightarrow> Inl e
   | (Inr _, reg) \<Rightarrow>
       (case add_planes fp p i \<lparr>rg_waitingReqId = 0, rg_world = \<lparr>w_registry = reg, w_entities = []\<rparr>, rg_planeIds = []\<rparr> of
          (Inl e, _) \<Rightarrow> Inl e | (Inr _, st) \<Rightarrow> Inr st))"

definition missile_client :: "u32 \<Rightarrow> aoi_client" where
  "missile_client aoi = \<lparr>cl_aoiLp = aoi, cl_updateKind = Aoi_Update, cl_queryKind = Aoi_Query\<rparr>"

definition region_tick :: "u32 \<Rightarrow> u64 \<Rightarrow> event" where
  "region_tick i t = empty_event\<lparr>ev_ts := TimeStamp t 0, ev_src := i, ev_dst := i,
     ev_payload := \<lparr>p_kind = Region_Tick, p_bytes = []\<rparr>\<rparr>"

text \<open>The first positions, up to a plane that cannot be read.\<close>

fun seed_positions :: "u32 \<Rightarrow> u32 \<Rightarrow> air_region \<Rightarrow> u64 list \<Rightarrow> air_region sink_call list" where
  "seed_positions i aoi st [] = [Send (region_tick i 1)]"
| "seed_positions i aoi st (pid # pids) =
     (case world_read pid kPlaneType (rg_world st) of
        Inl e \<Rightarrow> [Fail e]
      | Inr pl \<Rightarrow> client_send_update (missile_client aoi) (TimeStamp 0 0) i pid (pl_pos pl) # seed_positions i aoi st pids)"

definition put_plane :: "u64 \<Rightarrow> plane \<Rightarrow> air_region \<Rightarrow> air_region" where
  "put_plane pid pl st = st\<lparr>rg_world := set_entity pid pl (rg_world st)\<rparr>"

text \<open>A plane moves, and bounces off the bounds of its region.\<close>

definition bounce :: "missile_fp \<Rightarrow> double \<Rightarrow> double \<Rightarrow> double \<times> double \<Rightarrow> double \<times> double" where
  "bounce fp lo hi pv =
     (let (x, v) = pv;
          (x, v) = (if fp_less fp x lo then (fp_add fp lo (fp_sub fp lo x), mf_neg fp v) else (x, v))
      in if fp_less fp hi x then (fp_sub fp hi (fp_sub fp x hi), mf_neg fp v) else (x, v))"

definition fly :: "missile_fp \<Rightarrow> missile_params \<Rightarrow> u32 \<Rightarrow> plane \<Rightarrow> plane" where
  "fly fp p i pl =
     (let baseX = base_x fp p i;
          pos = pl_pos pl; vel = pl_vel pl;
          (x, vx) = bounce fp baseX (fp_add fp baseX (mp_regionSize p)) (fp_add fp (v_x pos) (v_x vel), v_x vel);
          (y, vy) = bounce fp 0 (mp_regionSize p) (fp_add fp (v_y pos) (v_y vel), v_y vel)
      in pl\<lparr>pl_pos := pos\<lparr>v_x := x, v_y := y\<rparr>, pl_vel := vel\<lparr>v_x := vx, v_y := vy\<rparr>\<rparr>)"

fun fly_planes :: "missile_fp \<Rightarrow> missile_params \<Rightarrow> u32 \<Rightarrow> u32 \<Rightarrow> timestamp \<Rightarrow> u64 list \<Rightarrow> air_region
    \<Rightarrow> (air_region \<Rightarrow> air_region ctx_call list) \<Rightarrow> air_region ctx_call list" where
  "fly_planes fp p i aoi ts [] st k = k st"
| "fly_planes fp p i aoi ts (pid # pids) st k = borrow pid kPlaneType (rg_world st) (\<lambda>pl.
     if pl_alive pl = 0 then fly_planes fp p i aoi ts pids st k
     else let pl' = fly fp p i pl; st' = put_plane pid pl' st in
       Sink (Become st') # Sink (client_send_update (missile_client aoi) ts i pid (pl_pos pl'))
       # fly_planes fp p i aoi ts pids st' k)"

definition radar_request :: "u32 \<Rightarrow> u64 \<Rightarrow> u64 \<Rightarrow> u64" where
  "radar_request i shooter t = push_bit 56 (ucast kReqTagRadar) OR push_bit 32 (ucast i AND 0x00FFFFFF)
     OR push_bit 16 (shooter AND 0xFFFFFFFF AND 0xFFFF) OR (t AND 0xFFFF)"

definition sphere_query :: "u64 \<Rightarrow> u64 \<Rightarrow> vec3 \<Rightarrow> double \<Rightarrow> query_args" where
  "sphere_query req self origin radius = \<lparr>qa_requestId = req, qa_self = self, qa_shape = 1, qa_origin = origin,
     qa_radius = radius, qa_direction = \<lparr>v_x = 0, v_y = 0, v_z = 0\<rparr>, qa_range = 0, qa_cosHalfAngle = 0x3FF0000000000000\<rparr>"

definition ask_radar :: "missile_params \<Rightarrow> bytes \<Rightarrow> u32 \<Rightarrow> u32 \<Rightarrow> timestamp \<Rightarrow> air_region
    \<Rightarrow> (air_region \<Rightarrow> air_region ctx_call list) \<Rightarrow> air_region ctx_call list" where
  "ask_radar p qpad i aoi ts st k =
     (let t = ts_time ts; every = ucast (mp_queryEvery p) in
      if t mod every = 0 \<and> rg_waitingReqId st = 0
      then let shooter = rg_planeIds st ! unat ((t div every) mod ucast (max 1 (mp_planesPerRegion p))) in
        look shooter kPlaneType (rg_world st) (\<lambda>pl.
          if pl_alive pl \<noteq> 0 \<and> pl_lastFireTime pl + 1 \<le> t
          then let req = radar_request i shooter t; st' = st\<lparr>rg_waitingReqId := req\<rparr> in
            Sink (Become st') # Sink (client_send_query qpad (missile_client aoi) ts i
              (sphere_query req shooter (pl_pos pl) (mp_detectRadius p))) # k st'
          else k st)
      else k st)"

definition on_region_tick :: "missile_fp \<Rightarrow> missile_params \<Rightarrow> bytes \<Rightarrow> u32 \<Rightarrow> u32 \<Rightarrow> timestamp \<Rightarrow> air_region
    \<Rightarrow> air_region ctx_call list" where
  "on_region_tick fp p qpad i aoi ts st =
     (if ts_time ts = 0 \<or> ts_time ts > mp_endTime p then []
      else fly_planes fp p i aoi ts (rg_planeIds st) st (\<lambda>st.
        ask_radar p qpad i aoi ts st (\<lambda>st.
          if ts_time ts + 1 \<le> mp_endTime p then [Sink (Send (region_tick i (ts_time ts + 1)))] else [])))"

definition hit_event :: "missile_params \<Rightarrow> u32 \<Rightarrow> u64 \<Rightarrow> u64 \<Rightarrow> u64 \<Rightarrow> event" where
  "hit_event p i t shooter target = empty_event\<lparr>ev_ts := TimeStamp (t + 1) 0, ev_src := i, ev_dst := plane_owner target,
     ev_target := target,
     ev_payload := \<lparr>p_kind = Missile_Hit, p_bytes = encode_hit_args shooter target (mp_damage p)\<rparr>\<rparr>"

definition pick_target :: "u32 \<Rightarrow> u64 list \<Rightarrow> u64" where
  "pick_target shooterLp es = (case find (\<lambda>e. plane_owner e \<noteq> shooterLp) es of None \<Rightarrow> 0 | Some e \<Rightarrow> e)"

definition on_aoi_result :: "missile_params \<Rightarrow> u32 \<Rightarrow> event \<Rightarrow> air_region \<Rightarrow> air_region ctx_call list" where
  "on_aoi_result p i ev st = (case client_decode_result (ev_payload ev) of
     Inl e \<Rightarrow> [Sink (Fail e)]
   | Inr res \<Rightarrow>
     let req = ar_requestId res; t = ts_time (ev_ts ev) in
     if rg_waitingReqId st = 0 \<or> req \<noteq> rg_waitingReqId st then []
     else let st = st\<lparr>rg_waitingReqId := 0\<rparr> in
       Sink (Become st) #
       (let tag = ucast (drop_bit 56 req) :: u8; shooterLp = ucast (drop_bit 32 req AND 0x00FFFFFF);
            shooter = make_plane_id shooterLp (ucast (drop_bit 16 req AND 0xFFFF));
            target = pick_target shooterLp (ar_entities res)
        in if tag \<noteq> kReqTagRadar \<or> shooterLp \<noteq> i \<or> target = 0 then []
           else borrow shooter kPlaneType (rg_world st) (\<lambda>pl.
             if pl_alive pl = 0 then []
             else [Sink (Become (put_plane shooter
                     (pl\<lparr>pl_lastFireTime := t, pl_shotsFired := pl_shotsFired pl + 1\<rparr>) st)),
                   Sink (Send (hit_event p i t shooter target))])))"

definition take_hit :: "u32 \<Rightarrow> plane \<Rightarrow> plane" where
  "take_hit damage tgt =
     (let tgt = tgt\<lparr>pl_hitsTaken := pl_hitsTaken tgt + 1\<rparr>; dmg = (if damage = 0 then 1 else damage) in
      if pl_hp tgt > dmg then tgt\<lparr>pl_hp := pl_hp tgt - dmg\<rparr>
      else tgt\<lparr>pl_hp := 0, pl_alive := 0,
        pl_pos := \<lparr>v_x = 0x41CDCD6500000000, v_y = 0x41CDCD6500000000, v_z = 0x41CDCD6500000000\<rparr>\<rparr>)"

definition on_missile_hit :: "u32 \<Rightarrow> u32 \<Rightarrow> event \<Rightarrow> air_region \<Rightarrow> air_region ctx_call list" where
  "on_missile_hit i aoi ev st = (case decode_hit_args (p_bytes (ev_payload ev)) of
     Inl e \<Rightarrow> [Sink (Fail e)]
   | Inr (shooter, target, damage) \<Rightarrow>
     if target = 0 then []
     else borrow target kPlaneType (rg_world st) (\<lambda>tgt.
       if pl_alive tgt = 0 then []
       else let tgt' = take_hit damage tgt; st' = put_plane target tgt' st;
           commit = Emit_Committed (ev_ts ev) \<lparr>p_kind = Commit_Hit,
             p_bytes = encode_hit_commit shooter target (ts_time (ev_ts ev)) (pl_alive tgt' = 0)\<rparr>
         in Sink (Become st') #
           (if pl_hp tgt > (if damage = 0 then 1 else damage) then []
            else [Sink (client_send_update (missile_client aoi) (ev_ts ev) i target (pl_pos tgt'))])
           @ (if plane_owner shooter = i
              then borrow shooter kPlaneType (rg_world st') (\<lambda>sh.
                if pl_alive tgt' = 0
                then [Sink (Become (put_plane shooter (sh\<lparr>pl_kills := pl_kills sh + 1\<rparr>) st')), commit] else [commit])
              else [commit])))"

definition air_region_on_event :: "missile_fp \<Rightarrow> missile_params \<Rightarrow> bytes \<Rightarrow> u32 \<Rightarrow> u32 \<Rightarrow> event \<Rightarrow> air_region
    \<Rightarrow> air_region ctx_call list" where
  "air_region_on_event fp p qpad i aoi ev st =
     (let kind = p_kind (ev_payload ev) in
      if kind = Region_Tick then on_region_tick fp p qpad i aoi (ev_ts ev) st
      else if kind = Aoi_Result then on_aoi_result p i ev st
      else if kind = Missile_Hit then on_missile_hit i aoi ev st
      else [])"

definition air_region_load_state :: "bytes \<Rightarrow> (air_region, unit) eff" where
  "air_region_load_state bs = upd (\<lambda>st. st\<lparr>rg_waitingReqId := if length bs \<noteq> 8 then 0 else field_at 0 8 bs\<rparr>)"

definition air_region_lp :: "missile_fp \<Rightarrow> missile_params \<Rightarrow> bytes \<Rightarrow> u32 \<Rightarrow> u32 \<Rightarrow> exn + air_region lp" where
  "air_region_lp fp p qpad i aoi = (case new_air_region fp p i of
     Inl e \<Rightarrow> Inl e
   | Inr st \<Rightarrow> Inr ((default_lp i st)
       \<lparr>lp_on_start := (\<lambda>st. seed_positions i aoi st (rg_planeIds st)),
        lp_on_event := air_region_on_event fp p qpad i aoi,
        lp_save_state := (\<lambda>st. Inr (le_bytes 8 (rg_waitingReqId st))),
        lp_load_state := air_region_load_state,
        lp_supports_entity_snapshots := (\<lambda>_. True),
        lp_save_entity := (\<lambda>eid st. serialize_entity eid (rg_world st)),
        lp_load_entity := (\<lambda>eid bs. on_part rg_world (\<lambda>w st. st\<lparr>rg_world := w\<rparr>) (deserialize_entity eid bs))\<rparr>))"

subsection \<open>The program\<close>

definition hit_hash :: "u64 \<times> u64 \<times> u64 \<times> u8 \<Rightarrow> u64" where
  "hit_hash = (\<lambda>(shooter, target, t, killed).
     let x = 0; x = mix_u64 x shooter; x = mix_u64 x target; x = mix_u64 x t; x = mix_u64 x (ucast killed)
     in splitmix64 x)"

definition missile_sink :: "u32 \<Rightarrow> u32 \<Rightarrow> timestamp \<Rightarrow> payload \<Rightarrow> (u64, unit) eff" where
  "missile_sink rank lp ts p =
     (if p_kind p \<noteq> Commit_Hit then ret ()
      else bnd (lift_result (decode_hit_commit (p_bytes p))) (\<lambda>rec. upd (\<lambda>h. h XOR hit_hash rec)))"

definition missile_aoi :: u32 where "missile_aoi = 10000"

definition missile_config :: "missile_params \<Rightarrow> ('n, u64) example_world example_env \<Rightarrow> ('n, u64) example_world config" where
  "missile_config p env =
     distribute env (\<lambda>lp. if lp = missile_aoi then 0 else lp mod env_size env)
       (default_config\<lparr>c_rank := env_rank env, c_seed := mp_seed p, c_collectivePeriodIters := 128,
          c_committedSink := Some (\<lambda>rank lp ts out. on_sink (missile_sink rank lp ts out))\<rparr>)"

type_synonym missile_state = "positions + air_region"

definition missile_aoi_config :: aoi_config where
  "missile_aoi_config = \<lparr>ac_id = missile_aoi, ac_stateEntityId = 0xA01A01, ac_updateKind = Aoi_Update,
     ac_queryKind = Aoi_Query, ac_resultKind = Aoi_Result, ac_excludeSelf = True\<rparr>"

definition missile_simulation :: "missile_fp \<Rightarrow> missile_params \<Rightarrow> bytes \<Rightarrow> bytes \<Rightarrow> ('n, u64) example_world config
    \<Rightarrow> nat \<Rightarrow> nat \<Rightarrow> ((missile_state, ('n, u64) example_world) sim, unit) eff" where
  "missile_simulation fp p rpad qpad cfg fuel pollFuel =
     thn (when_eff (owns_lp cfg missile_aoi)
           (add_built (embed_lp Inl projl) (aoi_lp (fp.truncate fp) rpad missile_aoi_config)))
    (thn (for_each (\<lambda>i. add_built (embed_lp Inr projr) (air_region_lp fp p qpad i missile_aoi))
           (filter (owns_lp cfg) (map word_of_nat [1..<Suc (unat (mp_regions p))])))
      (run fuel pollFuel))"

definition missile_exit_code :: "missile_params \<Rightarrow> u64 \<Rightarrow> int" where
  "missile_exit_code p globalHash =
     (if mp_verify p
      then if \<not> mp_hasExpected p then 2 else if globalHash \<noteq> mp_expectedHash p then 2 else 0
      else 0)"

definition missile_main :: "missile_fp \<Rightarrow> ('n, u64) example_world example_env \<Rightarrow> 'n \<Rightarrow> bytes \<Rightarrow> bytes
    \<Rightarrow> string list \<Rightarrow> nat \<Rightarrow> nat \<Rightarrow> exn + string \<times> int" where
  "missile_main fp env net rpad qpad argv fuel pollFuel =
     (case missile_parse_args fp argv of
        None \<Rightarrow> Inr ([], 2)
      | Some p \<Rightarrow>
          let cfg = missile_config p env in
          (case new_simulation cfg (Some (env_transport env)) (net, 0) of
            Inl e \<Rightarrow> Inl e
          | Inr s \<Rightarrow> (case missile_simulation fp p rpad qpad cfg fuel pollFuel s of
              (Inl e, _) \<Rightarrow> Inl e
            | (Inr _, t) \<Rightarrow> (case reduce_if env (env_bxor env) (snd (m_world t)) (m_world t) of
                (Inl e, _) \<Rightarrow> Inl e
              | (Inr hash, _) \<Rightarrow> Inr
                  (if env_rank env = 0
                   then ''airplanes_missile_aoi_demo hash='' @ decimal (unat hash) @ [CHR 0x0A] else [],
                   missile_exit_code p hash)))))"

subsection \<open>Codecs\<close>

lemma read_vec3_field:
  assumes "r_pos r + 24 \<le> length (r_bytes r)"
  shows "read_vec3 r = (Inr (vec3_at (r_pos r) (r_bytes r)), r\<lparr>r_pos := r_pos r + 24\<rparr>)"
  using assms by (simp add: read_vec3_def read_at_field vec3_at_def add.commute)

lemma decode_plane_fields:
  assumes "length bs = 85"
  shows "decode_plane bs = Inr \<lparr>pl_pos = vec3_at 0 bs, pl_vel = vec3_at 24 bs, pl_hp = field_at 48 4 bs,
    pl_lastFireTime = field_at 52 8 bs, pl_shotsFired = field_at 60 8 bs, pl_hitsTaken = field_at 68 8 bs,
    pl_kills = field_at 76 8 bs, pl_alive = field_at 84 1 bs\<rparr>"
  using assms by (simp add: decode_plane_def read_plane_def open_reader_def read_vec3_field read_at_field)

lemma plane_round_trip: "decode_plane (encode_plane p) = Inr p"
proof -
  let ?p = "vec3_bytes (pl_pos p)" and ?v = "vec3_bytes (pl_vel p)" and ?h = "le_bytes 4 (pl_hp p)"
  let ?f = "le_bytes 8 (pl_lastFireTime p)" and ?s = "le_bytes 8 (pl_shotsFired p)" and ?t = "le_bytes 8 (pl_hitsTaken p)"
  let ?k = "le_bytes 8 (pl_kills p)" and ?a = "le_bytes 1 (pl_alive p)"
  have one: "[b] = le_bytes 1 b" for b :: u8
  proof -
    have "(0xFF :: u8) = - 1" by simp
    then have "b AND 0xFF = b" by (simp only: and.right_neutral)
    then show ?thesis by (simp add: le_bytes_def)
  qed
  have bs: "encode_plane p = ?p @ ?v @ ?h @ ?f @ ?s @ ?t @ ?k @ ?a"
    by (simp add: encode_plane_def write_vec3_def vec3_bytes_def codec_puts one Let_def)
  have "vec3_at 0 ([] @ ?p @ (?v @ ?h @ ?f @ ?s @ ?t @ ?k @ ?a)) = pl_pos p"
    "vec3_at 24 (?p @ ?v @ (?h @ ?f @ ?s @ ?t @ ?k @ ?a)) = pl_vel p"
    by (rule vec3_at_here; simp)+
  moreover have "field_at 48 4 ((?p @ ?v) @ ?h @ (?f @ ?s @ ?t @ ?k @ ?a)) = pl_hp p"
    "field_at 52 8 ((?p @ ?v @ ?h) @ ?f @ (?s @ ?t @ ?k @ ?a)) = pl_lastFireTime p"
    "field_at 60 8 ((?p @ ?v @ ?h @ ?f) @ ?s @ (?t @ ?k @ ?a)) = pl_shotsFired p"
    "field_at 68 8 ((?p @ ?v @ ?h @ ?f @ ?s) @ ?t @ (?k @ ?a)) = pl_hitsTaken p"
    "field_at 76 8 ((?p @ ?v @ ?h @ ?f @ ?s @ ?t) @ ?k @ ?a) = pl_kills p"
    "field_at 84 1 ((?p @ ?v @ ?h @ ?f @ ?s @ ?t @ ?k) @ ?a @ []) = pl_alive p"
    by (rule field_at_here; simp)+
  ultimately show ?thesis
    using decode_plane_fields [of "encode_plane p"] by (simp add: bs)
qed

lemma hit_args_round_trip: "decode_hit_args (encode_hit_args s t d) = Inr (s, t, d)"
proof -
  let ?s = "le_bytes 8 s" and ?t = "le_bytes 8 t" and ?d = "le_bytes 4 d"
  have "field_at 0 8 ([] @ ?s @ (?t @ ?d)) = s" "field_at 8 8 (?s @ ?t @ ?d) = t" "field_at 16 4 ((?s @ ?t) @ ?d @ []) = d"
    by (rule field_at_here; simp)+
  then show ?thesis
    by (simp add: decode_hit_args_def encode_hit_args_def codec_puts open_reader_def read_at_field)
qed

lemma hit_commit_total: "length bs = 25 \<Longrightarrow> \<exists>rec. decode_hit_commit bs = Inr rec"
  by (simp add: decode_hit_commit_def open_reader_def read_at_field)

definition hit_contribution :: "payload \<Rightarrow> u64" where
  "hit_contribution p =
     (if p_kind p = Commit_Hit then case decode_hit_commit (p_bytes p) of Inl _ \<Rightarrow> 0 | Inr rec \<Rightarrow> hit_hash rec else 0)"

interpretation missile_hash: xor_sink missile_sink hit_contribution
    "\<lambda>p. p_kind p = Commit_Hit \<longrightarrow> length (p_bytes p) = 25"
proof
  fix p :: payload and rank lp ts and h :: u64
  assume "p_kind p = Commit_Hit \<longrightarrow> length (p_bytes p) = 25"
  then show "missile_sink rank lp ts p h = (Inr (), h XOR hit_contribution p)"
    using hit_commit_total [of "p_bytes p"] by (auto simp: missile_sink_def hit_contribution_def)
qed

subsection \<open>Hits\<close>

text \<open>A plane is alive as long as it has hit points.\<close>

definition plane_sound :: "plane \<Rightarrow> bool" where
  "plane_sound pl \<longleftrightarrow> (if pl_hp pl = 0 then pl_alive pl = 0 else pl_alive pl = 1)"

lemma take_hit_sound: "pl_alive pl \<noteq> 0 \<Longrightarrow> plane_sound pl \<Longrightarrow> plane_sound (take_hit d pl)"
  by (auto simp: plane_sound_def take_hit_def Let_def split: if_splits)

lemma take_hit_weakens:
  assumes "plane_sound pl" and "pl_alive pl \<noteq> 0"
  shows "unat (pl_hp (take_hit d pl)) = unat (pl_hp pl) - max 1 (unat d)"
    and "pl_hitsTaken (take_hit d pl) = pl_hitsTaken pl + 1"
proof -
  have "0 < unat (pl_hp pl)" using assms by (auto simp: plane_sound_def unat_gt_0 split: if_splits)
  then show "unat (pl_hp (take_hit d pl)) = unat (pl_hp pl) - max 1 (unat d)"
    by (auto simp: take_hit_def Let_def word_less_nat_alt unat_sub word_le_nat_alt max_def unat_eq_zero Suc_le_eq)
  show "pl_hitsTaken (take_hit d pl) = pl_hitsTaken pl + 1" by (simp add: take_hit_def Let_def)
qed

text \<open>The planes of a region after hits, each of which the handler applies to a plane alive only.\<close>

fun after_hits :: "u32 list \<Rightarrow> plane \<Rightarrow> plane" where
  "after_hits [] pl = pl"
| "after_hits (d # ds) pl = (if pl_alive pl = 0 then pl else after_hits ds (take_hit d pl))"

lemma dead_after_hits:
  "plane_sound pl \<Longrightarrow> pl_alive (after_hits ds pl) = 0 \<longleftrightarrow> unat (pl_hp pl) \<le> sum_list (map (\<lambda>d. max 1 (unat d)) ds)"
proof (induction ds arbitrary: pl)
  case Nil
  then show ?case by (auto simp: plane_sound_def unat_eq_zero split: if_splits)
next
  case (Cons d ds)
  show ?case
  proof (cases "pl_alive pl = 0")
    case True
    then have "pl_hp pl = 0" using Cons.prems by (auto simp: plane_sound_def split: if_splits)
    then show ?thesis using True by simp
  next
    case False
    then show ?thesis
      using Cons.IH [OF take_hit_sound [OF False Cons.prems], of d] take_hit_weakens(1) [OF Cons.prems False, of d]
      by auto
  qed
qed

subsection \<open>Rollback\<close>

interpretation air_part: world_part rg_world "\<lambda>w st. st\<lparr>rg_world := w\<rparr>"
  by unfold_locales simp_all

lemma air_region_lp_members:
  assumes "air_region_lp fp p qpad i aoi = Inr lp"
  shows "lp_on_event lp = air_region_on_event fp p qpad i aoi" "lp_supports_entity_snapshots lp = (\<lambda>_. True)"
    "lp_save_entity lp = (\<lambda>eid st. serialize_entity eid (rg_world st))"
    "lp_load_entity lp = (\<lambda>eid bs. on_part rg_world (\<lambda>w st. st\<lparr>rg_world := w\<rparr>) (deserialize_entity eid bs))"
  using assms by (auto simp: air_region_lp_def split: sum.splits)

abbreviation planes_differ :: "u64 set \<Rightarrow> air_region \<Rightarrow> air_region \<Rightarrow> bool" where
  "planes_differ E a b \<equiv> b = a\<lparr>rg_world := rg_world b\<rparr> \<and> world_differ E (rg_world a) (rg_world b)"

lemma differ_put_plane: "planes_differ E a b \<Longrightarrow> planes_differ (insert pid E) a (put_plane pid pl b)"
proof -
  assume d: "planes_differ E a b"
  then have "world_differ (insert pid E) (rg_world a) (rg_world b)" using world_differ_more by blast
  from air_part.covered_become [OF conjunct1 [OF d] this] show ?thesis by (simp add: put_plane_def)
qed

text \<open>A hit is undone: it changes planes, after requesting the write.\<close>

lemma hit_covered: "air_part.snapshots.writes_covered {} st (on_missile_hit i aoi ev st)"
proof -
  have start: "planes_differ {} st st" by (simp add: world_differ_refl)
  note once = differ_put_plane [OF start]
  note twice = differ_put_plane [OF once]
  note once = once [THEN eqTrueI] and twice = twice [THEN eqTrueI]
  have shooter: "air_part.snapshots.writes_covered {target} st (borrow shooter kPlaneType (rg_world (put_plane target pl st))
      (\<lambda>sh. if dead then [Sink (Become (put_plane shooter (f sh) (put_plane target pl st))), Emit_Committed ts out]
        else [Emit_Committed ts out]))" for target shooter pl f dead ts out
    by (rule air_part.covered_borrow) (simp add: twice)
  have "air_part.snapshots.writes_covered {} st (borrow target kPlaneType (rg_world st) (\<lambda>tgt.
       if pl_alive tgt = 0 then []
       else let tgt' = take_hit damage tgt; st' = put_plane target tgt' st;
           commit = Emit_Committed (ev_ts ev) \<lparr>p_kind = Commit_Hit,
             p_bytes = encode_hit_commit shooter target (ts_time (ev_ts ev)) (pl_alive tgt' = 0)\<rparr>
         in Sink (Become st') #
           (if pl_hp tgt > (if damage = 0 then 1 else damage) then []
            else [Sink (client_send_update (missile_client aoi) (ev_ts ev) i target (pl_pos tgt'))])
           @ (if plane_owner shooter = i
              then borrow shooter kPlaneType (rg_world st') (\<lambda>sh.
                if pl_alive tgt' = 0
                then [Sink (Become (put_plane shooter (sh\<lparr>pl_kills := pl_kills sh + 1\<rparr>) st')), commit] else [commit])
              else [commit])))" for shooter target damage
    by (rule air_part.covered_borrow) (simp add: Let_def once shooter client_send_update_def)
  then show ?thesis by (simp add: on_missile_hit_def split: sum.split)
qed

lemma hit_reversible:
  assumes "air_region_lp fp p qpad i aoi = Inr lp" and "world_ok (rg_world st)"
    and "p_kind (ev_payload ev) = Missile_Hit"
  shows "reversible lp st (lp_on_event lp ev st)"
  using assms(2,3) hit_covered [of st i aoi ev] air_region_lp_members [OF assms(1)]
  by (intro air_part.snapshots.reversible_entities) (simp_all add: air_region_on_event_def missile_kinds)

text \<open>
  The identifier of the outstanding request is not: entity snapshots do not contain it, and
  \<open>save_state\<close>, which does, is not called.
\<close>

lemma waiting_not_restored:
  assumes lp: "air_region_lp fp p qpad i aoi = Inr lp"
    and "record_calls lp (lp_on_event lp ev st) st (blank_record rec) = Inr rec'"
    and "rg_waitingReqId (final_state (lp_on_event lp ev st) st) \<noteq> rg_waitingReqId st"
  shows "\<not> reversible lp st (lp_on_event lp ev st)"
proof (rule not_reversible_outside [where part = rg_waitingReqId])
  show "rg_waitingReqId (snd (lp_load_entity lp e bs s)) = rg_waitingReqId s" for e bs s
    by (simp add: air_region_lp_members(4) [OF lp] on_part_def split: prod.split)
qed (use assms air_region_lp_members [OF lp] in simp_all)

lemma answer_not_reversible:
  assumes lp: "air_region_lp fp p qpad i aoi = Inr lp" and "p_kind (ev_payload ev) = Aoi_Result"
    and "client_decode_result (ev_payload ev) = Inr \<lparr>ar_requestId = req, ar_entities = []\<rparr>"
    and "rg_waitingReqId st = req" and "req \<noteq> 0"
  shows "\<not> reversible lp st (lp_on_event lp ev st)"
proof -
  have calls: "lp_on_event lp ev st = [Sink (Become (st\<lparr>rg_waitingReqId := 0\<rparr>))]"
    using assms by (simp add: air_region_lp_members(1) [OF lp] air_region_on_event_def missile_kinds on_aoi_result_def
        pick_target_def)
  have "st\<lparr>rg_waitingReqId := 0\<rparr> \<noteq> st" using assms(4,5) by (auto dest: arg_cong [of _ _ rg_waitingReqId])
  then show ?thesis unfolding calls by (intro not_reversible_unrequested) auto
qed

end
