(* ===== verification/Regional.thy ===== *)
theory Regional
  imports Composite Migration
begin

text \<open>
  The regional airport demo (\<open>src/examples/regional_airport_migration_demo.cpp\<close>): planes are
  entities that belong to the region they are in; at a boundary the directory moves them to
  the next region. A region serves the planes at its airports. \<open>pad\<close> are the padding bytes of
  the structures, of which a gap takes as many as it has. The divisors among the parameters are
  not 0, as \<open>parse_args\<close> makes sure.
\<close>

definition Plane_Land :: u32 where "Plane_Land = 60002"
definition ServiceDone :: u32 where "ServiceDone = 60003"
definition Commit_Depart :: u32 where "Commit_Depart = 60101"
definition Commit_Land :: u32 where "Commit_Land = 60102"
definition PlaneType :: u32 where "PlaneType = 9301"

lemmas regional_kinds = Plane_Land_def ServiceDone_def Commit_Depart_def Commit_Land_def DefaultInstallKind_def

subsection \<open>Parameters\<close>

record regional_params =
  rgp_regions :: u32
  rgp_airportsPerRegion :: u32
  rgp_planes :: u32
  rgp_endTime :: u64
  rgp_serviceMax :: u32
  rgp_regionWidth :: u64
  rgp_speed :: u64
  rgp_seed :: u64
  rgp_emitPlaneMod :: u32
  rgp_verify :: bool
  rgp_hasExpected :: bool
  rgp_expectedHash :: u64

definition regional_defaults :: regional_params where
  "regional_defaults = \<lparr>rgp_regions = 4, rgp_airportsPerRegion = 2, rgp_planes = 64, rgp_endTime = 400,
     rgp_serviceMax = 5, rgp_regionWidth = 1000, rgp_speed = 25, rgp_seed = 1, rgp_emitPlaneMod = 4,
     rgp_verify = False, rgp_hasExpected = False, rgp_expectedHash = 0\<rparr>"

definition regional_option :: "string \<Rightarrow> (string \<Rightarrow> regional_params \<Rightarrow> regional_params option) option" where
  "regional_option a =
     (if a = ''--regions'' then Some (\<lambda>s p. map_option (\<lambda>v. p\<lparr>rgp_regions := v\<rparr>) (parse_u32 s))
      else if a = ''--airports-per-region''
      then Some (\<lambda>s p. map_option (\<lambda>v. p\<lparr>rgp_airportsPerRegion := v\<rparr>) (parse_u32 s))
      else if a = ''--planes'' then Some (\<lambda>s p. map_option (\<lambda>v. p\<lparr>rgp_planes := v\<rparr>) (parse_u32 s))
      else if a = ''--end'' then Some (\<lambda>s p. map_option (\<lambda>v. p\<lparr>rgp_endTime := v\<rparr>) (parse_u64 s))
      else if a = ''--service-max'' then Some (\<lambda>s p. map_option (\<lambda>v. p\<lparr>rgp_serviceMax := v\<rparr>) (parse_u32 s))
      else if a = ''--region-width'' then Some (\<lambda>s p. map_option (\<lambda>v. p\<lparr>rgp_regionWidth := v\<rparr>) (parse_u64 s))
      else if a = ''--speed'' then Some (\<lambda>s p. map_option (\<lambda>v. p\<lparr>rgp_speed := v\<rparr>) (parse_u64 s))
      else if a = ''--seed'' then Some (\<lambda>s p. map_option (\<lambda>v. p\<lparr>rgp_seed := v\<rparr>) (parse_u64 s))
      else if a = ''--emit-plane-mod'' then Some (\<lambda>s p. map_option (\<lambda>v. p\<lparr>rgp_emitPlaneMod := v\<rparr>) (parse_u32 s))
      else if a = ''--expected-hash''
      then Some (\<lambda>s p. map_option (\<lambda>v. p\<lparr>rgp_hasExpected := True, rgp_expectedHash := v\<rparr>) (parse_u64 s))
      else None)"

fun regional_args :: "string list \<Rightarrow> regional_params \<Rightarrow> regional_params option" where
  "regional_args [] p = Some p"
| "regional_args (a # rest) p =
     (case regional_option a of
        Some assign \<Rightarrow> (case rest of
            [] \<Rightarrow> None
          | s # rest' \<Rightarrow> (case assign s p of None \<Rightarrow> None | Some p' \<Rightarrow> regional_args rest' p'))
      | None \<Rightarrow> if a = ''--verify'' then regional_args rest (p\<lparr>rgp_verify := True\<rparr>) else None)"

definition regional_parse_args :: "string list \<Rightarrow> regional_params option" where
  "regional_parse_args argv = (case regional_args argv regional_defaults of
     None \<Rightarrow> None
   | Some p \<Rightarrow>
       if rgp_regions p = 0 \<or> rgp_airportsPerRegion p = 0 \<or> rgp_planes p = 0 \<or> rgp_serviceMax p = 0
         \<or> rgp_regionWidth p = 0 \<or> rgp_speed p = 0
       then None else Some p)"

subsection \<open>Arithmetic\<close>

definition mix64 :: "u64 \<Rightarrow> u64 \<Rightarrow> u64" where
  "mix64 a b = splitmix64 (a XOR splitmix64 b)"

definition next_logical_key :: "u64 \<Rightarrow> u32 \<Rightarrow> u32 \<Rightarrow> u32 \<Rightarrow> u64 \<Rightarrow> u64" where
  "next_logical_key seed plane fromAirport toAirport prev =
     (let x = seed; x = mix64 x (ucast plane); x = mix64 x (ucast fromAirport); x = mix64 x (ucast toAirport);
          x = mix64 x prev
      in splitmix64 x)"

text \<open>A plane's own speed may be 0, when the division is undefined.\<close>

definition div_ceil :: "u64 \<Rightarrow> u64 \<Rightarrow> exn + u64" where
  "div_ceil num den = (if den = 0 then Inl Undefined else Inr ((num + den - 1) div den))"

definition plane_seq :: "u32 \<Rightarrow> u32 \<Rightarrow> u64" where
  "plane_seq kindClass plane = push_bit 60 (ucast (kindClass AND 0xF)) OR ucast (plane + 1)"

definition region_index_of_lp :: "u32 \<Rightarrow> u32" where "region_index_of_lp lp = lp - 1"
definition lp_of_region :: "u32 \<Rightarrow> u32" where "lp_of_region r = 1 + r"

definition region_of_airport :: "regional_params \<Rightarrow> u32 \<Rightarrow> u32" where
  "region_of_airport p airport = airport div rgp_airportsPerRegion p"

definition airport_count :: "regional_params \<Rightarrow> u32" where
  "airport_count p = rgp_regions p * rgp_airportsPerRegion p"

definition airport_x :: "regional_params \<Rightarrow> u32 \<Rightarrow> u64" where
  "airport_x p airport =
     (let local = airport mod rgp_airportsPerRegion p;
          offset = (ucast local + 1) * (rgp_regionWidth p div (ucast (rgp_airportsPerRegion p) + 1))
      in ucast (region_of_airport p airport) * rgp_regionWidth p + offset)"

definition plane_entity :: "u32 \<Rightarrow> u64" where
  "plane_entity plane = 0xA11A000000000000 OR ucast plane"

definition plane_id_from_entity :: "u64 \<Rightarrow> u32" where
  "plane_id_from_entity e = ucast (e AND 0xFFFFFFFF)"

definition abs_u64_diff :: "u64 \<Rightarrow> u64 \<Rightarrow> u64" where
  "abs_u64_diff a b = (if a \<ge> b then a - b else b - a)"

subsection \<open>Messages and state\<close>

text \<open>\<open>LandArgs\<close> and \<open>ServiceDoneArgs\<close> have the same members.\<close>

record at_airport =
  aa_airport :: u32
  aa_logicalKey :: u64

definition at_airport_bytes :: "bytes \<Rightarrow> at_airport \<Rightarrow> bytes" where
  "at_airport_bytes pad a = le_bytes 4 (aa_airport a) @ take 4 pad @ le_bytes 8 (aa_logicalKey a)"

definition at_airport_of_bytes :: "bytes \<Rightarrow> at_airport" where
  "at_airport_of_bytes bs = \<lparr>aa_airport = field_at 0 4 bs, aa_logicalKey = field_at 8 8 bs\<rparr>"

record commit_depart =
  cd_plane :: u32
  cd_fromAirport :: u32
  cd_toAirport :: u32
  cd_departTime :: u64
  cd_landTime :: u64
  cd_logicalKey :: u64

definition commit_depart_bytes :: "bytes \<Rightarrow> commit_depart \<Rightarrow> bytes" where
  "commit_depart_bytes pad c = le_bytes 4 (cd_plane c) @ le_bytes 4 (cd_fromAirport c) @ le_bytes 4 (cd_toAirport c)
     @ take 4 pad @ le_bytes 8 (cd_departTime c) @ le_bytes 8 (cd_landTime c) @ le_bytes 8 (cd_logicalKey c)"

definition commit_depart_of_bytes :: "bytes \<Rightarrow> commit_depart" where
  "commit_depart_of_bytes bs = \<lparr>cd_plane = field_at 0 4 bs, cd_fromAirport = field_at 4 4 bs,
     cd_toAirport = field_at 8 4 bs, cd_departTime = field_at 16 8 bs, cd_landTime = field_at 24 8 bs,
     cd_logicalKey = field_at 32 8 bs\<rparr>"

record commit_land =
  cn_plane :: u32
  cn_airport :: u32
  cn_landTime :: u64
  cn_logicalKey :: u64

definition commit_land_bytes :: "commit_land \<Rightarrow> bytes" where
  "commit_land_bytes c = le_bytes 4 (cn_plane c) @ le_bytes 4 (cn_airport c) @ le_bytes 8 (cn_landTime c)
     @ le_bytes 8 (cn_logicalKey c)"

definition commit_land_of_bytes :: "bytes \<Rightarrow> commit_land" where
  "commit_land_of_bytes bs = \<lparr>cn_plane = field_at 0 4 bs, cn_airport = field_at 4 4 bs,
     cn_landTime = field_at 8 8 bs, cn_logicalKey = field_at 16 8 bs\<rparr>"

record regional_plane =
  rp_plane :: u32
  rp_region :: u32
  rp_x :: u64
  rp_airport :: u32
  rp_destAirport :: u32
  rp_destRegion :: u32
  rp_destX :: u64
  rp_speed :: u64
  rp_inFlight :: u8
  rp_logicalKey :: u64

definition no_plane :: regional_plane where
  "no_plane = \<lparr>rp_plane = 0, rp_region = 0, rp_x = 0, rp_airport = 0, rp_destAirport = 0, rp_destRegion = 0,
     rp_destX = 0, rp_speed = 0, rp_inFlight = 0, rp_logicalKey = 0\<rparr>"

definition regional_plane_bytes :: "bytes \<Rightarrow> regional_plane \<Rightarrow> bytes" where
  "regional_plane_bytes pad p = le_bytes 4 (rp_plane p) @ le_bytes 4 (rp_region p) @ le_bytes 8 (rp_x p)
     @ le_bytes 4 (rp_airport p) @ le_bytes 4 (rp_destAirport p) @ le_bytes 4 (rp_destRegion p) @ take 4 pad
     @ le_bytes 8 (rp_destX p) @ le_bytes 8 (rp_speed p) @ le_bytes 1 (rp_inFlight p) @ take 7 pad
     @ le_bytes 8 (rp_logicalKey p)"

definition regional_plane_of_bytes :: "bytes \<Rightarrow> regional_plane" where
  "regional_plane_of_bytes bs = \<lparr>rp_plane = field_at 0 4 bs, rp_region = field_at 4 4 bs, rp_x = field_at 8 8 bs,
     rp_airport = field_at 16 4 bs, rp_destAirport = field_at 20 4 bs, rp_destRegion = field_at 24 4 bs,
     rp_destX = field_at 32 8 bs, rp_speed = field_at 40 8 bs, rp_inFlight = field_at 48 1 bs,
     rp_logicalKey = field_at 56 8 bs\<rparr>"

record port_token =
  pk_planeEntity :: u64
  pk_logicalKey :: u64

record port =
  pt_runwayBusy :: bool
  pt_q :: "port_token list"
  pt_arrivals :: u64
  pt_departures :: u64
  pt_maxQ :: u64

record regional =
  rl_world :: "regional_plane world"
  rl_airports :: "port list"

subsection \<open>Airports of a region\<close>

definition airport_index :: "regional_params \<Rightarrow> u32 \<Rightarrow> u32 \<Rightarrow> regional \<Rightarrow> exn + nat" where
  "airport_index p i airport st =
     (let local = airport - region_index_of_lp i * rgp_airportsPerRegion p in
      if unat local \<ge> length (rl_airports st)
      then Inl (Runtime_Error ''regional_airport_migration_demo: airport not in this region'')
      else Inr (unat local))"

definition set_port :: "nat \<Rightarrow> port \<Rightarrow> regional \<Rightarrow> regional" where
  "set_port k ap st = st\<lparr>rl_airports := (rl_airports st)[k := ap]\<rparr>"

definition start_service :: "bytes \<Rightarrow> regional_params \<Rightarrow> u32 \<Rightarrow> timestamp \<Rightarrow> u32 \<Rightarrow> regional \<Rightarrow> regional sink_call list" where
  "start_service pad p i now airport st = (case airport_index p i airport st of
     Inl e \<Rightarrow> [Fail e]
   | Inr k \<Rightarrow>
     let ap = rl_airports st ! k in
     if pt_runwayBusy ap \<or> pt_q ap = [] then []
     else let t = hd (pt_q ap); ap1 = ap\<lparr>pt_q := tl (pt_q ap), pt_runwayBusy := True\<rparr> in
       Become (set_port k ap1 st) #
       (case rng_u64_range (rgp_seed p) i 11 (pk_logicalKey t) 1 (ucast (rgp_serviceMax p)) 0 of
          Inl e \<Rightarrow> [Fail e]
        | Inr r \<Rightarrow>
            let doneTime = ts_time now + (1 + r) in
            if doneTime > rgp_endTime p then [Become (set_port k (ap1\<lparr>pt_runwayBusy := False\<rparr>) st)]
            else [send_targeted (TimeStamp doneTime (plane_seq 4 (plane_id_from_entity (pk_planeEntity t)))) i
                    (pk_planeEntity t) ServiceDone
                    (at_airport_bytes pad \<lparr>aa_airport = airport, aa_logicalKey = pk_logicalKey t\<rparr>) 0]))"

definition enqueue_arrival :: "bytes \<Rightarrow> regional_params \<Rightarrow> u32 \<Rightarrow> timestamp \<Rightarrow> u64 \<Rightarrow> u32 \<Rightarrow> u64 \<Rightarrow> regional
    \<Rightarrow> regional sink_call list" where
  "enqueue_arrival pad p i ts planeE airport key st = (case airport_index p i airport st of
     Inl e \<Rightarrow> [Fail e]
   | Inr k \<Rightarrow>
     let ap = rl_airports st ! k;
         q = pt_q ap @ [\<lparr>pk_planeEntity = planeE, pk_logicalKey = key\<rparr>];
         ap' = ap\<lparr>pt_arrivals := pt_arrivals ap + 1, pt_q := q,
           pt_maxQ := if word_of_nat (length q) > pt_maxQ ap then word_of_nat (length q) else pt_maxQ ap\<rparr>;
         st' = set_port k ap' st
     in Become st' # (if \<not> pt_runwayBusy ap' then start_service pad p i ts airport st' else []))"

subsection \<open>Flights\<close>

text \<open>The legs to the region of destination, one boundary after the other: the place and the time there.\<close>

function leg_times :: "u64 \<Rightarrow> u64 \<Rightarrow> u32 \<Rightarrow> u32 \<Rightarrow> u64 \<Rightarrow> u64 \<Rightarrow> exn + u64 \<times> u64" where
  "leg_times width speed dest region x t =
     (if region = dest then Inr (x, t)
      else let goingRight = dest > region;
               boundaryX = (if goingRight then ucast (region + 1) * width else ucast region * width)
        in case div_ceil (abs_u64_diff boundaryX x) speed of
             Inl e \<Rightarrow> Inl e
           | Inr dt \<Rightarrow> leg_times width speed dest (if goingRight then region + 1 else region - 1) boundaryX
               (t + (if dt = 0 then 1 else dt)))"
  by pat_completeness auto

termination
proof (relation "measure (\<lambda>(width, speed, dest, region, x, t). (unat dest - unat region) + (unat region - unat dest))")
  fix width speed :: u64 and dest region :: u32 and x t :: u64 and right boundary dt
  assume away: "region \<noteq> dest" and right: "right = (dest > region)"
  have "unat (if right then region + 1 else region - 1) = (if right then unat region + 1 else unat region - 1)"
  proof (cases "dest > region")
    case True
    then have "unat region + 1 < 2 ^ 32"
      using unsigned_less [of dest, where ?'a = nat] by (simp add: word_less_nat_alt)
    then show ?thesis using True right by (simp add: unat_add_lem [THEN iffD1])
  next
    case False
    then have "1 \<le> region" using away by (simp add: word_le_nat_alt word_less_nat_alt word_unat_eq_iff)
    then show ?thesis using False right by (simp add: unat_sub)
  qed
  then show "((width, speed, dest, if right then region + 1 else region - 1, boundary, t + (if dt = 0 then 1 else dt)),
      width, speed, dest, region, x, t) \<in> measure (\<lambda>(width, speed, dest, region, x, t). (unat dest - unat region) + (unat region - unat dest))"
    using away right by (auto simp: word_less_nat_alt word_unat_eq_iff)
qed simp

declare leg_times.simps [simp del]

definition compute_land_time :: "regional_params \<Rightarrow> u64 \<Rightarrow> regional_plane \<Rightarrow> exn + u64" where
  "compute_land_time p departTime pl =
     (case leg_times (rgp_regionWidth p) (rp_speed pl) (rp_destRegion pl) (rp_region pl) (rp_x pl) departTime of
        Inl e \<Rightarrow> Inl e
      | Inr (x, t) \<Rightarrow> (case div_ceil (abs_u64_diff (rp_destX pl) x) (rp_speed pl) of
          Inl e \<Rightarrow> Inl e | Inr dt \<Rightarrow> Inr (t + (if dt = 0 then 1 else dt))))"

text \<open>The plane as it crosses into the next region, and when.\<close>

definition next_crossing :: "regional_params \<Rightarrow> u64 \<Rightarrow> regional_plane \<Rightarrow> exn + u64 \<times> regional_plane" where
  "next_crossing p now pl =
     (let goingRight = rp_destRegion pl > rp_region pl;
          nextRegion = (if goingRight then rp_region pl + 1 else rp_region pl - 1);
          boundaryX = (if goingRight then ucast (rp_region pl + 1) * rgp_regionWidth p
                       else ucast (rp_region pl) * rgp_regionWidth p)
      in case div_ceil (abs_u64_diff boundaryX (rp_x pl)) (rp_speed pl) of
           Inl e \<Rightarrow> Inl e
         | Inr dt \<Rightarrow> Inr (now + (if dt = 0 then 1 else dt), pl\<lparr>rp_region := nextRegion, rp_x := boundaryX\<rparr>))"

definition schedule_next_boundary :: "bytes \<Rightarrow> regional_params \<Rightarrow> u32 \<Rightarrow> u32 \<Rightarrow> timestamp \<Rightarrow> regional_plane
    \<Rightarrow> 'st sink_call list" where
  "schedule_next_boundary pad p i directory now pl =
     (if rp_region pl = rp_destRegion pl then []
      else case next_crossing p (ts_time now) pl of
        Inl e \<Rightarrow> [Fail e]
      | Inr (crossTime, atCross) \<Rightarrow>
          if crossTime > rgp_endTime p then []
          else send_update_owner (TimeStamp crossTime (plane_seq 1 (rp_plane pl))) i directory DefaultUpdateOwnerKind
                 (plane_entity (rp_plane pl)) (lp_of_region (rp_region atCross)) (regional_plane_bytes pad atCross) 0)"

subsection \<open>Events\<close>

definition kStateEntity :: u64 where "kStateEntity = 0xA1F0F0A1"

text \<open>The error of \<open>type_of\<close> is caught.\<close>

definition has_plane :: "regional \<Rightarrow> u64 \<Rightarrow> bool" where
  "has_plane st e = (case world_type_of e (rl_world st) of Inl _ \<Rightarrow> False | Inr _ \<Rightarrow> True)"

definition sampled :: "regional_params \<Rightarrow> u32 \<Rightarrow> bool" where
  "sampled p plane \<longleftrightarrow> rgp_emitPlaneMod p \<noteq> 0 \<and> plane mod rgp_emitPlaneMod p = 0"

definition put_regional :: "u64 \<Rightarrow> regional_plane \<Rightarrow> regional \<Rightarrow> regional" where
  "put_regional e pl st = st\<lparr>rl_world := set_entity e pl (rl_world st)\<rparr>"

definition install_plane :: "regional \<Rightarrow> u64 \<Rightarrow> bytes \<Rightarrow> regional sink_call list" where
  "install_plane st entity state = do_part (\<lambda>w. st\<lparr>rl_world := w\<rparr>)
     (thn (if has_plane st entity then ret () else world_emplace entity PlaneType no_plane)
       (deserialize_entity entity state)) (rl_world st)"

definition regional_install :: "bytes \<Rightarrow> regional_params \<Rightarrow> u32 \<Rightarrow> u32 \<Rightarrow> event \<Rightarrow> regional \<Rightarrow> regional ctx_call list" where
  "regional_install pad p i directory ev st = (case decode_install ev of
     Inl e \<Rightarrow> [Sink (Fail e)]
   | Inr (entity, state) \<Rightarrow>
       continue (map Sink (install_plane st entity state)) st (\<lambda>st.
         look entity PlaneType (rl_world st) (\<lambda>pl.
           if rp_inFlight pl \<noteq> 0 \<and> rp_region pl \<noteq> rp_destRegion pl
           then map Sink (schedule_next_boundary pad p i directory (ev_ts ev) pl) else [])))"

definition landed :: "regional_params \<Rightarrow> at_airport \<Rightarrow> regional_plane \<Rightarrow> regional_plane" where
  "landed p a pl = pl\<lparr>rp_inFlight := 0, rp_airport := aa_airport a, rp_region := region_of_airport p (aa_airport a),
     rp_x := airport_x p (aa_airport a), rp_logicalKey := aa_logicalKey a\<rparr>"

definition regional_land :: "bytes \<Rightarrow> regional_params \<Rightarrow> u32 \<Rightarrow> event \<Rightarrow> regional \<Rightarrow> regional ctx_call list" where
  "regional_land pad p i ev st = (case require_payload 16 at_airport_of_bytes ev Plane_Land ''land'' of
     Inl e \<Rightarrow> [Sink (Fail e)]
   | Inr a \<Rightarrow>
     if ev_target ev = 0 then [Sink (Fail (Runtime_Error ''land must be targeted''))]
     else Request_Write kStateEntity # borrow (ev_target ev) PlaneType (rl_world st) (\<lambda>pl.
       let pl' = landed p a pl; st' = put_regional (ev_target ev) pl' st in
       Sink (Become st') #
       (if sampled p (rp_plane pl')
        then [emit_committed_value (ev_ts ev) Commit_Land (commit_land_bytes \<lparr>cn_plane = rp_plane pl',
          cn_airport = aa_airport a, cn_landTime = ts_time (ev_ts ev), cn_logicalKey = aa_logicalKey a\<rparr>)] else [])
       @ map Sink (enqueue_arrival pad p i (ev_ts ev) (ev_target ev) (aa_airport a) (aa_logicalKey a) st')))"

definition choose_airport :: "regional_params \<Rightarrow> u32 \<Rightarrow> at_airport \<Rightarrow> exn + u32" where
  "choose_airport p i a =
     (let total = airport_count p in
      if total > 1
      then (case rng_u64_range (rgp_seed p) i 10 (aa_logicalKey a) 0 (ucast (total - 2)) 0 of
          Inl e \<Rightarrow> Inl e
        | Inr r \<Rightarrow> let candidate = ucast r in
            Inr (if candidate \<ge> aa_airport a then candidate + 1 else candidate))
      else Inr (aa_airport a))"

definition departing :: "regional_params \<Rightarrow> u32 \<Rightarrow> u64 \<Rightarrow> regional_plane \<Rightarrow> regional_plane" where
  "departing p toAirport nextKey pl = pl\<lparr>rp_destAirport := toAirport, rp_destRegion := region_of_airport p toAirport,
     rp_destX := airport_x p toAirport, rp_speed := rgp_speed p, rp_inFlight := 1, rp_logicalKey := nextKey\<rparr>"

text \<open>The record, the landing and the first crossing of a flight that lands in time.\<close>

definition depart :: "bytes \<Rightarrow> regional_params \<Rightarrow> u32 \<Rightarrow> u32 \<Rightarrow> event \<Rightarrow> at_airport \<Rightarrow> u32 \<Rightarrow> u64 \<Rightarrow> regional_plane
    \<Rightarrow> 'st ctx_call list" where
  "depart pad p i directory ev a toAirport landTime pl =
     (if sampled p (rp_plane pl)
      then [emit_committed_value (ev_ts ev) Commit_Depart (commit_depart_bytes pad \<lparr>cd_plane = rp_plane pl,
        cd_fromAirport = aa_airport a, cd_toAirport = toAirport, cd_departTime = ts_time (ev_ts ev),
        cd_landTime = landTime, cd_logicalKey = aa_logicalKey a\<rparr>)] else [])
     @ [Sink (send_targeted (TimeStamp landTime (plane_seq 3 (rp_plane pl))) i (ev_target ev) Plane_Land
         (at_airport_bytes pad \<lparr>aa_airport = toAirport, aa_logicalKey = rp_logicalKey pl\<rparr>) 0)]
     @ map Sink (schedule_next_boundary pad p i directory (ev_ts ev) pl)"

definition regional_done :: "bytes \<Rightarrow> regional_params \<Rightarrow> u32 \<Rightarrow> u32 \<Rightarrow> event \<Rightarrow> regional \<Rightarrow> regional ctx_call list" where
  "regional_done pad p i directory ev st =
     (case require_payload 16 at_airport_of_bytes ev ServiceDone ''service-done'' of
     Inl e \<Rightarrow> [Sink (Fail e)]
   | Inr a \<Rightarrow>
     if ev_target ev = 0 then [Sink (Fail (Runtime_Error ''service-done must be targeted''))]
     else Request_Write kStateEntity # borrow (ev_target ev) PlaneType (rl_world st) (\<lambda>pl.
       case airport_index p i (aa_airport a) st of
         Inl e \<Rightarrow> [Sink (Fail e)]
       | Inr k \<Rightarrow>
         let st1 = set_port k ((rl_airports st ! k)\<lparr>pt_runwayBusy := False\<rparr>) st in
         Sink (Become st1) #
         (case choose_airport p i a of
            Inl e \<Rightarrow> [Sink (Fail e)]
          | Inr toAirport \<Rightarrow>
            let nextKey = next_logical_key (rgp_seed p) (rp_plane pl) (aa_airport a) toAirport (aa_logicalKey a);
                pl' = departing p toAirport nextKey pl;
                st2 = put_regional (ev_target ev) pl' st1
            in Sink (Become st2) #
              (case compute_land_time p (ts_time (ev_ts ev)) pl' of
                 Inl e \<Rightarrow> [Sink (Fail e)]
               | Inr landTime \<Rightarrow>
                 continue (if landTime \<le> rgp_endTime p then depart pad p i directory ev a toAirport landTime pl' else [])
                   st2 (\<lambda>st2.
                   let ap = rl_airports st2 ! k; ap' = ap\<lparr>pt_departures := pt_departures ap + 1\<rparr>; st3 = set_port k ap' st2
                   in Sink (Become st3) #
                     (if pt_q ap' \<noteq> [] then map Sink (start_service pad p i (ev_ts ev) (aa_airport a) st3) else []))))))"

definition regional_on_event :: "bytes \<Rightarrow> regional_params \<Rightarrow> u32 \<Rightarrow> u32 \<Rightarrow> event \<Rightarrow> regional \<Rightarrow> regional ctx_call list" where
  "regional_on_event pad p i directory ev st =
     (let kind = p_kind (ev_payload ev) in
      if kind = DefaultInstallKind then regional_install pad p i directory ev st
      else if kind = Plane_Land then regional_land pad p i ev st
      else if kind = ServiceDone then regional_done pad p i directory ev st
      else [Sink (Fail (Runtime_Error ''regional_airport_migration_demo: unexpected event kind''))])"

subsection \<open>Start\<close>

definition first_flight_plan :: "regional_params \<Rightarrow> u32 \<Rightarrow> u32 \<Rightarrow> u32 \<Rightarrow> regional_plane" where
  "first_flight_plan p planeId homeRegion homeAirport = \<lparr>rp_plane = planeId, rp_region = homeRegion,
     rp_x = airport_x p homeAirport, rp_airport = homeAirport, rp_destAirport = homeAirport, rp_destRegion = homeRegion,
     rp_destX = airport_x p homeAirport, rp_speed = rgp_speed p, rp_inFlight = 0,
     rp_logicalKey = next_logical_key (rgp_seed p) planeId homeAirport homeAirport 0\<rparr>"

text \<open>As \<open>continue\<close>, for \<open>on_start\<close>.\<close>

definition continue_start :: "'st sink_call list \<Rightarrow> 'st \<Rightarrow> ('st \<Rightarrow> 'st sink_call list) \<Rightarrow> 'st sink_call list" where
  "continue_start cs st k =
     (if throws (map Sink cs) then cs else cs @ k (final_state (map Sink cs) st))"

fun seed_planes :: "bytes \<Rightarrow> regional_params \<Rightarrow> u32 \<Rightarrow> u32 list \<Rightarrow> regional \<Rightarrow> regional sink_call list" where
  "seed_planes pad p i [] st = []"
| "seed_planes pad p i (planeId # planes) st =
     (let homeRegion = planeId mod rgp_regions p in
      if homeRegion \<noteq> region_index_of_lp i then seed_planes pad p i planes st
      else let homeAirport = homeRegion * rgp_airportsPerRegion p + planeId mod rgp_airportsPerRegion p;
               pl = first_flight_plan p planeId homeRegion homeAirport
        in case world_emplace (plane_entity planeId) PlaneType pl (rl_world st) of
             (Inl e, w) \<Rightarrow> [Become (st\<lparr>rl_world := w\<rparr>), Fail e]
           | (Inr _, w) \<Rightarrow> let st' = st\<lparr>rl_world := w\<rparr> in
               Become st' # continue_start
                 (enqueue_arrival pad p i (TimeStamp 0 (plane_seq 0 planeId)) (plane_entity planeId) homeAirport
                    (rp_logicalKey pl) st')
                 st' (seed_planes pad p i planes))"

definition regional_on_start :: "bytes \<Rightarrow> regional_params \<Rightarrow> u32 \<Rightarrow> regional \<Rightarrow> regional sink_call list" where
  "regional_on_start pad p i st = seed_planes pad p i (map word_of_nat [0..<unat (rgp_planes p)]) st"

subsection \<open>Snapshots\<close>

definition save_port_token :: "port_token \<Rightarrow> bytes \<Rightarrow> bytes" where
  "save_port_token t w = write_u64 (pk_logicalKey t) (write_u64 (pk_planeEntity t) w)"

definition save_port :: "port \<Rightarrow> bytes \<Rightarrow> bytes" where
  "save_port ap w =
     (let w = write_u8 (if pt_runwayBusy ap then 1 else 0) w; w = write_u64 (pt_arrivals ap) w;
          w = write_u64 (pt_departures ap) w; w = write_u64 (pt_maxQ ap) w;
          w = write_u32 (word_of_nat (length (pt_q ap))) w
      in fold save_port_token (pt_q ap) w)"

definition regional_save_state :: "regional \<Rightarrow> exn + bytes" where
  "regional_save_state st =
     Inr (fold save_port (rl_airports st) (write_u32 (word_of_nat (length (rl_airports st))) []))"

definition on_port :: "nat \<Rightarrow> (port \<Rightarrow> port) \<Rightarrow> (regional, unit) eff" where
  "on_port k f = upd (\<lambda>st. set_port k (f (rl_airports st ! k)) st)"

text \<open>The loop over the resized queue of airport \<open>k\<close>, from position \<open>j\<close> on.\<close>

fun load_port_tokens :: "nat \<Rightarrow> nat \<Rightarrow> nat \<Rightarrow> reader \<Rightarrow> (regional, reader) eff" where
  "load_port_tokens k 0 j r = ret r"
| "load_port_tokens k (Suc n) j r =
     bnd (reading read_u64 r) (\<lambda>(planeE, r).
     thn (on_port k (\<lambda>ap. ap\<lparr>pt_q := (pt_q ap)[j := (pt_q ap ! j)\<lparr>pk_planeEntity := planeE\<rparr>]\<rparr>))
     (bnd (reading read_u64 r) (\<lambda>(key, r).
      thn (on_port k (\<lambda>ap. ap\<lparr>pt_q := (pt_q ap)[j := (pt_q ap ! j)\<lparr>pk_logicalKey := key\<rparr>]\<rparr>))
      (load_port_tokens k n (Suc j) r))))"

definition load_port :: "nat \<Rightarrow> reader \<Rightarrow> (regional, reader) eff" where
  "load_port k r =
     bnd (reading read_u8 r) (\<lambda>(busy, r).
     thn (on_port k (\<lambda>ap. ap\<lparr>pt_runwayBusy := (busy \<noteq> 0)\<rparr>))
     (bnd (reading read_u64 r) (\<lambda>(arrivals, r).
     thn (on_port k (\<lambda>ap. ap\<lparr>pt_arrivals := arrivals\<rparr>))
     (bnd (reading read_u64 r) (\<lambda>(departures, r).
     thn (on_port k (\<lambda>ap. ap\<lparr>pt_departures := departures\<rparr>))
     (bnd (reading read_u64 r) (\<lambda>(maxQ, r).
     thn (on_port k (\<lambda>ap. ap\<lparr>pt_maxQ := maxQ\<rparr>))
     (thn (on_port k (\<lambda>ap. ap\<lparr>pt_q := []\<rparr>))
     (bnd (reading read_u32 r) (\<lambda>(qn, r).
     thn (on_port k (\<lambda>ap. ap\<lparr>pt_q := replicate (unat qn) \<lparr>pk_planeEntity = 0, pk_logicalKey = 0\<rparr>\<rparr>))
     (load_port_tokens k (unat qn) 0 r)))))))))))"

fun load_ports :: "nat \<Rightarrow> nat \<Rightarrow> reader \<Rightarrow> (regional, unit) eff" where
  "load_ports k 0 r = ret ()"
| "load_ports k (Suc n) r = bnd (load_port k r) (load_ports (Suc k) n)"

definition regional_load_state :: "bytes \<Rightarrow> (regional, unit) eff" where
  "regional_load_state bs =
     bnd (reading read_u32 (open_reader bs)) (\<lambda>(n, r).
     bnd get_st (\<lambda>st.
     if unat n \<noteq> length (rl_airports st)
     then raise (Runtime_Error ''regional_airport_migration_demo: airport state mismatch'')
     else load_ports 0 (length (rl_airports st)) r))"

definition regional_registry :: "bytes \<Rightarrow> exn + regional_plane registry" where
  "regional_registry pad =
     (case register_trivial PlaneType no_plane 64 (regional_plane_bytes pad) regional_plane_of_bytes [] of
        (Inl e, _) \<Rightarrow> Inl e | (Inr _, reg) \<Rightarrow> Inr reg)"

definition empty_port :: port where
  "empty_port = \<lparr>pt_runwayBusy = False, pt_q = [], pt_arrivals = 0, pt_departures = 0, pt_maxQ = 0\<rparr>"

definition regional_lp :: "bytes \<Rightarrow> regional_params \<Rightarrow> u32 \<Rightarrow> u32 \<Rightarrow> exn + regional lp" where
  "regional_lp pad p i directory = (case regional_registry pad of
     Inl e \<Rightarrow> Inl e
   | Inr reg \<Rightarrow> Inr ((default_lp i \<lparr>rl_world = \<lparr>w_registry = reg, w_entities = []\<rparr>,
         rl_airports = replicate (unat (rgp_airportsPerRegion p)) empty_port\<rparr>)
       \<lparr>lp_on_start := regional_on_start pad p i,
        lp_on_event := regional_on_event pad p i directory,
        lp_save_state := regional_save_state,
        lp_load_state := regional_load_state\<rparr>))"

definition local_arrivals :: "regional \<Rightarrow> u64" where
  "local_arrivals st = sum_list (map pt_arrivals (rl_airports st))"

definition local_departures :: "regional \<Rightarrow> u64" where
  "local_departures st = sum_list (map pt_departures (rl_airports st))"

subsection \<open>The program\<close>

definition depart_hash :: "commit_depart \<Rightarrow> u64" where
  "depart_hash c =
     (let x = 0; x = mix64 x (ucast (cd_plane c)); x = mix64 x (ucast (cd_fromAirport c));
          x = mix64 x (ucast (cd_toAirport c)); x = mix64 x (cd_departTime c); x = mix64 x (cd_landTime c);
          x = mix64 x (cd_logicalKey c)
      in splitmix64 x)"

definition land_hash :: "commit_land \<Rightarrow> u64" where
  "land_hash c =
     (let x = 0; x = mix64 x (ucast (cn_plane c)); x = mix64 x (ucast (cn_airport c)); x = mix64 x (cn_landTime c);
          x = mix64 x (cn_logicalKey c)
      in splitmix64 x)"

definition migration_hash :: "timestamp \<Rightarrow> directory_migration_log \<Rightarrow> u64" where
  "migration_hash ts r =
     (let x = 0; x = mix64 x (dm_entity r); x = mix64 x (ucast (dm_oldOwner r)); x = mix64 x (ucast (dm_newOwner r));
          x = mix64 x (ts_time ts)
      in splitmix64 x)"

definition regional_sink :: "u32 \<Rightarrow> u32 \<Rightarrow> timestamp \<Rightarrow> payload \<Rightarrow> (u64, unit) eff" where
  "regional_sink rank lp ts p =
     (if p_kind p = Commit_Depart then
        (if length (p_bytes p) \<noteq> 40
         then raise (Runtime_Error ''regional_airport_migration_demo: bad Commit_Depart payload'')
         else upd (\<lambda>h. h XOR depart_hash (commit_depart_of_bytes (p_bytes p))))
      else if p_kind p = Commit_Land then
        (if length (p_bytes p) \<noteq> 24
         then raise (Runtime_Error ''regional_airport_migration_demo: bad Commit_Land payload'')
         else upd (\<lambda>h. h XOR land_hash (commit_land_of_bytes (p_bytes p))))
      else if p_kind p = DefaultMigrationLogKind then
        bnd (lift_result (decode_migration_log_payload p)) (\<lambda>r. upd (\<lambda>h. h XOR migration_hash ts r))
      else ret ())"

definition kDirectoryLp :: u32 where "kDirectoryLp = 10000"

definition regional_config :: "regional_params \<Rightarrow> ('n, u64) example_world example_env \<Rightarrow> ('n, u64) example_world config" where
  "regional_config p env =
     (distribute env (\<lambda>lp. lp mod env_size env) (default_config\<lparr>c_rank := env_rank env, c_seed := rgp_seed p\<rparr>))
     \<lparr>c_directoryForEntity := Some (\<lambda>_. kDirectoryLp),
      c_enableInstallBeforeUseBuffering := True, c_installEventKind := DefaultInstallKind,
      c_isControlEvent := Some (\<lambda>ev. p_kind (ev_payload ev) = DefaultUpdateOwnerKind
        \<or> p_kind (ev_payload ev) = DefaultInstallKind \<or> p_kind (ev_payload ev) = DefaultFossilCollectKind),
      c_committedSink := Some (\<lambda>rank lp ts out. on_sink (regional_sink rank lp ts out))\<rparr>"

definition regional_directory :: "bytes \<Rightarrow> regional_params \<Rightarrow> directory_config" where
  "regional_directory dpad p = (make_default_directory_config dpad kDirectoryLp 0xD1EC7003)
     \<lparr>dc_defaultOwner := Some (\<lambda>entity _.
        let planeId = ucast (entity AND 0xFFFFFFFF);
            region = (if rgp_regions p = 0 then 0 else planeId mod rgp_regions p)
        in 1 + region)\<rparr>"

type_synonym regional_state = "owner_history + regional"

definition regional_ids :: "regional_params \<Rightarrow> 'w config \<Rightarrow> u32 list" where
  "regional_ids p cfg = filter (owns_lp cfg) (map (\<lambda>r. 1 + word_of_nat r) [0..<unat (rgp_regions p)])"

definition regional_simulation :: "bytes \<Rightarrow> bytes \<Rightarrow> regional_params \<Rightarrow> ('n, u64) example_world config \<Rightarrow> nat \<Rightarrow> nat
    \<Rightarrow> ((regional_state, ('n, u64) example_world) sim, unit) eff" where
  "regional_simulation dpad pad p cfg fuel pollFuel =
     thn (when_eff (owns_lp cfg kDirectoryLp)
           (add_built (embed_lp Inl projl) (directory_lp dpad (regional_directory dpad p))))
    (thn (for_each (\<lambda>i. add_built (embed_lp Inr projr) (regional_lp pad p i kDirectoryLp)) (regional_ids p cfg))
      (run fuel pollFuel))"

text \<open>The totals over the regions of the rank, and then over the ranks.\<close>

definition regional_totals :: "('n, u64) example_world example_env \<Rightarrow> regional list \<Rightarrow> u64
    \<Rightarrow> (('n, u64) example_world, u64 \<times> u64 \<times> u64) eff" where
  "regional_totals env regions hash =
     bnd (reduce_if env (env_bxor env) hash) (\<lambda>hash.
     bnd (reduce_if env (env_sum env) (sum_list (map local_arrivals regions))) (\<lambda>arrivals.
     bnd (reduce_if env (env_sum env) (sum_list (map local_departures regions))) (\<lambda>departures.
     ret (hash, arrivals, departures))))"

definition regional_report :: "regional_params \<Rightarrow> u64 \<times> u64 \<times> u64 \<Rightarrow> string" where
  "regional_report p = (\<lambda>(hash, arrivals, departures).
     ''regional_airport_migration_demo hash='' @ decimal (unat hash) @ '' arrivals='' @ decimal (unat arrivals)
     @ '' departures='' @ decimal (unat departures) @ [CHR 0x0A]
     @ (if rgp_verify p \<and> rgp_hasExpected p \<and> hash = rgp_expectedHash p
        then ''regional_airport_migration_demo ok'' @ [CHR 0x0A] else []))"

definition regional_exit_code :: "regional_params \<Rightarrow> u64 \<Rightarrow> int" where
  "regional_exit_code p hash =
     (if rgp_verify p
      then if \<not> rgp_hasExpected p then 2 else if hash \<noteq> rgp_expectedHash p then 3 else 0
      else 0)"

definition regional_main :: "('n, u64) example_world example_env \<Rightarrow> 'n \<Rightarrow> bytes \<Rightarrow> bytes \<Rightarrow> string list \<Rightarrow> nat \<Rightarrow> nat
    \<Rightarrow> exn + string \<times> int" where
  "regional_main env net dpad pad argv fuel pollFuel =
     (case regional_parse_args argv of
        None \<Rightarrow> Inr ([], 2)
      | Some p \<Rightarrow>
          let cfg = regional_config p env in
          (case new_simulation cfg (Some (env_transport env)) (net, 0) of
            Inl e \<Rightarrow> Inl e
          | Inr s \<Rightarrow> (case regional_simulation dpad pad p cfg fuel pollFuel s of
              (Inl e, _) \<Rightarrow> Inl e
            | (Inr _, t) \<Rightarrow>
                let regions = map (\<lambda>i. projr (lp_state (cx_lp (the (map_of (m_lps t) i))))) (regional_ids p cfg) in
                (case regional_totals env regions (snd (m_world t)) (m_world t) of
                  (Inl e, _) \<Rightarrow> Inl e
                | (Inr totals, _) \<Rightarrow> Inr (if env_rank env = 0 then regional_report p totals else [],
                    regional_exit_code p (fst totals))))))"

subsection \<open>Flights arrive\<close>

text \<open>The crossings of a flight, as the installs schedule them one after the other.\<close>

inductive flies :: "regional_params \<Rightarrow> u64 \<times> regional_plane \<Rightarrow> u64 \<times> regional_plane \<Rightarrow> bool" for p where
  here: "flies p s s"
| crosses: "rp_region pl \<noteq> rp_destRegion pl \<Longrightarrow> next_crossing p now pl = Inr s \<Longrightarrow> flies p s s' \<Longrightarrow> flies p (now, pl) s'"

inductive_cases flies_from: "flies p (now, pl) s"

lemma next_crossing_plane:
  "next_crossing p now pl = Inr (t, pl') \<Longrightarrow> \<exists>x. pl' = pl\<lparr>rp_region := rp_region pl', rp_x := x\<rparr>"
  by (auto simp: next_crossing_def Let_def split: sum.splits)

text \<open>The landing time computed at departure is the one of the plane as it crosses.\<close>

lemma crossing_keeps_landing:
  assumes "rp_region pl \<noteq> rp_destRegion pl" and "next_crossing p now pl = Inr (t, pl')"
  shows "compute_land_time p t pl' = compute_land_time p now pl"
proof -
  let ?right = "rp_destRegion pl > rp_region pl"
  let ?b = "if ?right then ucast (rp_region pl + 1) * rgp_regionWidth p else ucast (rp_region pl) * rgp_regionWidth p"
  obtain dt where dt: "div_ceil (abs_u64_diff ?b (rp_x pl)) (rp_speed pl) = Inr dt"
    and t: "t = now + (if dt = 0 then 1 else dt)"
    and pl': "pl' = pl\<lparr>rp_region := if ?right then rp_region pl + 1 else rp_region pl - 1, rp_x := ?b\<rparr>"
    using assms(2) by (auto simp: next_crossing_def Let_def split: sum.splits)
  have "leg_times (rgp_regionWidth p) (rp_speed pl) (rp_destRegion pl) (rp_region pl) (rp_x pl) now
      = leg_times (rgp_regionWidth p) (rp_speed pl) (rp_destRegion pl) (rp_region pl') (rp_x pl') t"
    using assms(1) dt by (subst leg_times.simps) (simp add: Let_def t pl')
  moreover have "rp_speed pl' = rp_speed pl" "rp_destRegion pl' = rp_destRegion pl" "rp_destX pl' = rp_destX pl"
    by (simp_all add: pl')
  ultimately show ?thesis by (simp only: compute_land_time_def)
qed

lemma flies_keeps_landing:
  assumes "flies p (now, pl) (t, pl')"
  shows "compute_land_time p t pl' = compute_land_time p now pl \<and> rp_plane pl' = rp_plane pl
    \<and> rp_destAirport pl' = rp_destAirport pl \<and> rp_destRegion pl' = rp_destRegion pl \<and> rp_destX pl' = rp_destX pl
    \<and> rp_speed pl' = rp_speed pl \<and> rp_inFlight pl' = rp_inFlight pl"
  using assms
proof (induction "(now, pl)" "(t, pl')" arbitrary: now pl rule: flies.induct)
  case (crosses pl now s)
  obtain t1 pl1 where s: "s = (t1, pl1)" by (cases s)
  from next_crossing_plane [OF crosses(2) [unfolded s]] obtain x where
    "pl1 = pl\<lparr>rp_region := rp_region pl1, rp_x := x\<rparr>" by blast
  then have "rp_plane pl1 = rp_plane pl" "rp_destAirport pl1 = rp_destAirport pl" "rp_destRegion pl1 = rp_destRegion pl"
    "rp_destX pl1 = rp_destX pl" "rp_speed pl1 = rp_speed pl" "rp_inFlight pl1 = rp_inFlight pl"
    by (metis regional_plane.select_convs regional_plane.surjective regional_plane.update_convs)+
  then show ?case using crosses(4) [OF s] crossing_keeps_landing [OF crosses(1) crosses(2) [unfolded s]] by simp
qed simp

text \<open>The crossings come to an end, in the region of destination, and there the plane lands.\<close>

lemma flight_arrives:
  assumes "rp_speed pl \<noteq> 0"
  obtains t pl' d where "flies p (now, pl) (t, pl')" "rp_region pl' = rp_destRegion pl" "1 \<le> d"
    "compute_land_time p now pl = Inr (t + d)"
proof -
  have "\<exists>t pl'. flies p (now, pl) (t, pl') \<and> rp_region pl' = rp_destRegion pl"
    using assms
  proof (induction "rgp_regionWidth p" "rp_speed pl" "rp_destRegion pl" "rp_region pl" "rp_x pl" now arbitrary: pl
      rule: leg_times.induct)
    case (1 now pl)
    show ?case
    proof (cases "rp_region pl = rp_destRegion pl")
      case True
      then show ?thesis using flies.here by blast
    next
      case False
      let ?right = "rp_destRegion pl > rp_region pl"
      let ?b = "if ?right then ucast (rp_region pl + 1) * rgp_regionWidth p else ucast (rp_region pl) * rgp_regionWidth p"
      let ?pl = "pl\<lparr>rp_region := if ?right then rp_region pl + 1 else rp_region pl - 1, rp_x := ?b\<rparr>"
      obtain dt where dt: "div_ceil (abs_u64_diff ?b (rp_x pl)) (rp_speed pl) = Inr dt"
        using 1(2) by (simp add: div_ceil_def)
      let ?t = "now + (if dt = 0 then 1 else dt)"
      have step: "next_crossing p now pl = Inr (?t, ?pl)" using dt by (simp add: next_crossing_def Let_def)
      have dt': "div_ceil (abs_u64_diff (rp_x ?pl) (rp_x pl)) (rp_speed pl) = Inr dt" using dt by simp
      have "\<exists>t pl'. flies p (?t, ?pl) (t, pl') \<and> rp_region pl' = rp_destRegion ?pl"
        by (rule 1(1) [OF False refl _ dt']) (use 1(2) in simp_all)
      then show ?thesis using flies.crosses [OF False step] by auto
    qed
  qed
  then obtain t pl' where f: "flies p (now, pl) (t, pl')" "rp_region pl' = rp_destRegion pl" by blast
  note same = flies_keeps_landing [OF f(1)]
  obtain dt where dt: "div_ceil (abs_u64_diff (rp_destX pl') (rp_x pl')) (rp_speed pl') = Inr dt"
    using assms same by (simp add: div_ceil_def)
  then have "compute_land_time p t pl' = Inr (t + (if dt = 0 then 1 else dt))"
    using f(2) same by (simp add: compute_land_time_def leg_times.simps)
  then have "compute_land_time p now pl = Inr (t + (if dt = 0 then 1 else dt))" using same by simp
  moreover have "1 \<le> (if dt = 0 then 1 else dt)" by (simp add: word_le_nat_alt Suc_le_eq unat_gt_0)
  ultimately show thesis using that f by blast
qed

subsection \<open>Layouts\<close>

interpretation at_airport_layout: trivial_layout at_airport_bytes at_airport_of_bytes 16 7
proof
  fix pad :: bytes and x :: at_airport and rest
  assume pad: "length pad = 7"
  let ?a = "le_bytes 4 (aa_airport x)" and ?k = "le_bytes 8 (aa_logicalKey x)" and ?p = "take 4 pad"
  have "field_at 0 4 ([] @ ?a @ (?p @ ?k @ rest)) = aa_airport x"
    "field_at 8 8 ((?a @ ?p) @ ?k @ rest) = aa_logicalKey x"
    by (rule field_at_here; simp add: pad)+
  then show "at_airport_of_bytes (at_airport_bytes pad x @ rest) = x"
    by (simp add: at_airport_of_bytes_def at_airport_bytes_def)
qed (simp add: at_airport_bytes_def)

interpretation commit_depart_layout: trivial_layout commit_depart_bytes commit_depart_of_bytes 40 7
proof
  fix pad :: bytes and x :: commit_depart and rest
  assume pad: "length pad = 7"
  let ?a = "le_bytes 4 (cd_plane x)" and ?b = "le_bytes 4 (cd_fromAirport x)" and ?c = "le_bytes 4 (cd_toAirport x)"
  let ?p = "take 4 pad" and ?d = "le_bytes 8 (cd_departTime x)" and ?l = "le_bytes 8 (cd_landTime x)"
  let ?k = "le_bytes 8 (cd_logicalKey x)"
  have "field_at 0 4 ([] @ ?a @ (?b @ ?c @ ?p @ ?d @ ?l @ ?k @ rest)) = cd_plane x"
    "field_at 4 4 (?a @ ?b @ (?c @ ?p @ ?d @ ?l @ ?k @ rest)) = cd_fromAirport x"
    "field_at 8 4 ((?a @ ?b) @ ?c @ (?p @ ?d @ ?l @ ?k @ rest)) = cd_toAirport x"
    "field_at 16 8 ((?a @ ?b @ ?c @ ?p) @ ?d @ (?l @ ?k @ rest)) = cd_departTime x"
    "field_at 24 8 ((?a @ ?b @ ?c @ ?p @ ?d) @ ?l @ (?k @ rest)) = cd_landTime x"
    "field_at 32 8 ((?a @ ?b @ ?c @ ?p @ ?d @ ?l) @ ?k @ rest) = cd_logicalKey x"
    by (rule field_at_here; simp add: pad)+
  then show "commit_depart_of_bytes (commit_depart_bytes pad x @ rest) = x"
    by (simp add: commit_depart_of_bytes_def commit_depart_bytes_def)
qed (simp add: commit_depart_bytes_def)

interpretation commit_land_layout: trivial_layout "\<lambda>_. commit_land_bytes" commit_land_of_bytes 24 0
proof
  fix x :: commit_land and rest
  let ?a = "le_bytes 4 (cn_plane x)" and ?b = "le_bytes 4 (cn_airport x)"
  let ?l = "le_bytes 8 (cn_landTime x)" and ?k = "le_bytes 8 (cn_logicalKey x)"
  have "field_at 0 4 ([] @ ?a @ (?b @ ?l @ ?k @ rest)) = cn_plane x" "field_at 4 4 (?a @ ?b @ (?l @ ?k @ rest)) = cn_airport x"
    "field_at 8 8 ((?a @ ?b) @ ?l @ (?k @ rest)) = cn_landTime x" "field_at 16 8 ((?a @ ?b @ ?l) @ ?k @ rest) = cn_logicalKey x"
    by (rule field_at_here; simp)+
  then show "commit_land_of_bytes (commit_land_bytes x @ rest) = x"
    by (simp add: commit_land_of_bytes_def commit_land_bytes_def)
qed (simp add: commit_land_bytes_def)

interpretation regional_plane_layout: trivial_layout regional_plane_bytes regional_plane_of_bytes 64 7
proof
  fix pad :: bytes and x :: regional_plane and rest
  assume pad: "length pad = 7"
  let ?a = "le_bytes 4 (rp_plane x)" and ?b = "le_bytes 4 (rp_region x)" and ?c = "le_bytes 8 (rp_x x)"
  let ?d = "le_bytes 4 (rp_airport x)" and ?e = "le_bytes 4 (rp_destAirport x)" and ?f = "le_bytes 4 (rp_destRegion x)"
  let ?p = "take 4 pad" and ?g = "le_bytes 8 (rp_destX x)" and ?h = "le_bytes 8 (rp_speed x)"
  let ?i = "le_bytes 1 (rp_inFlight x)" and ?q = "take 7 pad" and ?k = "le_bytes 8 (rp_logicalKey x)"
  have "field_at 0 4 ([] @ ?a @ (?b @ ?c @ ?d @ ?e @ ?f @ ?p @ ?g @ ?h @ ?i @ ?q @ ?k @ rest)) = rp_plane x"
    "field_at 4 4 (?a @ ?b @ (?c @ ?d @ ?e @ ?f @ ?p @ ?g @ ?h @ ?i @ ?q @ ?k @ rest)) = rp_region x"
    "field_at 8 8 ((?a @ ?b) @ ?c @ (?d @ ?e @ ?f @ ?p @ ?g @ ?h @ ?i @ ?q @ ?k @ rest)) = rp_x x"
    "field_at 16 4 ((?a @ ?b @ ?c) @ ?d @ (?e @ ?f @ ?p @ ?g @ ?h @ ?i @ ?q @ ?k @ rest)) = rp_airport x"
    "field_at 20 4 ((?a @ ?b @ ?c @ ?d) @ ?e @ (?f @ ?p @ ?g @ ?h @ ?i @ ?q @ ?k @ rest)) = rp_destAirport x"
    "field_at 24 4 ((?a @ ?b @ ?c @ ?d @ ?e) @ ?f @ (?p @ ?g @ ?h @ ?i @ ?q @ ?k @ rest)) = rp_destRegion x"
    "field_at 32 8 ((?a @ ?b @ ?c @ ?d @ ?e @ ?f @ ?p) @ ?g @ (?h @ ?i @ ?q @ ?k @ rest)) = rp_destX x"
    "field_at 40 8 ((?a @ ?b @ ?c @ ?d @ ?e @ ?f @ ?p @ ?g) @ ?h @ (?i @ ?q @ ?k @ rest)) = rp_speed x"
    "field_at 48 1 ((?a @ ?b @ ?c @ ?d @ ?e @ ?f @ ?p @ ?g @ ?h) @ ?i @ (?q @ ?k @ rest)) = rp_inFlight x"
    "field_at 56 8 ((?a @ ?b @ ?c @ ?d @ ?e @ ?f @ ?p @ ?g @ ?h @ ?i @ ?q) @ ?k @ rest) = rp_logicalKey x"
    by (rule field_at_here; simp add: pad)+
  then show "regional_plane_of_bytes (regional_plane_bytes pad x @ rest) = x"
    by (simp add: regional_plane_of_bytes_def regional_plane_bytes_def)
qed (simp add: regional_plane_bytes_def)

subsection \<open>Rollback\<close>

text \<open>The snapshot of a region has its airports but not its planes: loading it changes no plane.\<close>

lemma on_port_world: "rl_world (snd (on_port k f st)) = rl_world st" and on_port_run: "fst (on_port k f st) = Inr ()"
  by (simp_all add: on_port_def set_port_def)

lemma reading_state: "snd (reading m r st) = st"
  by (simp add: reading_def split: prod.split sum.split)

lemma bnd_world:
  assumes "\<And>st. rl_world (snd (m st)) = rl_world st" and "\<And>x st. rl_world (snd (f x st)) = rl_world st"
  shows "rl_world (snd (bnd m f st)) = rl_world (st :: regional)"
  using assms by (simp add: bnd_def split: prod.split sum.split) (metis snd_conv)

lemma thn_world:
  assumes "\<And>st. rl_world (snd (m st)) = rl_world st" and "\<And>st. rl_world (snd (n st)) = rl_world st"
  shows "rl_world (snd (thn m n st)) = rl_world (st :: regional)"
  unfolding thn_def by (rule bnd_world) (use assms in simp_all)

lemma load_port_tokens_world: "rl_world (snd (load_port_tokens k n j r st)) = rl_world st"
  by (induction n arbitrary: j r st)
    (auto intro!: bnd_world thn_world simp: on_port_world reading_state split: prod.split)

lemma load_ports_world: "rl_world (snd (load_ports k n r st)) = rl_world st"
  by (induction n arbitrary: k r st)
    (auto intro!: bnd_world thn_world simp: load_port_def on_port_world reading_state load_port_tokens_world split: prod.split)

lemma regional_load_world: "rl_world (snd (regional_load_state bs st)) = rl_world st"
  unfolding regional_load_state_def
  by (auto intro!: bnd_world simp: reading_state load_ports_world split: prod.split)

lemma start_service_world: "rl_world (final_state (map Sink (start_service pad p i now airport st)) st) = rl_world st"
  by (simp add: start_service_def set_port_def send_targeted_def Let_def split: sum.split)

lemma enqueue_arrival_world:
  "rl_world (final_state (map Sink (enqueue_arrival pad p i ts e airport key st)) st) = rl_world st"
proof -
  have "rl_world (final_state (map Sink (start_service pad p i ts airport (set_port k ap st))) (set_port k ap st)) = rl_world st"
    for k ap
    using start_service_world [of pad p i ts airport "set_port k ap st"] by (simp add: set_port_def)
  then show ?thesis by (simp add: enqueue_arrival_def set_port_def Let_def split: sum.split)
qed

lemma regional_lp_members:
  assumes "regional_lp pad p i directory = Inr lp"
  shows "lp_on_event lp = regional_on_event pad p i directory" "lp_wide lp"
    "lp_save_state lp = regional_save_state" "lp_load_state lp = regional_load_state"
  using assms by (auto simp: regional_lp_def lp_wide_def default_lp_def split: sum.splits)

text \<open>The landing of a plane is not undone.\<close>

lemma landing_not_reversible:
  assumes lp: "regional_lp pad p i directory = Inr lp" and pl: "world_ref (ev_target ev) PlaneType (rl_world st) = Inr pl"
    and ev: "ev_payload ev = \<lparr>p_kind = Plane_Land, p_bytes = at_airport_bytes pad a\<rparr>" "length pad = 7" "ev_target ev \<noteq> 0"
    and air: "rp_inFlight pl \<noteq> 0"
  shows "\<not> reversible lp st (lp_on_event lp ev st)"
proof (rule not_reversible_lp_wide [where part = rl_world])
  note m = regional_lp_members [OF lp]
  show "lp_wide lp" by (rule m)
  show "\<exists>bs. lp_save_state lp s = Inr bs" for s by (simp add: m regional_save_state_def)
  show "rl_world (snd (lp_load_state lp bs s)) = rl_world s" for bs s by (simp add: m regional_load_world)
  let ?st = "put_regional (ev_target ev) (landed p a pl) st"
  have "require_payload 16 at_airport_of_bytes ev Plane_Land ''land'' = Inr a"
    using at_airport_layout.put_length [OF ev(2), of a] at_airport_layout.get_put_exact [OF ev(2), of a] ev(1)
    by (simp add: require_payload_def unpack_event_Inr_iff unpack_def)
  then have "rl_world (final_state (lp_on_event lp ev st) st) = rl_world ?st"
    using ev pl enqueue_arrival_world [of pad p i "ev_ts ev" "ev_target ev" "aa_airport a" "aa_logicalKey a" ?st]
    by (simp add: m regional_on_event_def regional_land_def regional_kinds borrow_def Let_def final_state_append
        emit_committed_value_def)
  moreover have "world_ref (ev_target ev) PlaneType (rl_world ?st) = Inr (landed p a pl)"
    using pl by (auto simp: put_regional_def world_ref_def world_record_set split: sum.splits if_splits)
  ultimately have "world_ref (ev_target ev) PlaneType (rl_world (final_state (lp_on_event lp ev st) st)) \<noteq> Inr pl"
    using air by (auto simp: landed_def dest: arg_cong [of _ _ rp_inFlight])
  then show "rl_world (final_state (lp_on_event lp ev st) st) \<noteq> rl_world st" using pl by metis
qed

subsection \<open>Snapshots of the airports\<close>

definition token_bytes_of :: "port_token \<Rightarrow> bytes" where
  "token_bytes_of t = le_bytes 8 (pk_planeEntity t) @ le_bytes 8 (pk_logicalKey t)"

definition port_head :: "port \<Rightarrow> bytes" where
  "port_head ap = [if pt_runwayBusy ap then 1 else 0] @ le_bytes 8 (pt_arrivals ap) @ le_bytes 8 (pt_departures ap)
     @ le_bytes 8 (pt_maxQ ap) @ le_bytes 4 (word_of_nat (length (pt_q ap)) :: u32)"

definition port_bytes :: "port \<Rightarrow> bytes" where
  "port_bytes ap = port_head ap @ concat (map token_bytes_of (pt_q ap))"

lemma save_ports: "fold save_port aps w = w @ concat (map port_bytes aps)"
proof -
  have tokens: "fold save_port_token ts w = w @ concat (map token_bytes_of ts)" for ts w
    by (induction ts arbitrary: w) (simp_all add: save_port_token_def token_bytes_of_def codec_puts)
  have "save_port ap w = w @ port_bytes ap" for ap w
    by (simp add: save_port_def port_bytes_def port_head_def tokens codec_puts Let_def)
  then show ?thesis by (induction aps arbitrary: w) simp_all
qed

lemma read_in_middle:
  "bs = pre @ le_bytes 8 x @ post \<Longrightarrow> pos = length pre \<Longrightarrow> q = pos + 8 \<Longrightarrow>
   reading read_u64 \<lparr>r_bytes = bs, r_pos = pos\<rparr> u = (Inr (x, \<lparr>r_bytes = bs, r_pos = q\<rparr>), u)"
  "bs = pre @ le_bytes 4 n @ post \<Longrightarrow> pos = length pre \<Longrightarrow> q = pos + 4 \<Longrightarrow>
   reading read_u32 \<lparr>r_bytes = bs, r_pos = pos\<rparr> u = (Inr (n, \<lparr>r_bytes = bs, r_pos = q\<rparr>), u)"
  "bs = pre @ [b] @ post \<Longrightarrow> pos = length pre \<Longrightarrow> q = pos + 1 \<Longrightarrow>
   reading read_u8 \<lparr>r_bytes = bs, r_pos = pos\<rparr> u = (Inr (b, \<lparr>r_bytes = bs, r_pos = q\<rparr>), u)"
  using u64_codec.reading_put [where x = x and pos = pos and pre = pre and post = post]
    u32_codec.reading_put [where x = n and pos = pos and pre = pre and post = post]
    u8_codec.reading_put [where x = b and pos = pos and pre = pre and post = post]
  by (simp_all add: codec_puts)

lemma load_port_tokens_run:
  assumes "k < length (rl_airports u)" and "pt_q (rl_airports u ! k) = ds @ replicate (length ts) blank"
    and "bs = pre @ concat (map token_bytes_of ts) @ post" and "pos = length pre"
  shows "load_port_tokens k (length ts) (length ds) \<lparr>r_bytes = bs, r_pos = pos\<rparr> u
    = (Inr \<lparr>r_bytes = bs, r_pos = pos + 16 * length ts\<rparr>, set_port k ((rl_airports u ! k)\<lparr>pt_q := ds @ ts\<rparr>) u)"
  using assms
proof (induction ts arbitrary: u ds pre pos)
  case Nil
  then have "(rl_airports u)[k := (rl_airports u ! k)\<lparr>pt_q := ds\<rparr>] = rl_airports u"
    by (intro list_update_same_conv [THEN iffD2]) (auto intro: port.equality)
  with Nil show ?case by (simp add: set_port_def)
next
  case (Cons t ts)
  let ?p = "le_bytes 8 (pk_planeEntity t)" and ?k = "le_bytes 8 (pk_logicalKey t)"
  let ?rest = "concat (map token_bytes_of ts) @ post"
  have "token_bytes_of t = ?p @ ?k" by (rule token_bytes_of_def)
  then have bs: "bs = pre @ ?p @ ?k @ ?rest" using Cons.prems(3) by simp
  have r1: "reading read_u64 \<lparr>r_bytes = bs, r_pos = pos\<rparr> w = (Inr (pk_planeEntity t, \<lparr>r_bytes = bs, r_pos = pos + 8\<rparr>), w)"
    for w :: regional by (rule read_in_middle(1)) (use bs Cons.prems(4) in simp_all)
  have r2: "reading read_u64 \<lparr>r_bytes = bs, r_pos = pos + 8\<rparr> w
      = (Inr (pk_logicalKey t, \<lparr>r_bytes = bs, r_pos = pos + 8 + 8\<rparr>), w)"
    for w :: regional by (rule read_in_middle(1) [of _ "pre @ ?p"]) (use bs Cons.prems(4) in simp_all)
  have whole: "(x :: port_token)\<lparr>pk_planeEntity := pk_planeEntity t, pk_logicalKey := pk_logicalKey t\<rparr> = t" for x
    by (cases t; cases x) simp
  let ?u = "set_port k ((rl_airports u ! k)\<lparr>pt_q := (ds @ [t]) @ replicate (length ts) blank\<rparr>) u"
  have "load_port_tokens k (length ts) (length (ds @ [t])) \<lparr>r_bytes = bs, r_pos = pos + 8 + 8\<rparr> ?u
      = (Inr \<lparr>r_bytes = bs, r_pos = pos + 8 + 8 + 16 * length ts\<rparr>,
         set_port k ((rl_airports ?u ! k)\<lparr>pt_q := (ds @ [t]) @ ts\<rparr>) ?u)"
    by (rule Cons.IH [where pre = "pre @ ?p @ ?k"]) (use Cons.prems(1,2,4) bs in \<open>simp_all add: set_port_def\<close>)
  then show ?case
    using Cons.prems(1,2) by (simp add: r1 r2 thn_def on_port_def set_port_def list_update_append nth_append whole)
qed

lemma load_port_run:
  assumes "k < length (rl_airports u)" and "bs = pre @ port_bytes ap @ post" and "pos = length pre"
    and "length (pt_q ap) < 2 ^ 32"
  shows "load_port k \<lparr>r_bytes = bs, r_pos = pos\<rparr> u
    = (Inr \<lparr>r_bytes = bs, r_pos = pos + length (port_bytes ap)\<rparr>, set_port k ap u)"
proof -
  let ?b = "if pt_runwayBusy ap then 1 else 0 :: u8" and ?n = "word_of_nat (length (pt_q ap)) :: u32"
  let ?A = "le_bytes 8 (pt_arrivals ap)" and ?D = "le_bytes 8 (pt_departures ap)" and ?M = "le_bytes 8 (pt_maxQ ap)"
  let ?T = "concat (map token_bytes_of (pt_q ap))"
  have bs: "bs = pre @ [?b] @ ?A @ ?D @ ?M @ le_bytes 4 ?n @ ?T @ post"
    using assms(2) by (simp add: port_bytes_def port_head_def)
  have n: "unat ?n = length (pt_q ap)" using assms(4) by (simp add: unat_of_nat take_bit_nat_eq_self)
  have "length (concat (map token_bytes_of ts)) = 16 * length ts" for ts
    by (induction ts) (simp_all add: token_bytes_of_def del: length_concat)
  then have len: "length ?T = 16 * length (pt_q ap)" .
  have r0: "reading read_u8 \<lparr>r_bytes = bs, r_pos = pos\<rparr> w = (Inr (?b, \<lparr>r_bytes = bs, r_pos = pos + 1\<rparr>), w)"
    for w :: regional by (rule read_in_middle(3)) (use bs assms(3) in simp_all)
  have r1: "p = pos + 1 \<Longrightarrow> reading read_u64 \<lparr>r_bytes = bs, r_pos = p\<rparr> w = (Inr (pt_arrivals ap, \<lparr>r_bytes = bs, r_pos = pos + 9\<rparr>), w)"
    for w :: regional and p by (rule read_in_middle(1) [of _ "pre @ [?b]"]) (use bs assms(3) in simp_all)
  have r2: "p = pos + 9 \<Longrightarrow> reading read_u64 \<lparr>r_bytes = bs, r_pos = p\<rparr> w
      = (Inr (pt_departures ap, \<lparr>r_bytes = bs, r_pos = pos + 17\<rparr>), w)"
    for w :: regional and p by (rule read_in_middle(1) [of _ "pre @ [?b] @ ?A"]) (use bs assms(3) in simp_all)
  have r3: "p = pos + 17 \<Longrightarrow> reading read_u64 \<lparr>r_bytes = bs, r_pos = p\<rparr> w
      = (Inr (pt_maxQ ap, \<lparr>r_bytes = bs, r_pos = pos + 25\<rparr>), w)"
    for w :: regional and p by (rule read_in_middle(1) [of _ "pre @ [?b] @ ?A @ ?D"]) (use bs assms(3) in simp_all)
  have r4: "p = pos + 25 \<Longrightarrow> reading read_u32 \<lparr>r_bytes = bs, r_pos = p\<rparr> w
      = (Inr (?n, \<lparr>r_bytes = bs, r_pos = pos + 29\<rparr>), w)"
    for w :: regional and p by (rule read_in_middle(2) [of _ "pre @ [?b] @ ?A @ ?D @ ?M"]) (use bs assms(3) in simp_all)
  let ?blank = "\<lparr>pk_planeEntity = 0, pk_logicalKey = 0\<rparr>"
  let ?u = "set_port k \<lparr>pt_runwayBusy = pt_runwayBusy ap, pt_q = replicate (length (pt_q ap)) ?blank,
    pt_arrivals = pt_arrivals ap, pt_departures = pt_departures ap, pt_maxQ = pt_maxQ ap\<rparr> u"
  have "load_port_tokens k (length (pt_q ap)) (length ([] :: port_token list))
      \<lparr>r_bytes = bs, r_pos = pos + 29\<rparr> ?u
    = (Inr \<lparr>r_bytes = bs, r_pos = pos + 29 + 16 * length (pt_q ap)\<rparr>,
       set_port k ((rl_airports ?u ! k)\<lparr>pt_q := [] @ pt_q ap\<rparr>) ?u)"
    by (rule load_port_tokens_run [where pre = "pre @ [?b] @ ?A @ ?D @ ?M @ le_bytes 4 ?n" and post = post and blank = ?blank])
      (use assms(1,3) bs in \<open>simp_all add: set_port_def\<close>)
  moreover have "set_port k ((rl_airports ?u ! k)\<lparr>pt_q := [] @ pt_q ap\<rparr>) ?u = set_port k ap u"
    using assms(1) by (cases ap) (simp add: set_port_def)
  ultimately have tokens: "load_port_tokens k (length (pt_q ap)) 0 \<lparr>r_bytes = bs, r_pos = pos + 29\<rparr> ?u
    = (Inr \<lparr>r_bytes = bs, r_pos = pos + 29 + 16 * length (pt_q ap)\<rparr>, set_port k ap u)"
    by simp
  have head: "load_port k \<lparr>r_bytes = bs, r_pos = pos\<rparr> u
      = load_port_tokens k (length (pt_q ap)) 0 \<lparr>r_bytes = bs, r_pos = pos + 29\<rparr> ?u"
    using assms(1) by (cases "rl_airports u ! k") (simp add: load_port_def r0 r1 r2 r3 r4 n thn_def on_port_def set_port_def del: One_nat_def)
  show ?thesis unfolding head tokens by (simp add: port_bytes_def port_head_def len)
qed

definition ports_fit :: "regional \<Rightarrow> bool" where
  "ports_fit st \<longleftrightarrow> length (rl_airports st) < 2 ^ 32 \<and> list_all (\<lambda>ap. length (pt_q ap) < 2 ^ 32) (rl_airports st)"

lemma load_ports_run:
  assumes "list_all (\<lambda>ap. length (pt_q ap) < 2 ^ 32) aps" and "rl_airports u = ds @ old" and "length old = length aps"
    and "bs = pre @ concat (map port_bytes aps)" and "pos = length pre"
  shows "load_ports (length ds) (length aps) \<lparr>r_bytes = bs, r_pos = pos\<rparr> u = (Inr (), u\<lparr>rl_airports := ds @ aps\<rparr>)"
  using assms
proof (induction aps arbitrary: u ds old pre pos)
  case (Cons ap aps)
  obtain o1 os where old: "old = o1 # os" using Cons.prems(3) by (cases old) auto
  have first: "load_port (length ds) \<lparr>r_bytes = bs, r_pos = pos\<rparr> u
      = (Inr \<lparr>r_bytes = bs, r_pos = pos + length (port_bytes ap)\<rparr>, set_port (length ds) ap u)"
    by (rule load_port_run [where pre = pre and post = "concat (map port_bytes aps)"])
      (use Cons.prems old in simp_all)
  have "load_ports (length (ds @ [ap])) (length aps) \<lparr>r_bytes = bs, r_pos = pos + length (port_bytes ap)\<rparr>
      (set_port (length ds) ap u) = (Inr (), (set_port (length ds) ap u)\<lparr>rl_airports := (ds @ [ap]) @ aps\<rparr>)"
    by (rule Cons.IH [where old = os and pre = "pre @ port_bytes ap"])
      (use Cons.prems old in \<open>simp_all add: set_port_def list_update_append\<close>)
  then show ?case using first by (simp add: set_port_def)
qed simp

text \<open>What has been saved is restored in a region with as many airports.\<close>

lemma regional_load_saved:
  assumes "ports_fit st" and "regional_save_state st = Inr bs" and "length (rl_airports u) = length (rl_airports st)"
  shows "regional_load_state bs u = (Inr (), u\<lparr>rl_airports := rl_airports st\<rparr>)"
proof -
  let ?n = "word_of_nat (length (rl_airports st)) :: u32"
  have bs: "bs = le_bytes 4 ?n @ concat (map port_bytes (rl_airports st))"
    using assms(2) by (auto simp: regional_save_state_def save_ports codec_puts)
  have n: "unat ?n = length (rl_airports st)"
    using assms(1) by (simp add: ports_fit_def unat_of_nat take_bit_nat_eq_self)
  have r: "reading read_u32 \<lparr>r_bytes = bs, r_pos = 0\<rparr> w = (Inr (?n, \<lparr>r_bytes = bs, r_pos = 0 + 4\<rparr>), w)" for w :: regional
    by (rule read_in_middle(2) [of _ "[]"]) (use bs in simp_all)
  have "load_ports (length ([] :: port list)) (length (rl_airports st)) \<lparr>r_bytes = bs, r_pos = 4\<rparr> u
      = (Inr (), u\<lparr>rl_airports := [] @ rl_airports st\<rparr>)"
    by (rule load_ports_run [where pre = "le_bytes 4 ?n" and old = "rl_airports u"])
      (use assms bs in \<open>simp_all add: ports_fit_def\<close>)
  then show ?thesis using r assms(3) by (simp add: regional_load_state_def open_reader_def n)
qed

end
