(* ===== verification/Spec2Isabelle.thy ===== *)
theory Spec2Isabelle
  imports Scenarios Cluster_Sample Cars Entity_Worker Radar Missiles Regional
begin

text \<open>
  WarpSim (\<open>src/\<close>) is an optimistic (Time Warp) discrete-event simulation engine: every rank
  runs logical processes (LPs) over a priority queue of events, executes speculatively, rolls
  back on stragglers and anti-messages, computes a global virtual time (GVT) below which
  nothing can change, and commits output and discards history below it. This development
  models the engine's library, all of \<open>src/src/\<close>, and the programs built on it, all of
  \<open>src/examples/\<close>, and proves the properties C1 to C40 of this theory. The names of
  the definitions are those of the code, with \<open>_\<close> and class prefixes dropped.

  \<^bold>\<open>Layers and theories.\<close>

  \<^item> \<open>Prelude\<close>: machine types (words of 8, 32 and 64 bits, so arithmetic wraps as in C++),
    exceptions as values (\<open>exn\<close>), effects \<open>('s, 'a) eff\<close> as state passing with an exception
    result whose state survives the throw, the preservation calculus (\<open>keeps\<close>, \<open>triple\<close>,
    \<open>yields\<close>), comparators. \<open>Ordered_Map\<close>: \<open>std::map\<close> as a key-ordered list with
    \<open>lower_bound\<close>, \<open>upper_bound\<close> and the abstract \<open>floor_entry\<close>. \<open>Wire\<close> (\<open>wire.hpp\<close>,
    \<open>common.hpp\<close>): little-endian writer and bounds-checked reader, with the locales
    \<open>wire_field\<close> and \<open>wire_pair\<close> from which every message format is composed. \<open>Layout\<close>: trivially copied
    structures (locale \<open>trivial_layout\<close>; padding bytes are a parameter).
  \<^item> \<open>Time_Stamp\<close> (\<open>state_store.hpp\<close>), \<open>Events\<close> (\<open>event.hpp\<close>, \<open>event_wire.hpp\<close>,
    \<open>migration.hpp\<close>), \<open>Transport\<close> (\<open>transport.hpp\<close>, locale \<open>reliable_transport\<close>), \<open>Mpi\<close>
    (\<open>mpi_transport.hpp\<close>, \<open>mpi_collectives.hpp\<close>; the MPI library is a record of calls, a
    parameter), \<open>Rng\<close> (\<open>random.hpp\<close>), \<open>Determinism\<close> (\<open>determinism.hpp\<close>, locale
    \<open>commutative_digest\<close>), \<open>Log\<close> (\<open>log.hpp\<close>).
  \<^item> \<open>Lp\<close> (\<open>lp.hpp\<close>): an LP is a record of its callbacks and its state. A handler is a
    function from the event and the state to the list of the calls it makes on its context
    (send, become a new state, request a write, emit committed output, fail), so that the
    kernel model runs it call by call. The locale \<open>snapshot_lp\<close> is the contract of
    \<open>save_state\<close> and \<open>load_state\<close>.
  \<^item> The kernel (\<open>simulation.hpp\<close>): \<open>Kernel_State\<close> (configuration, contexts, members and the
    checks of \<open>validate_invariants_\<close>), \<open>Kernel_Send\<close> (identities, sequence numbers, routing,
    sending, in-flight bookkeeping), \<open>Kernel_Dispatch\<close> (context calls, buffering, rollback,
    cancellation, dispatch), \<open>Kernel_Gvt\<close> (the bound, pruning and committed output,
    migrations, directories, both GVT protocols), \<open>Kernel_Run\<close> (polling, the run loop,
    termination, \<open>run_one\<close>, statistics).
  \<^item> Its correctness: \<open>Kernel_Inv\<close>, \<open>Kernel_Wf\<close> and \<open>Kernel_Steps\<close> (the structural invariant
    and that every operation keeps it), \<open>Kernel_Rollback\<close> (rollback in closed form, the
    restored state), \<open>Kernel_Exec\<close> (dispatch followed by rollback), \<open>Kernel_Commit\<close> (GVT as a
    greatest lower bound, what pruning commits), \<open>Kernel_Safety\<close> (reachability and the safety
    of GVT), \<open>Kernel_Poll\<close> (receiving), \<open>Kernel_Progress\<close> (the next event, buffering, the
    monotonicity of GVT).
  \<^item> Several ranks, in the acknowledgement mode of the GVT reduction: \<open>Inflight\<close> (a ledger of the
    messages sent, acknowledged and in transit), \<open>Network\<close> (a network the ranks share, locale
    \<open>shared_network\<close>; sending, anti-messages included, keeps the ledger), \<open>Network_Steps\<close> (so do
    rollback, dispatch, pruning and notification), \<open>Rank_Safety\<close> (one rank: receiving, and a
    fossil collection in the two parts before and after the reduction, \<open>gvt_enter\<close> and
    \<open>gvt_leave\<close>, of which lemma \<open>fossil_collect_phases\<close> composes \<open>fossil_collect_\<close>), \<open>Cluster\<close>
    (the interleaved steps of all ranks, the reduction combined by \<open>mpi_ts_min_op\<close> over any
    tree, the invariant \<open>cluster_safe\<close>), \<open>Cluster_Sample\<close> (two ranks that relay an event). A
    cluster takes the steps that return, since an exception ends the program.
  \<^item> The services on top: \<open>Modeling\<close> (\<open>modeling.hpp\<close>), \<open>World\<close> (\<open>world.hpp\<close>), \<open>Dispatcher\<close>
    (\<open>event_dispatcher.hpp\<close>), \<open>Directory\<close> (\<open>directory_lp.hpp\<close>), \<open>Migration\<close>
    (\<open>optimistic_migration.hpp\<close>), \<open>Aoi\<close> (\<open>aoi_lp.hpp\<close>, \<open>aoi_client.hpp\<close>).
  \<^item> The foundations of the programs: \<open>Reversible\<close> (when loading the snapshots of a handler's
    record gives the state before the event; locale \<open>entity_snapshots\<close>), \<open>Composite\<close> (processes
    of several classes in one simulation, classes that keep a \<open>World\<close>; locale \<open>world_part\<close>),
    \<open>Models\<close> (command lines, structures copied into payloads, the environment of one or several
    ranks; locale \<open>xor_sink\<close>, the committed hash of several programs).
  \<^item> The programs, each up to what its \<open>main\<close> prints and returns: \<open>Airport\<close>
    (\<open>airport_fujimoto.cpp\<close>), \<open>Phold\<close> (\<open>phold_mpi.cpp\<close>), \<open>Market\<close> (\<open>market_demo.cpp\<close>) with its
    specification \<open>Matching\<close>, \<open>Cars\<close> (\<open>demo.cpp\<close>), \<open>Entity_Worker\<close>
    (\<open>entity_migration_demo.cpp\<close>), \<open>Radar\<close> (\<open>radar_explosion_demo.cpp\<close>), \<open>Missiles\<close>
    (\<open>airplanes_missile_aoi_demo.cpp\<close>), \<open>Regional\<close> (\<open>regional_airport_migration_demo.cpp\<close>). A
    process class is a record of its members, a \<open>definition\<close> per handler that gives the list of
    the calls on the context, the \<open>lp\<close> record with its callbacks, and the simulation \<open>main\<close>
    builds, run with fuel. A handler that fails has made the calls before.
  \<^item> \<open>Sample\<close> and \<open>Scenarios\<close>: concrete simulations on which the properties are applied.

  \<^bold>\<open>State.\<close> A \<open>sim\<close> record holds the members of \<open>Simulation\<close>. The transport and the sinks act on
  a state \<open>'w\<close> of the outside world (\<open>m_world\<close>), which is a parameter, as is the type \<open>'st\<close> of
  the LP states. \<open>std::unordered_map\<close> members are association lists; where the code iterates
  over one, C12 shows that the order does not matter. The priority queue is a list kept
  sorted by \<open>event_time_order\<close> (locale \<open>priority_queue\<close>).

  \<^bold>\<open>What the properties show.\<close> C1 to C6: the core of Time Warp: GVT never passes anything that
  can still happen or be undone, on one rank (C1) and across ranks with messages in transit
  (C2, C3); rollback inverts dispatch (C4), loses no event (C5), recalls what was sent (C6). C7
  to C9: the invariant under every operation in any configuration. C10 to C14: GVT and
  commitment. C15 to C20: scheduling, buffering, message formats, transports. C21 and C22:
  stamps and snapshots. C23 and C24: random numbers and determinism. C25 to C30: the services.
  C31 to C36: the programs. C37 to C40: limits of the code, found while proving the others.
  The last section has further theorems.

  The component theories show more of the programs: which handlers can be rolled back
  (\<open>airport_writes_before_mutation\<close>, \<open>market_reversible\<close>, \<open>cars_reversible\<close>,
  \<open>aircraft_reversible\<close>, \<open>hit_reversible\<close>, \<open>worker_tick_reversible\<close>) and which cannot
  (\<open>worker_install_not_reversible\<close>, \<open>answer_not_reversible\<close>, \<open>landing_not_reversible\<close>); that
  structures and codecs round trip; that a committed hash does not depend on the order or the
  ranks of the outputs (\<open>sink_distributed\<close>); that a match conserves orders and cash
  (\<open>match_sorted_conserves\<close>, \<open>fills_cancel\<close>) and a plane is dead exactly when its hits reach
  its strength (\<open>dead_after_hits\<close>).

  \<^bold>\<open>Bounds and fuel.\<close> Loops over containers are structural. \<open>poll_transport_count\<close> and the
  run loop may run forever and take fuel; \<open>Out_Of_Fuel\<close> marks its exhaustion and is no
  exception of the code. C17 gives the fuel that suffices for polling; C7 and C14 hold for
  every amount of fuel.

  \<^bold>\<open>Not modelled.\<close> Threads (the code's mutexes guard the logger and the demos' queues),
  allocation failure, the text \<open>vsnprintf\<close> produces, floating-point arithmetic (a parameter:
  the records \<open>fp\<close>, \<open>phold_fp\<close>, \<open>radar_fp\<close>, \<open>missile_fp\<close>), the MPI library and the
  initialisation of its datatype, the usage texts and what the programs write on standard
  error, and the tests. The transports that \<open>demo.cpp\<close>, \<open>entity_migration_demo.cpp\<close> and
  \<open>radar_explosion_demo.cpp\<close> declare are copies of \<open>throttled_transport\<close> and
  \<open>inproc_transport\<close>. C1 and C4 to C6 are for a single rank with
  buffering off. C2 and C3 are for several ranks in the acknowledgement mode, with buffering
  off, processes that send no earlier than the event they handle and leave the identities to
  the kernel, and sinks that do not touch the network; the collective by which \<open>run\<close> detects
  that no rank has work is no step of the cluster. That the coloured protocol (the other mode
  of the reduction) never lets GVT pass a message in transit is not proved: it is modelled,
  and C7, C10 and C14 cover it.
\<close>

section \<open>Optimistic execution\<close>

text \<open>
  C1. Safety of commitment on one rank. Whatever sequence of dispatches, fossil collections
  and schedulings (at or after GVT) a rank performs, GVT never decreases, and no pending
  event, no record that could still be rolled back, is earlier than GVT: what a pruning has
  committed is final. The processes must not send into the past and buffering must be off.
\<close>

theorem commitment_is_final:
  assumes "rank_steps s t" and "single_rank C" and "safe_since C G s"
  shows "G \<le> m_lastGvt t \<and> (\<forall>ev \<in> set (m_pending t). m_lastGvt t \<le> ev_ts ev)
    \<and> all_ctx (\<lambda>_ cx. \<forall>r \<in> set (cx_processed cx). m_lastGvt t \<le> pr_ts r) t"
  using rank_steps_safe [OF assms]
  by (simp add: safe_since_def from_gvt_def pending_from_def history_from_def)

theorem commitment_is_final_witness:
  "zero_stamp < m_lastGvt tally_collected
   \<and> m_lastGvt tally_collected \<le> ev_ts (hd (m_pending tally_collected))"
proof -
  have "zero_stamp < m_lastGvt tally_collected \<and> length (m_pending tally_collected) = 1" by code_simp
  then show ?thesis
    using commitment_is_final [OF tally_collected_steps tally_single_rank tally_sim_safe]
    by (cases "m_pending tally_collected") simp_all
qed

text \<open>
  C2. Safety of commitment across ranks. Several ranks share a network and reduce GVT in the
  acknowledgement mode: every rank starts, schedules, polls, dispatches and collects garbage
  in any interleaving until it enters the reduction, and the ranks leave it one by one. Then
  no rank's GVT ever decreases or passes a pending event of any rank, an event in transit, or
  a record it could still roll back; and outside a reduction all ranks have the same GVT.
\<close>

theorem distributed_commitment_is_final:
  assumes "cluster_start wire R c0" and "cluster_steps R c0 cl" and "cluster_steps R cl cl'" and "r \<in> R"
  shows "m_lastGvt (cl_ranks cl r) \<le> m_lastGvt (cl_ranks cl' r)
    \<and> (\<forall>q \<in> R. \<forall>ev \<in> set (m_pending (cl_ranks cl' q)). m_lastGvt (cl_ranks cl' r) \<le> ev_ts ev)
    \<and> wire_from (m_lastGvt (cl_ranks cl' r)) (wire (cl_world cl'))
    \<and> all_ctx (\<lambda>_ cx. \<forall>x \<in> set (cx_processed cx). m_lastGvt (cl_ranks cl' r) \<le> pr_ts x) (cl_ranks cl' r)
    \<and> (cl_result cl' = None \<longrightarrow> (\<forall>q \<in> R. m_lastGvt (cl_ranks cl' q) = m_lastGvt (cl_ranks cl' r)))"
proof -
  obtain F D where cl': "cluster_safe wire D R F cl'" using cluster_runs [OF assms(1-3)] by blast
  note at = cluster_safe_floor [OF cl']
  have "wire_from (m_lastGvt (cl_ranks cl' r)) (wire (cl_world cl'))"
    using at(1,4) [OF assms(4)] unfolding wire_from_def by (meson order_trans)
  then show ?thesis
    using cluster_steps_gvt [OF assms(3)] at(1,3) [OF assms(4)] at(2,5) assms(4) by (auto intro: order_trans)
qed

theorem distributed_commitment_is_final_witness:
  "m_lastGvt (cl_ranks relay_left 0) = TimeStamp 5 1 \<and> length (cl_world relay_left) = 2
    \<and> wire_from (TimeStamp 5 1) (mset (cl_world relay_left))"
  using distributed_commitment_is_final [OF relay_cluster_start relay_ready_steps relay_left_steps, of 0]
    relay_left_state by simp



text \<open>
  C4. Rollback is the inverse of dispatch. After an event has been executed at a process that
  requests a write before it changes its state, rolling back to the event's time gives the
  process, its history and its sequence counters back as they were, sets the virtual time
  right before the event, and leaves the event pending again.
\<close>

theorem rollback_inverts_dispatch:
  assumes "sound s" and "dispatch ev s = (Inr (), t)" and "\<not> ev_isAnti ev" and "buffering_off s"
    and "map_of (m_lps s) (ev_dst ev) = Some cx" and "cx_vt cx < ev_ts ev" and "lp_wide (cx_lp cx)"
    and "write_before_mutation (lp_on_event (cx_lp cx) ev (lp_state (cx_lp cx)))"
    and "snapshot_lp (lp_save_state (cx_lp cx)) (lp_load_state (cx_lp cx)) ok_st"
    and "ok_st (lp_state (cx_lp cx))"
    and "list_all record_ok (cx_processed cx)" and "counters_ok t"
    and "\<And>cx'. map_of (m_lps t) (ev_dst ev) = Some cx' \<Longrightarrow> list_all sent_ok (cx_sentLog cx')"
  shows "\<exists>u cx''. rollback (ev_dst ev) (ev_ts ev) t = (Inr (), u)
    \<and> map_of (m_lps u) (ev_dst ev) = Some cx''
    \<and> cx_lp cx'' = cx_lp cx \<and> cx_processed cx'' = cx_processed cx
    \<and> cx_nextSeqNormal cx'' = cx_nextSeqNormal cx \<and> cx_nextSeqControl cx'' = cx_nextSeqControl cx
    \<and> cx_vt cx'' = prev_stamp (ev_ts ev) \<and> ev \<in> set (m_pending u)"
  using assms by (rule dispatch_then_rollback)

theorem rollback_inverts_dispatch_witness:
  "\<exists>u cx. rollback 1 (TimeStamp 5 1) tally_done = (Inr (), u)
    \<and> map_of (m_lps u) 1 = Some cx \<and> lp_state (cx_lp cx) = 0 \<and> cx_processed cx = []
    \<and> tally_event \<in> set (m_pending u)"
proof -
  let ?cx = "\<lparr>cx_lp = tally_lp, cx_vt = zero_stamp, cx_inEvent = False, cx_currentExecTs = zero_stamp,
    cx_processed = [], cx_sentLog = [], cx_nextSeqNormal = 1, cx_nextSeqControl = 1, cx_nextUid = 1\<rparr>"
  have ev: "ev_dst tally_event = 1" "ev_ts tally_event = TimeStamp 5 1" "\<not> ev_isAnti tally_event"
    by (simp_all add: tally_event_def empty_event_def)
  have cx: "map_of (m_lps tally_sim) 1 = Some ?cx" by (simp add: tally_sim_lps)
  have "\<exists>u cx''. rollback (ev_dst tally_event) (ev_ts tally_event) tally_done = (Inr (), u)
    \<and> map_of (m_lps u) (ev_dst tally_event) = Some cx''
    \<and> cx_lp cx'' = cx_lp ?cx \<and> cx_processed cx'' = cx_processed ?cx
    \<and> cx_nextSeqNormal cx'' = cx_nextSeqNormal ?cx \<and> cx_nextSeqControl cx'' = cx_nextSeqControl ?cx
    \<and> cx_vt cx'' = prev_stamp (ev_ts tally_event) \<and> tally_event \<in> set (m_pending u)"
  proof (rule rollback_inverts_dispatch [OF tally_sim_sound tally_dispatch ev(3)])
    show "snapshot_lp (lp_save_state (cx_lp ?cx)) (lp_load_state (cx_lp ?cx)) (\<lambda>_. True)"
      using tally_snapshots.snapshot_lp_axioms by simp
  qed (use ev cx tally_lp_facts tally_done_counters tally_done_ctx tally_done_history in
      \<open>simp_all add: buffering_off_def tally_sim_cfg default_config_def zero_stamp_def history_ok_def\<close>)
  then show ?thesis unfolding ev by auto
qed

text \<open>
  C5. A rollback loses no event: the pending queue afterwards is, as a multiset, the queue
  before, the events of the undone records, and one anti-message for each recalled message.
\<close>

theorem rollback_conserves_events:
  assumes "sound s" and "map_of (m_lps s) i = Some cx" and "history_ok cx"
    and "restore_lp (cx_lp cx) (undone_of to cx) (lp_state (cx_lp cx)) = (Inr (), st)"
    and "rollback i to s = (r, t)"
  shows "r = Inr () \<and> mset (m_pending t) =
    mset (m_pending s) + mset (map pr_ev (filter (\<lambda>r. to \<le> pr_ts r) (cx_processed cx)))
    + mset (map (\<lambda>l. paint s (anti_event i l)) (recalled_of to cx))"
proof -
  have "sorted (map pr_ts (cx_processed cx))"
    using assms(1,2) sim_wf_ctx by (auto simp: ctx_wf_def)
  note sorted = this
  have "mset (undone_of to cx) = mset (filter (\<lambda>r. to \<le> pr_ts r) (cx_processed cx))"
    unfolding undone_suffix [OF sorted] sorted_takeWhile_filter(2) [OF sorted] by (simp add: not_less)
  then have "mset (map pr_ev (undone_of to cx)) = mset (map pr_ev (filter (\<lambda>r. to \<le> pr_ts r) (cx_processed cx)))"
    by simp
  then show ?thesis
    using rollback_run [OF assms(1-4)] assms(5) by (simp add: rolled_back_pending)
qed

theorem rollback_conserves_events_witness:
  "\<exists>t. rollback 1 (TimeStamp 5 1) tally_done = (Inr (), t) \<and> size (mset (m_pending t)) = 3"
proof -
  obtain r t where rt: "rollback 1 (TimeStamp 5 1) tally_done = (r, t)" by fastforce
  note res = rollback_conserves_events [OF tally_done_sound tally_done_ctx tally_done_history(1)
      tally_done_restore rt]
  have "length (m_pending tally_done) = 1
    \<and> length (filter (\<lambda>r. TimeStamp 5 1 \<le> pr_ts r) (cx_processed (tally_ctx tally_done))) = 1
    \<and> length (recalled_of (TimeStamp 5 1) (tally_ctx tally_done)) = 1" by code_simp
  then have "size (mset (m_pending t)) = 3"
    using res by (simp flip: mset_filter)
  then show ?thesis using rt res by blast
qed

text \<open>
  C6. A rollback recalls what the undone events have sent: when the sent log is in the order
  of the send times, the entries from the rollback point on are taken off the log, an
  anti-message with the same identity, destination and time is pending for each, and the
  earlier entries stay.
\<close>

theorem rollback_recalls_sent:
  assumes "sound s" and "map_of (m_lps s) i = Some cx" and "history_ok cx"
    and "restore_lp (cx_lp cx) (undone_of to cx) (lp_state (cx_lp cx)) = (Inr (), st)"
    and "sorted (map sr_sendTime (cx_sentLog cx))"
    and "rollback i to s = (r, t)"
  shows "(\<forall>l \<in> set (cx_sentLog cx). to \<le> sr_sendTime l \<longrightarrow>
      paint s (anti_event i l) \<in> set (m_pending t))
    \<and> (\<exists>cx'. map_of (m_lps t) i = Some cx'
        \<and> cx_sentLog cx' = filter (\<lambda>l. sr_sendTime l < to) (cx_sentLog cx))"
proof
  have t: "t = rolled_back i to cx st s" using rollback_run [OF assms(1-4)] assms(6) by simp
  have recalled: "set (recalled_of to cx) = {l \<in> set (cx_sentLog cx). to \<le> sr_sendTime l}"
    unfolding recalled_sorted(1) [OF assms(5)] sorted_takeWhile_filter(2) [OF assms(5)]
    by (auto simp: not_less)
  show "\<forall>l \<in> set (cx_sentLog cx). to \<le> sr_sendTime l \<longrightarrow> paint s (anti_event i l) \<in> set (m_pending t)"
  proof (intro ballI impI)
    fix l assume "l \<in> set (cx_sentLog cx)" "to \<le> sr_sendTime l"
    then have "l \<in> set (recalled_of to cx)" using recalled by blast
    then have "paint s (anti_event i l) \<in># mset (m_pending t)"
      unfolding t rolled_back_pending by (auto simp: not_less)
    then show "paint s (anti_event i l) \<in> set (m_pending t)" by simp
  qed
  have "map_of (m_lps t) i = Some (rolled_back_ctx to st cx)"
    unfolding t using assms(1,2) by (intro rolled_back_ctx_of) simp_all
  then show "\<exists>cx'. map_of (m_lps t) i = Some cx'
      \<and> cx_sentLog cx' = filter (\<lambda>l. sr_sendTime l < to) (cx_sentLog cx)"
    unfolding recalled_sorted(2) [OF assms(5), symmetric]
    by (simp add: recalled_sorted(2) [OF assms(5)] sorted_takeWhile_filter(1) [OF assms(5)])
qed

theorem rollback_recalls_sent_witness:
  "\<exists>t cx. rollback 1 (TimeStamp 5 1) tally_done = (Inr (), t) \<and> map_of (m_lps t) 1 = Some cx
    \<and> cx_sentLog cx = [] \<and> (\<exists>anti \<in> set (m_pending t). ev_isAnti anti \<and> ev_ts anti = max_stamp)"
proof -
  obtain r t where rt: "rollback 1 (TimeStamp 5 1) tally_done = (r, t)" by fastforce
  then have "r = Inr ()"
    using rollback_run(1) [OF tally_done_sound tally_done_ctx tally_done_history(1) tally_done_restore] by simp
  note res = rollback_recalls_sent [OF tally_done_sound tally_done_ctx tally_done_history(1)
      tally_done_restore tally_done_history(2) rt]
  have log: "map (\<lambda>l. (sr_sendTime l, sr_msgTime l)) (cx_sentLog (tally_ctx tally_done)) = [(TimeStamp 5 1, max_stamp)]"
    by code_simp
  then obtain l where l: "cx_sentLog (tally_ctx tally_done) = [l]" "sr_sendTime l = TimeStamp 5 1"
    "sr_msgTime l = max_stamp" by auto
  from res l have "paint tally_done (anti_event 1 l) \<in> set (m_pending t)" by simp
  with res l rt \<open>r = Inr ()\<close> show ?thesis
    by (intro exI [of _ t]) (auto intro!: bexI [of _ "paint tally_done (anti_event 1 l)"])
qed

section \<open>Invariants\<close>

text \<open>
  C7. The whole run keeps the structural invariant: histories sorted and not ahead of the
  virtual time, the pending queue ordered, the two in-flight containers in agreement, the
  colour counters in range, no process left inside an event. This holds for any
  configuration, transport and processes, and whether the run returns or throws.
\<close>

theorem run_keeps_invariant:
  assumes "idle_wf s"
  shows "idle_wf (snd (run fuel pollFuel s))"
  using keepsD [OF keeps_run assms] .

theorem run_keeps_invariant_witness:
  "fst (run 5 1 tally_sim) = Inr () \<and> idle_wf (snd (run 5 1 tally_sim))"
proof
  show "fst (run 5 1 tally_sim) = Inr ()" by code_simp
  show "idle_wf (snd (run 5 1 tally_sim))" using run_keeps_invariant [OF tally_sim_wf] .
qed

text \<open>
  C8. So does every single operation a driver may call in any order: stepping, polling,
  dispatching, rolling back, collecting fossils, sending, scheduling, adding a process.
\<close>

theorem operations_keep_invariant:
  assumes "idle_wf (s :: ('st, 'w) sim)"
  shows "idle_wf (snd (run_one fuel b s)) \<and> idle_wf (snd (poll_transport_count fuel n s))
    \<and> idle_wf (snd (dispatch ev s)) \<and> idle_wf (snd (rollback i to s))
    \<and> idle_wf (snd (fossil_collect b s)) \<and> idle_wf (snd (send ev s))
    \<and> idle_wf (snd (schedule ev s)) \<and> idle_wf (snd (add_lp lp_opt s))"
proof -
  have "idle_wf (snd (schedule ev s))"
    using assms by (simp add: schedule_def enqueue_def wf_defs)
  then show ?thesis
    using keepsD [OF keeps_run_one assms] keepsD [OF keeps_poll_transport_count assms]
      keepsD [OF keeps_dispatch assms] keepsD [OF keeps_rollback_idle_wf assms]
      keepsD [OF keeps_fossil_collect assms] keepsD [OF keeps_send_idle_wf assms]
      keepsD [OF keeps_add_lp assms] by blast
qed

theorem operations_keep_invariant_witness:
  "idle_wf (snd (dispatch tally_event tally_sim)) \<and> idle_wf (snd (rollback 1 zero_stamp tally_sim))"
  using operations_keep_invariant [OF tally_sim_wf, of 0 False 0 tally_event 1 zero_stamp None] by blast

text \<open>
  C9. The optional run-time checks are redundant: on a state with the invariant they pass,
  unless a 64-bit counter has wrapped around to zero, and then the exception names that
  counter.
\<close>

theorem checks_report_only_wrapped_counters:
  assumes "sim_wf s"
  shows "(counters_ok s \<longrightarrow> validate_invariants s = (Inr (), s))
    \<and> (\<forall>e t. validate_invariants s = (Inl e, t) \<longrightarrow> t = s \<and> (\<exists>msg \<in> counter_messages. e = Runtime_Error msg))"
  using validate_passes [OF assms] validate_fails_only_on_counters [OF assms] validate_state [of s]
  by (auto dest: arg_cong [where f = snd])

theorem checks_report_only_wrapped_counters_witness:
  "validate_invariants (tally_sim\<lparr>m_cfg := default_config\<lparr>c_enableInvariantChecks := True\<rparr>\<rparr>)
    = (Inr (), tally_sim\<lparr>m_cfg := default_config\<lparr>c_enableInvariantChecks := True\<rparr>\<rparr>)"
proof -
  let ?s = "tally_sim\<lparr>m_cfg := default_config\<lparr>c_enableInvariantChecks := True\<rparr>\<rparr>"
  have "sim_wf ?s" using tally_sim_wf by (simp add: wf_defs)
  moreover have "counters_ok ?s" using tally_sim_sound by (simp add: counters_ok_def all_ctx_def)
  ultimately show ?thesis using checks_report_only_wrapped_counters [of ?s] by blast
qed

section \<open>GVT and commitment\<close>

text \<open>
  C10. The local contribution to GVT is the greatest time stamp that no unfinished work of
  the rank is below: the virtual times of its processes, the pending events that are not
  cancelled and, in the acknowledgement mode, the messages still in transit.
\<close>

theorem gvt_is_greatest_lower_bound:
  assumes "sim_wf s" and "compute_gvt s = (Inr g, t)"
  shows "x \<le> g \<longleftrightarrow>
    (\<forall>(i, cx) \<in> set (m_lps s). x \<le> cx_vt cx)
    \<and> (\<forall>ev \<in> set (dropWhile (cancelled s) (m_pending s)). x \<le> ev_ts ev)
    \<and> (c_gvtMode (m_cfg s) = AckInflight \<longrightarrow> (\<forall>ts \<in> set (m_inflightTs s). x \<le> ts))"
proof -
  have "(\<forall>(i, cx) \<in> set (m_lps s). x \<le> cx_vt cx) \<longleftrightarrow> all_ctx (\<lambda>_ cx. x \<le> cx_vt cx) s"
    by (auto simp: all_ctx_def)
  then show ?thesis using compute_gvt_greatest [OF assms, of x] unfolding bounds_work_def by simp
qed

theorem gvt_is_greatest_lower_bound_witness:
  "fst (compute_gvt tally_done) = Inr (TimeStamp 5 1) \<and> ev_ts (hd (m_pending tally_done)) \<ge> TimeStamp 5 1"
proof -
  have g: "fst (compute_gvt tally_done) = Inr (TimeStamp 5 1)" by code_simp
  then have run: "compute_gvt tally_done = (Inr (TimeStamp 5 1), snd (compute_gvt tally_done))"
    by (simp add: prod_eq_iff)
  have "length (dropWhile (cancelled tally_done) (m_pending tally_done)) = 1 \<and> length (m_pending tally_done) = 1"
    by code_simp
  then obtain ev where "dropWhile (cancelled tally_done) (m_pending tally_done) = [ev]" "m_pending tally_done = [ev]"
    by (cases "m_pending tally_done") (auto split: if_splits)
  then show ?thesis
    using g gvt_is_greatest_lower_bound [OF _ run, of "TimeStamp 5 1"] tally_done_sound by simp
qed

text \<open>
  C11. A pruning to \<open>g\<close> commits exactly the executed events below \<open>g\<close>, in whatever process
  they are, hands them to the sinks, removes them from the histories, keeps all the others,
  and leaves the processes themselves alone.
\<close>

theorem prune_commits_below_gvt:
  assumes "sim_wf s" and "prune_to_gvt g s = (r, t)"
  shows "(r, m_world t) = flush_calls (m_cfg s) (safe_of g s) (m_world s)
    \<and> set (safe_of g s) = {(i, p). \<exists>cx. (i, cx) \<in> set (m_lps s) \<and> p \<in> set (cx_processed cx) \<and> pr_ts p < g}
    \<and> (\<forall>i cx. map_of (m_lps s) i = Some cx \<longrightarrow> (\<exists>cx'. map_of (m_lps t) i = Some cx'
        \<and> cx_processed cx' = filter (\<lambda>p. g \<le> pr_ts p) (cx_processed cx)
        \<and> cx_lp cx' = cx_lp cx \<and> cx_vt cx' = cx_vt cx))"
proof (intro conjI allI impI)
  obtain w where w: "flush_calls (m_cfg s) (safe_of g s) (m_world s) = (r, w)" "t = (prune_state g s)\<lparr>m_world := w\<rparr>"
    using assms(2) unfolding prune_to_gvt_run by (auto split: prod.splits)
  then show "(r, m_world t) = flush_calls (m_cfg s) (safe_of g s) (m_world s)" by simp
  show "set (safe_of g s) = {(i, p). \<exists>cx. (i, cx) \<in> set (m_lps s) \<and> p \<in> set (cx_processed cx) \<and> pr_ts p < g}"
    using set_safe_of [OF assms(1)] by auto
  fix i cx assume cx: "map_of (m_lps s) i = Some cx"
  have "cx_processed (prune_ctx g cx) = filter (\<lambda>p. \<not> pr_ts p < g) (cx_processed cx)"
    by (rule pruned_filter [OF conjunct1 [OF sim_wf_ctx [OF assms(1) cx]]])
  moreover have "map_of (m_lps t) i = Some (prune_ctx g cx)"
    using cx by (simp add: w(2) prune_state_def map_of_map)
  ultimately show "\<exists>cx'. map_of (m_lps t) i = Some cx'
        \<and> cx_processed cx' = filter (\<lambda>p. g \<le> pr_ts p) (cx_processed cx)
        \<and> cx_lp cx' = cx_lp cx \<and> cx_vt cx' = cx_vt cx"
    by (intro exI [of _ "prune_ctx g cx"]) (simp add: prune_ctx_def not_less)
qed

theorem prune_commits_below_gvt_witness:
  "\<exists>cx p. map_of (m_lps (snd (prune_to_gvt max_stamp tally_done))) 1 = Some cx \<and> cx_processed cx = []
    \<and> (1, p) \<in> set (safe_of max_stamp tally_done) \<and> pr_ts p = TimeStamp 5 1"
proof -
  let ?c = "tally_ctx tally_done"
  obtain r t where run: "prune_to_gvt max_stamp tally_done = (r, t)" by fastforce
  have wf: "sim_wf tally_done" using tally_done_sound by simp
  note res = prune_commits_below_gvt [OF wf run]
  have "map pr_ts (cx_processed ?c) = [TimeStamp 5 1]" by code_simp
  then obtain p where p: "cx_processed ?c = [p]" "pr_ts p = TimeStamp 5 1" by auto
  have early: "TimeStamp 5 1 < max_stamp" by (simp add: max_stamp_def)
  have "(1, p) \<in> set (safe_of max_stamp tally_done)"
    using res p early map_of_SomeD [OF tally_done_ctx] by auto
  moreover obtain cx where "map_of (m_lps t) 1 = Some cx" "cx_processed cx = []"
    using res p early tally_done_ctx by fastforce
  ultimately show ?thesis using run p by auto
qed

text \<open>
  C12. What a pruning commits does not depend on the order in which the processes are
  visited (they live in a hash table): the calls of the sinks, the exception if there is one
  and the determinism digest are the same for every permutation, if no process has executed
  two events with the same time, source, identity and sign.
\<close>

theorem commit_independent_of_visit_order:
  assumes "mset (m_lps s') = mset (m_lps s)"
    and "m_cfg s' = m_cfg s" "m_world s' = m_world s" "m_determinism s' = m_determinism s"
    and "commits_ok (safe_of g s)"
    and "prune_to_gvt g s = (r, t)" "prune_to_gvt g s' = (r', t')"
  shows "r' = r \<and> m_world t' = m_world t \<and> m_determinism t' = m_determinism t"
  using commit_order_free [OF assms] by simp

theorem commit_independent_of_visit_order_witness:
  "\<exists>c. cx_processed c \<noteq> [] \<and>
    fst (prune_to_gvt max_stamp (tally_done\<lparr>m_lps := [(2, c), (1, c)]\<rparr>))
      = fst (prune_to_gvt max_stamp (tally_done\<lparr>m_lps := [(1, c), (2, c)]\<rparr>))"
proof -
  let ?c = "tally_ctx tally_done"
  have "map pr_ts (cx_processed ?c) = [TimeStamp 5 1] \<and> map pr_committed (cx_processed ?c) = [[]]" by code_simp
  then obtain p where p: "cx_processed ?c = [p]" "pr_ts p = TimeStamp 5 1" "pr_committed p = []" by auto
  let ?s = "tally_done\<lparr>m_lps := [(1, ?c), (2, ?c)]\<rparr>" and ?s' = "tally_done\<lparr>m_lps := [(2, ?c), (1, ?c)]\<rparr>"
  have "safe_of max_stamp ?s = [(1, p), (2, p)]"
    using p by (simp add: safe_of_def safe_records_def max_stamp_def)
  then have ok: "commits_ok (safe_of max_stamp ?s)" using p by (auto simp: commits_ok_def)
  obtain r t r' t' where runs: "prune_to_gvt max_stamp ?s = (r, t)" "prune_to_gvt max_stamp ?s' = (r', t')"
    by fastforce
  have "mset (m_lps ?s') = mset (m_lps ?s)" by simp
  from commit_independent_of_visit_order [OF this _ _ _ ok runs] have "r' = r" by simp
  then show ?thesis using runs p by (intro exI [of _ ?c]) simp
qed

text \<open>
  C13. Committed output is complete and ordered: the items handed to the sink are, as a
  multiset, every output of every committed event once, and their times never decrease; the
  events handed to the event sink are the committed events, in the order of their times.
\<close>

theorem committed_output_complete_and_ordered:
  "mset (map (\<lambda>it. (fi_lp it, fi_ts it, fi_payload it)) (flush_of safe))
      = mset (concat (map (\<lambda>(i, p). map (\<lambda>(ts, out). (i, ts, out)) (pr_committed p)) safe))
    \<and> sorted (map fi_ts (flush_of safe))
    \<and> mset (map (\<lambda>it. (ei_lp it, ei_ev it)) (event_flush_of safe)) = mset (map (\<lambda>(i, p). (i, pr_ev p)) safe)
    \<and> sorted (map ei_ts (event_flush_of safe))"
proof (intro conjI flush_sorted_ts event_flush_sorted_ts)
  have out: "map (\<lambda>it. (fi_lp it, fi_ts it, fi_payload it)) (record_outputs i p)
      = map (\<lambda>(ts, out). (i, ts, out)) (pr_committed p)" for i p
    by (rule nth_equalityI) (simp_all add: record_outputs_def nth_enumerate_eq case_prod_beta)
  show "mset (map (\<lambda>it. (fi_lp it, fi_ts it, fi_payload it)) (flush_of safe))
      = mset (concat (map (\<lambda>(i, p). map (\<lambda>(ts, out). (i, ts, out)) (pr_committed p)) safe))"
    unfolding mset_map mset_flush_of unfolding mset_map [symmetric] map_concat
    by (simp add: comp_def case_prod_unfold out)
  show "mset (map (\<lambda>it. (ei_lp it, ei_ev it)) (event_flush_of safe)) = mset (map (\<lambda>(i, p). (i, pr_ev p)) safe)"
    by (simp add: event_flush_of_def record_event_def image_mset.compositionality comp_def case_prod_unfold)
qed

text \<open>
  C14. GVT never decreases, whatever a rank does: not in a run, a step of a driver, a fossil
  collection, a dispatch, a rollback or a polling of the transport, in both protocols, with
  any transport, any reduction over the ranks and any processes, whether the operation
  returns or throws.
\<close>

theorem gvt_monotone:
  "m_lastGvt (s :: ('a, 'b) sim) \<le> m_lastGvt (snd (run fuel pollFuel s))
    \<and> m_lastGvt s \<le> m_lastGvt (snd (run_one fuel b s))
    \<and> m_lastGvt s \<le> m_lastGvt (snd (fossil_collect b s))
    \<and> m_lastGvt s \<le> m_lastGvt (snd (dispatch ev s))
    \<and> m_lastGvt s \<le> m_lastGvt (snd (rollback i to s))
    \<and> m_lastGvt s \<le> m_lastGvt (snd (poll_transport_count fuel n s))"
proof (intro conjI)
  note keep = keepsD [of "gvt_from (m_lastGvt s)" _ s, unfolded gvt_from_def, OF _ order_refl]
  show "m_lastGvt s \<le> m_lastGvt (snd (run fuel pollFuel s))"
    by (rule keep [OF keeps_run_gvt [unfolded gvt_from_def]])
  show "m_lastGvt s \<le> m_lastGvt (snd (run_one fuel b s))"
    by (rule keep [OF keeps_run_one_gvt [unfolded gvt_from_def]])
  show "m_lastGvt s \<le> m_lastGvt (snd (fossil_collect b s))"
    by (rule keep [OF keeps_fossil_gvt [unfolded gvt_from_def]])
  show "m_lastGvt s \<le> m_lastGvt (snd (dispatch ev s))"
    by (rule keep [OF keeps_dispatch_gvt [unfolded gvt_from_def]])
  show "m_lastGvt s \<le> m_lastGvt (snd (rollback i to s))"
    by (rule keep [OF keeps_rollback_gvt [unfolded gvt_from_def]])
  show "m_lastGvt s \<le> m_lastGvt (snd (poll_transport_count fuel n s))"
    by (rule keep [OF keeps_poll_gvt [unfolded gvt_from_def]])
qed

section \<open>Scheduling\<close>



section \<open>Install before use\<close>

text \<open>
  C16. Buffering of events that come before the entity they are for. When the handler has
  reached an entity the world does not have, and has done nothing else before that, the
  event is not executed: it leaves the queue for the deferred events of that entity, the
  process is as before it (its virtual time included), and no error is reported.
\<close>

theorem early_event_is_deferred:
  assumes "map_of (m_lps s) (ev_dst ev) = Some cx" and "\<not> ev_ts ev < cx_vt cx"
    and "run_handler (ev_dst ev) (lp_on_event (cx_lp cx) ev (lp_state (cx_lp cx))) (new_record ev cx)
        (upd_ctx (ev_dst ev) (\<lambda>c. c\<lparr>cx_vt := ev_ts ev, cx_inEvent := True, cx_currentExecTs := ev_ts ev\<rparr>) s)
      = (Inl e, upd_ctx (ev_dst ev) (\<lambda>c. c\<lparr>cx_vt := ev_ts ev, cx_inEvent := True, cx_currentExecTs := ev_ts ev\<rparr>) s)"
    and "is_missing_entity_error e"
    and "c_enableInstallBeforeUseBuffering (m_cfg s)" "ev_target ev \<noteq> 0"
      "p_kind (ev_payload ev) \<noteq> c_installEventKind (m_cfg s)"
    and "\<not> ev_isAnti ev" and "\<not> c_enableInvariantChecks (m_cfg s)"
  shows "\<exists>t. dispatch ev s = (Inr (), t) \<and> m_pending t = m_pending s
    \<and> map_of (m_lps t) (ev_dst ev) = Some (cx\<lparr>cx_inEvent := False, cx_currentExecTs := cx_vt cx\<rparr>)
    \<and> map_of (m_deferredTargeted t) (deferred_key (ev_dst ev) (ev_target ev)) =
        Some ((case map_of (m_deferredTargeted s) (deferred_key (ev_dst ev) (ev_target ev)) of
                 None \<Rightarrow> [] | Some q \<Rightarrow> q) @ [ev])"
  using assms by (rule dispatch_defers)

theorem early_event_is_deferred_witness:
  "\<exists>t. dispatch (tally_event\<lparr>ev_target := 4\<rparr>) store_sim = (Inr (), t) \<and> m_pending t = []
    \<and> map_of (m_deferredTargeted t) (deferred_key 1 4) = Some [tally_event\<lparr>ev_target := 4\<rparr>]"
proof -
  let ?ev = "tally_event\<lparr>ev_target := 4\<rparr>"
  let ?cx = "\<lparr>cx_lp = store_lp, cx_vt = zero_stamp, cx_inEvent = False, cx_currentExecTs = zero_stamp,
    cx_processed = [], cx_sentLog = [], cx_nextSeqNormal = 1, cx_nextSeqControl = 1, cx_nextUid = 1\<rparr>"
  have sim: "m_lps store_sim = [(1, ?cx)]" "m_pending store_sim = []" "m_deferredTargeted store_sim = []"
    "m_cfg store_sim = default_config\<lparr>c_enableInstallBeforeUseBuffering := True, c_installEventKind := 3\<rparr>"
    by (simp_all add: store_sim_def new_simulation_def add_lp_def Let_def default_config_def store_lp_def default_lp_def)
  have ev: "ev_dst ?ev = 1" "ev_ts ?ev = TimeStamp 5 1" "ev_target ?ev = 4" "\<not> ev_isAnti ?ev"
    "p_kind (ev_payload ?ev) = 0"
    by (simp_all add: tally_event_def empty_event_def empty_payload_def)
  let ?e = "Runtime_Error (''World: unknown EntityId='' @ decimal 4)"
  have calls: "lp_on_event store_lp ?ev (lp_state store_lp) = [Request_Write 4, Sink (Fail ?e)]"
    by (simp add: store_lp_def default_lp_def txn_write_def world_write_def world_record_def ev)
  have missing: "is_missing_entity_error ?e"
    by (simp add: is_missing_entity_error_def missing_prefix_def)
  have handler: "run_handler 1 [Request_Write 4, Sink (Fail e)] rec u = (Inl e, u)"
    if "map_of (m_lps u) 1 = Some c" "cx_lp c = store_lp" for e rec u c
    using that by (simp add: request_write_def bnd_def ctx_of_def Let_def store_lp_def default_lp_def)
  let ?u = "upd_ctx (ev_dst ?ev) (\<lambda>c. c\<lparr>cx_vt := ev_ts ?ev, cx_inEvent := True, cx_currentExecTs := ev_ts ?ev\<rparr>) store_sim"
  have cx: "map_of (m_lps store_sim) (ev_dst ?ev) = Some ?cx" "\<not> ev_ts ?ev < cx_vt ?cx"
    by (simp_all add: sim ev zero_stamp_def)
  have lp: "cx_lp ?cx = store_lp" by simp
  have "map_of (m_lps ?u) 1 = Some (?cx\<lparr>cx_vt := ev_ts ?ev, cx_inEvent := True, cx_currentExecTs := ev_ts ?ev\<rparr>)"
    by (simp add: sim ev)
  then have fails: "run_handler (ev_dst ?ev) (lp_on_event (cx_lp ?cx) ?ev (lp_state (cx_lp ?cx))) (new_record ?ev ?cx) ?u
      = (Inl ?e, ?u)"
    unfolding lp calls unfolding ev(1) by (rule handler) simp
  have "\<exists>t. dispatch ?ev store_sim = (Inr (), t) \<and> m_pending t = m_pending store_sim
    \<and> map_of (m_lps t) (ev_dst ?ev) = Some (?cx\<lparr>cx_inEvent := False, cx_currentExecTs := cx_vt ?cx\<rparr>)
    \<and> map_of (m_deferredTargeted t) (deferred_key (ev_dst ?ev) (ev_target ?ev)) =
        Some ((case map_of (m_deferredTargeted store_sim) (deferred_key (ev_dst ?ev) (ev_target ?ev)) of
                 None \<Rightarrow> [] | Some q \<Rightarrow> q) @ [?ev])"
    by (rule early_event_is_deferred [OF cx fails missing])
      (simp_all add: sim default_config_def tally_event_def empty_event_def empty_payload_def)
  then show ?thesis unfolding ev sim by auto
qed

section \<open>Messages\<close>



text \<open>
  C18. The event format. Decoding an encoded event gives it back, sign, colour, identity and
  payload included; and a frame cut off anywhere is refused with the truncation error,
  never read as another event.
\<close>

theorem event_wire_round_trip:
  assumes "event_fits ev"
  shows "decode_event (encode_event ev) = Inr ev
    \<and> (\<forall>k < length (encode_event ev). decode_event (take k (encode_event ev)) = Inl truncated)"
  using decode_encode_event [OF assms] decode_cut_event [OF assms] by blast

theorem event_wire_round_trip_witness:
  "decode_event (encode_event tally_event) = Inr tally_event
    \<and> decode_event (take 10 (encode_event tally_event)) = Inl truncated"
proof -
  have "length (encode_event tally_event) > 10" by code_simp
  then show ?thesis
    using event_wire_round_trip [of tally_event]
    by (simp add: event_fits_def tally_event_def empty_event_def empty_payload_def)
qed

text \<open>
  C19. Over MPI. What one rank frames and sends is, once it can be received, what the other
  rank's \<open>poll\<close> returns; and when the message carries an encoded event or migration, the
  kernel decodes that event or migration.
\<close>

theorem mpi_message_arrives:
  assumes "tests_by mpi completed" and "message_fits msg"
    and "mpi_iprobe mpi (ms_net s) = ((True, True), n)"
    and "mpi_get_count mpi n = (True, int (length (mpi_frame msg)))"
    and "mpi_recv mpi (length (mpi_frame msg)) n = ((True, mpi_frame msg), n')"
  shows "(\<exists>t. mpi_poll mpi s = (Inr (Some msg), t) \<and> ms_net t = n')
    \<and> (wm_bytes msg = encode_event ev \<and> event_fits ev \<longrightarrow> decode_event (wm_bytes msg) = Inr ev)
    \<and> (wm_bytes msg = encode_migration mig \<and> length (mig_state mig) < 2 ^ 32 \<longrightarrow> decode_migration (wm_bytes msg) = Inr mig)"
  using mpi_poll_receives [OF assms] by (auto simp: decode_encode_event decode_encode_migration)

theorem mpi_message_arrives_witness:
  "\<exists>msg t. mpi_poll loop_mpi \<lparr>ms_net = [mpi_frame msg], ms_pendingSends = [([], ())]\<rparr> = (Inr (Some msg), t)
    \<and> ms_net t = [] \<and> decode_event (wm_bytes msg) = Inr tally_event"
proof -
  let ?msg = "\<lparr>wm_kind = Event_Message, wm_srcRank = 1, wm_dstRank = 0, wm_bytes = encode_event tally_event\<rparr>"
  have len: "length (encode_event tally_event) = 50" by code_simp
  have fits: "message_fits ?msg" by (simp add: message_fits_def len)
  have ev: "event_fits tally_event" by (simp add: event_fits_def tally_event_def empty_event_def empty_payload_def)
  let ?s = "\<lparr>ms_net = [mpi_frame ?msg], ms_pendingSends = [([], ())]\<rparr>"
  have "(\<exists>t. mpi_poll loop_mpi ?s = (Inr (Some ?msg), t) \<and> ms_net t = []) \<and> decode_event (wm_bytes ?msg) = Inr tally_event"
    using mpi_message_arrives [OF loop_mpi_tests fits, of ?s "[mpi_frame ?msg]" "[]" tally_event] ev
    by (simp add: loop_mpi_def)
  then show ?thesis by blast
qed



section \<open>Time stamps and snapshots\<close>

text \<open>
  C21. The predecessor a rollback sets the virtual time to is the immediate one: nothing
  lies strictly between it and the stamp, also across a change of the time component.
\<close>

theorem prev_stamp_immediate:
  assumes "t \<noteq> zero_stamp"
  shows "prev_stamp t < t \<and> (x < t \<longleftrightarrow> x \<le> prev_stamp t)"
  using prev_stamp_less [OF assms] prev_stamp_pred [OF assms] by blast

theorem prev_stamp_immediate_witness:
  "prev_stamp (TimeStamp 5 0) = TimeStamp 4 (- 1) \<and> prev_stamp (TimeStamp 5 0) < TimeStamp 5 0"
  using prev_stamp_immediate [of "TimeStamp 5 0"]
  by (simp add: zero_stamp_def prev_stamp_def stamp_at_max_sequence_def)

text \<open>
  C22. The bounded snapshot history refines a finite map: it never holds more than its
  maximum; a lookup finds the latest snapshot at or before the time, and nothing else;
  dropping what is after a time keeps exactly the snapshots up to it.
\<close>

theorem state_history_correct:
  assumes "sh_wf h"
  shows "sh_wf (sh_push ts b h) \<and> sh_wf (sh_drop_after ts h)
    \<and> (sh_latest_at_or_before ts h = Some (k, v) \<longleftrightarrow>
        map_of (sh_history h) k = Some v \<and> k \<le> ts
        \<and> (\<forall>x \<in> dom (map_of (sh_history h)). x \<le> ts \<longrightarrow> x \<le> k))
    \<and> map_of (sh_history (sh_drop_after ts h)) = map_of (sh_history h) |` {..ts}"
proof -
  have ord: "ordered_keys (sh_history h)" using assms by (simp add: sh_wf_def)
  have "map_of (filter (\<lambda>e. fst e \<le> ts) m) = map_of m |` {..ts}" if "distinct (map fst m)" for m :: "(timestamp \<times> bytes) list"
    using that by (induction m) (auto simp: fun_eq_iff restrict_map_def map_of_eq_None_iff)
  then show ?thesis
    using assms ord sh_wf_ops(3,4) [of h] floor_entry_Some_iff [OF ord] ordered_keys_distinct [OF ord]
    by (simp add: sh_latest_floor sh_drop_after_filter)
qed

theorem state_history_correct_witness:
  "sh_latest_at_or_before (TimeStamp 7 0) (sh_push (TimeStamp 5 0) [1] (sh_new 2)) = Some (TimeStamp 5 0, [1])"
proof -
  have "sh_wf (sh_push (TimeStamp 5 0) [1] (sh_new 2))"
    using state_history_correct [of "sh_new 2" "TimeStamp 5 0" "[1]"] by (simp add: sh_wf_def sh_new_def)
  moreover have "sh_history (sh_push (TimeStamp 5 0) [1] (sh_new 2)) = [(TimeStamp 5 0, [1])]"
    by (simp add: sh_push_def sh_new_def sh_trim_def)
  ultimately show ?thesis using state_history_correct [of _ "TimeStamp 7 0"] by simp
qed

section \<open>Random numbers and determinism\<close>

text \<open>
  C23. Ranges. A number drawn from a range lies in it, both ends included, and a unit double
  is at least 0 and less than 1; the only range without a result is the full 64-bit one,
  where the size of the range wraps around to zero and the code divides by it.
\<close>

theorem rng_range_bounds:
  assumes "lo \<le> hi"
  shows "(case event_rng_u64_range seed lp ev stream lo hi draw of
      Inr v \<Rightarrow> lo \<le> v \<and> v \<le> hi | Inl e \<Rightarrow> e = Undefined \<and> lo = 0 \<and> hi = - 1)
    \<and> 0 \<le> event_rng_unit_double seed lp ev stream draw \<and> event_rng_unit_double seed lp ev stream draw < 1"
proof -
  let ?r = "rng_u64_src seed lp stream (ev_src ev) (ev_uid ev) draw"
  have "case range_of ?r lo hi of Inr v \<Rightarrow> lo \<le> v \<and> v \<le> hi | Inl e \<Rightarrow> e = Undefined \<and> lo = 0 \<and> hi = - 1"
  proof (cases "hi - lo + 1 = 0")
    case True
    then have "hi = lo - 1" by (simp add: eq_neg_iff_add_eq_0 [symmetric] algebra_simps)
    moreover from this have "lo = 0"
      using assms word_less_iff_le_minus_1 [of lo lo] by (cases "lo = 0") auto
    ultimately show ?thesis by (simp add: range_of_def)
  next
    case False
    then obtain v where "range_of ?r lo hi = Inr v" by (simp add: range_of_def Let_def)
    then show ?thesis using range_of_bounds [OF assms] by simp
  qed
  then show ?thesis
    using unit_double_of_bounds
    by (simp add: event_rng_u64_range_def rng_u64_range_src_def event_rng_unit_double_def rng_unit_double_src_def)
qed

theorem rng_range_bounds_witness:
  "event_rng_u64_range 1 2 tally_event 3 0 (- 1) 4 = Inl Undefined
    \<and> (case event_rng_u64_range 1 2 tally_event 3 10 20 4 of Inr v \<Rightarrow> v \<le> 20 | Inl _ \<Rightarrow> False)"
  using rng_range_bounds [of 10 20 1 2 tally_event 3 4]
  by (simp add: event_rng_u64_range_def rng_u64_range_src_def range_of_def split: sum.splits)

text \<open>
  C24. The determinism digest can be compared across runs and rank counts: however the
  committed items are ordered and spread over the ranks, reducing the digests of the ranks
  gives the digest of all the items.
\<close>

theorem digest_independent_of_ranks:
  assumes "mset (map forget_rank (concat parts)) = mset (map forget_rank items)"
  shows "digest_equal (fold digest_reduce (map digest_of parts) empty_digest) (digest_of items)"
proof -
  have step: "digest_reduce (digest_of xs) (digest_of ys) = digest_of (xs @ ys)" for xs ys
    unfolding digest_of_def by (rule det_digest.fold_split)
  have "fold digest_reduce (map digest_of parts) (digest_of xs) = digest_of (concat (rev parts) @ xs)" for xs
    by (induction parts arbitrary: xs) (simp_all add: step)
  from this [of "[]"] have "fold digest_reduce (map digest_of parts) empty_digest = digest_of (concat (rev parts))"
    by (simp add: digest_of_def)
  moreover have "mset (concat (rev parts)) = mset (concat parts)"
    by (induction parts) simp_all
  then have "mset (map forget_rank (concat (rev parts))) = mset (map forget_rank items)"
    using assms by simp
  then have "digest_of (map forget_rank (concat (rev parts))) = digest_of (map forget_rank items)"
    unfolding digest_of_def by (rule det_digest.fold_mset_eq)
  ultimately show ?thesis by (simp add: digest_equal_eq digest_forget_rank)
qed

theorem digest_independent_of_ranks_witness:
  "digest_equal
    (fold digest_reduce [digest_of [Committed_Event 0 1 tally_event],
       digest_of [Committed_Output 1 2 max_stamp (ev_payload tally_event)]] empty_digest)
    (digest_of [Committed_Output 0 2 max_stamp (ev_payload tally_event), Committed_Event 0 1 tally_event])"
  using digest_independent_of_ranks [of "[[Committed_Event 0 1 tally_event],
      [Committed_Output 1 2 max_stamp (ev_payload tally_event)]]"
      "[Committed_Output 0 2 max_stamp (ev_payload tally_event), Committed_Event 0 1 tally_event]"] by simp

section \<open>Modeling\<close>

text \<open>
  C25. Entities of a trivially registered type survive a snapshot: what \<open>serialize_entity\<close>
  wrote, deserialised later over any other value of the entity, makes a read return the
  value of the snapshot, and no other entity is touched.
\<close>

theorem entity_snapshot_restores:
  assumes "trivial_layout (\<lambda>_. put) get sz 0"
    and "registry_get (w_registry w) type = Inr (trivial_ops type init sz put get)"
    and "world_record eid w = Inr (type, v)"
    and "world_record eid w' = Inr (type, v')" "w_registry w' = w_registry w"
  shows "\<exists>bs u. serialize_entity eid w = Inr bs \<and> deserialize_entity eid bs w' = (Inr (), u)
    \<and> world_read eid type u = Inr v
    \<and> (\<forall>other. other \<noteq> eid \<longrightarrow> world_record other u = world_record other w')"
proof -
  obtain bs where bs: "serialize_entity eid w = Inr bs"
    "deserialize_entity eid bs w' = (Inr (), set_entity eid v w')"
    using deserialize_serialize [OF assms] by blast
  moreover have "world_read eid type (set_entity eid v w') = Inr v"
    using world_record_set [OF assms(4)] by (simp add: world_read_def)
  ultimately show ?thesis
    by (intro exI [of _ bs] exI [of _ "set_entity eid v w'"]) (simp add: world_record_set_other)
qed

theorem entity_snapshot_restores_witness:
  "\<exists>bs u. serialize_entity 4 \<lparr>w_registry = [(7, trivial_ops 7 0 8 (le_bytes 8) (field_at 0 8))],
        w_entities = [(4, 7, 5 :: u64)]\<rparr> = Inr bs
    \<and> deserialize_entity 4 bs \<lparr>w_registry = [(7, trivial_ops 7 0 8 (le_bytes 8) (field_at 0 8))],
        w_entities = [(4, 7, 6 :: u64)]\<rparr> = (Inr (), u) \<and> world_read 4 7 u = Inr 5"
proof -
  let ?w = "\<lambda>n. \<lparr>w_registry = [(7, trivial_ops 7 0 8 (le_bytes 8) (field_at 0 8))], w_entities = [(4, 7, n :: u64)]\<rparr>"
  have w: "registry_get (w_registry (?w 5)) 7 = Inr (trivial_ops 7 0 8 (le_bytes 8) (field_at 0 8))"
    "world_record 4 (?w 5) = Inr (7, 5)" "world_record 4 (?w 6) = Inr (7, 6)" "w_registry (?w 6) = w_registry (?w 5)"
    by (simp_all add: registry_get_def world_record_def)
  from entity_snapshot_restores [OF counter_layout.trivial_layout_axioms w] show ?thesis by blast
qed

section \<open>Ownership and migration\<close>

text \<open>
  C26. The directory refines a map from entity and time to owner: an update at a time gives
  the entity its new owner from that time until the entity's next later update, and changes
  no other answer, whatever order the updates arrive in.
\<close>

theorem ownership_update_refines:
  assumes "history_wf h"
  shows "history_wf (set_owner entity ts owner h)
    \<and> owner_at cfg e' ts' (set_owner entity ts owner h) =
      (if e' = entity \<and> ts \<le> ts' \<and> \<not> (\<exists>u \<in> set (timeline_of entity h). ts < fst u \<and> fst u \<le> ts') then owner
       else owner_at cfg e' ts' h)"
  using owner_at_update [OF assms] history_wf_set_owner [OF assms] unfolding next_update_by_def by blast

theorem ownership_update_refines_witness:
  "owner_at dir_config 4 (TimeStamp 7 0) (set_owner 4 (TimeStamp 5 0) 2 [(4, [(TimeStamp 9 0, 3)])]) = 2
    \<and> owner_at dir_config 4 (TimeStamp 9 0) (set_owner 4 (TimeStamp 5 0) 2 [(4, [(TimeStamp 9 0, 3)])]) = 3"
proof -
  have wf: "history_wf [(4, [(TimeStamp 9 0, 3)])]" by (simp add: history_wf_def ordered_keys_def)
  have "owner_at dir_config 4 (TimeStamp 9 0) [(4, [(TimeStamp 9 0, 3)])] = 3"
    by (simp add: owner_at_def upper_bound_def)
  then show ?thesis
    using ownership_update_refines [OF wf, of 4 "TimeStamp 5 0" 2 dir_config 4] by (simp add: timeline_of_def)
qed

text \<open>
  C27. Pruning the directory at GVT changes no answer from GVT on, and leaves at most one
  entry per entity before GVT.
\<close>

theorem ownership_pruning_correct:
  assumes "history_wf h"
  shows "history_wf (prune_history gvt h)
    \<and> (gvt \<le> ts \<longrightarrow> owner_at cfg entity ts (prune_history gvt h) = owner_at cfg entity ts h)
    \<and> length (filter (\<lambda>e. fst e < gvt) (timeline_of entity (prune_history gvt h))) \<le> 1"
  using prune_history_wf [OF assms] owner_at_prune [OF assms] prune_timeline_bound [OF timeline_of_wf [OF assms]]
  by (simp add: timeline_prune_history [OF assms])

theorem ownership_pruning_correct_witness:
  "owner_at dir_config 4 (TimeStamp 8 0) (prune_history (TimeStamp 8 0) [(4, [(TimeStamp 5 0, 2), (TimeStamp 6 0, 3)])]) = 3"
proof -
  have wf: "history_wf [(4, [(TimeStamp 5 0, 2), (TimeStamp 6 0, 3)])]" by (simp add: history_wf_def ordered_keys_def)
  have "owner_at dir_config 4 (TimeStamp 8 0) [(4, [(TimeStamp 5 0, 2), (TimeStamp 6 0, 3)])] = 3"
    by (simp add: owner_at_def upper_bound_def)
  then show ?thesis
    using ownership_pruning_correct [OF wf, of "TimeStamp 8 0" "TimeStamp 8 0" dir_config 4] by simp
qed

text \<open>
  C28. A migration, end to end. An update made by \<open>make_update_owner_payload\<close> and handled by
  a directory with the default configuration requests the write, records the new owner at
  the event's time, sends the new owner an install event with exactly the entity and the
  state that were put in, and commits a log entry naming the old and the new owner.
\<close>

theorem migration_end_to_end:
  assumes "make_update_owner_payload DefaultUpdateOwnerKind entity newOwner state = Inr p"
    and "ev_payload ev = p" and "length pad = 4" "length pad' = 4" and "sid \<noteq> 0" and "history_wf h"
  shows "\<exists>install log h'.
    directory_on_event pad' (make_default_directory_config pad i sid) ev h =
      [Request_Write sid, Sink (Become h'), Sink (Send install), Emit_Committed (ev_ts ev) log]
    \<and> owner_at (make_default_directory_config pad i sid) entity (ev_ts ev) h' = newOwner
    \<and> ev_ts install = ev_ts ev \<and> ev_dst install = newOwner \<and> ev_target install = entity
    \<and> decode_install install = Inr (entity, state)
    \<and> decode_migration_log_payload log = Inr \<lparr>dm_entity = entity,
        dm_oldOwner = owner_at (make_default_directory_config pad i sid) entity (ev_ts ev) h,
        dm_newOwner = newOwner, dm_sentInstall = 1\<rparr>"
proof -
  have "owner_at (make_default_directory_config pad i sid) entity (ev_ts ev) (set_owner entity (ev_ts ev) newOwner h)
      = newOwner"
    using owner_at_update [OF assms(6)] by (auto simp: next_update_by_def)
  then show ?thesis using directory_applies_update [OF assms(1-5), of i h] by blast
qed

theorem migration_end_to_end_witness:
  "\<exists>p install log h'. make_update_owner_payload DefaultUpdateOwnerKind 4 2 [7, 8] = Inr p
    \<and> directory_on_event [0, 0, 0, 0] (make_default_directory_config [0, 0, 0, 0] 100 1)
        (tally_event\<lparr>ev_payload := p\<rparr>) []
      = [Request_Write 1, Sink (Become h'), Sink (Send install), Emit_Committed (TimeStamp 5 1) log]
    \<and> decode_install install = Inr (4, [7, 8])"
proof -
  obtain p where p: "make_update_owner_payload DefaultUpdateOwnerKind 4 2 [7, 8] = Inr p"
    by (simp add: make_update_owner_payload_def make_default_update_owner_payload_def
        unsigned_minus_1_eq_mask mask_eq_exp_minus_1)
  have ts: "ev_ts (tally_event\<lparr>ev_payload := p\<rparr>) = TimeStamp 5 1" by (simp add: tally_event_def)
  have "history_wf []" by (simp add: history_wf_def)
  from migration_end_to_end [OF p, of "tally_event\<lparr>ev_payload := p\<rparr>" "[0, 0, 0, 0]" "[0, 0, 0, 0]" 1 "[]" 100] this p
  show ?thesis unfolding ts by auto
qed

text \<open>
  C29. Rolling back a directory. The kernel and the service's own \<open>on_event\<close>, \<open>save_state\<close> and
  \<open>load_state\<close> together: executing any event at a directory and rolling back to its time
  restores the ownership histories exactly, and the event is pending again.
\<close>

theorem directory_rolls_back:
  assumes "sound s" and "dispatch ev s = (Inr (), t)" and "\<not> ev_isAnti ev" and "buffering_off s"
    and "map_of (m_lps s) (ev_dst ev) = Some cx" and "cx_vt cx < ev_ts ev"
    and "directory_lp pad cfg = Inr service" and "cx_lp cx = service\<lparr>lp_state := h\<rparr>" and "saveable h"
    and "list_all record_ok (cx_processed cx)" and "counters_ok t"
    and "\<And>cx'. map_of (m_lps t) (ev_dst ev) = Some cx' \<Longrightarrow> list_all sent_ok (cx_sentLog cx')"
  shows "\<exists>u cx''. rollback (ev_dst ev) (ev_ts ev) t = (Inr (), u)
    \<and> map_of (m_lps u) (ev_dst ev) = Some cx'' \<and> lp_state (cx_lp cx'') = h
    \<and> cx_processed cx'' = cx_processed cx \<and> ev \<in> set (m_pending u)"
proof -
  have lp: "cx_lp cx = (default_lp (dc_id cfg) [])\<lparr>lp_on_event := directory_on_event pad cfg,
      lp_save_state := directory_save_state, lp_load_state := directory_load_state, lp_state := h\<rparr>"
    using assms(7,8) by (auto simp: directory_lp_def split: if_splits)
  have "lp_wide (cx_lp cx)" by (simp add: lp lp_wide_def default_lp_def)
  moreover have "write_before_mutation (lp_on_event (cx_lp cx) ev (lp_state (cx_lp cx)))"
    by (simp add: lp directory_writes_before_mutation)
  moreover have "snapshot_lp (lp_save_state (cx_lp cx)) (lp_load_state (cx_lp cx)) saveable"
    using directory_snapshots.snapshot_lp_axioms by (simp add: lp)
  moreover have "saveable (lp_state (cx_lp cx))" using assms(9) by (simp add: lp)
  ultimately obtain u cx'' where "rollback (ev_dst ev) (ev_ts ev) t = (Inr (), u)"
    "map_of (m_lps u) (ev_dst ev) = Some cx''" "cx_lp cx'' = cx_lp cx"
    "cx_processed cx'' = cx_processed cx" "ev \<in> set (m_pending u)"
    using dispatch_then_rollback [OF assms(1-6) _ _ _ _ assms(10-12)] by blast
  then show ?thesis using lp by (intro exI [of _ u] exI [of _ cx'']) simp
qed

theorem directory_rolls_back_witness:
  "map (\<lambda>(i, cx). lp_state (cx_lp cx)) (m_lps dir_done) = [[(4, [(TimeStamp 2 0, 3)])]]
    \<and> (\<exists>u cx. rollback 100 (TimeStamp 5 1) dir_done = (Inr (), u) \<and> map_of (m_lps u) 100 = Some cx
        \<and> lp_state (cx_lp cx) = dir_history \<and> dir_event \<in> set (m_pending u))"
proof
  show "map (\<lambda>(i, cx). lp_state (cx_lp cx)) (m_lps dir_done) = [[(4, [(TimeStamp 2 0, 3)])]]" by code_simp
  let ?cx = "\<lparr>cx_lp = dir_service\<lparr>lp_state := dir_history\<rparr>, cx_vt = zero_stamp, cx_inEvent = False,
    cx_currentExecTs = zero_stamp, cx_processed = [], cx_sentLog = [], cx_nextSeqNormal = 1,
    cx_nextSeqControl = 1, cx_nextUid = 1\<rparr>"
  have ev: "ev_dst dir_event = 100" "ev_ts dir_event = TimeStamp 5 1" "\<not> ev_isAnti dir_event"
    by (simp_all add: dir_event_def tally_event_def empty_event_def)
  have "fst (dispatch dir_event dir_sim) = Inr ()" by code_simp
  then have run: "dispatch dir_event dir_sim = (Inr (), dir_done)" by (simp add: dir_done_def prod_eq_iff)
  have after: "list_all (\<lambda>(_, cx). cx_nextSeqNormal cx \<noteq> 0 \<and> cx_nextSeqControl cx \<noteq> 0 \<and> cx_nextUid cx \<noteq> 0
      \<and> cx_sentLog cx = []) (m_lps dir_done)" by code_simp
  have "\<exists>u cx''. rollback (ev_dst dir_event) (ev_ts dir_event) dir_done = (Inr (), u)
    \<and> map_of (m_lps u) (ev_dst dir_event) = Some cx'' \<and> lp_state (cx_lp cx'') = dir_history
    \<and> cx_processed cx'' = cx_processed ?cx \<and> dir_event \<in> set (m_pending u)"
  proof (rule directory_rolls_back [OF _ run ev(3) _ _ _ dir_service_is])
    show "sound dir_sim"
      using dir_sim_facts(1)
      by (simp add: counters_ok_def all_ctx_list dir_sim_facts(2,3) local_mode_def default_config_def)
    show "saveable dir_history" by (simp add: saveable_def history_wf_def ordered_keys_def dir_history_def)
    show "counters_ok dir_done" using after by (auto simp: counters_ok_def all_ctx_list list_all_iff)
    show "list_all sent_ok (cx_sentLog cx')" if "map_of (m_lps dir_done) (ev_dst dir_event) = Some cx'" for cx'
      using after that by (auto simp: list_all_iff dest!: map_of_SomeD)
  qed (simp_all add: ev dir_sim_facts buffering_off_def default_config_def zero_stamp_def)
  then show "\<exists>u cx. rollback 100 (TimeStamp 5 1) dir_done = (Inr (), u) \<and> map_of (m_lps u) 100 = Some cx
        \<and> lp_state (cx_lp cx) = dir_history \<and> dir_event \<in> set (m_pending u)"
    unfolding ev by blast
qed

section \<open>The area of interest\<close>

text \<open>
  C30. A sphere query is answered exactly. The query sent with the client, handled by the
  service and decoded by the client yields, at the time and to the sender of the query, the
  entities with a position inside the sphere, without the asking one if that is configured,
  in ascending order and each once, whatever the floating-point arithmetic.
\<close>

theorem aoi_query_answered:
  assumes "client_send_query pad cl ts srcLp q = Send ev" and "length pad = 4" "length pad' = 4"
    and "cl_queryKind cl = ac_queryKind cfg" "ac_updateKind cfg \<noteq> ac_queryKind cfg"
    and "ordered_keys m" "length m < 2 ^ 32" and "qa_shape q = 1"
  shows "\<exists>reply es. aoi_on_event fp pad' cfg ev m = [Sink (Send reply)]
    \<and> ev_dst reply = srcLp \<and> ev_ts reply = ts
    \<and> client_decode_result (ev_payload reply) = Inr \<lparr>ar_requestId = qa_requestId q, ar_entities = es\<rparr>
    \<and> sorted es \<and> distinct es
    \<and> (\<forall>e. e \<in> set es \<longleftrightarrow> (\<exists>pos. map_of m e = Some pos \<and> \<not> is_self cfg q e \<and> in_sphere fp q pos))"
  using assms by (rule query_answered)

theorem aoi_query_answered_witness:
  "\<exists>reply. aoi_on_event word_fp [0, 0, 0, 0] \<lparr>ac_id = 9, ac_stateEntityId = 1, ac_updateKind = 1, ac_queryKind = 2,
        ac_resultKind = 3, ac_excludeSelf = True\<rparr>
      (client_event \<lparr>cl_aoiLp = 9, cl_updateKind = 1, cl_queryKind = 2\<rparr> (TimeStamp 5 1) 7 2
        (query_bytes [0, 0, 0, 0] \<lparr>qa_requestId = 6, qa_self = 4, qa_shape = 1,
           qa_origin = \<lparr>v_x = 0, v_y = 0, v_z = 0\<rparr>, qa_radius = 2,
           qa_direction = \<lparr>v_x = 0, v_y = 0, v_z = 0\<rparr>, qa_range = 0, qa_cosHalfAngle = 0\<rparr>))
      [(4, \<lparr>v_x = 0, v_y = 0, v_z = 0\<rparr>), (5, \<lparr>v_x = 1, v_y = 1, v_z = 1\<rparr>)] = [Sink (Send reply)]
    \<and> client_decode_result (ev_payload reply) = Inr \<lparr>ar_requestId = 6, ar_entities = [5]\<rparr>"
proof -
  let ?q = "\<lparr>qa_requestId = 6, qa_self = 4, qa_shape = 1, qa_origin = \<lparr>v_x = 0, v_y = 0, v_z = 0\<rparr>, qa_radius = 2,
     qa_direction = \<lparr>v_x = 0, v_y = 0, v_z = 0\<rparr>, qa_range = 0, qa_cosHalfAngle = 0\<rparr>"
  let ?cl = "\<lparr>cl_aoiLp = 9, cl_updateKind = 1, cl_queryKind = 2\<rparr>"
  let ?cfg = "\<lparr>ac_id = 9, ac_stateEntityId = 1, ac_updateKind = 1, ac_queryKind = 2, ac_resultKind = 3, ac_excludeSelf = True\<rparr>"
  let ?m = "[(4, \<lparr>v_x = 0, v_y = 0, v_z = 0\<rparr>), (5, \<lparr>v_x = 1, v_y = 1, v_z = 1\<rparr>)] :: positions"
  let ?ev = "client_event ?cl (TimeStamp 5 1) 7 2 (query_bytes [0, 0, 0, 0] ?q)"
  have sent: "client_send_query [0, 0, 0, 0] ?cl (TimeStamp 5 1) 7 ?q = Send ?ev" by (simp add: client_send_query_def)
  have ord: "ordered_keys ?m" by (simp add: ordered_keys_def)
  obtain reply es where r: "aoi_on_event word_fp [0, 0, 0, 0] ?cfg ?ev ?m = [Sink (Send reply)]"
    "client_decode_result (ev_payload reply) = Inr \<lparr>ar_requestId = 6, ar_entities = es\<rparr>" "sorted es" "distinct es"
    "\<And>e. e \<in> set es \<longleftrightarrow> (\<exists>pos. map_of ?m e = Some pos \<and> \<not> is_self ?cfg ?q e \<and> in_sphere word_fp ?q pos)"
    using aoi_query_answered [OF sent _ _ _ _ ord, of "[0, 0, 0, 0]" ?cfg word_fp] by auto
  have "e \<in> set es \<longleftrightarrow> e = 5" for e
    unfolding r(5) by (auto simp: is_self_def in_sphere_def norm2_def dot_def sub_def word_fp_def)
  then have "set es = set [5]" by auto
  then have "es = [5]" using r(3,4) by (intro sorted_distinct_set_unique) simp_all
  then show ?thesis using r(1,2) by blast
qed

section \<open>Programs on the engine\<close>

text \<open>
  C31. A radar ping or an explosion reaches the aircraft it finds. The driver's event makes one
  query at its time, the area-of-interest service makes one reply at that time to the driver,
  and of that reply the driver makes one notification per entity found: the entities in the
  cone other than the shooter, each told to the shooter, or the entities in the sphere, each
  told to its owner.
\<close>

theorem driver_notifies_what_is_found:
  assumes "length rpad = 4" and "length qpad = 4" and "ordered_keys m" and "length m < 2 ^ 32"
    and "p_kind (ev_payload ev) = kind" and "kind = Radar_Ping \<or> kind = Explosion_Detonate"
  shows "\<exists>q reply es. driver_on_event fp qpad pad c ev () = [Sink (Send q)] \<and> ev_ts q = ev_ts ev
    \<and> aoi_on_event (fp.truncate fp) rpad radar_aoi q m = [Sink (Send reply)] \<and> ev_ts reply = ev_ts ev
    \<and> ev_dst reply = dr_id c \<and> distinct es
    \<and> (if kind = Radar_Ping
        then (\<forall>e. e \<in> set es \<longleftrightarrow> (\<exists>pos. map_of m e = Some pos \<and> \<not> is_self radar_aoi (radar_query fp c ev) e
            \<and> in_cone (fp.truncate fp) (radar_query fp c ev) pos))
          \<and> map ev_dst (sends_of (driver_on_event fp qpad pad c reply ())) = replicate (length es) (dr_shooterLp c)
        else (\<forall>e. e \<in> set es \<longleftrightarrow> (\<exists>pos. map_of m e = Some pos \<and> in_sphere (fp.truncate fp) (explosion_query fp c ev) pos))
          \<and> map ev_dst (sends_of (driver_on_event fp qpad pad c reply ())) = map (\<lambda>e. ucast (drop_bit 32 e)) es)"
  using assms by (rule driver_told)

theorem driver_notifies_what_is_found_witness:
  "let fp = \<lparr>fp_add = (+), fp_sub = (-), fp_mul = (*), fp_less = (<), fp_le = (\<le>), fp_eq = (=),
         rf_of_unit = (\<lambda>_. 0), rf_cos60 = 0\<rparr>;
       boom = driver_event 3 3 (TimeStamp 13 0) Explosion_Detonate []
   in \<exists>q reply. driver_on_event fp [0, 0, 0, 0] [0, 0, 0, 0] radar_driver boom () = [Sink (Send q)]
    \<and> aoi_on_event (fp.truncate fp) [0, 0, 0, 0] radar_aoi q [] = [Sink (Send reply)]
    \<and> sends_of (driver_on_event fp [0, 0, 0, 0] [0, 0, 0, 0] radar_driver reply ()) = []"
proof -
  let ?fp = "\<lparr>fp_add = (+), fp_sub = (-), fp_mul = (*), fp_less = (<), fp_le = (\<le>), fp_eq = (=),
    rf_of_unit = (\<lambda>_. 0), rf_cos60 = 0\<rparr>"
  let ?boom = "driver_event 3 3 (TimeStamp 13 0) Explosion_Detonate []"
  have kind: "p_kind (ev_payload ?boom) = Explosion_Detonate" "Explosion_Detonate \<noteq> Radar_Ping"
    by (simp_all add: driver_event_def radar_kinds)
  have ord: "ordered_keys ([] :: positions)" by (simp add: ordered_keys_def)
  from driver_notifies_what_is_found [OF _ _ ord _ kind(1), of "[0, 0, 0, 0]" "[0, 0, 0, 0]" ?fp "[0, 0, 0, 0]" radar_driver]
  show ?thesis unfolding Let_def using kind(2) by auto
qed

text \<open>
  C32. Matching is price-time priority. When a match is asked for at the exchange, what the
  handler does with the book, two unsorted lists it scans for the best bid and the best ask,
  is what price-time priority does with the two sides sorted: the same trades in the same
  order at the asks' prices, two fills for each, an entry of the audit log for each, and the
  same orders left over. No call throws, as long as the prices of the asks stay below 2 to
  the 31 and the orders of a side differ in price or id.
\<close>

theorem exchange_matches_by_priority:
  assumes "exchange_holds target b es st" and "book_keys_ok b" and "\<forall>x \<in> set (ob_asks b). or_price x < 2 ^ 31"
    and "match_sorted (unat maxTrades) (sort_key bid_key (ob_bids b)) (sort_key ask_key (ob_asks b)) = (ts, bids, asks)"
    and "cs = match_orders i traderLp target maxTrades ev st"
  shows "\<not> throws cs \<and> sends_of cs = fills_of i traderLp (ev_ts ev) ts
    \<and> (\<exists>b'. exchange_holds target b' (es @ trade_entries (ev_ts ev) ts) (final_state cs st)
        \<and> sort_key bid_key (ob_bids b') = bids \<and> sort_key ask_key (ob_asks b') = asks)"
proof -
  have "cs = Request_Write target # match_loop i traderLp (unat maxTrades) target ev b st"
    using assms(1,5) by (simp add: match_orders_def borrow_def exchange_holds_def)
  then show ?thesis using match_implements_priority [OF assms(1-4), of i traderLp ev] by auto
qed

theorem exchange_matches_by_priority_witness:
  "let od = (\<lambda>k side q p. \<lparr>or_id = k, or_trader = 7, or_side = side, or_qty = q, or_price = p\<rparr>);
       b = \<lparr>ob_nextOrderId = 5, ob_lastTradePrice = 0, ob_bids = [od 4 0 10 100, od 1 0 10 101],
            ob_asks = [od 3 1 5 100, od 2 1 8 99]\<rparr>;
       st = \<lparr>xc_world = \<lparr>w_registry = [], w_entities = [(1, BookType, Book_V b), (2, AuditType, Audit_V [])]\<rparr>,
             xc_bookId = 1, xc_auditId = 2\<rparr>
   in map (fl_cashDelta \<circ> fill_of) (sends_of (match_orders 1 2 1 16 empty_event st)) = [- 792, 792, - 200, 200, - 300, 300]"
proof -
  let ?o = "\<lambda>k side q p. \<lparr>or_id = k, or_trader = 7, or_side = side, or_qty = q, or_price = p\<rparr>"
  let ?b = "\<lparr>ob_nextOrderId = 5, ob_lastTradePrice = 0, ob_bids = [?o 4 0 10 100, ?o 1 0 10 101],
    ob_asks = [?o 3 1 5 100, ?o 2 1 8 99]\<rparr>"
  let ?st = "\<lparr>xc_world = \<lparr>w_registry = [], w_entities = [(1, BookType, Book_V ?b), (2, AuditType, Audit_V [])]\<rparr>,
    xc_bookId = 1, xc_auditId = 2\<rparr>"
  let ?ts = "[(?o 1 0 10 101, ?o 2 1 8 99, 8, 99), (?o 1 0 2 101, ?o 3 1 5 100, 2, 100), (?o 4 0 10 100, ?o 3 1 3 100, 3, 100)]
    :: trade list"
  have holds: "exchange_holds 1 ?b [] ?st"
    by (simp add: exchange_holds_def world_ref_def world_record_def)
  have keys: "book_keys_ok ?b" "\<forall>x \<in> set (ob_asks ?b). or_price x < 2 ^ 31"
    by (simp_all add: book_keys_ok_def bid_key_def ask_key_def)
  have sorted: "sort_key bid_key (ob_bids ?b) = [?o 1 0 10 101, ?o 4 0 10 100]"
    "sort_key ask_key (ob_asks ?b) = [?o 2 1 8 99, ?o 3 1 5 100]"
    by (simp_all add: bid_key_def ask_key_def)
  have "match_sorted (Suc (Suc (Suc (Suc n)))) (sort_key bid_key (ob_bids ?b)) (sort_key ask_key (ob_asks ?b))
      = (?ts, [?o 4 0 7 100], [])" for n
    unfolding sorted by (simp add: reduced_def min_def)
  from this [of 12] have trades: "match_sorted (unat (16 :: u32)) (sort_key bid_key (ob_bids ?b))
      (sort_key ask_key (ob_asks ?b)) = (?ts, [?o 4 0 7 100], [])" by simp
  have "sends_of (match_orders 1 2 1 16 empty_event ?st) = fills_of 1 2 (ev_ts empty_event) ?ts"
    using exchange_matches_by_priority [OF holds keys trades refl] by blast
  then show ?thesis by (simp add: fills_of_def Let_def)
qed

text \<open>
  C33. An airport loses no plane and makes none. Whatever event reaches it before the horizon,
  an arrival or the end of a service, the planes that were queued or are handled are the ones
  that are queued or sent on afterwards; the runway is busy exactly while one service is under
  way, and is never idle while planes wait; arrivals and departures are counted, and the
  recorded maximum bounds the queue.
\<close>

theorem airport_keeps_planes:
  assumes "airport_params_ok p" and "1 \<le> i" and "i \<le> ap_airports p" and "within_horizon p (ev_ts ev)"
    and "length pad = 4" and "airport_decode ev = Inr a" and "\<forall>t \<in> set (a # as_q st). tk_plane t < 0x40000000"
    and "p_kind (ev_payload ev) = PlaneArrive \<or> p_kind (ev_payload ev) = Airport.ServiceDone"
    and "cs = airport_on_event pad p i ev st" and "st' = final_state cs st"
  shows "planes_kept (image_mset tk_plane (mset (as_q st)) + {#tk_plane a#}) st cs
    \<and> of_bool (as_runwayBusy st') = services cs + of_bool (p_kind (ev_payload ev) = PlaneArrive \<and> as_runwayBusy st)
    \<and> (as_q st' \<noteq> [] \<longrightarrow> as_runwayBusy st')
    \<and> as_arrivals st' = as_arrivals st + of_bool (p_kind (ev_payload ev) = PlaneArrive)
    \<and> as_departures st' = as_departures st + of_bool (p_kind (ev_payload ev) = Airport.ServiceDone)
    \<and> (length (as_q st) < 2 ^ 63 \<longrightarrow> length (as_q st) \<le> unat (as_maxQ st) \<longrightarrow> length (as_q st') \<le> unat (as_maxQ st'))"
  using assms by (rule airport_conserves)

theorem airport_keeps_planes_witness:
  "let ev = airport_event (TimeStamp 5 1) 2 1 PlaneArrive (token_bytes [0, 0, 0, 0] \<lparr>tk_plane = 7, tk_logicalKey = 9\<rparr>);
       cs = airport_on_event [0, 0, 0, 0] airport_defaults 1 ev empty_airport
   in planes_kept {#7#} empty_airport cs \<and> as_arrivals (final_state cs empty_airport) = 1
    \<and> of_bool (as_runwayBusy (final_state cs empty_airport)) = services cs"
proof -
  let ?ev = "airport_event (TimeStamp 5 1) 2 1 PlaneArrive (token_bytes [0, 0, 0, 0] \<lparr>tk_plane = 7, tk_logicalKey = 9\<rparr>)"
  have ok: "airport_params_ok airport_defaults" "within_horizon airport_defaults (ev_ts ?ev)"
    by (simp_all add: airport_params_ok_def within_horizon_def airport_defaults_def)
  have i: "(1 :: u32) \<le> 1" "(1 :: u32) \<le> ap_airports airport_defaults" by (simp_all add: airport_defaults_def)
  have ev: "airport_decode ?ev = Inr \<lparr>tk_plane = 7, tk_logicalKey = 9\<rparr>" "p_kind (ev_payload ?ev) = PlaneArrive"
    using token_layout.get_put_exact [of "[0, 0, 0, 0]"] token_layout.put_length [of "[0, 0, 0, 0]"]
    by (simp_all add: airport_decode_def)
  show ?thesis
    unfolding Let_def using airport_keeps_planes [OF ok(1) i ok(2) _ ev(1) _ disjI1 [OF ev(2)] refl refl, of "[0, 0, 0, 0]" empty_airport]
    by (simp add: empty_airport_def ev(2) PlaneArrive_def Airport.ServiceDone_def)
qed

text \<open>
  C34. The PHOLD program comes to its end. However its pulses are handled, one at a time in any
  order, every pulse stays at an existing process and within the end time, and there are at
  most as many steps as pulses at the start times the units of time, as long as the delays it
  draws are positive and do not wrap around beyond the end time.
\<close>

theorem phold_comes_to_its_end:
  assumes "(phold_step fp p ^^ n) M M'" and "delays_fit fp p" and "\<forall>ev \<in># M. in_time p ev"
  shows "(\<forall>ev \<in># M'. in_time p ev) \<and> n \<le> size M * (unat (pp_endTime p) + 1)"
  using assms by (rule phold_terminates)

theorem phold_comes_to_its_end_witness:
  "let fp = \<lparr>fp_add = (+), fp_sub = (-), fp_mul = (*), fp_less = (<), fp_le = (\<le>), fp_eq = (=), fp_neg = (\<lambda>x. x),
         fp_log = (\<lambda>x. x), fp_floor = (\<lambda>x. x), fp_of_unit = (\<lambda>_. 0), fp_to_u64 = (\<lambda>_. Some 4), fp_stod = (\<lambda>_. None)\<rparr>;
       ev = pulse_event (TimeStamp 5 1) 2 3 7
   in \<exists>M'. phold_step fp phold_defaults {#ev#} M' \<and> filter_mset (\<lambda>ev. \<not> in_time phold_defaults ev) M' = {#}"
proof -
  let ?fp = "\<lparr>fp_add = (+), fp_sub = (-), fp_mul = (*), fp_less = (<), fp_le = (\<le>), fp_eq = (=), fp_neg = (\<lambda>x. x),
    fp_log = (\<lambda>x. x), fp_floor = (\<lambda>x. x), fp_of_unit = (\<lambda>_. 0), fp_to_u64 = (\<lambda>_. Some 4), fp_stod = (\<lambda>_. None)\<rparr>"
  let ?ev = "pulse_event (TimeStamp 5 1) 2 3 7"
  let ?M' = "{#?ev#} - {#?ev#} + mset (sends_of (phold_on_event ?fp phold_defaults (ev_dst ?ev) ?ev ()))"
  have fits: "delays_fit ?fp phold_defaults" by (auto simp: delays_fit_def phold_delta_def phold_defaults_def)
  have start: "\<forall>ev \<in># {#?ev#}. in_time phold_defaults ev" by (simp add: in_time_def phold_defaults_def)
  have step: "phold_step ?fp phold_defaults {#?ev#} ?M'" by (rule phold_step.intros) simp
  then have "(phold_step ?fp phold_defaults ^^ 1) {#?ev#} ?M'" by (simp only: relpowp_1)
  from phold_comes_to_its_end [OF this fits start]
  have "filter_mset (\<lambda>ev. \<not> in_time phold_defaults ev) ?M' = {#}"
    unfolding filter_mset_eq_mempty_iff by blast
  with step show ?thesis unfolding Let_def by blast
qed



text \<open>
  C36. The cars keep their shape and can be rolled back. Whatever event a car process handles,
  every entity of its world stays of its type: a car with four wheels, an engine whose throttle
  is a percentage, a wheel that is flat once it is worn out; and loading the snapshots that the
  handler has asked for gives the world before the event.
\<close>

theorem cars_keep_their_shape:
  assumes "car_lp i peer = Inr lp" and "cars_sound (cp_world st)"
  shows "cars_sound (cp_world (final_state (lp_on_event lp ev st) st)) \<and> reversible lp st (lp_on_event lp ev st)"
proof
  have "lp_on_event lp = dispatch_to_handler car_dispatcher"
    using assms(1) by (auto simp: car_lp_def split: sum.splits)
  then show "cars_sound (cp_world (final_state (lp_on_event lp ev st) st))"
    using cars_keep_sound [OF assms(2)] by simp
  show "reversible lp st (lp_on_event lp ev st)" using assms by (rule cars_reversible)
qed

theorem cars_keep_their_shape_witness:
  "\<exists>lp st. car_lp 2 1 = Inr lp \<and> w_entities (cp_world st) = [(5, WheelType, Wheel_V new_wheel)]
    \<and> reversible lp st (lp_on_event lp (car_event 1 2 8 5 (make_trivial_payload Wheel_Puncture (le_bytes 4 (0 :: u32)))) st)"
proof -
  obtain reg where reg: "car_registry = Inr reg"
    by (simp add: car_registry_def register_trivial_def register_type_def trivial_ops_def car_types throw_if_def)
  obtain lp where lp: "car_lp 2 1 = Inr lp" by (simp add: car_lp_def reg)
  let ?st = "\<lparr>cp_id = 2, cp_peer = 1, cp_world = \<lparr>w_registry = reg, w_entities = [(5, WheelType, Wheel_V new_wheel)]\<rparr>\<rparr>"
  have "cars_sound (cp_world ?st)" by (simp add: cars_sound_def reg part_sound_def new_wheel_def)
  from cars_keep_their_shape [OF lp this] lp show ?thesis
    by (intro exI [of _ lp] exI [of _ ?st]) simp
qed

section \<open>Limits of the code\<close>






text \<open>
  C40. A landing cannot be undone in the regional airport program. Its regions save and load
  their airports only, and the plane itself is written through the world, which asks for a
  snapshot of the entity that the process does not take: loading the snapshot of a landing
  leaves the plane landed.
\<close>

theorem landing_survives_rollback:
  assumes "regional_lp pad p i directory = Inr lp" and "world_ref (ev_target ev) Regional.PlaneType (rl_world st) = Inr pl"
    and "ev_payload ev = \<lparr>p_kind = Plane_Land, p_bytes = at_airport_bytes pad a\<rparr>" and "length pad = 7"
    and "ev_target ev \<noteq> 0" and "rp_inFlight pl \<noteq> 0"
  shows "\<not> reversible lp st (lp_on_event lp ev st)"
  using assms by (rule landing_not_reversible)

theorem landing_survives_rollback_witness:
  "let pad = [0, 0, 0, 0, 0, 0, 0];
       ev = empty_event\<lparr>ev_target := 9, ev_payload := \<lparr>p_kind = Plane_Land,
         p_bytes = at_airport_bytes pad \<lparr>aa_airport = 0, aa_logicalKey = 1\<rparr>\<rparr>\<rparr>;
       st = \<lparr>rl_world = \<lparr>w_registry = [], w_entities = [(9, Regional.PlaneType, no_plane\<lparr>rp_inFlight := 1\<rparr>)]\<rparr>, rl_airports = []\<rparr>
   in \<exists>lp. regional_lp pad regional_defaults 1 10000 = Inr lp \<and> \<not> reversible lp st (lp_on_event lp ev st)"
proof -
  let ?pad = "[0, 0, 0, 0, 0, 0, 0] :: bytes"
  let ?ev = "empty_event\<lparr>ev_target := 9, ev_payload := \<lparr>p_kind = Plane_Land,
    p_bytes = at_airport_bytes ?pad \<lparr>aa_airport = 0, aa_logicalKey = 1\<rparr>\<rparr>\<rparr>"
  let ?st = "\<lparr>rl_world = \<lparr>w_registry = [], w_entities = [(9, Regional.PlaneType, no_plane\<lparr>rp_inFlight := 1\<rparr>)]\<rparr>, rl_airports = []\<rparr>"
  obtain lp where lp: "regional_lp ?pad regional_defaults 1 10000 = Inr lp"
    by (simp add: regional_lp_def regional_registry_def register_trivial_def register_type_def trivial_ops_def
        throw_if_def Regional.PlaneType_def)
  have "world_ref (ev_target ?ev) Regional.PlaneType (rl_world ?st) = Inr (no_plane\<lparr>rp_inFlight := 1\<rparr>)"
    by (simp add: world_ref_def world_record_def)
  then have "\<not> reversible lp ?st (lp_on_event lp ?ev ?st)"
    by (rule landing_survives_rollback [OF lp]) simp_all
  then show ?thesis unfolding Let_def using lp by blast
qed

section \<open>Further theorems\<close>

text \<open>
  The reduction of the GVT contributions: along whatever tree MPI combines the ranks,
  and in whatever order, the custom operator yields the least contribution.
\<close>

theorem gvt_reduction_is_minimum:
  "reduce_min r = [Min (set (contributions r))]"
  by (rule reduce_min_Min)

text \<open>
  Acknowledgements. The message a rank answers an event with is decoded by the sender
  to the identity under which it keeps the event in flight, so the entry that is cleared is
  the one that was made.
\<close>

theorem acknowledgement_names_event:
  "decode_ack (wm_bytes (ack_of rank sender ev)) = Inr (inflight_key_of ev)
    \<and> wm_dstRank (ack_of rank sender ev) = sender \<and> wm_srcRank (ack_of rank sender ev) = rank"
  using decode_ack_of by (simp add: ack_of_def)

text \<open>
  The stateless generator never repeats by construction: two draws whose keys differ in
  exactly one component (the draw index, the event, its source, the stream or the process)
  have different values, because the mixing steps are bijections.
\<close>

theorem rng_separates_keys:
  "(event_rng_u64 seed lp ev stream draw = event_rng_u64 seed lp ev stream draw' \<longleftrightarrow> draw = draw')
    \<and> (event_rng_u64 seed lp ev stream draw = event_rng_u64 seed lp ev stream' draw \<longleftrightarrow> stream = stream')
    \<and> (event_rng_u64 seed lp ev stream draw = event_rng_u64 seed lp' ev stream draw \<longleftrightarrow> lp = lp')
    \<and> (event_rng_u64 seed lp ev stream draw = event_rng_u64 seed' lp ev stream draw \<longleftrightarrow> seed = seed')
    \<and> (event_rng_u64 seed lp ev stream draw = event_rng_u64 seed lp (ev\<lparr>ev_uid := uid\<rparr>) stream draw \<longleftrightarrow> ev_uid ev = uid)
    \<and> (event_rng_u64 seed lp ev stream draw = event_rng_u64 seed lp (ev\<lparr>ev_src := src\<rparr>) stream draw \<longleftrightarrow> ev_src ev = src)"
  by (simp add: event_rng_u64_def rng_u64_src_def Let_def)

text \<open>
  What is hashed for a committed event identifies it: the canonical buffers of two
  committed events are equal only if the process, the time, the source, the identity, the
  target, the payload and the sign are.
\<close>

theorem hashed_buffer_identifies_event:
  assumes "committed_event_buffer lp a = committed_event_buffer lp' b"
  shows "lp = lp' \<and> ev_ts a = ev_ts b \<and> ev_src a = ev_src b \<and> ev_uid a = ev_uid b
    \<and> ev_target a = ev_target b \<and> ev_payload a = ev_payload b \<and> ev_isAnti a = ev_isAnti b"
  using assms by (rule committed_event_buffer_inj)

theorem hashed_buffer_identifies_event_witness:
  "committed_event_buffer 1 tally_event = committed_event_buffer 1 (tally_event\<lparr>ev_gvtColor := 1\<rparr>)
    \<and> ev_uid tally_event = ev_uid (tally_event\<lparr>ev_gvtColor := 1\<rparr>)"
proof -
  have "committed_event_buffer 1 tally_event = committed_event_buffer 1 (tally_event\<lparr>ev_gvtColor := 1\<rparr>)"
    by (simp add: committed_event_buffer_def)
  then show ?thesis using hashed_buffer_identifies_event by blast
qed

text \<open>
  Dispatching by kind. After a typed handler has been registered for a kind, an event
  built with that kind and arguments runs it on exactly these arguments, every other kind
  runs what it ran before, and a second registration of the kind is refused.
\<close>

theorem registered_handler_runs:
  assumes "trivial_layout put get sz npad" and "length pad = npad"
    and "register_trivial_handler k sz get fn handlers = (Inr (), handlers')"
    and "ev_payload ev = make_trivial_payload k (put pad args)"
  shows "dispatch_to_handler handlers' ev st = fn (ev_target ev) args ev st
    \<and> (p_kind (ev_payload other) \<noteq> k \<longrightarrow> dispatch_to_handler handlers' other = dispatch_to_handler handlers other)
    \<and> register_trivial_handler k sz' get' fn' handlers'
        = (Inl (Runtime_Error ''register_handler: duplicate eventTypeId''), handlers')"
proof (intro conjI impI)
  show "dispatch_to_handler handlers' ev st = fn (ev_target ev) args ev st"
    by (rule trivial_layout.registered_trivial_dispatch [OF assms(1,3,2,4)])
  show "dispatch_to_handler handlers' other = dispatch_to_handler handlers other"
    if "p_kind (ev_payload other) \<noteq> k"
    using register_dispatch [OF assms(3) [unfolded register_trivial_handler_def], of other] that by simp
  have "map_of handlers' k \<noteq> None"
    using assms(3) by (auto simp: register_trivial_handler_def register_handler_def split: if_splits)
  then show "register_trivial_handler k sz' get' fn' handlers'
        = (Inl (Runtime_Error ''register_handler: duplicate eventTypeId''), handlers')"
    by (simp add: register_trivial_handler_def register_handler_def)
qed

theorem registered_handler_runs_witness:
  "\<exists>hs. register_trivial_handler 3 8 (field_at 0 8 :: bytes \<Rightarrow> u64) (\<lambda>t n ev st. [Sink (Become (st + n))]) [] = (Inr (), hs)
    \<and> dispatch_to_handler hs (tally_event\<lparr>ev_payload := make_trivial_payload 3 (le_bytes 8 (5 :: u64))\<rparr>) (2 :: u64)
        = [Sink (Become 7)]"
proof -
  obtain hs where reg: "register_trivial_handler 3 8 (field_at 0 8 :: bytes \<Rightarrow> u64)
      (\<lambda>t n ev st. [Sink (Become (st + n))]) [] = (Inr (), hs :: u64 dispatcher)"
    by (simp add: register_trivial_handler_def register_handler_def)
  let ?ev = "tally_event\<lparr>ev_payload := make_trivial_payload 3 (le_bytes 8 (5 :: u64))\<rparr>"
  have "ev_payload ?ev = make_trivial_payload 3 ((\<lambda>_. le_bytes 8) ([] :: bytes) (5 :: u64))" by simp
  note run = registered_handler_runs [OF counter_layout.trivial_layout_axioms _ reg this, where st = 2, OF list.size(3)]
  from conjunct1 [OF run] show ?thesis using reg by auto
qed

text \<open>
  The deferred events are keyed by process and entity, and the key identifies both as
  long as the entity is below 2 to the 32; from there on, entities of different processes
  share a key.
\<close>

theorem deferred_key_identifies:
  assumes "unat e < 2 ^ 32" and "unat e' < 2 ^ 32"
  shows "(deferred_key l e = deferred_key l' e' \<longleftrightarrow> l = l' \<and> e = e')
    \<and> deferred_key 1 0x300000004 = deferred_key 2 4"
proof
  have low: "take_bit 32 (deferred_key l e) = e" if "unat e < 2 ^ 32" for l e
  proof -
    have "unat (take_bit 32 e) = unat e" using that by (simp add: unsigned_take_bit_eq take_bit_nat_eq_self)
    then have "take_bit 32 e = e" by (rule unsigned_word_eqI)
    then show ?thesis by (simp add: deferred_key_def take_bit_xor take_bit_push_bit)
  qed
  have high: "l = l'" if eq: "push_bit 32 (ucast l :: u64) = push_bit 32 (ucast l')" for l l' :: u32
  proof (rule bit_word_eqI)
    fix n assume "n < LENGTH(32)"
    then show "bit l n \<longleftrightarrow> bit l' n"
      using arg_cong [OF eq, of "\<lambda>w. bit w (n + 32)"] by (simp add: bit_simps)
  qed
  show "deferred_key l e = deferred_key l' e' \<longleftrightarrow> l = l' \<and> e = e'"
  proof
    assume eq: "deferred_key l e = deferred_key l' e'"
    then have "e = e'" using low [of e l] low [of e' l'] assms by simp
    with eq show "l = l' \<and> e = e'" using high [of l l'] by (simp add: deferred_key_def)
  qed simp
qed (simp add: deferred_key_def push_bit_eq_mult)

theorem deferred_key_identifies_witness:
  "deferred_key 1 4 \<noteq> deferred_key 2 4"
  using deferred_key_identifies [of 4 4 1 2] by simp

text \<open>
  When the entity has been installed, its deferred events come back: all of them, each
  once, none is left behind.
\<close>

theorem install_releases_deferred:
  assumes "map_of (m_deferredTargeted s) (deferred_key l e) = Some q"
  shows "\<exists>t. release_deferred_for l e s = (Inr (), t)
    \<and> mset (m_pending t) = mset (m_pending s) + mset q
    \<and> map_of (m_deferredTargeted t) (deferred_key l e) = None"
  using assms by (rule release_returns_deferred)

theorem install_releases_deferred_witness:
  "\<exists>t. release_deferred_for 1 4 (tally_sim\<lparr>m_deferredTargeted := [(deferred_key 1 4, [tally_event])]\<rparr>) = (Inr (), t)
    \<and> mset (m_pending t) = {#tally_event#}"
proof -
  let ?s = "tally_sim\<lparr>m_deferredTargeted := [(deferred_key 1 4, [tally_event])]\<rparr>"
  have "m_pending ?s = []" by (simp add: tally_sim_def new_simulation_def add_lp_def Let_def)
  then show ?thesis using install_releases_deferred [of ?s 1 4 "[tally_event]"] by force
qed

text \<open>
  Writes through a world transaction obey the kernel's contract: the write is requested
  before the entity changes; an entity that is not there makes the handler fail with the
  error install-before-use buffering looks for.
\<close>

theorem transaction_write_contract:
  "write_before_mutation (txn_write eid type f w)
    \<and> (case map_of (w_entities w) eid of
         Some (type', v) \<Rightarrow> if type' = type
           then txn_write eid type f w = [Request_Write eid, Sink (Become (set_entity eid (f v) w))]
           else txn_write eid type f w = [Request_Write eid, Sink (Fail (Runtime_Error ''World::write: type mismatch''))]
       | None \<Rightarrow> (\<exists>e. txn_write eid type f w = [Request_Write eid, Sink (Fail e)] \<and> is_missing_entity_error e))"
  using unknown_entity_is_missing [of w eid]
  by (auto simp: txn_write_disciplined txn_write_def world_write_def world_record_def split: option.split)

end
